(* ===== verification/HP_Prelude.thy ===== *)
theory HP_Prelude
  imports Main "HOL-Library.Word"
begin

text \<open>
  Shared vocabulary of the development: the machine types of the C++ sources, the
  collections of rewrite rules the component theories fill, generic facts about lists
  that are used as rings, and the interface of a byte digest (a value that is
  updated one byte at a time), which the CRC and the checksum of
  \<^verbatim>\<open>src/transport/haier_frame.cpp\<close> both implement.
\<close>

unbundle bit_operations_syntax

section \<open>Machine types\<close>

type_synonym byte = "8 word" \<comment> \<open>\<^verbatim>\<open>uint8_t\<close>\<close>
type_synonym u16 = "16 word" \<comment> \<open>\<^verbatim>\<open>uint16_t\<close>\<close>
type_synonym millis = int \<comment> \<open>points and spans of the steady clock, in milliseconds\<close>

text \<open>
  Uninitialised memory: \<^verbatim>\<open>new T[n]\<close> hands out \<open>n\<close> cells of unknown content. The
  definitions take the allocator as an argument; \<open>allocates\<close> is all that is known of it.
\<close>

type_synonym 'a allocator = "nat \<Rightarrow> 'a list"

definition allocates :: "'a allocator \<Rightarrow> bool" where
  "allocates new \<longleftrightarrow> (\<forall>n. length (new n) = n)"

lemma allocatesD [simp]: "allocates new \<Longrightarrow> length (new n) = n"
  by (simp add: allocates_def)

lemma allocates_replicate: "allocates (\<lambda>n. replicate n x)"
  by (simp add: allocates_def)

section \<open>Collections of rules\<close>

named_theorems ring_simps \<open>rewriting of ring views\<close>
named_theorems wire_simps \<open>rewriting of the byte layout of frames\<close>

section \<open>Lists used as rings\<close>

text \<open>
  \<open>ring_view c buf h n\<close> reads \<open>n\<close> cells of \<open>buf\<close> from index \<open>h\<close> on, modulo the
  capacity \<open>c\<close>; \<open>ring_put c buf t xs\<close> writes \<open>xs\<close> from index \<open>t\<close> on; \<open>seg_put\<close> writes
  a contiguous segment.
\<close>

definition ring_view :: "nat \<Rightarrow> 'a list \<Rightarrow> nat \<Rightarrow> nat \<Rightarrow> 'a list" where
  "ring_view c buf h n = map (\<lambda>i. buf ! ((h + i) mod c)) [0..<n]"

fun ring_put :: "nat \<Rightarrow> 'a list \<Rightarrow> nat \<Rightarrow> 'a list \<Rightarrow> 'a list" where
  "ring_put c buf t [] = buf"
| "ring_put c buf t (x # xs) = ring_put c (buf[t := x]) ((t + 1) mod c) xs"

definition seg_put :: "'a list \<Rightarrow> nat \<Rightarrow> 'a list \<Rightarrow> 'a list" where
  "seg_put buf off xs = take off buf @ xs @ drop (off + length xs) buf"

lemma ring_mod:
  "(h::nat) < c \<Longrightarrow> i \<le> c \<Longrightarrow> (h + i) mod c = (if h + i < c then h + i else h + i - c)"
  by (auto simp: le_mod_geq)

lemma length_ring_view [simp]: "length (ring_view c buf h n) = n"
  by (simp add: ring_view_def)

lemma ring_view_0 [simp]: "ring_view c buf h 0 = []"
  by (simp add: ring_view_def)

lemma ring_view_nth [simp]: "i < n \<Longrightarrow> ring_view c buf h n ! i = buf ! ((h + i) mod c)"
  by (simp add: ring_view_def)

lemma length_ring_put [simp]: "length (ring_put c buf t xs) = length buf"
  by (induction c buf t xs rule: ring_put.induct) simp_all

lemma ring_view_drop [ring_simps]:
  "ring_view c buf ((h + k) mod c) (n - k) = drop k (ring_view c buf h n)"
  by (rule nth_equalityI) (simp_all add: mod_add_left_eq add.assoc)

lemma ring_view_take [ring_simps]: "k \<le> n \<Longrightarrow> ring_view c buf h k = take k (ring_view c buf h n)"
  by (rule nth_equalityI) simp_all

lemma ring_view_snoc:
  assumes "h < c" "n < c" "length buf = c"
  shows "ring_view c (buf[(h + n) mod c := x]) h (Suc n) = ring_view c buf h n @ [x]"
proof (rule nth_equalityI)
  fix i assume "i < length (ring_view c (buf[(h + n) mod c := x]) h (Suc n))"
  then have "i \<le> n" by simp
  moreover have "(h + i) mod c \<noteq> (h + n) mod c" if "i < n"
    using that assms by (auto simp: ring_mod split: if_splits)
  moreover have "(h + n) mod c < length buf" using assms by simp
  ultimately show "ring_view c (buf[(h + n) mod c := x]) h (Suc n) ! i = (ring_view c buf h n @ [x]) ! i"
    by (cases "i = n") (auto simp: ring_view_def nth_append simp del: upt_Suc)
qed simp

lemma ring_view_put:
  assumes "h < c" "n + length xs \<le> c" "length buf = c"
  shows "ring_view c (ring_put c buf ((h + n) mod c) xs) h (n + length xs)
           = ring_view c buf h n @ xs"
  using assms
proof (induction xs arbitrary: n buf)
  case Nil
  then show ?case by simp
next
  case (Cons x xs)
  have "(Suc ((h + n) mod c)) mod c = (h + Suc n) mod c"
    by (simp add: mod_Suc_eq)
  then show ?case
    using Cons.IH [of "Suc n" "buf[(h + n) mod c := x]"] Cons.prems
    by (simp add: ring_view_snoc)
qed

lemma seg_put_Nil [simp]: "off \<le> length buf \<Longrightarrow> seg_put buf off [] = buf"
  by (simp add: seg_put_def)

lemma length_seg_put [simp]: "off + length xs \<le> length buf \<Longrightarrow> length (seg_put buf off xs) = length buf"
  by (simp add: seg_put_def)

lemma seg_put_Cons:
  "off < length buf \<Longrightarrow> seg_put buf off (x # xs) = seg_put (buf[off := x]) (Suc off) xs"
  by (simp add: seg_put_def take_Suc_conv_app_nth)

lemma ring_put_seg_put:
  "off < c \<Longrightarrow> off + length xs \<le> c \<Longrightarrow> off + length xs \<le> length buf \<Longrightarrow>
     ring_put c buf off xs = seg_put buf off xs"
proof (induction xs arbitrary: off buf)
  case Nil
  then show ?case by simp
next
  case (Cons x xs)
  show ?case
  proof (cases "xs = []")
    case True
    then show ?thesis using Cons.prems by (simp add: seg_put_Cons)
  next
    case False
    then have "Suc off < c"
      using Cons.prems by (cases xs) auto
    then show ?thesis
      using Cons.IH [of "Suc off" "buf[off := x]"] Cons.prems by (simp add: seg_put_Cons)
  qed
qed

lemma ring_put_append:
  "t < c \<Longrightarrow> ring_put c buf t (xs @ ys) = ring_put c (ring_put c buf t xs) ((t + length xs) mod c) ys"
proof (induction xs arbitrary: buf t)
  case (Cons x xs)
  have "(Suc t mod c + length xs) mod c = Suc (t + length xs) mod c"
    by (simp add: mod_add_left_eq)
  then show ?case
    using Cons by (cases "c = 0") simp_all
qed simp

section \<open>Digests\<close>

text \<open>
  A digest is computed over a byte sequence by a step per byte. The client relies on one
  law only: digesting a concatenation is digesting the parts in turn, so a digest may be
  kept across the two calls that parse a header and its payload.
\<close>

locale digest =
  fixes step :: "byte \<Rightarrow> 'd \<Rightarrow> 'd"
    and run :: "byte list \<Rightarrow> 'd \<Rightarrow> 'd"
  assumes run_Nil: "run [] d = d"
    and run_Cons: "run (b # bs) d = run bs (step b d)"
begin

lemma run_eq_fold: "run bs = fold step bs"
proof
  fix d show "run bs d = fold step bs d"
    by (induction bs arbitrary: d) (simp_all add: run_Nil run_Cons)
qed

lemma run_append: "run (xs @ ys) d = run ys (run xs d)"
  by (simp add: run_eq_fold)

lemma run_snoc: "run (xs @ [b]) d = step b (run xs d)"
  by (simp add: run_eq_fold)

end

text \<open>A digest whose step is injective in the byte and in the state tells any two inputs
  apart that differ in one byte.\<close>

locale injective_digest = digest +
  assumes step_inj_byte: "step a d = step b d \<Longrightarrow> a = b"
    and step_inj_state: "step b d = step b e \<Longrightarrow> d = e"
begin

lemma run_inj_state: "run bs d = run bs e \<Longrightarrow> d = e"
  by (induction bs arbitrary: d e) (auto simp: run_Nil run_Cons dest: step_inj_state)

lemma run_one_byte_differs:
  "run (xs @ a # ys) d = run (xs @ b # ys) d \<Longrightarrow> a = b"
  by (auto simp: run_append run_Cons dest!: run_inj_state step_inj_byte)

end

end
