(* ===== verification/Fifo_Interface.thy ===== *)
theory Fifo_Interface
  imports HP_Prelude
begin

text \<open>
  The contract of a bounded byte queue, as the transport layer and the byte streams use
  it: a sequence of stored items that grows at its end as far as the capacity allows and
  shrinks at its front. \<open>fifo_run\<close> replays a history of writes and reads over any such
  queue; inside the locale the history is shown to deliver the accepted items in order,
  with none lost, repeated or invented.
\<close>

datatype 'a fifo_op = Write "'a list" | Read nat

text \<open>The result of a history: the accepted items, the items read, the final queue.\<close>

fun fifo_run ::
  "('q \<Rightarrow> 'a list \<Rightarrow> nat \<times> 'q) \<Rightarrow> ('q \<Rightarrow> nat \<Rightarrow> 'a list \<times> 'q) \<Rightarrow> 'a fifo_op list \<Rightarrow> 'q
     \<Rightarrow> 'a list \<times> 'a list \<times> 'q" where
  "fifo_run enq deq [] q = ([], [], q)"
| "fifo_run enq deq (Write xs # ops) q =
     (let (n, q') = enq q xs; (ins, outs, q'') = fifo_run enq deq ops q'
      in (take n xs @ ins, outs, q''))"
| "fifo_run enq deq (Read k # ops) q =
     (let (ys, q') = deq q k; (ins, outs, q'') = fifo_run enq deq ops q'
      in (ins, ys @ outs, q''))"

locale bounded_fifo =
  fixes inv :: "'q \<Rightarrow> bool"
    and contents :: "'q \<Rightarrow> 'a list"
    and cap :: "'q \<Rightarrow> nat"
    and size_of :: "'q \<Rightarrow> nat"
    and nth_of :: "'q \<Rightarrow> nat \<Rightarrow> 'a"
    and enq :: "'q \<Rightarrow> 'a list \<Rightarrow> nat \<times> 'q"
    and deq :: "'q \<Rightarrow> nat \<Rightarrow> 'a list \<times> 'q"
    and skip :: "'q \<Rightarrow> nat \<Rightarrow> nat \<times> 'q"
  assumes size_of: "inv q \<Longrightarrow> size_of q = length (contents q)"
    and bounded: "inv q \<Longrightarrow> length (contents q) \<le> cap q"
    and nth_of: "inv q \<Longrightarrow> i < length (contents q) \<Longrightarrow> nth_of q i = contents q ! i"
    and enq_count: "inv q \<Longrightarrow> fst (enq q xs) = min (length xs) (cap q - length (contents q))"
    and enq_contents: "inv q \<Longrightarrow>
          contents (snd (enq q xs)) = contents q @ take (cap q - length (contents q)) xs"
    and enq_inv: "inv q \<Longrightarrow> inv (snd (enq q xs)) \<and> cap (snd (enq q xs)) = cap q"
    and deq_items: "inv q \<Longrightarrow> fst (deq q n) = take n (contents q)"
    and deq_contents: "inv q \<Longrightarrow> contents (snd (deq q n)) = drop n (contents q)"
    and deq_inv: "inv q \<Longrightarrow> inv (snd (deq q n)) \<and> cap (snd (deq q n)) = cap q"
    and skip_count: "inv q \<Longrightarrow> fst (skip q n) = min n (length (contents q))"
    and skip_contents: "inv q \<Longrightarrow> contents (snd (skip q n)) = drop n (contents q)"
    and skip_inv: "inv q \<Longrightarrow> inv (snd (skip q n)) \<and> cap (snd (skip q n)) = cap q"
begin

lemma enq_accepted: "inv q \<Longrightarrow> contents (snd (enq q xs)) = contents q @ take (fst (enq q xs)) xs"
  by (simp add: enq_contents enq_count min_def)

lemma enq_fits:
  "inv q \<Longrightarrow> length (contents q) + length xs \<le> cap q \<Longrightarrow>
     fst (enq q xs) = length xs \<and> contents (snd (enq q xs)) = contents q @ xs"
  by (simp add: enq_contents enq_count)

lemma deq_deq:
  "inv q \<Longrightarrow> fst (deq q m) @ fst (deq (snd (deq q m)) n) = fst (deq q (m + n))"
  by (simp add: deq_items deq_contents deq_inv take_add)

lemma nth_after_skip:
  "inv q \<Longrightarrow> k + i < length (contents q) \<Longrightarrow> nth_of (snd (skip q k)) i = nth_of q (k + i)"
  by (simp add: nth_of skip_contents skip_inv)

lemma size_after_skip: "inv q \<Longrightarrow> size_of (snd (skip q k)) = size_of q - k"
  by (simp add: size_of skip_contents skip_inv)

lemma history:
  "inv q \<Longrightarrow> fifo_run enq deq ops q = (ins, outs, q') \<Longrightarrow>
     inv q' \<and> cap q' = cap q \<and> outs @ contents q' = contents q @ ins"
proof (induction ops arbitrary: q ins outs)
  case Nil
  then show ?case by simp
next
  case (Cons opr ops)
  show ?case
  proof (cases opr)
    case (Write xs)
    obtain ins1 where r: "fifo_run enq deq ops (snd (enq q xs)) = (ins1, outs, q')"
      "ins = take (fst (enq q xs)) xs @ ins1"
      using Cons.prems Write by (auto split: prod.splits)
    then show ?thesis
      using Cons.IH [OF _ r(1)] Cons.prems(1) by (simp add: enq_accepted enq_inv)
  next
    case (Read k)
    obtain outs1 where r: "fifo_run enq deq ops (snd (deq q k)) = (ins, outs1, q')"
      "outs = fst (deq q k) @ outs1"
      using Cons.prems Read by (auto split: prod.splits)
    then show ?thesis
      using Cons.IH [OF _ r(1)] Cons.prems(1) by (simp add: deq_items deq_contents deq_inv)
  qed
qed

end

end
