(* ===== verification/Circular_Buffer.thy ===== *)
theory Circular_Buffer
  imports Fifo_Interface
begin

text \<open>
  The ring buffer of \<^verbatim>\<open>include/utils/circular_buffer.h\<close>. The record holds the five
  members of the class; each operation is the member function of the same name (the two
  \<^verbatim>\<open>push\<close> overloads are \<open>cb_push1\<close> and \<open>cb_push\<close>), with the loops kept as
  recursions over the items. \<open>cb_list\<close> is the sequence of the stored items, oldest
  first; \<open>cb_wf\<close> is the invariant of the class. The locale \<open>bounded_fifo\<close> is the
  contract the rest of the program relies on, and is interpreted on the operations here.
\<close>

section \<open>State and operations\<close>

record 'a circular_buffer =
  cb_is_empty :: bool
  cb_capacity :: nat
  cb_buffer :: "'a list"
  cb_head :: nat
  cb_tail :: nat

definition CIRCULAR_BUFFER_MINIMUM_SIZE :: nat where
  "CIRCULAR_BUFFER_MINIMUM_SIZE = 0x80"

definition cb_new :: "'a allocator \<Rightarrow> nat \<Rightarrow> 'a circular_buffer" where
  "cb_new new cap =
     (let c = (if cap < CIRCULAR_BUFFER_MINIMUM_SIZE then CIRCULAR_BUFFER_MINIMUM_SIZE else cap)
      in \<lparr>cb_is_empty = True, cb_capacity = c, cb_buffer = new c, cb_head = 0, cb_tail = 0\<rparr>)"

definition cb_get_size :: "'a circular_buffer \<Rightarrow> nat" where
  "cb_get_size b =
     (if cb_tail b = cb_head b then (if cb_is_empty b then 0 else cb_capacity b)
      else if cb_head b < cb_tail b then cb_tail b - cb_head b
      else cb_capacity b - cb_head b + cb_tail b)"

definition cb_get_space :: "'a circular_buffer \<Rightarrow> nat" where
  "cb_get_space b = cb_capacity b - cb_get_size b"

definition cb_get :: "'a circular_buffer \<Rightarrow> nat \<Rightarrow> 'a" where
  "cb_get b index = cb_buffer b ! ((cb_head b + index) mod cb_capacity b)"

text \<open>
  The copy loop of the copy constructor and of the copy assignment: cells
  \<open>head, head + 1, \<dots>\<close> of the source, modulo the capacity, go to the same cells of the
  freshly allocated array.
\<close>

fun cb_copy_loop :: "nat \<Rightarrow> nat \<Rightarrow> 'a list \<Rightarrow> nat list \<Rightarrow> 'a list \<Rightarrow> 'a list" where
  "cb_copy_loop h c src [] dst = dst"
| "cb_copy_loop h c src (i # is) dst =
     cb_copy_loop h c src is (dst[(h + i) mod c := src ! ((h + i) mod c)])"

definition cb_copy :: "'a allocator \<Rightarrow> 'a circular_buffer \<Rightarrow> 'a circular_buffer" where
  "cb_copy new source =
     \<lparr>cb_is_empty = cb_is_empty source, cb_capacity = cb_capacity source,
      cb_buffer = cb_copy_loop (cb_head source) (cb_capacity source) (cb_buffer source)
                    [0..<cb_get_size source] (new (cb_capacity source)),
      cb_head = cb_head source, cb_tail = cb_tail source\<rparr>"

text \<open>Copy assignment to a distinct object; \<^verbatim>\<open>is_empty_\<close> is not assigned.\<close>

definition cb_assign :: "'a allocator \<Rightarrow> 'a circular_buffer \<Rightarrow> 'a circular_buffer \<Rightarrow> 'a circular_buffer" where
  "cb_assign new this source =
     this\<lparr>cb_capacity := cb_capacity source,
          cb_buffer := cb_copy_loop (cb_head source) (cb_capacity source) (cb_buffer source)
                         [0..<cb_get_size source] (new (cb_capacity source)),
          cb_head := cb_head source, cb_tail := cb_tail source\<rparr>"

definition cb_push1 :: "'a circular_buffer \<Rightarrow> 'a \<Rightarrow> nat \<times> 'a circular_buffer" where
  "cb_push1 b item =
     (if cb_is_empty b \<or> cb_tail b \<noteq> cb_head b
      then (1, b\<lparr>cb_buffer := (cb_buffer b)[cb_tail b := item],
                 cb_tail := (cb_tail b + 1) mod cb_capacity b,
                 cb_is_empty := False\<rparr>)
      else (0, b))"

text \<open>The two loops below run \<open>n\<close> times.\<close>

fun cb_push_loop :: "'a list \<Rightarrow> 'a circular_buffer \<Rightarrow> 'a circular_buffer" where
  "cb_push_loop [] b = b"
| "cb_push_loop (x # xs) b =
     cb_push_loop xs (b\<lparr>cb_buffer := (cb_buffer b)[cb_tail b := x],
                        cb_tail := (cb_tail b + 1) mod cb_capacity b\<rparr>)"

definition cb_push :: "'a circular_buffer \<Rightarrow> 'a list \<Rightarrow> nat \<Rightarrow> nat \<times> 'a circular_buffer" where
  "cb_push b items n =
     (let size_to_push = (if cb_get_space b > n then n else cb_get_space b);
          b' = cb_push_loop (take size_to_push items) b
      in (size_to_push, if size_to_push > 0 then b'\<lparr>cb_is_empty := False\<rparr> else b'))"

fun cb_pop_loop :: "nat \<Rightarrow> 'a circular_buffer \<Rightarrow> 'a list \<times> 'a circular_buffer" where
  "cb_pop_loop 0 b = ([], b)"
| "cb_pop_loop (Suc n) b =
     (let x = cb_buffer b ! cb_head b;
          (xs, b') = cb_pop_loop n (b\<lparr>cb_head := (cb_head b + 1) mod cb_capacity b\<rparr>)
      in (x # xs, b'))"

definition cb_pop :: "'a circular_buffer \<Rightarrow> nat \<Rightarrow> 'a list \<times> 'a circular_buffer" where
  "cb_pop b n =
     (let sz = cb_get_size b;
          pop_size = (if n < sz then n else sz);
          (xs, b') = cb_pop_loop pop_size b
      in (xs, if pop_size = sz then b'\<lparr>cb_is_empty := True\<rparr> else b'))"

text \<open>
  \<^verbatim>\<open>reserve\<close> returns the address of the reserved cells (here the offset into
  the array) and the number of cells reserved; the caller fills them with \<open>cb_fill\<close>.
\<close>

definition cb_reserve :: "'a circular_buffer \<Rightarrow> nat \<Rightarrow> nat \<times> nat \<times> 'a circular_buffer" where
  "cb_reserve b n =
     (let head = (if cb_head b = 0 then cb_capacity b else 0);
          new_size = (if head > cb_tail b then min n (head - cb_tail b)
                      else min n (cb_capacity b - cb_tail b));
          result = cb_tail b;
          b' = b\<lparr>cb_tail := (cb_tail b + new_size) mod cb_capacity b\<rparr>
      in (result, new_size, if new_size > 0 then b'\<lparr>cb_is_empty := False\<rparr> else b'))"

definition cb_fill :: "nat \<Rightarrow> 'a list \<Rightarrow> 'a circular_buffer \<Rightarrow> 'a circular_buffer" where
  "cb_fill off xs b = b\<lparr>cb_buffer := seg_put (cb_buffer b) off xs\<rparr>"

definition cb_clear :: "'a circular_buffer \<Rightarrow> 'a circular_buffer" where
  "cb_clear b = b\<lparr>cb_is_empty := True, cb_head := 0, cb_tail := 0\<rparr>"

definition cb_drop :: "'a circular_buffer \<Rightarrow> nat \<Rightarrow> nat \<times> 'a circular_buffer" where
  "cb_drop b n =
     (let sz = cb_get_size b;
          drop_size = (if n < sz then n else sz);
          b' = b\<lparr>cb_head := (cb_head b + drop_size) mod cb_capacity b\<rparr>
      in (drop_size, if drop_size = sz then b'\<lparr>cb_is_empty := True\<rparr> else b'))"

section \<open>Invariant and abstraction\<close>

definition cb_wf :: "'a circular_buffer \<Rightarrow> bool" where
  "cb_wf b \<longleftrightarrow> CIRCULAR_BUFFER_MINIMUM_SIZE \<le> cb_capacity b \<and> length (cb_buffer b) = cb_capacity b
     \<and> cb_head b < cb_capacity b \<and> cb_tail b < cb_capacity b
     \<and> (cb_is_empty b \<longrightarrow> cb_head b = cb_tail b)"

definition cb_list :: "'a circular_buffer \<Rightarrow> 'a list" where
  "cb_list b = ring_view (cb_capacity b) (cb_buffer b) (cb_head b) (cb_get_size b)"

lemma length_cb_list [simp]: "length (cb_list b) = cb_get_size b"
  by (simp add: cb_list_def)

lemma cb_wfD:
  assumes "cb_wf b"
  shows "0 < cb_capacity b" "length (cb_buffer b) = cb_capacity b"
    "cb_head b < cb_capacity b" "cb_tail b < cb_capacity b"
    "cb_is_empty b \<Longrightarrow> cb_head b = cb_tail b"
    "CIRCULAR_BUFFER_MINIMUM_SIZE \<le> cb_capacity b"
  using assms by (simp_all add: cb_wf_def CIRCULAR_BUFFER_MINIMUM_SIZE_def)

lemma cb_get_size_le: "cb_wf b \<Longrightarrow> cb_get_size b \<le> cb_capacity b"
  using cb_wfD(3,4) [of b] by (auto simp: cb_get_size_def)

lemma cb_wf_empty_size: "cb_wf b \<Longrightarrow> cb_is_empty b \<longleftrightarrow> cb_get_size b = 0"
  using cb_wfD(1,3,4,5) [of b] by (auto simp: cb_get_size_def)

lemma cb_empty_iff: "cb_wf b \<Longrightarrow> cb_is_empty b \<longleftrightarrow> cb_list b = []"
  by (simp add: cb_wf_empty_size flip: length_0_conv)

lemma cb_get_nth: "i < cb_get_size b \<Longrightarrow> cb_get b i = cb_list b ! i"
  by (simp add: cb_get_def cb_list_def)

text \<open>
  A well-formed state is determined by its array, its head and its size; each operation
  moves between such canonical states.
\<close>

definition cb_mk :: "nat \<Rightarrow> 'a list \<Rightarrow> nat \<Rightarrow> nat \<Rightarrow> 'a circular_buffer" where
  "cb_mk c buf h n =
     \<lparr>cb_is_empty = (n = 0), cb_capacity = c, cb_buffer = buf, cb_head = h, cb_tail = (h + n) mod c\<rparr>"

lemma cb_mk_sel [simp]:
  "cb_is_empty (cb_mk c buf h n) = (n = 0)" "cb_capacity (cb_mk c buf h n) = c"
  "cb_buffer (cb_mk c buf h n) = buf" "cb_head (cb_mk c buf h n) = h"
  "cb_tail (cb_mk c buf h n) = (h + n) mod c"
  by (simp_all add: cb_mk_def)

lemma cb_mk_size [simp]:
  assumes "h < c" "n \<le> c"
  shows "cb_get_size (cb_mk c buf h n) = n"
proof -
  have m: "(h + n) mod c = (if h + n < c then h + n else h + n - c)"
    using assms by (rule ring_mod)
  show ?thesis
    unfolding cb_get_size_def cb_mk_sel m using assms by (auto split: if_splits)
qed

lemma cb_mk_list [simp]: "h < c \<Longrightarrow> n \<le> c \<Longrightarrow> cb_list (cb_mk c buf h n) = ring_view c buf h n"
  by (simp add: cb_list_def)

lemma cb_mk_wf [simp]:
  "CIRCULAR_BUFFER_MINIMUM_SIZE \<le> c \<Longrightarrow> length buf = c \<Longrightarrow> h < c \<Longrightarrow> n \<le> c \<Longrightarrow> cb_wf (cb_mk c buf h n)"
  by (auto simp: cb_wf_def)

lemma cb_tail_eq:
  assumes "cb_wf b"
  shows "cb_tail b = (cb_head b + cb_get_size b) mod cb_capacity b"
proof -
  have m: "(cb_head b + cb_get_size b) mod cb_capacity b
      = (if cb_head b + cb_get_size b < cb_capacity b then cb_head b + cb_get_size b
         else cb_head b + cb_get_size b - cb_capacity b)"
    using cb_wfD(3) [OF assms] cb_get_size_le [OF assms] by (rule ring_mod)
  show ?thesis
    unfolding m unfolding cb_get_size_def using cb_wfD(3,4) [OF assms] by (auto split: if_splits)
qed

lemma cb_wf_cases:
  assumes "cb_wf b"
  obtains c buf h n where "b = cb_mk c buf h n" "CIRCULAR_BUFFER_MINIMUM_SIZE \<le> c"
    "length buf = c" "h < c" "n \<le> c" "0 < c"
proof
  show "b = cb_mk (cb_capacity b) (cb_buffer b) (cb_head b) (cb_get_size b)"
    using assms cb_tail_eq [OF assms] cb_wf_empty_size [OF assms] by (simp add: cb_mk_def)
qed (use cb_wfD [OF assms] cb_get_size_le [OF assms] in simp_all)

section \<open>Each operation on the abstraction\<close>

lemma cb_new_correct:
  assumes "allocates new"
  shows "cb_wf (cb_new new cap)" "cb_list (cb_new new cap) = []"
    "cb_capacity (cb_new new cap) = max CIRCULAR_BUFFER_MINIMUM_SIZE cap"
  using assms
  by (auto simp: cb_new_def cb_wf_def cb_list_def cb_get_size_def CIRCULAR_BUFFER_MINIMUM_SIZE_def Let_def)

lemma cb_clear_correct:
  assumes "cb_wf b"
  shows "cb_wf (cb_clear b)" "cb_list (cb_clear b) = []" "cb_capacity (cb_clear b) = cb_capacity b"
  using assms by (auto simp: cb_clear_def cb_wf_def cb_list_def cb_get_size_def)

lemma cb_mk_shift: "k \<le> n \<Longrightarrow> ((h + k) mod c + (n - k)) mod c = (h + n) mod (c::nat)"
  using mod_add_left_eq [of "h + k" c "n - k"] by simp

lemma cb_drop_mk:
  assumes "h < c" "n \<le> c"
  shows "cb_drop (cb_mk c buf h n) k = (min k n, cb_mk c buf ((h + min k n) mod c) (n - min k n))"
proof -
  have "(if k < n then k else n) = min k n"
    by simp
  then have "cb_drop (cb_mk c buf h n) k
      = (min k n, let b' = (cb_mk c buf h n)\<lparr>cb_head := (h + min k n) mod c\<rparr>
                  in if min k n = n then b'\<lparr>cb_is_empty := True\<rparr> else b')"
    using assms by (simp add: cb_drop_def Let_def)
  then show ?thesis
    using cb_mk_shift [of "min k n" n h c] by (auto simp: cb_mk_def Let_def)
qed

lemma cb_drop_correct:
  assumes "cb_wf b"
  shows "cb_wf (snd (cb_drop b k))" "cb_list (snd (cb_drop b k)) = drop k (cb_list b)"
    "cb_capacity (snd (cb_drop b k)) = cb_capacity b" "fst (cb_drop b k) = min k (cb_get_size b)"
proof -
  obtain c buf h n where b: "b = cb_mk c buf h n" "CIRCULAR_BUFFER_MINIMUM_SIZE \<le> c"
    "length buf = c" "h < c" "n \<le> c" "0 < c"
    using assms by (rule cb_wf_cases)
  then have "cb_list (snd (cb_drop b k)) = drop (min k n) (ring_view c buf h n)"
    using ring_view_drop [of c buf h "min k n" n] by (simp add: cb_drop_mk)
  then show "cb_list (snd (cb_drop b k)) = drop k (cb_list b)"
    using b by (cases "k \<le> n") (simp_all add: min_def)
  show "cb_wf (snd (cb_drop b k))" "cb_capacity (snd (cb_drop b k)) = cb_capacity b"
    "fst (cb_drop b k) = min k (cb_get_size b)"
    using b by (simp_all add: cb_drop_mk)
qed

lemma cb_pop_loop_eq:
  "cb_head b < cb_capacity b \<Longrightarrow> cb_pop_loop n b =
     (ring_view (cb_capacity b) (cb_buffer b) (cb_head b) n,
      b\<lparr>cb_head := (cb_head b + n) mod cb_capacity b\<rparr>)"
proof (induction n arbitrary: b)
  case 0
  then show ?case by simp
next
  case (Suc n)
  let ?c = "cb_capacity b" and ?h = "cb_head b"
  have "0 < ?c" using Suc.prems by simp
  then have IH: "cb_pop_loop n (b\<lparr>cb_head := (?h + 1) mod ?c\<rparr>)
      = (ring_view ?c (cb_buffer b) ((?h + 1) mod ?c) n, b\<lparr>cb_head := ((?h + 1) mod ?c + n) mod ?c\<rparr>)"
    using Suc.IH [of "b\<lparr>cb_head := (?h + 1) mod ?c\<rparr>"] by simp
  have "ring_view ?c (cb_buffer b) ?h (Suc n)
      = cb_buffer b ! ?h # ring_view ?c (cb_buffer b) ((?h + 1) mod ?c) n"
    using Suc.prems ring_view_drop [of ?c "cb_buffer b" ?h 1 "Suc n"]
    by (intro nth_equalityI) (auto simp: ring_view_def nth_Cons' mod_add_left_eq simp del: upt_Suc)
  then show ?case
    using IH by (simp add: Let_def mod_add_left_eq)
qed

lemma cb_pop_correct:
  assumes "cb_wf b"
  shows "fst (cb_pop b k) = take k (cb_list b)" "snd (cb_pop b k) = snd (cb_drop b k)"
proof -
  let ?n = "min k (cb_get_size b)"
  have "cb_pop b k = (ring_view (cb_capacity b) (cb_buffer b) (cb_head b) ?n, snd (cb_drop b k))"
    using cb_wfD(3) [OF assms]
    by (auto simp: cb_pop_def cb_drop_def Let_def cb_pop_loop_eq min_def)
  then show "fst (cb_pop b k) = take k (cb_list b)" "snd (cb_pop b k) = snd (cb_drop b k)"
    using ring_view_take [of ?n "cb_get_size b" "cb_capacity b" "cb_buffer b" "cb_head b"]
    by (auto simp: cb_list_def min_def)
qed

lemma cb_push_loop_eq:
  "cb_tail b < cb_capacity b \<Longrightarrow> cb_push_loop xs b =
     b\<lparr>cb_buffer := ring_put (cb_capacity b) (cb_buffer b) (cb_tail b) xs,
       cb_tail := (cb_tail b + length xs) mod cb_capacity b\<rparr>"
proof (induction xs arbitrary: b)
  case Nil
  then show ?case by simp
next
  case (Cons x xs)
  then have "0 < cb_capacity b" by simp
  moreover have "(Suc (cb_tail b) mod cb_capacity b + length xs) mod cb_capacity b
      = Suc (cb_tail b + length xs) mod cb_capacity b"
    by (simp add: mod_add_left_eq)
  ultimately show ?case
    using Cons.IH [of "b\<lparr>cb_buffer := (cb_buffer b)[cb_tail b := x],
      cb_tail := (cb_tail b + 1) mod cb_capacity b\<rparr>"] by simp
qed

lemma cb_push_correct:
  assumes "cb_wf b" "n \<le> length items"
  defines "k \<equiv> min n (cb_get_space b)"
  shows "fst (cb_push b items n) = k"
    "cb_wf (snd (cb_push b items n))"
    "cb_list (snd (cb_push b items n)) = cb_list b @ take k items"
    "cb_capacity (snd (cb_push b items n)) = cb_capacity b"
proof -
  obtain c buf h m where b: "b = cb_mk c buf h m" "CIRCULAR_BUFFER_MINIMUM_SIZE \<le> c"
    "length buf = c" "h < c" "m \<le> c" "0 < c"
    using assms(1) by (rule cb_wf_cases)
  let ?buf = "ring_put c buf ((h + m) mod c) (take k items)"
  have k: "k \<le> length items" "m + k \<le> c" "k = (if cb_get_space b > n then n else cb_get_space b)"
    using assms b by (auto simp: k_def cb_get_space_def)
  have tl: "((h + m) mod c + k) mod c = (h + (m + k)) mod c"
    using mod_add_left_eq [of "h + m" c k] by (simp add: add.assoc)
  have "cb_push_loop (take k items) b
      = b\<lparr>cb_buffer := ?buf, cb_tail := (h + (m + k)) mod c\<rparr>"
    using b k tl by (simp add: cb_push_loop_eq)
  moreover have "cb_push b items n = (k, let b' = cb_push_loop (take k items) b
      in if k > 0 then b'\<lparr>cb_is_empty := False\<rparr> else b')"
    by (simp only: cb_push_def k(3) Let_def)
  ultimately have r: "cb_push b items n = (k, cb_mk c ?buf h (m + k))"
    using b(1) by (simp add: cb_mk_def Let_def)
  show "fst (cb_push b items n) = k" "cb_wf (snd (cb_push b items n))"
    "cb_capacity (snd (cb_push b items n)) = cb_capacity b"
    using b k(1,2) r by simp_all
  have "length (take k items) = k"
    using k(1) by simp
  then show "cb_list (snd (cb_push b items n)) = cb_list b @ take k items"
    using b k(2) r ring_view_put [of h c m "take k items" buf] by simp
qed

lemma cb_push1_eq:
  assumes "cb_wf b"
  shows "cb_push1 b x = cb_push b [x] 1"
proof -
  have "cb_get_size b = cb_capacity b \<longleftrightarrow> \<not> cb_is_empty b \<and> cb_tail b = cb_head b"
    using cb_wfD [OF assms] by (auto simp: cb_get_size_def)
  then have "cb_get_space b = 0 \<longleftrightarrow> \<not> (cb_is_empty b \<or> cb_tail b \<noteq> cb_head b)"
    using cb_get_size_le [OF assms] by (auto simp: cb_get_space_def)
  then show ?thesis
    by (auto simp: cb_push1_def cb_push_def Let_def)
qed

lemma cb_reserve_mk:
  assumes "h < c" "n \<le> c"
  shows "cb_reserve (cb_mk c buf h n) k =
     ((h + n) mod c, min k (c - (h + n) mod c),
      (cb_mk c buf h n)\<lparr>cb_tail := ((h + n) mod c + min k (c - (h + n) mod c)) mod c,
                        cb_is_empty := (n = 0 \<and> k = 0)\<rparr>)"
proof -
  define t where "t = (h + n) mod c"
  have t: "t < c" using assms by (simp add: t_def)
  have "(if (if h = 0 then c else 0) > t then min k ((if h = 0 then c else 0) - t) else min k (c - t))
      = min k (c - t)"
    using t by simp
  then have "cb_reserve (cb_mk c buf h n) k = (t, min k (c - t),
      let b' = (cb_mk c buf h n)\<lparr>cb_tail := (t + min k (c - t)) mod c\<rparr>
      in if min k (c - t) > 0 then b'\<lparr>cb_is_empty := False\<rparr> else b')"
    by (simp only: cb_reserve_def Let_def cb_mk_sel t_def)
  moreover have "min k (c - t) > 0 \<longleftrightarrow> k \<noteq> 0"
    using t by auto
  ultimately show ?thesis
    using t by (cases "k = 0") (simp_all add: Let_def cb_mk_def t_def)
qed

lemma cb_reserve_size:
  assumes "cb_wf b"
  shows "fst (snd (cb_reserve b k)) = min k (cb_capacity b - cb_tail b)"
  by (rule cb_wf_cases [OF assms]) (simp add: cb_reserve_mk)

lemma cb_reserve_fill_correct:
  assumes "cb_wf b" "k \<le> cb_get_space b"
    and r: "cb_reserve b k = (off, m, b1)" and "length xs = m"
  shows "cb_wf (cb_fill off xs b1)" "cb_list (cb_fill off xs b1) = cb_list b @ xs"
    "cb_capacity (cb_fill off xs b1) = cb_capacity b" "m \<le> k"
    "m < k \<Longrightarrow> cb_tail (cb_fill off xs b1) = 0"
proof -
  obtain c buf h n where b: "b = cb_mk c buf h n" "CIRCULAR_BUFFER_MINIMUM_SIZE \<le> c"
    "length buf = c" "h < c" "n \<le> c" "0 < c"
    using assms(1) by (rule cb_wf_cases)
  let ?t = "(h + n) mod c"
  have t: "?t < c" using b by simp
  have m: "m = min k (c - ?t)" and off: "off = ?t"
    and b1: "b1 = b\<lparr>cb_tail := (?t + m) mod c, cb_is_empty := (n = 0 \<and> k = 0)\<rparr>"
    using r b by (auto simp: cb_reserve_mk)
  have sp: "n + m \<le> c"
    using assms(2) b m by (simp add: cb_get_space_def min_def split: if_splits)
  have seg: "seg_put buf ?t xs = ring_put c buf ?t xs"
  proof -
    have "m \<le> c - ?t" using m by simp
    then have "?t + length xs \<le> c" using t assms(4) by linarith
    then show ?thesis using ring_put_seg_put [of ?t c xs buf] t b(3) by simp
  qed
  have "(?t + m) mod c = (h + (n + m)) mod c"
    using mod_add_left_eq [of "h + n" c m] by (simp add: add.assoc)
  moreover have "(n = 0 \<and> k = 0) = (n + m = 0)"
    using m t by auto
  ultimately have fill: "cb_fill off xs b1 = cb_mk c (ring_put c buf ?t xs) h (n + m)"
    using b(1) b1 off seg by (simp add: cb_fill_def cb_mk_def)
  show "cb_wf (cb_fill off xs b1)" "cb_capacity (cb_fill off xs b1) = cb_capacity b" "m \<le> k"
    using b sp fill m by simp_all
  show "cb_list (cb_fill off xs b1) = cb_list b @ xs"
    using b sp fill assms(4) ring_view_put [of h c n xs buf] by simp
  show "cb_tail (cb_fill off xs b1) = 0" if "m < k"
    using b1 m that t by (simp add: cb_fill_def)
qed

section \<open>The ring buffer is a bounded FIFO\<close>

definition cb_write :: "'a circular_buffer \<Rightarrow> 'a list \<Rightarrow> nat \<times> 'a circular_buffer" where
  "cb_write b xs = cb_push b xs (length xs)"

interpretation ring: bounded_fifo cb_wf cb_list cb_capacity cb_get_size cb_get cb_write cb_pop cb_drop
proof unfold_locales
  fix b :: "'a circular_buffer" and xs :: "'a list"
  assume wf: "cb_wf b"
  then show "fst (cb_write b xs) = min (length xs) (cb_capacity b - length (cb_list b))"
    by (simp add: cb_write_def cb_push_correct cb_get_space_def)
  show "cb_list (snd (cb_write b xs)) = cb_list b @ take (cb_capacity b - length (cb_list b)) xs"
    using wf by (simp add: cb_write_def cb_push_correct cb_get_space_def min_def)
  show "cb_wf (snd (cb_write b xs)) \<and> cb_capacity (snd (cb_write b xs)) = cb_capacity b"
    using wf by (simp add: cb_write_def cb_push_correct)
qed (simp_all add: cb_get_size_le cb_get_nth cb_pop_correct cb_drop_correct)

section \<open>Copying\<close>

lemma cb_copy_loop_nth:
  assumes "length src = c" "length dst = c" "j < c"
  shows "length (cb_copy_loop h c src is dst) = c"
    "cb_copy_loop h c src is dst ! j
       = (if \<exists>i \<in> set is. (h + i) mod c = j then src ! j else dst ! j)"
  using assms
proof (induction h c src "is" dst rule: cb_copy_loop.induct)
  case (2 h c src i "is" dst)
  {
    case 1
    then show ?case using 2 by simp
  next
    case 2
    then show ?case using "2.IH"(2) by (auto simp: nth_list_update)
  }
qed simp_all

lemma cb_copy_correct:
  assumes "cb_wf b" "allocates new"
  shows "cb_wf (cb_copy new b)" "cb_list (cb_copy new b) = cb_list b"
proof -
  let ?c = "cb_capacity b"
  let ?buf = "cb_copy_loop (cb_head b) ?c (cb_buffer b) [0..<cb_get_size b] (new ?c)"
  have len: "length ?buf = ?c"
    using cb_copy_loop_nth(1) [of "cb_buffer b" ?c "new ?c" 0] cb_wfD [OF assms(1)] assms(2) by simp
  show "cb_wf (cb_copy new b)"
    using assms(1) len by (simp add: cb_copy_def cb_wf_def)
  have "?buf ! ((cb_head b + i) mod ?c) = cb_buffer b ! ((cb_head b + i) mod ?c)"
    if "i < cb_get_size b" for i
    using cb_copy_loop_nth(2) [of "cb_buffer b" ?c "new ?c" "(cb_head b + i) mod ?c"]
      cb_wfD [OF assms(1)] assms(2) that by auto
  moreover have "cb_get_size (cb_copy new b) = cb_get_size b"
    by (simp add: cb_copy_def cb_get_size_def)
  ultimately show "cb_list (cb_copy new b) = cb_list b"
    by (auto simp: cb_list_def cb_copy_def ring_view_def)
qed

lemma cb_assign_copy:
  "cb_is_empty this = cb_is_empty b \<Longrightarrow> cb_assign new this b = cb_copy new b"
  by (simp add: cb_assign_def cb_copy_def)

section \<open>Properties\<close>

text \<open>Claim C21. A ring buffer is a lossless FIFO: whatever the history of writes and reads
  since its construction, the bytes read so far followed by the bytes still stored are
  exactly the accepted bytes in the order they were written, and the class invariant
  holds.\<close>

theorem ring_history:
  assumes "allocates new"
    and "fifo_run cb_write cb_pop ops (cb_new new cap) = (ins, outs, b)"
  shows "outs @ cb_list b = ins \<and> cb_wf b \<and> cb_capacity b = max CIRCULAR_BUFFER_MINIMUM_SIZE cap"
  using ring.history [OF _ assms(2)] assms(1) by (simp add: cb_new_correct)

theorem ring_history_witness:
  "fst (snd (fifo_run cb_write cb_pop [Write [1, 2, 3], Read 2, Write [4], Read 1]
       (cb_new (\<lambda>n. replicate n (0::byte)) 0))) = [1, 2, 3]
   \<and> cb_list (snd (snd (fifo_run cb_write cb_pop [Write [1, 2, 3], Read 2, Write [4], Read 1]
       (cb_new (\<lambda>n. replicate n (0::byte)) 0)))) = [4]"
  (is "fst (snd ?r) = _ \<and> cb_list (snd (snd ?r)) = _")
proof -
  have "fst (snd ?r) @ cb_list (snd (snd ?r)) = fst ?r"
    using ring_history [OF allocates_replicate, where ops = "[Write [1, 2, 3], Read 2, Write [4], Read 1]"
        and ins = "fst ?r" and outs = "fst (snd ?r)" and b = "snd (snd ?r)"] by simp
  moreover have "fst ?r = [1, 2, 3, 4]" by code_simp
  moreover have "fst (snd ?r) = [1, 2, 3]" by code_simp
  ultimately show ?thesis by simp
qed

text \<open>A \<^verbatim>\<open>reserve\<close> of more cells than are free overruns the stored data: when the
  data has wrapped around, \<^verbatim>\<open>reserve\<close> hands out every cell up to the end of the
  array, including cells that still hold unread items, and instead of growing by the
  reserved cells the buffer afterwards reports a whole capacity less than that, never
  more than it held before.\<close>

lemma reserve_overruns:
  assumes wf: "cb_wf b" and r: "cb_reserve b k = (off, m, b1)" and over: "cb_get_space b < m"
  shows "off = cb_tail b \<and> cb_get_size b1 = cb_get_size b + m - cb_capacity b
    \<and> cb_get_size b1 \<le> cb_get_size b"
proof -
  obtain c buf h n where b: "b = cb_mk c buf h n" "h < c" "n \<le> c" "0 < c"
    using wf by (rule cb_wf_cases)
  define t where "t = (h + n) mod c"
  have t: "t = (if h + n < c then h + n else h + n - c)"
    unfolding t_def using b(2,3) by (rule ring_mod)
  have tc: "t < c" using b(4) by (simp add: t_def)
  have m: "m = min k (c - t)" "off = t"
    and b1: "b1 = b\<lparr>cb_tail := (t + m) mod c, cb_is_empty := (n = 0 \<and> k = 0)\<rparr>"
    using r b by (auto simp: cb_reserve_mk t_def)
  have mle: "m \<le> c - t" and nm: "c < n + m"
    using over b m(1) by (auto simp: cb_get_space_def)
  have th: "t + c = h + n" and k: "0 < k"
    using t mle nm b(2,3) m(1) by (auto split: if_splits)
  have tm: "(t + m) mod c = (if t + m < c then t + m else t + m - c)"
    using tc mle by (intro ring_mod) simp_all
  have sz: "cb_get_size b1 = (if (t + m) mod c = h then c else if h < (t + m) mod c
      then (t + m) mod c - h else c - h + (t + m) mod c)"
    unfolding b1 b(1) cb_get_size_def using k by simp
  have "cb_get_size b1 = n + m - c"
    unfolding sz tm using b(2,3) mle nm tc th by (auto split: if_splits)
  then show ?thesis
    using b m(2) mle nm tc by (auto simp: t_def)
qed

definition wrapped_buffer :: "byte circular_buffer" where
  "wrapped_buffer = \<lparr>cb_is_empty = False, cb_capacity = 128, cb_buffer = replicate 128 0,
     cb_head = 100, cb_tail = 72\<rparr>"

lemma reserve_overruns_example:
  "cb_get_size wrapped_buffer = 100
   \<and> cb_get_size (snd (snd (cb_reserve wrapped_buffer 60))) = 28"
proof -
  have wf: "cb_wf wrapped_buffer"
    by (simp add: cb_wf_def wrapped_buffer_def CIRCULAR_BUFFER_MINIMUM_SIZE_def)
  have r: "cb_reserve wrapped_buffer 60 = (72, 56, wrapped_buffer\<lparr>cb_tail := 0\<rparr>)"
    by (simp add: cb_reserve_def wrapped_buffer_def)
  have sz: "cb_get_size wrapped_buffer = 100" "cb_capacity wrapped_buffer = 128"
    by (simp_all add: cb_get_size_def wrapped_buffer_def)
  have "cb_get_space wrapped_buffer < 56"
    by (simp add: cb_get_space_def sz)
  then show ?thesis
    using reserve_overruns [OF wf r] r sz by simp
qed

text \<open>Copy assignment does not copy the emptiness flag: assigning an empty
  buffer to a non-empty one yields a buffer that reports itself completely full of
  uninitialised cells.\<close>

lemma assign_stale_flag:
  assumes "cb_wf source" "cb_list source = []" "\<not> cb_is_empty this"
  shows "cb_get_size (cb_assign new this source) = cb_capacity source
    \<and> cb_list (cb_copy new source) = []"
proof -
  have "cb_head source = cb_tail source" "cb_get_size source = 0"
    using assms(1,2) cb_empty_iff [of source] cb_wfD(5) [of source]
    by (auto simp: cb_wf_empty_size)
  then show ?thesis
    using assms(3) by (auto simp: cb_assign_def cb_copy_def cb_get_size_def cb_list_def split: if_splits)
qed

lemma assign_stale_flag_example:
  "cb_get_size (cb_assign (\<lambda>n. replicate n 0) wrapped_buffer (cb_new (\<lambda>n. replicate n (0::byte)) 0)) = 128"
proof -
  have "\<not> cb_is_empty wrapped_buffer"
    by (simp add: wrapped_buffer_def)
  moreover have "cb_capacity (cb_new (\<lambda>n. replicate n (0::byte)) 0) = 128"
    by (simp add: cb_new_correct allocates_replicate CIRCULAR_BUFFER_MINIMUM_SIZE_def)
  ultimately show ?thesis
    using assign_stale_flag [where source = "cb_new (\<lambda>n. replicate n (0::byte)) 0"
        and this = wrapped_buffer and new = "\<lambda>n. replicate n 0"]
    by (simp add: cb_new_correct allocates_replicate)
qed

end
