(* ===== verification/Protocol_Stream.thy ===== *)
theory Protocol_Stream
  imports Circular_Buffer
begin

text \<open>
  The byte stream of \<^verbatim>\<open>include/utils/protocol_stream.h\<close>, through which the
  transport layer talks to the outside world. The abstract class is the record of its three
  virtual functions over an arbitrary stream state; its documented behaviour is the locale
  \<open>byte_stream\<close>, and \<open>protocol_stream\<close> when nothing arrives while the stream is asked.
  Two implementations of the repository are modelled here and shown to
  fulfil it: the crossed pair of ring buffers of \<^verbatim>\<open>test/utils/virtual_stream.cpp\<close>
  and the \<^verbatim>\<open>TestStream\<close> of \<^verbatim>\<open>test/simple_transport_test/test.cpp\<close>.
\<close>

section \<open>Interface\<close>

record 's stream_ops =
  so_available :: "'s \<Rightarrow> nat \<times> 's"
  so_read_array :: "nat \<Rightarrow> 's \<Rightarrow> byte list \<times> 's"
  so_write_array :: "byte list \<Rightarrow> 's \<Rightarrow> 's"

text \<open>
  \<open>pending\<close> is what the stream holds for its reader, \<open>arrived\<close> what it holds after
  \<^verbatim>\<open>available\<close> has been asked, \<open>room\<close> how many more bytes it can take and
  \<open>written\<close> what it has been given.
\<close>

definition arrived :: "'s stream_ops \<Rightarrow> ('s \<Rightarrow> byte list) \<Rightarrow> 's \<Rightarrow> byte list" where
  "arrived ops pending s = pending (snd (so_available ops s))"

locale byte_stream =
  fixes ops :: "'s stream_ops"
    and sinv :: "'s \<Rightarrow> bool"
    and pending :: "'s \<Rightarrow> byte list"
    and room :: "'s \<Rightarrow> nat"
    and written :: "'s \<Rightarrow> byte list"
  assumes available_count: "sinv s \<Longrightarrow> fst (so_available ops s) = length (arrived ops pending s)"
    and available_state: "sinv s \<Longrightarrow> sinv (snd (so_available ops s))
          \<and> (\<exists>more. arrived ops pending s = pending s @ more)
          \<and> written (snd (so_available ops s)) = written s"
    and read_bytes: "sinv s \<Longrightarrow> fst (so_read_array ops n s) = take n (pending s)"
    and read_state: "sinv s \<Longrightarrow> sinv (snd (so_read_array ops n s))
          \<and> pending (snd (so_read_array ops n s)) = drop n (pending s)
          \<and> written (snd (so_read_array ops n s)) = written s"
    and write_state: "sinv s \<Longrightarrow> sinv (so_write_array ops bs s)
          \<and> pending (so_write_array ops bs s) = pending s"
    and write_written: "sinv s \<Longrightarrow> length bs \<le> room s \<Longrightarrow>
          written (so_write_array ops bs s) = written s @ bs"
begin

text \<open>Two reads in a row deliver what one read of the total length delivers.\<close>

lemma read_read:
  assumes "sinv s" "so_read_array ops m s = (xs, s1)" "so_read_array ops n s1 = (ys, s2)"
  shows "xs @ ys = take (m + n) (pending s) \<and> pending s2 = drop (m + n) (pending s) \<and> sinv s2"
  using read_bytes [of s m] read_state [of s m] read_bytes [of s1 n] read_state [of s1 n] assms
  by (simp add: take_add add.commute)

end

text \<open>A stream nothing arrives in while it is asked.\<close>

locale protocol_stream = byte_stream +
  assumes available_still: "sinv s \<Longrightarrow> arrived ops pending s = pending s"
begin

lemma read_length:
  "sinv s \<Longrightarrow> length (fst (so_read_array ops n s)) = min n (fst (so_available ops s))"
  by (simp add: read_bytes available_count available_still min.commute)

end

section \<open>The virtual stream\<close>

datatype stream_direction = DIRECTION_A | DIRECTION_B

text \<open>
  \<^verbatim>\<open>VirtualStreamHolder\<close>: two buffers of 4096 bytes and two streams on them, which
  refer to the buffers crosswise. A stream is its direction over the shared holder.
\<close>

record virtual_stream_holder =
  vh_buffer0 :: "byte circular_buffer"
  vh_buffer1 :: "byte circular_buffer"

abbreviation BUFFER_SIZE :: nat where "BUFFER_SIZE \<equiv> 4096"

definition vs_new :: "byte allocator \<Rightarrow> virtual_stream_holder" where
  "vs_new new = \<lparr>vh_buffer0 = cb_new new BUFFER_SIZE, vh_buffer1 = cb_new new BUFFER_SIZE\<rparr>"

definition vs_rx :: "stream_direction \<Rightarrow> virtual_stream_holder \<Rightarrow> byte circular_buffer" where
  "vs_rx dir h = (if dir = DIRECTION_A then vh_buffer1 h else vh_buffer0 h)"

definition vs_tx :: "stream_direction \<Rightarrow> virtual_stream_holder \<Rightarrow> byte circular_buffer" where
  "vs_tx dir h = (if dir = DIRECTION_A then vh_buffer0 h else vh_buffer1 h)"

definition vs_set_rx ::
    "stream_direction \<Rightarrow> byte circular_buffer \<Rightarrow> virtual_stream_holder \<Rightarrow> virtual_stream_holder" where
  "vs_set_rx dir b h = (if dir = DIRECTION_A then h\<lparr>vh_buffer1 := b\<rparr> else h\<lparr>vh_buffer0 := b\<rparr>)"

definition vs_set_tx ::
    "stream_direction \<Rightarrow> byte circular_buffer \<Rightarrow> virtual_stream_holder \<Rightarrow> virtual_stream_holder" where
  "vs_set_tx dir b h = (if dir = DIRECTION_A then h\<lparr>vh_buffer0 := b\<rparr> else h\<lparr>vh_buffer1 := b\<rparr>)"

definition vs_available :: "stream_direction \<Rightarrow> virtual_stream_holder \<Rightarrow> nat \<times> virtual_stream_holder" where
  "vs_available dir h = (cb_get_size (vs_rx dir h), h)"

definition vs_read_array ::
    "stream_direction \<Rightarrow> nat \<Rightarrow> virtual_stream_holder \<Rightarrow> byte list \<times> virtual_stream_holder" where
  "vs_read_array dir n h = (let (xs, b) = cb_pop (vs_rx dir h) n in (xs, vs_set_rx dir b h))"

definition vs_write_array ::
    "stream_direction \<Rightarrow> byte list \<Rightarrow> virtual_stream_holder \<Rightarrow> virtual_stream_holder" where
  "vs_write_array dir bs h = vs_set_tx dir (snd (cb_push (vs_tx dir h) bs (length bs))) h"

definition get_stream_reference :: "stream_direction \<Rightarrow> virtual_stream_holder stream_ops" where
  "get_stream_reference dir =
     \<lparr>so_available = vs_available dir, so_read_array = vs_read_array dir,
      so_write_array = vs_write_array dir\<rparr>"

definition vs_inv :: "virtual_stream_holder \<Rightarrow> bool" where
  "vs_inv h \<longleftrightarrow> cb_wf (vh_buffer0 h) \<and> cb_capacity (vh_buffer0 h) = BUFFER_SIZE
     \<and> cb_wf (vh_buffer1 h) \<and> cb_capacity (vh_buffer1 h) = BUFFER_SIZE"

lemma vs_invD [simp]:
  "vs_inv h \<Longrightarrow> cb_wf (vs_rx dir h)" "vs_inv h \<Longrightarrow> cb_wf (vs_tx dir h)"
  "vs_inv h \<Longrightarrow> cb_capacity (vs_rx dir h) = BUFFER_SIZE" "vs_inv h \<Longrightarrow> cb_capacity (vs_tx dir h) = BUFFER_SIZE"
  by (simp_all add: vs_inv_def vs_rx_def vs_tx_def)

lemma vs_rx_tx [simp]:
  "vs_rx dir (vs_set_rx dir b h) = b" "vs_tx dir (vs_set_rx dir b h) = vs_tx dir h"
  "vs_tx dir (vs_set_tx dir b h) = b" "vs_rx dir (vs_set_tx dir b h) = vs_rx dir h"
  "vs_inv h \<Longrightarrow> cb_wf b \<Longrightarrow> cb_capacity b = BUFFER_SIZE \<Longrightarrow> vs_inv (vs_set_rx dir b h)"
  "vs_inv h \<Longrightarrow> cb_wf b \<Longrightarrow> cb_capacity b = BUFFER_SIZE \<Longrightarrow> vs_inv (vs_set_tx dir b h)"
  by (simp_all add: vs_rx_def vs_tx_def vs_set_rx_def vs_set_tx_def vs_inv_def)

text \<open>What one end writes is what the other end reads.\<close>

definition other_end :: "stream_direction \<Rightarrow> stream_direction" where
  "other_end dir = (if dir = DIRECTION_A then DIRECTION_B else DIRECTION_A)"

lemma vs_crossed: "vs_rx (other_end dir) h = vs_tx dir h"
  by (cases dir) (simp_all add: other_end_def vs_rx_def vs_tx_def)

lemma vs_new_inv: "allocates new \<Longrightarrow> vs_inv (vs_new new)"
  by (simp add: vs_inv_def vs_new_def cb_new_correct CIRCULAR_BUFFER_MINIMUM_SIZE_def)

lemma vs_new_empty:
  "allocates new \<Longrightarrow> cb_list (vs_rx dir (vs_new new)) = []"
  "allocates new \<Longrightarrow> cb_list (vs_tx dir (vs_new new)) = []"
  "allocates new \<Longrightarrow> cb_get_space (vs_tx dir (vs_new new)) = BUFFER_SIZE"
  by (simp_all add: vs_rx_def vs_tx_def vs_new_def cb_new_correct cb_get_space_def
      CIRCULAR_BUFFER_MINIMUM_SIZE_def flip: length_cb_list)

interpretation virtual: protocol_stream "get_stream_reference dir" vs_inv "\<lambda>h. cb_list (vs_rx dir h)"
    "\<lambda>h. cb_get_space (vs_tx dir h)" "\<lambda>h. cb_list (vs_tx dir h)" for dir
  by unfold_locales
    (auto simp: arrived_def get_stream_reference_def vs_available_def vs_read_array_def vs_write_array_def
      cb_pop_correct cb_drop_correct cb_push_correct min_def split_def)

section \<open>The test stream\<close>

record test_stream =
  ts_bytes_counter :: nat
  ts_buffer :: "byte circular_buffer"

definition ts_new :: "byte allocator \<Rightarrow> test_stream" where
  "ts_new new = \<lparr>ts_bytes_counter = 0, ts_buffer = cb_new new 2000\<rparr>"

definition ts_available :: "test_stream \<Rightarrow> nat \<times> test_stream" where
  "ts_available s = (cb_get_size (ts_buffer s), s)"

definition ts_read_array :: "nat \<Rightarrow> test_stream \<Rightarrow> byte list \<times> test_stream" where
  "ts_read_array n s =
     (let toRead = (if n < cb_get_size (ts_buffer s) then n else cb_get_size (ts_buffer s));
          (xs, b) = cb_pop (ts_buffer s) toRead
      in (xs, s\<lparr>ts_buffer := b\<rparr>))"

definition ts_write_array :: "byte list \<Rightarrow> test_stream \<Rightarrow> test_stream" where
  "ts_write_array bs s = s\<lparr>ts_bytes_counter := ts_bytes_counter s + length bs\<rparr>"

definition ts_addByte :: "byte \<Rightarrow> test_stream \<Rightarrow> test_stream" where
  "ts_addByte b s = s\<lparr>ts_buffer := snd (cb_push1 (ts_buffer s) b)\<rparr>"

definition ts_addBuffer :: "byte list \<Rightarrow> test_stream \<Rightarrow> test_stream" where
  "ts_addBuffer bs s = s\<lparr>ts_buffer := snd (cb_push (ts_buffer s) bs (length bs))\<rparr>"

definition test_stream_ops :: "test_stream stream_ops" where
  "test_stream_ops =
     \<lparr>so_available = ts_available, so_read_array = ts_read_array, so_write_array = ts_write_array\<rparr>"

definition ts_inv :: "test_stream \<Rightarrow> bool" where
  "ts_inv s \<longleftrightarrow> cb_wf (ts_buffer s) \<and> cb_capacity (ts_buffer s) = 2000"

text \<open>It discards what is written: it can only promise room for nothing.\<close>

interpretation test: protocol_stream test_stream_ops ts_inv "\<lambda>s. cb_list (ts_buffer s)" "\<lambda>_. 0" "\<lambda>_. []"
  by unfold_locales
    (auto simp: arrived_def test_stream_ops_def ts_available_def ts_read_array_def ts_write_array_def ts_inv_def
      cb_pop_correct cb_drop_correct Let_def split_def)

lemma ts_new_inv: "allocates new \<Longrightarrow> ts_inv (ts_new new)" "allocates new \<Longrightarrow> cb_list (ts_buffer (ts_new new)) = []"
  by (simp_all add: ts_inv_def ts_new_def cb_new_correct CIRCULAR_BUFFER_MINIMUM_SIZE_def)

lemma ts_addBuffer_correct:
  assumes "ts_inv s"
  shows "ts_inv (ts_addBuffer bs s)"
    "cb_list (ts_buffer (ts_addBuffer bs s))
       = cb_list (ts_buffer s) @ take (cb_get_space (ts_buffer s)) bs"
  using assms by (simp_all add: ts_addBuffer_def ts_inv_def cb_push_correct min_def)

end
