(* ===== verification/Frame_Digest.thy ===== *)
theory Frame_Digest
  imports HP_Prelude
begin

text \<open>
  The two digests of \<^verbatim>\<open>src/transport/haier_frame.cpp\<close>: the table-driven CRC and the
  byte checksum. \<open>crc_bit\<close> and \<open>crc_byte\<close> are the reference definition of CRC-16/ARC
  (reflected polynomial \<open>0xA001\<close>, one shift per bit); the table and the loop that uses
  it are shown to compute it. Both digests are interpretations of the \<open>digest\<close>
  interface, and the CRC of the injective one.
\<close>

section \<open>The code\<close>

definition INITIAL_CRC :: u16 where
  "INITIAL_CRC = 0x00"

definition crc_table :: "u16 list" where
  "crc_table =
    [0x0000, 0xC0C1, 0xC181, 0x0140, 0xC301, 0x03C0, 0x0280, 0xC241,
     0xC601, 0x06C0, 0x0780, 0xC741, 0x0500, 0xC5C1, 0xC481, 0x0440,
     0xCC01, 0x0CC0, 0x0D80, 0xCD41, 0x0F00, 0xCFC1, 0xCE81, 0x0E40,
     0x0A00, 0xCAC1, 0xCB81, 0x0B40, 0xC901, 0x09C0, 0x0880, 0xC841,
     0xD801, 0x18C0, 0x1980, 0xD941, 0x1B00, 0xDBC1, 0xDA81, 0x1A40,
     0x1E00, 0xDEC1, 0xDF81, 0x1F40, 0xDD01, 0x1DC0, 0x1C80, 0xDC41,
     0x1400, 0xD4C1, 0xD581, 0x1540, 0xD701, 0x17C0, 0x1680, 0xD641,
     0xD201, 0x12C0, 0x1380, 0xD341, 0x1100, 0xD1C1, 0xD081, 0x1040,
     0xF001, 0x30C0, 0x3180, 0xF141, 0x3300, 0xF3C1, 0xF281, 0x3240,
     0x3600, 0xF6C1, 0xF781, 0x3740, 0xF501, 0x35C0, 0x3480, 0xF441,
     0x3C00, 0xFCC1, 0xFD81, 0x3D40, 0xFF01, 0x3FC0, 0x3E80, 0xFE41,
     0xFA01, 0x3AC0, 0x3B80, 0xFB41, 0x3900, 0xF9C1, 0xF881, 0x3840,
     0x2800, 0xE8C1, 0xE981, 0x2940, 0xEB01, 0x2BC0, 0x2A80, 0xEA41,
     0xEE01, 0x2EC0, 0x2F80, 0xEF41, 0x2D00, 0xEDC1, 0xEC81, 0x2C40,
     0xE401, 0x24C0, 0x2580, 0xE541, 0x2700, 0xE7C1, 0xE681, 0x2640,
     0x2200, 0xE2C1, 0xE381, 0x2340, 0xE101, 0x21C0, 0x2080, 0xE041,
     0xA001, 0x60C0, 0x6180, 0xA141, 0x6300, 0xA3C1, 0xA281, 0x6240,
     0x6600, 0xA6C1, 0xA781, 0x6740, 0xA501, 0x65C0, 0x6480, 0xA441,
     0x6C00, 0xACC1, 0xAD81, 0x6D40, 0xAF01, 0x6FC0, 0x6E80, 0xAE41,
     0xAA01, 0x6AC0, 0x6B80, 0xAB41, 0x6900, 0xA9C1, 0xA881, 0x6840,
     0x7800, 0xB8C1, 0xB981, 0x7940, 0xBB01, 0x7BC0, 0x7A80, 0xBA41,
     0xBE01, 0x7EC0, 0x7F80, 0xBF41, 0x7D00, 0xBDC1, 0xBC81, 0x7C40,
     0xB401, 0x74C0, 0x7580, 0xB541, 0x7700, 0xB7C1, 0xB681, 0x7640,
     0x7200, 0xB2C1, 0xB381, 0x7340, 0xB101, 0x71C0, 0x7080, 0xB041,
     0x5000, 0x90C1, 0x9181, 0x5140, 0x9301, 0x53C0, 0x5280, 0x9241,
     0x9601, 0x56C0, 0x5780, 0x9741, 0x5500, 0x95C1, 0x9481, 0x5440,
     0x9C01, 0x5CC0, 0x5D80, 0x9D41, 0x5F00, 0x9FC1, 0x9E81, 0x5E40,
     0x5A00, 0x9AC1, 0x9B81, 0x5B40, 0x9901, 0x59C0, 0x5880, 0x9841,
     0x8801, 0x48C0, 0x4980, 0x8941, 0x4B00, 0x8BC1, 0x8A81, 0x4A40,
     0x4E00, 0x8EC1, 0x8F81, 0x4F40, 0x8D01, 0x4DC0, 0x4C80, 0x8C41,
     0x4400, 0x84C1, 0x8581, 0x4540, 0x8701, 0x47C0, 0x4680, 0x8641,
     0x8201, 0x42C0, 0x4380, 0x8341, 0x4100, 0x81C1, 0x8081, 0x4040]"

definition crc16_byte :: "byte \<Rightarrow> u16 \<Rightarrow> u16" where
  "crc16_byte d crc = drop_bit 8 crc XOR crc_table ! unat ((crc XOR ucast d) AND 0xFF)"

fun crc16 :: "byte list \<Rightarrow> u16 \<Rightarrow> u16" where
  "crc16 [] crc = crc"
| "crc16 (d # ds) crc = crc16 ds (crc16_byte d crc)"

text \<open>\<^verbatim>\<open>checksum\<close> adds the bytes modulo 256.\<close>

fun checksum :: "byte list \<Rightarrow> byte \<Rightarrow> byte" where
  "checksum [] result = result"
| "checksum (d # ds) result = checksum ds (result + d)"

section \<open>The reference CRC\<close>

definition crc_bit :: "u16 \<Rightarrow> u16" where
  "crc_bit c = (if bit c 0 then drop_bit 1 c XOR 0xA001 else drop_bit 1 c)"

definition crc_byte :: "byte \<Rightarrow> u16 \<Rightarrow> u16" where
  "crc_byte d c = (crc_bit ^^ 8) (c XOR ucast d)"

fun crc16_arc :: "byte list \<Rightarrow> u16 \<Rightarrow> u16" where
  "crc16_arc [] c = c"
| "crc16_arc (d # ds) c = crc16_arc ds (crc_byte d c)"

section \<open>The table computes the reference\<close>

lemma crc_table_length: "length crc_table = 256"
  by (simp add: crc_table_def)

lemma funpow_8: "(f ^^ 8) x = f (f (f (f (f (f (f (f x)))))))"
  by (simp add: numeral_eq_Suc)

text \<open>One shift is linear over exclusive or, and a bijection: the bit shifted out is the top
  bit of the result.\<close>

lemma crc_bit_alt: "crc_bit c = drop_bit 1 c XOR (if bit c 0 then 0xA001 else 0)"
  by (simp add: crc_bit_def)

lemma crc_bit_xor: "crc_bit (a XOR b) = crc_bit a XOR crc_bit b"
  unfolding crc_bit_alt bit_xor_iff by (rule bit_eqI) (auto simp: bit_xor_iff)

lemma crc_bit_funpow_xor: "(crc_bit ^^ n) (a XOR b) = (crc_bit ^^ n) a XOR (crc_bit ^^ n) b"
  by (induction n) (simp_all add: crc_bit_xor)

lemma crc_bit_top: "bit (crc_bit c) 15 \<longleftrightarrow> bit c 0"
  by (auto simp: crc_bit_def bit_xor_iff bit_drop_bit_eq dest: bit_imp_le_length)

lemma crc_bit_inj: "inj crc_bit"
proof (rule injI)
  fix a b assume eq: "crc_bit a = crc_bit b"
  then have low: "bit a 0 \<longleftrightarrow> bit b 0"
    using crc_bit_top by metis
  then have "drop_bit 1 a = drop_bit 1 b"
    using eq by (auto simp: crc_bit_def split: if_splits dest: arg_cong [of _ _ "\<lambda>x. x XOR 0xA001"] simp: xor.assoc)
  then have "bit a (Suc n) \<longleftrightarrow> bit b (Suc n)" for n
    by (metis bit_drop_bit_eq comp_apply plus_1_eq_Suc)
  then have "bit a n \<longleftrightarrow> bit b n" for n
    using low by (cases n) auto
  then show "a = b" by (simp add: bit_eq_iff)
qed

lemma crc_byte_inj_state: "crc_byte d a = crc_byte d b \<Longrightarrow> a = b"
proof -
  assume "crc_byte d a = crc_byte d b"
  then have "a XOR ucast d = b XOR ucast d"
    using inj_fn [OF crc_bit_inj, of 8] by (simp add: crc_byte_def inj_eq)
  then show "a = b"
    by (metis xor.assoc xor_self_eq xor.right_neutral)
qed

lemma bit_ucast_byte: "bit (ucast (a::byte) :: u16) n \<longleftrightarrow> bit a n"
  using bit_imp_le_length [of a n] by (auto simp: bit_unsigned_iff)

lemma crc_byte_inj_byte: "crc_byte a c = crc_byte b c \<Longrightarrow> a = b"
proof -
  assume "crc_byte a c = crc_byte b c"
  then have "c XOR ucast a = c XOR (ucast b :: u16)"
    using inj_fn [OF crc_bit_inj, of 8] by (simp add: crc_byte_def inj_eq)
  then have eq: "(ucast a :: u16) = ucast b"
    by (metis xor.assoc xor_self_eq xor.left_neutral)
  show "a = b"
    by (rule bit_eqI) (metis bit_ucast_byte eq)
qed

text \<open>Shifting a word whose low byte is zero eight times only moves it.\<close>

lemma crc_bit_even: "\<not> bit c 0 \<Longrightarrow> crc_bit c = drop_bit 1 c"
  by (simp add: crc_bit_def)

lemma crc_bit_funpow_high:
  "(\<And>i. i < 8 \<Longrightarrow> \<not> bit y i) \<Longrightarrow> n \<le> 8 \<Longrightarrow> (crc_bit ^^ n) y = drop_bit n y"
proof (induction n)
  case (Suc n)
  then have "(crc_bit ^^ n) y = drop_bit n y" "\<not> bit (drop_bit n y) 0"
    by (simp_all add: bit_drop_bit_eq)
  then show ?case
    using crc_bit_even [of "drop_bit n y"] by simp
qed simp

lemma crc_split:
  "(crc_bit ^^ 8) x = drop_bit 8 x XOR (crc_bit ^^ 8) (x AND 0xFF)"
proof -
  have ff: "bit (0xFF :: u16) n \<longleftrightarrow> n < 8" for n
  proof -
    have "(0xFF :: u16) = mask 8" by (simp add: mask_eq_exp_minus_1)
    then show ?thesis by (simp only: bit_mask_iff) (auto dest: less_le_trans)
  qed
  have low: "\<not> bit (x XOR (x AND 0xFF)) i" if "i < 8" for i
    using that unfolding bit_xor_iff bit_and_iff ff by simp
  let ?y = "x XOR (x AND 0xFF)"
  have "x = ?y XOR (x AND 0xFF)"
    by (rule bit_eqI) (auto simp: bit_simps)
  then have "(crc_bit ^^ 8) x = (crc_bit ^^ 8) ?y XOR (crc_bit ^^ 8) (x AND 0xFF)"
    by (metis crc_bit_funpow_xor)
  also have "(crc_bit ^^ 8) ?y = drop_bit 8 ?y"
    by (rule crc_bit_funpow_high) (simp_all add: low)
  also have "drop_bit 8 ?y = drop_bit 8 x"
    by (rule bit_eqI) (simp only: bit_drop_bit_eq comp_def bit_xor_iff bit_and_iff ff, simp)
  finally show ?thesis .
qed

text \<open>The table is the closure of its eight entries at the powers of two.\<close>

fun xor_span :: "u16 list \<Rightarrow> u16 list \<Rightarrow> u16 list" where
  "xor_span [] acc = acc"
| "xor_span (b # bs) acc = xor_span bs (acc @ map (\<lambda>x. b XOR x) acc)"

definition crc_ref :: "nat \<Rightarrow> u16" where
  "crc_ref i = (crc_bit ^^ 8) (word_of_nat i)"

lemma crc_ref_add: "i < 2 ^ k \<Longrightarrow> crc_ref (2 ^ k + i) = crc_ref (2 ^ k) XOR crc_ref i"
proof -
  assume i: "i < 2 ^ k"
  have "bit i n \<Longrightarrow> n < k" for n
    using i by (metis bit_take_bit_iff take_bit_nat_eq_self)
  then have "2 ^ k AND i = 0"
    by (intro bit_eqI) (auto simp: bit_and_iff bit_exp_iff)
  then have "2 ^ k + i = 2 ^ k XOR i"
    by (rule disjunctive_add_eq_xor)
  then show ?thesis
    by (simp only: crc_ref_def of_nat_xor_eq crc_bit_funpow_xor)
qed

lemma xor_span_ref:
  "xor_span (map (\<lambda>j. crc_ref (2 ^ j)) [k..<k + n]) (map crc_ref [0..<2 ^ k]) = map crc_ref [0..<2 ^ (k + n)]"
proof (induction n arbitrary: k)
  case (Suc n)
  have "map crc_ref [0..<2 ^ k] @ map (\<lambda>x. crc_ref (2 ^ k) XOR x) (map crc_ref [0..<2 ^ k])
      = map crc_ref [0..<2 ^ Suc k]"
    by (rule nth_equalityI) (auto simp: nth_append crc_ref_add simp flip: crc_ref_add)
  then show ?case
    using Suc [of "Suc k"] by (simp add: upt_conv_Cons del: upt_Suc)
qed simp

lemma crc_table_ref: "crc_table = map crc_ref [0..<256]"
proof -
  have "map (\<lambda>j. crc_ref (2 ^ j)) [0..<8] = [0xC0C1, 0xC181, 0xC301, 0xC601, 0xCC01, 0xD801, 0xF001, 0xA001]"
    by (simp add: upt_conv_Cons crc_ref_def funpow_8 crc_bit_alt bit_0)
  moreover have "crc_table = xor_span [0xC0C1, 0xC181, 0xC301, 0xC601, 0xCC01, 0xD801, 0xF001, 0xA001] [0]"
    by (simp add: crc_table_def)
  moreover have "map crc_ref [0..<2 ^ 0] = [0]"
    by (simp add: crc_ref_def funpow_8 crc_bit_def)
  ultimately show ?thesis
    using xor_span_ref [of 0 8] by simp
qed

lemma crc16_byte_eq: "crc16_byte d c = crc_byte d c"
proof -
  let ?x = "c XOR ucast d"
  have lt: "unat (?x AND 0xFF) < 256"
    using word_and_le1 [of ?x "0xFF"] by (simp add: word_le_nat_alt)
  have "drop_bit 8 ?x = drop_bit 8 c"
    by (rule bit_eqI) (auto simp: bit_drop_bit_eq bit_xor_iff bit_ucast_byte dest: bit_imp_le_length)
  then have "crc_byte d c = drop_bit 8 c XOR (crc_bit ^^ 8) (?x AND 0xFF)"
    unfolding crc_byte_def by (metis crc_split)
  also have "(crc_bit ^^ 8) (?x AND 0xFF) = crc_table ! unat (?x AND 0xFF)"
    using lt by (simp add: crc_table_ref crc_ref_def)
  finally show ?thesis
    by (simp add: crc16_byte_def)
qed

lemma crc16_eq: "crc16 ds c = crc16_arc ds c"
  by (induction ds arbitrary: c) (simp_all add: crc16_byte_eq)

section \<open>Both digests\<close>

interpretation crc: injective_digest crc16_byte crc16
  by unfold_locales (auto simp: crc16_byte_eq dest: crc_byte_inj_byte crc_byte_inj_state)

interpretation sum: injective_digest "\<lambda>b r. r + b" checksum
  by unfold_locales auto

section \<open>Properties\<close>

text \<open>Claim C37. The table-driven CRC is CRC-16/ARC: for every byte sequence and every start
  value the lookup loop returns what the bit-by-bit definition returns.\<close>

theorem crc16_is_crc16_arc: "crc16 ds c = crc16_arc ds c"
  by (rule crc16_eq)

end
