(* ===== verification/Haier_Frame.thy ===== *)
theory Haier_Frame
  imports Frame_Digest
begin

text \<open>
  The frame of \<^verbatim>\<open>include/transport/haier_frame.h\<close> and
  \<^verbatim>\<open>src/transport/haier_frame.cpp\<close>: its construction, its serialisation
  (\<open>fill_buffer\<close>) and its two-step parser (\<open>parse_buffer\<close>, once for the header and once
  for the payload). The loops are folds of the loop body over the bytes or positions the
  loop visits; \<^verbatim>\<open>uint8_t\<close> members and cursors are 8-bit words and wrap. \<open>wire\<close> is the
  specification of the byte layout, \<open>frame_ok\<close> the invariant of a complete frame.
\<close>

section \<open>Constants and data\<close>

abbreviation MAX_FRAME_SIZE :: byte where "MAX_FRAME_SIZE \<equiv> 0xF1"
abbreviation FRAME_HEADER_SIZE :: nat where "FRAME_HEADER_SIZE \<equiv> 10"
abbreviation SEPARATOR_BYTE :: byte where "SEPARATOR_BYTE \<equiv> 0xFF"
abbreviation SEPARATOR_POST_BYTE :: byte where "SEPARATOR_POST_BYTE \<equiv> 0x55"
abbreviation FRAME_SEPARATORS_COUNT :: nat where "FRAME_SEPARATORS_COUNT \<equiv> 2"
abbreviation PURE_HEADER_SIZE :: byte where "PURE_HEADER_SIZE \<equiv> 8"
abbreviation USE_CRC_MASK :: byte where "USE_CRC_MASK \<equiv> 0x40"
abbreviation HEADER_SIZE_POS :: nat where "HEADER_SIZE_POS \<equiv> 2"
abbreviation HEADER_CRC_FLAG_POS :: nat where "HEADER_CRC_FLAG_POS \<equiv> 3"
abbreviation HEADER_FRAME_TYPE_POS :: nat where "HEADER_FRAME_TYPE_POS \<equiv> 9"

datatype frame_status = FRAME_COMPLETE | FRAME_HEADER_ONLY | FRAME_EMPTY

datatype frame_error =
    COMPLETE_FRAME | HEADER_ONLY | FRAME_SEPARATOR_WRONG | HEADER_TOO_SMALL | FRAME_TOO_BIG
  | FRAME_TOO_SMALL | DATA_SIZE_WRONG | CHECKSUM_WRONG | CRC_WRONG | WRONG_POST_SEPARATOR_BYTE
  | UNKNOWN_DATA

text \<open>The enumerators of \<^verbatim>\<open>FrameStatus\<close> compare by their position in the declaration.\<close>

fun status_rank :: "frame_status \<Rightarrow> nat" where
  "status_rank FRAME_COMPLETE = 0"
| "status_rank FRAME_HEADER_ONLY = 1"
| "status_rank FRAME_EMPTY = 2"

lemma status_rank_inj: "status_rank a = status_rank b \<Longrightarrow> a = b"
  by (cases a; cases b) simp_all

instantiation frame_status :: linorder
begin

definition less_eq_frame_status :: "frame_status \<Rightarrow> frame_status \<Rightarrow> bool" where
  "less_eq_frame_status a b \<longleftrightarrow> status_rank a \<le> status_rank b"

definition less_frame_status :: "frame_status \<Rightarrow> frame_status \<Rightarrow> bool" where
  "less_frame_status a b \<longleftrightarrow> status_rank a < status_rank b"

instance
  by standard (auto simp: less_eq_frame_status_def less_frame_status_def intro: status_rank_inj)

end

record frame =
  f_type :: byte
  f_use_crc :: bool
  f_data_size :: byte
  f_checksum :: byte
  f_crc :: u16
  f_data :: "byte list option"
  f_status :: frame_status
  f_additional_bytes :: byte

definition empty_frame :: frame where
  "empty_frame =
     \<lparr>f_type = 0, f_use_crc = True, f_data_size = 0, f_checksum = 0, f_crc = INITIAL_CRC,
      f_data = None, f_status = FRAME_EMPTY, f_additional_bytes = 0\<rparr>"

definition reset :: "frame \<Rightarrow> frame" where
  "reset f = f\<lparr>f_type := 0, f_use_crc := True, f_data_size := 0, f_checksum := 0,
     f_crc := INITIAL_CRC, f_data := None, f_status := FRAME_EMPTY, f_additional_bytes := 0\<rparr>"

text \<open>Move construction and move assignment: the target and the moved-from source.\<close>

definition move_frame :: "frame \<Rightarrow> frame \<times> frame" where
  "move_frame source = (source, source\<lparr>f_data := None\<rparr>)"

definition get_header_byte :: "frame \<Rightarrow> nat \<Rightarrow> byte" where
  "get_header_byte f pos =
     (if pos < HEADER_SIZE_POS then SEPARATOR_BYTE
      else if pos = HEADER_SIZE_POS then PURE_HEADER_SIZE + f_data_size f
      else if pos = HEADER_CRC_FLAG_POS then (if f_use_crc f then USE_CRC_MASK else 0)
      else if pos = HEADER_FRAME_TYPE_POS then f_type f
      else 0)"

section \<open>Construction\<close>

definition ctor_header_step :: "nat \<Rightarrow> frame \<Rightarrow> frame" where
  "ctor_header_step pos f =
     (let hbyte = get_header_byte f pos;
          f1 = (if hbyte = SEPARATOR_BYTE then f\<lparr>f_additional_bytes := f_additional_bytes f + 1\<rparr> else f);
          f2 = (if hbyte > 0 then f1\<lparr>f_checksum := f_checksum f1 + hbyte\<rparr> else f1)
      in if f_use_crc f2 then f2\<lparr>f_crc := crc16_byte hbyte (f_crc f2)\<rparr> else f2)"

definition ctor_data_step :: "byte \<Rightarrow> frame \<Rightarrow> frame" where
  "ctor_data_step b f =
     (let f1 = (if b > 0 then f\<lparr>f_checksum := f_checksum f + b\<rparr> else f);
          f2 = (if b = SEPARATOR_BYTE then f1\<lparr>f_additional_bytes := f_additional_bytes f1 + 1\<rparr> else f1)
      in if f_use_crc f2 then f2\<lparr>f_crc := crc16_byte b (f_crc f2)\<rparr> else f2)"

text \<open>\<open>data\<close> is the memory the constructor's data pointer refers to; its first
  \<open>data_size\<close> bytes are copied.\<close>

definition new_frame :: "byte \<Rightarrow> byte list \<Rightarrow> byte \<Rightarrow> bool \<Rightarrow> frame" where
  "new_frame frame_type data data_size use_crc =
     (let f0 = \<lparr>f_type = frame_type, f_use_crc = use_crc, f_data_size = data_size, f_checksum = 0,
                f_crc = INITIAL_CRC, f_data = None, f_status = FRAME_COMPLETE, f_additional_bytes = 0\<rparr>;
          f1 = fold ctor_header_step [HEADER_SIZE_POS..<FRAME_HEADER_SIZE] f0;
          f2 = (if f_data_size f1 > 0
                then let d = take (unat data_size) data in fold ctor_data_step d (f1\<lparr>f_data := Some d\<rparr>)
                else f1)
      in f2\<lparr>f_checksum := f_checksum f2 + f_additional_bytes f2 * SEPARATOR_POST_BYTE\<rparr>)"

section \<open>Serialisation\<close>

definition frame_data :: "frame \<Rightarrow> byte list" where
  "frame_data f = (case f_data f of None \<Rightarrow> [] | Some d \<Rightarrow> d)"

definition crc_high :: "frame \<Rightarrow> byte" where
  "crc_high f = ucast (drop_bit 8 (f_crc f) AND 0xFF)"

definition crc_low :: "frame \<Rightarrow> byte" where
  "crc_low f = ucast (f_crc f AND 0xFF)"

definition get_buffer_size :: "frame \<Rightarrow> nat" where
  "get_buffer_size f =
     FRAME_HEADER_SIZE + unat (f_data_size f) + unat (f_additional_bytes f)
     + (if f_checksum f = SEPARATOR_BYTE then 2 else 1)
     + (if f_use_crc f
        then 2 + (if f_crc f AND 0xFF = ucast SEPARATOR_BYTE then 1 else 0)
               + (if drop_bit 8 (f_crc f) AND 0xFF = ucast SEPARATOR_BYTE then 1 else 0)
        else 0)"

text \<open>A write cursor is the buffer and the 8-bit position; \<open>set_with_post_byte\<close> is the
  macro of the same name.\<close>

definition write_byte :: "byte \<Rightarrow> byte list \<times> byte \<Rightarrow> byte list \<times> byte" where
  "write_byte v = (\<lambda>(buf, pos). (buf[unat pos := v], pos + 1))"

definition set_with_post_byte :: "byte \<Rightarrow> byte list \<times> byte \<Rightarrow> byte list \<times> byte" where
  "set_with_post_byte v c =
     (let c1 = write_byte v c
      in if v = SEPARATOR_BYTE then write_byte SEPARATOR_POST_BYTE c1 else c1)"

definition fill_buffer :: "frame \<Rightarrow> byte list \<Rightarrow> nat \<Rightarrow> nat \<times> byte list" where
  "fill_buffer f buf limit =
     (let sz = get_buffer_size f
      in if sz > limit then (0, buf)
         else let c1 = fold (\<lambda>i. write_byte (get_header_byte f i)) [0..<FRAME_SEPARATORS_COUNT] (buf, 0);
                  c2 = fold (\<lambda>i. set_with_post_byte (get_header_byte f i))
                         [FRAME_SEPARATORS_COUNT..<FRAME_HEADER_SIZE] c1;
                  c3 = fold set_with_post_byte (take (unat (f_data_size f)) (frame_data f)) c2;
                  c4 = set_with_post_byte (f_checksum f) c3;
                  c5 = (if f_use_crc f
                        then set_with_post_byte (crc_low f) (set_with_post_byte (crc_high f) c4)
                        else c4)
              in (sz, fst c5))"

section \<open>Parsing\<close>

record header_scan =
  hs_fsize :: byte
  hs_use_crc :: bool
  hs_type :: byte
  hs_chk :: byte
  hs_crc :: u16
  hs_additional :: byte

definition scan_step :: "byte list \<Rightarrow> nat \<Rightarrow> header_scan \<Rightarrow> header_scan" where
  "scan_step buffer lpos hs =
     (let b = buffer ! lpos;
          h1 = (if lpos = HEADER_SIZE_POS then hs\<lparr>hs_fsize := b\<rparr>
                else if lpos = HEADER_CRC_FLAG_POS
                then let u = (b AND USE_CRC_MASK \<noteq> 0)
                     in hs\<lparr>hs_use_crc := u, hs_crc := (if \<not> u then INITIAL_CRC else hs_crc hs)\<rparr>
                else if lpos = HEADER_FRAME_TYPE_POS
                then hs\<lparr>hs_type := b, hs_additional := (if b = SEPARATOR_BYTE then 1 else 0)\<rparr>
                else hs);
          h2 = h1\<lparr>hs_chk := checksum [b] (hs_chk h1)\<rparr>
      in if hs_use_crc h2 then h2\<lparr>hs_crc := crc16_byte b (hs_crc h2)\<rparr> else h2)"

definition scan_header :: "byte list \<Rightarrow> byte \<Rightarrow> header_scan" where
  "scan_header buffer additional =
     fold (scan_step buffer) [FRAME_SEPARATORS_COUNT..<FRAME_HEADER_SIZE]
       \<lparr>hs_fsize = 0, hs_use_crc = True, hs_type = 0, hs_chk = 0, hs_crc = INITIAL_CRC,
        hs_additional = additional\<rparr>"

definition count_step :: "byte \<Rightarrow> byte \<Rightarrow> byte" where
  "count_step b n = (if b = SEPARATOR_BYTE then n + 1 else n)"

definition finish_payload ::
    "frame \<Rightarrow> byte list \<Rightarrow> nat \<Rightarrow> nat \<Rightarrow> u16 \<Rightarrow> frame \<times> frame_error \<times> nat" where
  "finish_payload f buffer lpos rpos crc =
     (let n = unat (f_data_size f);
          chk = checksum (take n (drop lpos buffer)) (f_checksum f)
                  + f_additional_bytes f * SEPARATOR_POST_BYTE
      in if chk \<noteq> buffer ! rpos then (f, CHECKSUM_WRONG, lpos)
         else (f\<lparr>f_crc := crc, f_checksum := chk, f_status := FRAME_COMPLETE,
                 f_data := (if f_data_size f \<noteq> 0 then Some (take n (drop lpos buffer)) else None)\<rparr>,
               COMPLETE_FRAME, lpos))"

definition parse_payload :: "frame \<Rightarrow> byte list \<Rightarrow> nat \<Rightarrow> nat \<Rightarrow> frame \<times> frame_error \<times> nat" where
  "parse_payload f buffer sz lpos =
     (let min_size = f_data_size f + (if f_use_crc f then 3 else 1)
      in if sz - lpos < unat min_size then (f, DATA_SIZE_WRONG, lpos)
         else let rpos = unat min_size - 1;
                  n = unat (f_data_size f);
                  f1 = f\<lparr>f_additional_bytes := fold count_step (take n buffer) (f_additional_bytes f)\<rparr>
              in if f_use_crc f
                 then let frame_crc = ucast (buffer ! rpos) + push_bit 8 (ucast (buffer ! (rpos - 1)));
                          crc = crc16 (take n buffer) (f_crc f)
                      in if crc \<noteq> frame_crc then (f1, CRC_WRONG, lpos)
                         else finish_payload f1 buffer lpos (rpos - 2) crc
                 else finish_payload f1 buffer lpos rpos INITIAL_CRC)"

text \<open>\<open>sz\<close> is the number of bytes \<open>buffer\<close> refers to. The result is the frame, the error
  code and the position returned.\<close>

definition parse_buffer :: "frame \<Rightarrow> byte list \<Rightarrow> nat \<Rightarrow> frame \<times> frame_error \<times> nat" where
  "parse_buffer f buffer sz =
     (case f_status f of
        FRAME_COMPLETE \<Rightarrow> (f, UNKNOWN_DATA, 0)
      | FRAME_EMPTY \<Rightarrow>
          if sz < FRAME_HEADER_SIZE then (f, HEADER_TOO_SMALL, 0)
          else if buffer ! 0 \<noteq> SEPARATOR_BYTE \<or> buffer ! 1 \<noteq> SEPARATOR_BYTE
          then (f, FRAME_SEPARATOR_WRONG, 0)
          else let hs = scan_header buffer (f_additional_bytes f);
                   f1 = f\<lparr>f_additional_bytes := hs_additional hs\<rparr>
               in if hs_fsize hs < PURE_HEADER_SIZE then (f1, FRAME_TOO_SMALL, FRAME_HEADER_SIZE)
                  else if hs_fsize hs > MAX_FRAME_SIZE then (f1, FRAME_TOO_BIG, FRAME_HEADER_SIZE)
                  else let f2 = f1\<lparr>f_type := hs_type hs, f_use_crc := hs_use_crc hs,
                                   f_data_size := hs_fsize hs - PURE_HEADER_SIZE,
                                   f_checksum := hs_chk hs, f_crc := hs_crc hs,
                                   f_status := FRAME_HEADER_ONLY\<rparr>
                       in if FRAME_HEADER_SIZE = sz then (f2, HEADER_ONLY, FRAME_HEADER_SIZE)
                          else parse_payload f2 buffer sz FRAME_HEADER_SIZE
      | FRAME_HEADER_ONLY \<Rightarrow> parse_payload f buffer sz 0)"

end
