(* ===== verification/Transport.thy ===== *)
theory Transport
  imports Protocol_Stream Haier_Frame "HOL-Library.While_Combinator"
begin

text \<open>
  The transport level handler of \<^verbatim>\<open>include/transport/protocol_transport.h\<close> and
  \<^verbatim>\<open>src/transport/protocol_transport.cpp\<close>. The record holds the members of the
  class except the stream, which is the state \<open>'s\<close> of a \<open>stream_ops\<close> and is passed along.
  \<open>process_data\<close> is a \<open>while_option\<close> over the body of its loop, so that not returning is
  the value \<open>None\<close>; \<^verbatim>\<open>size_t\<close> and the local \<^verbatim>\<open>int\<close> are natural
  numbers, and that no subtraction among them ever goes below zero is proved with the
  loop invariant. What the operations log is in \<open>Transport_Log\<close>.
\<close>

section \<open>State\<close>

record timestamped_frame =
  tf_frame :: frame
  tf_timestamp :: millis

record transport =
  tr_buffer :: "byte circular_buffer"
  tr_pos :: nat
  tr_sep_count :: nat
  tr_frame_start_found :: bool
  tr_current_frame :: frame
  tr_frame_start :: millis
  tr_incoming_queue :: "timestamped_frame list"

abbreviation FRAME_TIMEOUT :: millis where "FRAME_TIMEOUT \<equiv> 300"

text \<open>The clock of a default-constructed time point is at its epoch.\<close>

definition tr_new :: "byte allocator \<Rightarrow> nat \<Rightarrow> transport" where
  "tr_new new buffer_size =
     \<lparr>tr_buffer = cb_new new buffer_size, tr_pos = 0, tr_sep_count = 0, tr_frame_start_found = False,
      tr_current_frame = empty_frame, tr_frame_start = 0, tr_incoming_queue = []\<rparr>"

definition tr_drop_bytes :: "nat \<Rightarrow> transport \<Rightarrow> transport" where
  "tr_drop_bytes n t = t\<lparr>tr_buffer := snd (cb_drop (tr_buffer t) n)\<rparr>"

text \<open>The four assignments that abandon the current frame.\<close>

definition tr_restart :: "transport \<Rightarrow> transport" where
  "tr_restart t = t\<lparr>tr_pos := 0, tr_sep_count := 0, tr_frame_start_found := False,
     tr_current_frame := reset (tr_current_frame t)\<rparr>"

definition tr_clear :: "transport \<Rightarrow> transport" where
  "tr_clear t = tr_restart (t\<lparr>tr_buffer := cb_clear (tr_buffer t)\<rparr>)"

definition tr_reset_protocol :: "transport \<Rightarrow> transport" where
  "tr_reset_protocol t =
     (let sz = cb_get_size (tr_buffer t);
          bytesToDrop = (if tr_pos t < sz then tr_pos t else sz)
      in tr_restart (tr_drop_bytes bytesToDrop t))"

definition tr_get_buffer_size :: "transport \<Rightarrow> nat" where
  "tr_get_buffer_size t = cb_capacity (tr_buffer t)"

definition tr_available :: "transport \<Rightarrow> nat" where
  "tr_available t = length (tr_incoming_queue t)"

definition tr_pop :: "transport \<Rightarrow> timestamped_frame option \<times> transport" where
  "tr_pop t = (case tr_incoming_queue t of
      [] \<Rightarrow> (None, t)
    | tf # q \<Rightarrow> (Some tf, t\<lparr>tr_incoming_queue := q\<rparr>))"

definition tr_drop :: "nat \<Rightarrow> transport \<Rightarrow> transport" where
  "tr_drop frames_count t =
     (let sz = length (tr_incoming_queue t);
          n = (if frames_count < sz then frames_count else sz)
      in ((\<lambda>t. t\<lparr>tr_incoming_queue := tl (tr_incoming_queue t)\<rparr>) ^^ n) t)"

section \<open>Sending and receiving bytes\<close>

text \<open>The result is the returned \<^verbatim>\<open>uint8_t\<close> and the stream.\<close>

definition tr_send_data ::
    "'s stream_ops \<Rightarrow> byte allocator \<Rightarrow> byte \<Rightarrow> byte list \<Rightarrow> nat \<Rightarrow> bool \<Rightarrow> 's \<Rightarrow> byte \<times> 's" where
  "tr_send_data ops new frame_type data data_size use_crc s =
     (if data_size > unat MAX_FRAME_SIZE - unat PURE_HEADER_SIZE then (0, s)
      else let f = new_frame frame_type data (of_nat data_size) use_crc;
               sz = get_buffer_size f;
               tmp_buf = snd (fill_buffer f (new sz) sz)
           in (of_nat sz, so_write_array ops tmp_buf s))"

definition tr_read_data :: "'s stream_ops \<Rightarrow> transport \<Rightarrow> 's \<Rightarrow> nat \<times> transport \<times> 's" where
  "tr_read_data ops t s =
     (let (c, s0) = so_available ops s;
          count = (if c \<ge> cb_capacity (tr_buffer t) then cb_capacity (tr_buffer t) else c);
          available = cb_get_space (tr_buffer t);
          t1 = (if count > available
                then let td = tr_drop_bytes (count - available) t
                     in if tr_frame_start_found td then tr_restart td else td
                else t);
          (off1, n1, b1) = cb_reserve (tr_buffer t1) count;
          (xs1, s1) = so_read_array ops n1 s0;
          size1 = length xs1;
          t2 = t1\<lparr>tr_buffer := cb_fill off1 xs1 b1\<rparr>
      in if count > size1
         then let (off2, n2, b2) = cb_reserve (tr_buffer t2) (count - size1);
                  (xs2, s2) = so_read_array ops n2 s1
              in (size1 + length xs2, t2\<lparr>tr_buffer := cb_fill off2 xs2 b2\<rparr>, s2)
         else (size1, t2, s1))"

section \<open>Processing the received bytes\<close>

text \<open>The two copying loops with the removal of stuffed bytes. The result says whether every
  separator was followed by \<open>SEPARATOR_POST_BYTE\<close>, where the loop stopped, and the copy.\<close>

function (sequential) header_loop :: "(nat \<Rightarrow> byte) \<Rightarrow> nat \<Rightarrow> nat \<Rightarrow> byte list \<Rightarrow> bool \<times> nat \<times> byte list" where
  "header_loop buf pos bPos out =
     (if bPos \<le> pos
      then if buf (bPos - 1) \<noteq> SEPARATOR_BYTE then header_loop buf pos (bPos + 1) (out @ [buf bPos])
           else if buf bPos \<noteq> SEPARATOR_POST_BYTE then (False, bPos, out)
           else header_loop buf pos (bPos + 1) out
      else (True, bPos, out))"
  by pat_completeness auto
termination by (relation "measure (\<lambda>(buf, pos, bPos, out). Suc pos - bPos)") auto

function (sequential) payload_loop :: "(nat \<Rightarrow> byte) \<Rightarrow> nat \<Rightarrow> nat \<Rightarrow> byte list \<Rightarrow> bool \<times> nat \<times> byte list" where
  "payload_loop buf pos bPos out =
     (if bPos \<le> pos
      then if bPos = 0 \<or> buf (bPos - 1) \<noteq> SEPARATOR_BYTE
           then payload_loop buf pos (bPos + 1) (out @ [buf bPos])
           else if buf bPos \<noteq> SEPARATOR_POST_BYTE then (False, bPos, out)
           else payload_loop buf pos (bPos + 1) out
      else (True, bPos, out))"
  by pat_completeness auto
termination by (relation "measure (\<lambda>(buf, pos, bPos, out). Suc pos - bPos)") auto

declare header_loop.simps [simp del] payload_loop.simps [simp del]

text \<open>The loop state: the handler and the locals \<^verbatim>\<open>buf_size\<close> and
  \<^verbatim>\<open>bytes_to_drop\<close>.\<close>

record process_state =
  ps_transport :: transport
  ps_buf_size :: nat
  ps_bytes_to_drop :: nat

definition next_pos :: "process_state \<Rightarrow> process_state" where
  "next_pos p = p\<lparr>ps_transport := (ps_transport p)\<lparr>tr_pos := tr_pos (ps_transport p) + 1\<rparr>\<rparr>"

text \<open>Searching for the beginning of a packet.\<close>

definition search_step :: "process_state \<Rightarrow> process_state" where
  "search_step p =
     (let t = ps_transport p; pos = tr_pos t; d = ps_bytes_to_drop p
      in if cb_get (tr_buffer t) pos = SEPARATOR_BYTE
         then if pos + 1 - d > FRAME_SEPARATORS_COUNT
              then p\<lparr>ps_bytes_to_drop := pos + 1 - FRAME_SEPARATORS_COUNT\<rparr> else p
         else if pos - d = FRAME_SEPARATORS_COUNT
              then if d > 0
                   then p\<lparr>ps_transport := (tr_drop_bytes d t)\<lparr>tr_frame_start_found := True, tr_pos := pos - d\<rparr>,
                          ps_buf_size := ps_buf_size p - d, ps_bytes_to_drop := 0\<rparr>
                   else p\<lparr>ps_transport := t\<lparr>tr_frame_start_found := True\<rparr>\<rparr>
              else p\<lparr>ps_bytes_to_drop := pos + 1\<rparr>)"

text \<open>A separator without its post byte: everything before it is dropped and the search
  starts again at the separator.\<close>

definition wrong_post_byte :: "nat \<Rightarrow> process_state \<Rightarrow> process_state" where
  "wrong_post_byte bPos p =
     (let t = tr_restart (tr_drop_bytes (bPos - 1) (ps_transport p))
      in p\<lparr>ps_transport := t, ps_buf_size := cb_get_size (tr_buffer t)\<rparr>)"

definition header_complete :: "process_state \<Rightarrow> process_state" where
  "header_complete p =
     (let t = ps_transport p; pos = tr_pos t; buf = cb_get (tr_buffer t);
          (correctFrame, bPos, headerBuffer) =
            header_loop buf pos (FRAME_SEPARATORS_COUNT + 1)
              (map buf [0..<FRAME_SEPARATORS_COUNT] @ [buf FRAME_SEPARATORS_COUNT])
      in if \<not> correctFrame then wrong_post_byte bPos p
         else let t1 = (tr_drop_bytes bPos t)\<lparr>tr_pos := 0, tr_sep_count := 0\<rparr>;
                  (f, err, _) = parse_buffer (tr_current_frame t1) headerBuffer (length headerBuffer);
                  t2 = (if err \<noteq> HEADER_ONLY
                        then t1\<lparr>tr_current_frame := reset f, tr_frame_start_found := False\<rparr>
                        else t1\<lparr>tr_current_frame := f\<rparr>)
              in p\<lparr>ps_transport := t2, ps_buf_size := ps_buf_size p - (pos + 1)\<rparr>)"

definition payload_complete :: "process_state \<Rightarrow> process_state" where
  "payload_complete p =
     (let t = ps_transport p; pos = tr_pos t; buf = cb_get (tr_buffer t);
          (correctFrame, bPos, tmp_buf) = payload_loop buf pos 0 []
      in if \<not> correctFrame then wrong_post_byte bPos p
         else let t1 = tr_drop_bytes bPos t;
                  (f, err, _) = parse_buffer (tr_current_frame t1) tmp_buf (length tmp_buf);
                  t2 = (if err = COMPLETE_FRAME
                        then let (moved, left) = move_frame f
                             in t1\<lparr>tr_incoming_queue := tr_incoming_queue t1 @
                                      [\<lparr>tf_frame = moved, tf_timestamp = tr_frame_start t1\<rparr>],
                                   tr_current_frame := left\<rparr>
                        else t1\<lparr>tr_current_frame := f\<rparr>);
                  t3 = tr_restart t2
              in p\<lparr>ps_transport := t3, ps_buf_size := cb_get_size (tr_buffer t3)\<rparr>)"

text \<open>The body of the loop; \<^verbatim>\<open>continue\<close> skips the increment of the position.\<close>

definition process_step :: "process_state \<Rightarrow> process_state" where
  "process_step p =
     (let t = ps_transport p; pos = tr_pos t
      in if \<not> tr_frame_start_found t then next_pos (search_step p)
         else let t1 = (if cb_get (tr_buffer t) pos = SEPARATOR_BYTE
                        then t\<lparr>tr_sep_count := tr_sep_count t + 1\<rparr> else t);
                  p1 = p\<lparr>ps_transport := t1\<rparr>; f = tr_current_frame t1
              in case f_status f of
                   FRAME_EMPTY \<Rightarrow>
                     if pos + 1 - tr_sep_count t1 = FRAME_HEADER_SIZE then header_complete p1
                     else next_pos p1
                 | FRAME_HEADER_ONLY \<Rightarrow>
                     if pos + 1 - tr_sep_count t1 = unat (f_data_size f) + (if f_use_crc f then 3 else 1)
                     then payload_complete p1 else next_pos p1
                 | FRAME_COMPLETE \<Rightarrow>
                     p1\<lparr>ps_transport := t1\<lparr>tr_current_frame := reset f, tr_frame_start_found := False\<rparr>\<rparr>)"

definition frame_timeout :: "millis \<Rightarrow> transport \<Rightarrow> transport" where
  "frame_timeout now t =
     (if f_status (tr_current_frame t) > FRAME_EMPTY
      then if now - tr_frame_start t > FRAME_TIMEOUT then tr_restart (tr_drop_bytes (tr_pos t) t) else t
      else t)"

definition process_data :: "millis \<Rightarrow> transport \<Rightarrow> transport option" where
  "process_data now t0 =
     (let t = frame_timeout now t0
      in if cb_is_empty (tr_buffer t) then Some t
         else map_option
           (\<lambda>p. if ps_bytes_to_drop p > 0
                 then let t' = tr_drop_bytes (ps_bytes_to_drop p) (ps_transport p)
                      in t'\<lparr>tr_pos := tr_pos t' - ps_bytes_to_drop p\<rparr>
                 else ps_transport p)
           (while_option (\<lambda>p. tr_pos (ps_transport p) < ps_buf_size p) process_step
             \<lparr>ps_transport = t, ps_buf_size = cb_get_size (tr_buffer t), ps_bytes_to_drop = 0\<rparr>))"

end
