(* ===== verification/Frame_Wire.thy ===== *)
theory Frame_Wire
  imports Haier_Frame
begin

text \<open>
  The byte layout a frame has on the wire, the invariant of a complete frame, and the
  correctness of construction, serialisation and parsing against them: what the
  constructor computes, when \<open>fill_buffer\<close> writes exactly the layout and what it writes
  when its 8-bit cursor wraps, and that the two parser calls invert the layout.
\<close>

section \<open>The layout\<close>

definition stuff1 :: "byte \<Rightarrow> byte list" where
  "stuff1 b = (if b = SEPARATOR_BYTE then [SEPARATOR_BYTE, SEPARATOR_POST_BYTE] else [b])"

definition stuff :: "byte list \<Rightarrow> byte list" where
  "stuff bs = concat (map stuff1 bs)"

definition separators :: "byte list \<Rightarrow> nat" where
  "separators bs = length (filter (\<lambda>b. b = SEPARATOR_BYTE) bs)"

definition header_bytes :: "byte \<Rightarrow> bool \<Rightarrow> byte \<Rightarrow> byte list" where
  "header_bytes n u t = [PURE_HEADER_SIZE + n, if u then USE_CRC_MASK else 0, 0, 0, 0, 0, 0, t]"

definition body :: "frame \<Rightarrow> byte list" where
  "body f = header_bytes (f_data_size f) (f_use_crc f) (f_type f) @ frame_data f"

definition trailer :: "frame \<Rightarrow> byte list" where
  "trailer f = f_checksum f # (if f_use_crc f then [crc_high f, crc_low f] else [])"

definition wire_header :: "frame \<Rightarrow> byte list" where
  "wire_header f = [SEPARATOR_BYTE, SEPARATOR_BYTE]
     @ stuff (header_bytes (f_data_size f) (f_use_crc f) (f_type f))"

definition wire_payload :: "frame \<Rightarrow> byte list" where
  "wire_payload f = stuff (frame_data f @ trailer f)"

definition wire :: "frame \<Rightarrow> byte list" where
  "wire f = wire_header f @ wire_payload f"

definition MAX_DATA_SIZE :: nat where
  "MAX_DATA_SIZE = unat (MAX_FRAME_SIZE - PURE_HEADER_SIZE)"

text \<open>A complete frame: every derived member is what the type, the flag and the data
  determine.\<close>

definition frame_ok :: "frame \<Rightarrow> bool" where
  "frame_ok f \<longleftrightarrow> f_status f = FRAME_COMPLETE \<and> unat (f_data_size f) \<le> MAX_DATA_SIZE
     \<and> length (frame_data f) = unat (f_data_size f) \<and> (f_data f = None \<longleftrightarrow> f_data_size f = 0)
     \<and> f_additional_bytes f = of_nat (separators (body f))
     \<and> f_checksum f = checksum (body f) 0 + f_additional_bytes f * SEPARATOR_POST_BYTE
     \<and> f_crc f = (if f_use_crc f then crc16 (body f) INITIAL_CRC else INITIAL_CRC)"

lemma MAX_DATA_SIZE_eq [simp]: "MAX_DATA_SIZE = 233"
  by (simp add: MAX_DATA_SIZE_def)

lemma stuff_Nil [simp]: "stuff [] = []"
  and stuff_Cons: "stuff (b # bs) = stuff1 b @ stuff bs"
  and stuff_append [simp]: "stuff (xs @ ys) = stuff xs @ stuff ys"
  by (simp_all add: stuff_def)

lemma separators_Nil [simp]: "separators [] = 0"
  and separators_Cons: "separators (b # bs) = (if b = SEPARATOR_BYTE then 1 else 0) + separators bs"
  and separators_append [simp]: "separators (xs @ ys) = separators xs + separators ys"
  by (simp_all add: separators_def)

lemma separators_le: "separators bs \<le> length bs"
  by (simp add: separators_def)

lemma length_stuff: "length (stuff bs) = length bs + separators bs"
  by (induction bs) (simp_all add: stuff_Cons stuff1_def separators_Cons)

lemma length_header_bytes [simp]: "length (header_bytes n u t) = 8"
  by (simp add: header_bytes_def)

lemma data_size_not_separator:
  "unat n \<le> MAX_DATA_SIZE \<Longrightarrow> PURE_HEADER_SIZE + n \<noteq> SEPARATOR_BYTE"
proof
  assume n: "unat n \<le> MAX_DATA_SIZE" and "PURE_HEADER_SIZE + n = SEPARATOR_BYTE"
  then have "n = SEPARATOR_BYTE - PURE_HEADER_SIZE"
    by (metis add_diff_cancel_left')
  with n show False by simp
qed

section \<open>Construction\<close>

lemma get_header_byte_ctor [simp]: "get_header_byte (ctor_data_step b f) pos = get_header_byte f pos"
  by (simp add: ctor_data_step_def get_header_byte_def Let_def)

lemma ctor_header_step_eq: "ctor_header_step pos f = ctor_data_step (get_header_byte f pos) f"
  by (simp add: ctor_header_step_def ctor_data_step_def Let_def)

lemma fold_ctor_header:
  "fold ctor_header_step ps f = fold ctor_data_step (map (get_header_byte f) ps) f"
  by (induction ps arbitrary: f) (simp_all add: ctor_header_step_eq cong: map_cong)

lemma header_positions: "[HEADER_SIZE_POS..<FRAME_HEADER_SIZE] = [2, 3, 4, 5, 6, 7, 8, 9]"
  by (simp add: upt_conv_Cons)

lemma map_get_header_byte:
  "map (get_header_byte f) [HEADER_SIZE_POS..<FRAME_HEADER_SIZE]
     = header_bytes (f_data_size f) (f_use_crc f) (f_type f)"
  unfolding header_positions by (simp add: header_bytes_def get_header_byte_def)

lemma ctor_header_loop:
  "fold ctor_header_step [HEADER_SIZE_POS..<FRAME_HEADER_SIZE] f
     = fold ctor_data_step (header_bytes (f_data_size f) (f_use_crc f) (f_type f)) f"
  by (simp only: fold_ctor_header map_get_header_byte)

lemma ctor_data_step_eq:
  "ctor_data_step b f = f\<lparr>f_checksum := f_checksum f + b,
     f_additional_bytes := f_additional_bytes f + of_nat (separators [b]),
     f_crc := (if f_use_crc f then crc16_byte b (f_crc f) else f_crc f)\<rparr>"
  by (simp add: ctor_data_step_def Let_def separators_def word_gt_0)

lemma fold_ctor_data:
  "fold ctor_data_step bs f = f\<lparr>f_checksum := checksum bs (f_checksum f),
     f_additional_bytes := f_additional_bytes f + of_nat (separators bs),
     f_crc := (if f_use_crc f then crc16 bs (f_crc f) else f_crc f)\<rparr>"
  by (induction bs arbitrary: f) (simp_all add: ctor_data_step_eq separators_Cons)

lemma new_frame_eq:
  "new_frame t data n u =
     (let d = take (unat n) data; bs = header_bytes n u t @ (if n > 0 then d else []);
          a = of_nat (separators bs)
      in \<lparr>f_type = t, f_use_crc = u, f_data_size = n,
          f_checksum = checksum bs 0 + a * SEPARATOR_POST_BYTE,
          f_crc = (if u then crc16 bs INITIAL_CRC else INITIAL_CRC),
          f_data = (if n > 0 then Some d else None), f_status = FRAME_COMPLETE,
          f_additional_bytes = a\<rparr>)"
  unfolding new_frame_def Let_def ctor_header_loop
  by (simp add: fold_ctor_data sum.run_append crc.run_append word_gt_0)

lemma new_frame_sel [simp]:
  "f_type (new_frame t data n u) = t" "f_use_crc (new_frame t data n u) = u"
  "f_data_size (new_frame t data n u) = n" "f_status (new_frame t data n u) = FRAME_COMPLETE"
  "frame_data (new_frame t data n u) = take (unat n) data"
  by (simp_all add: new_frame_eq Let_def frame_data_def word_gt_0)

lemma new_frame_ok:
  assumes "unat n \<le> MAX_DATA_SIZE" "unat n \<le> length data"
  shows "frame_ok (new_frame t data n u)"
proof -
  have "body (new_frame t data n u) = header_bytes n u t @ (if n > 0 then take (unat n) data else [])"
    by (simp add: body_def word_gt_0)
  then show ?thesis
    using assms by (auto simp: frame_ok_def) (simp_all add: new_frame_eq Let_def word_gt_0)
qed

text \<open>A complete frame is determined by its type, flag and data.\<close>

lemma frame_ok_eq_new_frame:
  assumes "frame_ok f"
  shows "f = new_frame (f_type f) (frame_data f) (f_data_size f) (f_use_crc f)"
proof -
  have "body f = header_bytes (f_data_size f) (f_use_crc f) (f_type f)
      @ (if f_data_size f > 0 then frame_data f else [])"
    using assms by (auto simp: body_def frame_ok_def word_gt_0)
  moreover have "f_data f = (if f_data_size f > 0 then Some (frame_data f) else None)"
    using assms by (auto simp: frame_ok_def frame_data_def word_gt_0 split: option.splits)
  ultimately show ?thesis
    using assms by (auto simp: frame_ok_def new_frame_eq Let_def intro!: frame.equality)
qed

section \<open>Size\<close>

lemma separators_body:
  assumes "frame_ok f"
  shows "separators (body f) < 256" "unat (f_additional_bytes f) = separators (body f)"
proof -
  have "separators (header_bytes (f_data_size f) (f_use_crc f) (f_type f)) \<le> 8"
    using separators_le [of "header_bytes (f_data_size f) (f_use_crc f) (f_type f)"] by simp
  moreover have "separators (frame_data f) \<le> 233"
    using separators_le [of "frame_data f"] assms by (simp add: frame_ok_def)
  ultimately show lt: "separators (body f) < 256"
    by (simp add: body_def)
  then show "unat (f_additional_bytes f) = separators (body f)"
    using assms by (simp add: frame_ok_def unat_of_nat)
qed

lemma ucast_byte_inj: "(ucast (a::byte) :: u16) = ucast b \<longleftrightarrow> a = b"
  by (metis bit_eqI bit_ucast_byte)

lemma crc_low_separator: "f_crc f AND 0xFF = ucast SEPARATOR_BYTE \<longleftrightarrow> crc_low f = SEPARATOR_BYTE"
  and crc_high_separator: "drop_bit 8 (f_crc f) AND 0xFF = ucast SEPARATOR_BYTE \<longleftrightarrow> crc_high f = SEPARATOR_BYTE"
proof -
  have m: "(0xFF :: u16) = mask 8" by (simp add: mask_eq_exp_minus_1)
  have u: "x AND 0xFF = ucast (ucast (x AND 0xFF) :: byte)" for x :: u16
    unfolding m by (rule bit_eqI) (auto simp: bit_and_iff bit_mask_iff bit_unsigned_iff)
  have "x AND 0xFF = ucast SEPARATOR_BYTE \<longleftrightarrow> ucast (x AND 0xFF) = SEPARATOR_BYTE" for x :: u16
    unfolding ucast_byte_inj [symmetric] u [of x, symmetric] ..
  then show "f_crc f AND 0xFF = ucast SEPARATOR_BYTE \<longleftrightarrow> crc_low f = SEPARATOR_BYTE"
    and "drop_bit 8 (f_crc f) AND 0xFF = ucast SEPARATOR_BYTE \<longleftrightarrow> crc_high f = SEPARATOR_BYTE"
    by (simp_all only: crc_low_def crc_high_def)
qed

lemma get_buffer_size_wire:
  assumes "frame_ok f"
  shows "get_buffer_size f = length (wire f)"
proof -
  have "get_buffer_size f = 10 + length (frame_data f) + separators (body f)
      + (if f_checksum f = SEPARATOR_BYTE then 2 else 1)
      + (if f_use_crc f then 2 + (if crc_low f = SEPARATOR_BYTE then 1 else 0)
          + (if crc_high f = SEPARATOR_BYTE then 1 else 0) else 0)"
    unfolding get_buffer_size_def crc_low_separator crc_high_separator
    using assms separators_body(2) [OF assms] by (simp add: frame_ok_def)
  then show ?thesis
    by (simp add: wire_def wire_header_def wire_payload_def trailer_def length_stuff body_def separators_Cons)
qed

lemma wire_bounds:
  assumes "frame_ok f"
  shows "length (wire f) \<le> 490"
proof -
  have "length (trailer f) \<le> 3" by (simp add: trailer_def)
  moreover have "separators (trailer f) \<le> length (trailer f)"
    "separators (frame_data f) \<le> length (frame_data f)"
    "separators (header_bytes (f_data_size f) (f_use_crc f) (f_type f)) \<le> 8"
    using separators_le [of "trailer f"] separators_le [of "frame_data f"]
      separators_le [of "header_bytes (f_data_size f) (f_use_crc f) (f_type f)"] by simp_all
  ultimately show ?thesis
    using assms by (simp add: wire_def wire_header_def wire_payload_def length_stuff frame_ok_def)
qed

section \<open>Serialisation\<close>

text \<open>All of \<open>fill_buffer\<close> is one run of \<open>write_byte\<close> over the layout.\<close>

lemma set_with_post_byte_eq: "set_with_post_byte v = fold write_byte (stuff1 v)"
  by (rule ext) (simp add: set_with_post_byte_def stuff1_def Let_def)

lemma fold_set_with_post_byte: "fold set_with_post_byte vs = fold write_byte (stuff vs)"
  by (induction vs) (auto simp: stuff_Cons set_with_post_byte_eq)

lemma fold_positions: "fold (\<lambda>i. g (h i)) ps = fold g (map h ps)"
  by (induction ps) simp_all

lemma separator_positions:
  "map (get_header_byte f) [0..<FRAME_SEPARATORS_COUNT] = [SEPARATOR_BYTE, SEPARATOR_BYTE]"
  by (simp add: upt_conv_Cons get_header_byte_def)

lemma fill_buffer_fold:
  assumes "frame_ok f" "length (wire f) \<le> limit"
  shows "fill_buffer f buf limit = (length (wire f), fst (fold write_byte (wire f) (buf, 0)))"
proof -
  have hb: "fold (\<lambda>i. set_with_post_byte (get_header_byte f i)) [FRAME_SEPARATORS_COUNT..<FRAME_HEADER_SIZE]
      = fold write_byte (stuff (header_bytes (f_data_size f) (f_use_crc f) (f_type f)))"
    unfolding fold_positions map_get_header_byte fold_set_with_post_byte ..
  have sb: "fold (\<lambda>i. write_byte (get_header_byte f i)) [0..<FRAME_SEPARATORS_COUNT]
      = fold write_byte [SEPARATOR_BYTE, SEPARATOR_BYTE]"
    unfolding fold_positions separator_positions ..
  have "take (unat (f_data_size f)) (frame_data f) = frame_data f"
    using assms(1) by (simp add: frame_ok_def)
  then show ?thesis
    unfolding fill_buffer_def get_buffer_size_wire [OF assms(1)] Let_def hb sb fold_set_with_post_byte
    using assms(2)
    by (simp add: wire_def wire_header_def wire_payload_def trailer_def stuff_Cons set_with_post_byte_eq)
qed

lemma write_byte_ring: "fst (fold write_byte vs (buf, p)) = ring_put 256 buf (unat p) vs"
proof (induction vs arbitrary: buf p)
  case (Cons v vs)
  have "unat (p + 1) = Suc (unat p) mod 256"
    by (simp add: unat_word_ariths)
  then show ?case
    using Cons by (simp add: write_byte_def)
qed simp

lemma fill_buffer_fits:
  assumes "frame_ok f" "length (wire f) \<le> limit" "limit \<le> length buf" "length (wire f) \<le> 256"
  shows "fill_buffer f buf limit = (length (wire f), wire f @ drop (length (wire f)) buf)"
proof -
  have "ring_put 256 buf 0 (wire f) = seg_put buf 0 (wire f)"
    using assms by (intro ring_put_seg_put) simp_all
  then show ?thesis
    using assms by (simp add: fill_buffer_fold write_byte_ring seg_put_def)
qed

text \<open>Beyond 256 bytes the cursor starts again at the beginning of the buffer.\<close>

lemma fill_buffer_wraps:
  assumes "frame_ok f" "length (wire f) \<le> limit" "limit \<le> length buf" "256 < length (wire f)"
  shows "fill_buffer f buf limit = (length (wire f),
    drop 256 (wire f) @ drop (length (wire f) - 256) (take 256 (wire f)) @ drop 256 buf)"
proof -
  define w where "w = wire f"
  have w: "256 < length w" "length w \<le> 490" "length w \<le> length buf"
    using assms wire_bounds [OF assms(1)] by (simp_all add: w_def)
  have "ring_put 256 buf 0 w = ring_put 256 buf 0 (take 256 w @ drop 256 w)"
    by simp
  also have "\<dots> = ring_put 256 (ring_put 256 buf 0 (take 256 w)) 0 (drop 256 w)"
    using w by (subst ring_put_append) (simp_all del: append_take_drop_id)
  also have "ring_put 256 buf 0 (take 256 w) = seg_put buf 0 (take 256 w)"
    using w by (intro ring_put_seg_put) simp_all
  also have "ring_put 256 (seg_put buf 0 (take 256 w)) 0 (drop 256 w)
      = seg_put (seg_put buf 0 (take 256 w)) 0 (drop 256 w)"
    using w by (intro ring_put_seg_put) simp_all
  also have "\<dots> = drop 256 w @ drop (length w - 256) (take 256 w) @ drop 256 buf"
    using w by (simp add: seg_put_def)
  finally show ?thesis
    using assms by (simp add: fill_buffer_fold write_byte_ring w_def)
qed

end
