(* ===== verification/Frame_Parse.thy ===== *)
theory Frame_Parse
  imports Frame_Wire
begin

text \<open>
  The parser against the layout: a closed form of each of the two calls the transport
  layer makes, the round trip of every complete frame through them, which payloads are
  accepted, which corruptions are always rejected, and what a single call on a whole
  frame does.
\<close>

section \<open>Closed forms\<close>

definition be16 :: "byte \<Rightarrow> byte \<Rightarrow> u16" where
  "be16 hi lo = ucast lo + push_bit 8 (ucast hi)"

text \<open>The frame after the header call, for any eight header bytes.\<close>

definition header_frame :: "byte list \<Rightarrow> frame" where
  "header_frame hdr =
     \<lparr>f_type = hdr ! 7, f_use_crc = (hdr ! 1 AND USE_CRC_MASK \<noteq> 0),
      f_data_size = hdr ! 0 - PURE_HEADER_SIZE, f_checksum = checksum hdr 0,
      f_crc = (if hdr ! 1 AND USE_CRC_MASK \<noteq> 0 then crc16 hdr INITIAL_CRC else INITIAL_CRC),
      f_data = None, f_status = FRAME_HEADER_ONLY, f_additional_bytes = of_nat (separators [hdr ! 7])\<rparr>"

text \<open>The frame after an accepted payload.\<close>

definition complete_frame :: "frame \<Rightarrow> byte list \<Rightarrow> frame" where
  "complete_frame h d =
     (let a = f_additional_bytes h + of_nat (separators d)
      in h\<lparr>f_additional_bytes := a,
           f_crc := (if f_use_crc h then crc16 d (f_crc h) else INITIAL_CRC),
           f_checksum := checksum d (f_checksum h) + a * SEPARATOR_POST_BYTE,
           f_status := FRAME_COMPLETE, f_data := (if d \<noteq> [] then Some d else None)\<rparr>)"

lemma list8_cases:
  assumes "length xs = 8"
  obtains a b c d e f g h where "xs = [a, b, c, d, e, f, g, h]"
proof -
  have "xs = [xs ! 0, xs ! 1, xs ! 2, xs ! 3, xs ! 4, xs ! 5, xs ! 6, xs ! 7]"
    using assms by (intro nth_equalityI) (auto simp: less_Suc_eq numeral_eq_Suc)
  then show ?thesis by (rule that)
qed

lemma scan_header_eq:
  assumes "length hdr = 8"
  shows "scan_header ([s0, s1] @ hdr @ rest) a =
    \<lparr>hs_fsize = hdr ! 0, hs_use_crc = (hdr ! 1 AND USE_CRC_MASK \<noteq> 0), hs_type = hdr ! 7,
     hs_chk = checksum hdr 0,
     hs_crc = (if hdr ! 1 AND USE_CRC_MASK \<noteq> 0 then crc16 hdr INITIAL_CRC else INITIAL_CRC),
     hs_additional = of_nat (separators [hdr ! 7])\<rparr>"
proof -
  obtain n fl r1 r2 r3 r4 r5 t where h: "hdr = [n, fl, r1, r2, r3, r4, r5, t]"
    using assms by (rule list8_cases)
  define buf where "buf = [s0, s1] @ hdr @ rest"
  have nth: "buf ! 2 = n" "buf ! 3 = fl" "buf ! 4 = r1" "buf ! 5 = r2" "buf ! 6 = r3" "buf ! 7 = r4"
    "buf ! 8 = r5" "buf ! 9 = t"
    by (simp_all add: buf_def h)
  show ?thesis
    unfolding scan_header_def header_positions buf_def [symmetric]
    by (cases "fl AND USE_CRC_MASK = 0"; cases "t = SEPARATOR_BYTE")
      (simp_all add: h nth scan_step_def separators_def)
qed

lemma parse_header_eq:
  assumes "length hdr = 8"
  shows "parse_buffer empty_frame ([SEPARATOR_BYTE, SEPARATOR_BYTE] @ hdr) 10 =
    (if hdr ! 0 < PURE_HEADER_SIZE
     then (empty_frame\<lparr>f_additional_bytes := of_nat (separators [hdr ! 7])\<rparr>, FRAME_TOO_SMALL, 10)
     else if hdr ! 0 > MAX_FRAME_SIZE
     then (empty_frame\<lparr>f_additional_bytes := of_nat (separators [hdr ! 7])\<rparr>, FRAME_TOO_BIG, 10)
     else (header_frame hdr, HEADER_ONLY, 10))"
  using scan_header_eq [OF assms, of SEPARATOR_BYTE SEPARATOR_BYTE "[]"]
  by (simp add: parse_buffer_def empty_frame_def header_frame_def Let_def)

lemma parse_header_separators:
  assumes "length hdr = 8" "s0 \<noteq> SEPARATOR_BYTE \<or> s1 \<noteq> SEPARATOR_BYTE"
  shows "parse_buffer empty_frame ([s0, s1] @ hdr) 10 = (empty_frame, FRAME_SEPARATOR_WRONG, 0)"
  using assms by (auto simp: parse_buffer_def empty_frame_def)

lemma fold_count_step: "fold count_step bs a = a + of_nat (separators bs)"
  by (induction bs arbitrary: a) (simp_all add: count_step_def separators_Cons)

definition trailer_size :: "frame \<Rightarrow> nat" where
  "trailer_size f = (if f_use_crc f then 3 else 1)"

lemma unat_min_size:
  "unat (f_data_size f) \<le> MAX_DATA_SIZE \<Longrightarrow>
     unat (f_data_size f + (if f_use_crc f then 3 else 1)) = unat (f_data_size f) + trailer_size f"
  by (auto simp: trailer_size_def unat_word_ariths)

lemma parse_payload_eq:
  assumes "f_status f = FRAME_HEADER_ONLY" "unat (f_data_size f) \<le> MAX_DATA_SIZE"
    and "length d = unat (f_data_size f)" "length tr = trailer_size f"
  shows "parse_buffer f (d @ tr) (length d + length tr) =
    (let f1 = f\<lparr>f_additional_bytes := f_additional_bytes f + of_nat (separators d)\<rparr>
     in if f_use_crc f \<and> crc16 d (f_crc f) \<noteq> be16 (tr ! 1) (tr ! 2) then (f1, CRC_WRONG, 0)
        else if f_checksum (complete_frame f d) \<noteq> tr ! 0 then (f1, CHECKSUM_WRONG, 0)
        else (complete_frame f d, COMPLETE_FRAME, 0))"
proof -
  have z: "f_data_size f \<noteq> 0 \<longleftrightarrow> d \<noteq> []"
    using assms(3) by (metis length_0_conv unat_eq_zero)
  have t: "(d @ tr) ! (length d + i) = tr ! i" for i
    by (simp add: nth_append)
  show ?thesis
  proof (cases "f_use_crc f")
    case True
    then have "trailer_size f = 3" by (simp add: trailer_size_def)
    then show ?thesis
      using True assms z t [of 0] t [of 1] t [of 2] unat_min_size [OF assms(2)]
      by (simp add: parse_buffer_def parse_payload_def finish_payload_def complete_frame_def Let_def
          fold_count_step be16_def)
  next
    case False
    then have "trailer_size f = 1" by (simp add: trailer_size_def)
    then show ?thesis
      using False assms z t [of 0] unat_min_size [OF assms(2)]
      by (simp add: parse_buffer_def parse_payload_def finish_payload_def complete_frame_def Let_def
          fold_count_step)
  qed
qed

section \<open>Round trip\<close>

lemma be16_crc: "be16 (crc_high f) (crc_low f) = f_crc f"
proof -
  have m: "(0xFF :: u16) = mask 8" by (simp add: mask_eq_exp_minus_1)
  have lo: "bit (ucast (crc_low f) :: u16) n \<longleftrightarrow> n < 8 \<and> bit (f_crc f) n" for n
    unfolding crc_low_def m by (auto simp: bit_and_iff bit_mask_iff bit_unsigned_iff)
  have hi: "bit (push_bit 8 (ucast (crc_high f)) :: u16) n \<longleftrightarrow> 8 \<le> n \<and> bit (f_crc f) n" for n
    unfolding crc_high_def m
    using bit_imp_le_length [of "f_crc f" n]
    by (auto simp: bit_push_bit_iff bit_and_iff bit_mask_iff bit_unsigned_iff bit_drop_bit_eq)
  have "be16 (crc_high f) (crc_low f) = ucast (crc_low f) OR push_bit 8 (ucast (crc_high f))"
    unfolding be16_def by (rule disjunctive_add_eq_or) (rule bit_eqI, auto simp: bit_and_iff lo hi)
  then show ?thesis
    by (auto intro!: bit_eqI simp: bit_or_iff lo hi)
qed

lemma header_bytes_nth [simp]:
  "header_bytes n u t ! 0 = PURE_HEADER_SIZE + n" "header_bytes n u t ! Suc 0 = (if u then USE_CRC_MASK else 0)"
  "header_bytes n u t ! 7 = t"
  by (simp_all add: header_bytes_def)

lemma separators_header_bytes:
  "unat n \<le> MAX_DATA_SIZE \<Longrightarrow> separators (header_bytes n u t) = separators [t]"
  using data_size_not_separator [of n] by (simp add: header_bytes_def separators_Cons)

lemma header_size_bounds:
  assumes "unat n \<le> MAX_DATA_SIZE"
  shows "\<not> PURE_HEADER_SIZE + n < PURE_HEADER_SIZE" "\<not> PURE_HEADER_SIZE + n > MAX_FRAME_SIZE"
proof -
  have "unat (PURE_HEADER_SIZE + n) = 8 + unat n"
    using assms by (subst unat_word_ariths) simp
  then show "\<not> PURE_HEADER_SIZE + n < PURE_HEADER_SIZE" "\<not> PURE_HEADER_SIZE + n > MAX_FRAME_SIZE"
    using assms by (simp_all add: word_less_nat_alt)
qed

lemma parse_header_roundtrip:
  assumes "unat n \<le> MAX_DATA_SIZE"
  shows "parse_buffer empty_frame ([SEPARATOR_BYTE, SEPARATOR_BYTE] @ header_bytes n u t) 10
    = (header_frame (header_bytes n u t), HEADER_ONLY, 10)"
  using header_size_bounds [OF assms] by (simp only: parse_header_eq length_header_bytes header_bytes_nth if_False)

lemma header_frame_sel [simp]:
  "f_status (header_frame hdr) = FRAME_HEADER_ONLY" "f_data (header_frame hdr) = None"
  "f_use_crc (header_frame (header_bytes n u t)) = u" "f_data_size (header_frame (header_bytes n u t)) = n"
  "f_type (header_frame (header_bytes n u t)) = t"
  by (simp_all add: header_frame_def)

lemma complete_frame_roundtrip:
  assumes "frame_ok f"
  shows "complete_frame (header_frame (header_bytes (f_data_size f) (f_use_crc f) (f_type f))) (frame_data f) = f"
proof -
  let ?h = "header_bytes (f_data_size f) (f_use_crc f) (f_type f)"
  have n: "unat (f_data_size f) \<le> MAX_DATA_SIZE" and len: "length (frame_data f) = unat (f_data_size f)"
    using assms by (simp_all add: frame_ok_def)
  have u: "f_use_crc (header_frame ?h) = f_use_crc f" by simp
  have add: "f_additional_bytes (header_frame ?h) + of_nat (separators (frame_data f)) = f_additional_bytes f"
    using assms separators_header_bytes [OF n] by (simp add: header_frame_def frame_ok_def body_def)
  have crc: "(if f_use_crc f then crc16 (frame_data f) (f_crc (header_frame ?h)) else INITIAL_CRC) = f_crc f"
    using assms by (simp add: header_frame_def frame_ok_def body_def crc.run_append)
  have chk: "checksum (frame_data f) (f_checksum (header_frame ?h)) + f_additional_bytes f * SEPARATOR_POST_BYTE
      = f_checksum f"
    using assms by (simp add: header_frame_def frame_ok_def body_def sum.run_append)
  have d: "(if frame_data f \<noteq> [] then Some (frame_data f) else None) = f_data f"
    using assms by (cases "f_data f") (auto simp: frame_ok_def frame_data_def unat_eq_zero)
  have "complete_frame (header_frame ?h) (frame_data f)
      = (header_frame ?h)\<lparr>f_additional_bytes := f_additional_bytes f, f_crc := f_crc f,
          f_checksum := f_checksum f, f_status := f_status f, f_data := f_data f\<rparr>"
    unfolding complete_frame_def Let_def u add crc chk d using assms by (simp add: frame_ok_def)
  also have "\<dots> = f"
    by (rule frame.equality) simp_all
  finally show ?thesis .
qed

lemma trailer_nth:
  "trailer f ! 0 = f_checksum f" "f_use_crc f \<Longrightarrow> be16 (trailer f ! 1) (trailer f ! 2) = f_crc f"
  by (simp_all add: trailer_def be16_crc)

lemma length_trailer: "length (trailer f) = trailer_size f"
  by (simp add: trailer_def trailer_size_def)

lemma parse_payload_roundtrip:
  assumes "frame_ok f"
  shows "parse_buffer (header_frame (header_bytes (f_data_size f) (f_use_crc f) (f_type f)))
      (frame_data f @ trailer f) (length (frame_data f) + length (trailer f)) = (f, COMPLETE_FRAME, 0)"
proof -
  let ?h = "header_frame (header_bytes (f_data_size f) (f_use_crc f) (f_type f))"
  have h: "f_status ?h = FRAME_HEADER_ONLY" "unat (f_data_size ?h) \<le> MAX_DATA_SIZE"
    "length (frame_data f) = unat (f_data_size ?h)" "length (trailer f) = trailer_size ?h"
    using assms length_trailer [of f] by (simp_all add: frame_ok_def trailer_size_def)
  have "f_use_crc f \<Longrightarrow> crc16 (frame_data f) (f_crc ?h) = f_crc f"
    using arg_cong [OF complete_frame_roundtrip [OF assms], of f_crc] by (simp add: complete_frame_def Let_def)
  then show ?thesis
    unfolding parse_payload_eq [OF h] Let_def complete_frame_roundtrip [OF assms]
    using trailer_nth [of f] by auto
qed

lemma parse_payload_accepted:
  "k = length (frame_data f) + length (trailer f) \<Longrightarrow> frame_ok f \<Longrightarrow>
     fst (snd (parse_buffer (header_frame (header_bytes (f_data_size f) (f_use_crc f) (f_type f)))
       (frame_data f @ trailer f) k)) = COMPLETE_FRAME"
  by (simp add: parse_payload_roundtrip)

section \<open>Corruption\<close>

lemma checksum_start: "checksum ds c = c + checksum ds 0"
proof (induction ds arbitrary: c)
  case (Cons d ds)
  have "checksum (d # ds) c = c + d + checksum ds 0"
    using Cons [of "c + d"] by simp
  also have "\<dots> = c + checksum (d # ds) 0"
    using Cons [of d] by (simp add: add.assoc)
  finally show ?case .
qed simp

lemma checksum_middle: "checksum (xs @ a # ys) c = checksum (xs @ ys) c + a"
  by (simp add: sum.run_append checksum_start [of ys "checksum xs c + a"] checksum_start [of ys "checksum xs c"])

text \<open>The contribution of one data byte to the expected checksum: a separator byte also
  counts for the byte stuffed behind it.\<close>

definition weight :: "byte \<Rightarrow> byte" where
  "weight b = b + of_nat (separators [b]) * SEPARATOR_POST_BYTE"

lemma complete_checksum:
  "f_checksum (complete_frame h (xs @ a # ys)) = f_checksum (complete_frame h (xs @ ys)) + weight a"
  by (simp add: complete_frame_def Let_def checksum_middle weight_def separators_Cons algebra_simps)

lemma weight_eq_iff: "weight a = weight b \<longleftrightarrow> a = b \<or> (a = 0xFF \<and> b = 0x54) \<or> (a = 0x54 \<and> b = 0xFF)"
proof -
  have "weight c = (if c = 0xFF then 0x54 else c)" for c
    by (simp add: weight_def separators_def)
  then show ?thesis by auto
qed

lemma accepted_iff:
  assumes "f_status f = FRAME_HEADER_ONLY" "unat (f_data_size f) \<le> MAX_DATA_SIZE"
    and "length d = unat (f_data_size f)" "length tr = trailer_size f"
  shows "fst (snd (parse_buffer f (d @ tr) (length d + length tr))) = COMPLETE_FRAME \<longleftrightarrow>
    (f_use_crc f \<longrightarrow> crc16 d (f_crc f) = be16 (tr ! 1) (tr ! 2)) \<and> f_checksum (complete_frame f d) = tr ! 0"
  unfolding parse_payload_eq [OF assms] by (simp add: Let_def)

section \<open>Properties\<close>

text \<open>Claim C36. Construction establishes the frame invariant: for any type, flag and up to
  233 data bytes the constructor's running updates leave the additional-byte count, the
  checksum (the sum of header and data plus \<open>0x55\<close> per stuffed byte) and the CRC-16/ARC of
  header and data.\<close>

theorem constructor_establishes_invariant:
  fixes t :: byte and u :: bool
  assumes "unat n \<le> MAX_DATA_SIZE" "length d = unat n"
  defines "f \<equiv> new_frame t d n u"
  shows "frame_ok f \<and> frame_data f = d
    \<and> f_checksum f = checksum (header_bytes n u t @ d) 0
        + of_nat (separators (header_bytes n u t @ d)) * SEPARATOR_POST_BYTE
    \<and> f_crc f = (if u then crc16_arc (header_bytes n u t @ d) 0 else 0)"
  using new_frame_ok [OF assms(1), of d] assms(2)
  by (auto simp: f_def frame_ok_def body_def crc16_eq INITIAL_CRC_def)

theorem constructor_establishes_invariant_witness:
  "frame_ok (new_frame 0x01 [0x4D, 0x01] 2 True)"
  using constructor_establishes_invariant [of 2 "[0x4D, 0x01]" "0x01" True] by simp

text \<open>Serialisation: whenever the layout is at most 256 bytes long,
  \<open>get_buffer_size\<close> is its exact length and \<open>fill_buffer\<close> writes exactly the layout (two
  separators, then header, data, checksum and CRC with \<open>0x55\<close> behind each \<open>0xFF\<close>) and nothing
  after it; with a smaller limit it writes nothing.\<close>

lemma fill_buffer_exact:
  assumes "frame_ok f" "length (wire f) \<le> 256" "limit \<le> length buf"
  shows "get_buffer_size f = length (wire f)
    \<and> fill_buffer f buf limit =
        (if limit < length (wire f) then (0, buf)
         else (length (wire f), wire f @ drop (length (wire f)) buf))"
proof (cases "limit < length (wire f)")
  case True
  then show ?thesis
    using get_buffer_size_wire [OF assms(1)] by (simp add: fill_buffer_def)
next
  case False
  then show ?thesis
    using fill_buffer_fits [OF assms(1) _ assms(3,2)] get_buffer_size_wire [OF assms(1)] by simp
qed

lemma fill_buffer_exact_example:
  "fill_buffer (new_frame 0x09 [] 0 False) (replicate 11 0) 11
     = (11, [0xFF, 0xFF, 8, 0, 0, 0, 0, 0, 0, 0x09, 0x11])"
proof -
  have w: "wire (new_frame 0x09 [] 0 False) = [0xFF, 0xFF, 8, 0, 0, 0, 0, 0, 0, 0x09, 0x11]"
    by (simp add: new_frame_eq wire_def wire_header_def wire_payload_def header_bytes_def stuff_Cons
        stuff1_def trailer_def frame_data_def separators_def Let_def)
  show ?thesis
    using fill_buffer_exact [OF new_frame_ok, of 0 "[]" "0x09" False 11 "replicate 11 0"] w by simp
qed

text \<open>Claim C38. Long frames are corrupted: when stuffing makes the layout longer than 256
  bytes, the 8-bit write cursor wraps, the tail of the frame overwrites its first bytes
  and every byte from index 256 on is left as the buffer was, although \<open>fill_buffer\<close> reports
  the full size.\<close>

theorem fill_buffer_cursor_wraps:
  assumes "frame_ok f" "256 < length (wire f)" "length (wire f) = length buf"
  shows "fill_buffer f buf (length buf) =
    (length (wire f), drop 256 (wire f) @ drop (length (wire f) - 256) (take 256 (wire f)) @ drop 256 buf)"
  using fill_buffer_wraps [of f "length buf" buf] assms by simp

theorem fill_buffer_cursor_wraps_witness:
  "length (wire (new_frame 0x01 (replicate 130 0xFF) 130 False)) = 271 \<and>
   drop 256 (snd (fill_buffer (new_frame 0x01 (replicate 130 0xFF) 130 False) (replicate 271 0xAA) 271))
     = replicate 15 0xAA"
proof -
  let ?f = "new_frame 0x01 (replicate 130 0xFF) 130 False"
  have ok: "frame_ok ?f" by (rule new_frame_ok) simp_all
  have h: "separators (header_bytes 130 False 1) = 0"
    by (simp add: header_bytes_def separators_def)
  have d: "separators (replicate 130 0xFF) = 130"
    by (simp add: separators_def)
  have c: "checksum (replicate n b) c = c + of_nat n * b" for n :: nat and b c :: byte
    by (induction n arbitrary: c) (simp_all add: algebra_simps)
  have "checksum (header_bytes 130 False 1) 0 = 0x8B"
    by (simp add: header_bytes_def)
  then have "f_checksum ?f = 0x33"
    using h d by (simp add: new_frame_eq Let_def sum.run_append c)
  then have len: "length (wire ?f) = 271"
    using h d by (simp add: wire_def wire_header_def wire_payload_def length_stuff trailer_def separators_Cons)
  show ?thesis
    using fill_buffer_cursor_wraps [OF ok, of "replicate 271 0xAA"] len by simp
qed

text \<open>Claim C32. Parsing inverts the layout: from an empty frame, the header call on the ten
  header bytes and then the payload call on the data and trailer return \<open>HEADER_ONLY\<close> and
  \<open>COMPLETE_FRAME\<close> and rebuild the sent frame in every member.\<close>

theorem parse_inverts_layout:
  assumes "frame_ok f"
  shows "\<exists>h. parse_buffer empty_frame
        ([SEPARATOR_BYTE, SEPARATOR_BYTE] @ header_bytes (f_data_size f) (f_use_crc f) (f_type f)) 10
          = (h, HEADER_ONLY, 10)
      \<and> parse_buffer h (frame_data f @ trailer f) (length (frame_data f @ trailer f)) = (f, COMPLETE_FRAME, 0)"
  using assms parse_payload_roundtrip [OF assms] parse_header_roundtrip [of "f_data_size f"]
  by (auto simp: frame_ok_def)

theorem parse_inverts_layout_witness:
  "\<exists>h. parse_buffer empty_frame [0xFF, 0xFF, 10, 0, 0, 0, 0, 0, 0, 1] 10 = (h, HEADER_ONLY, 10)
     \<and> parse_buffer h [0x4D, 0x01, 0x59] 3 = (new_frame 1 [0x4D, 0x01] 2 False, COMPLETE_FRAME, 0)"
  using parse_inverts_layout [OF new_frame_ok, of 2 "[0x4D, 0x01]" 1 False]
  by (simp add: header_bytes_def trailer_def numeral_3_eq_3)
    (simp add: new_frame_eq Let_def header_bytes_def separators_def numeral_3_eq_3)

text \<open>Claim C33. Error detection with CRC: if a payload is accepted, the payload that differs
  from it in exactly one data byte is rejected with \<open>CRC_WRONG\<close>, whichever byte it is and
  whatever it became.\<close>

theorem single_byte_error_detected:
  assumes "f_status h = FRAME_HEADER_ONLY" "unat (f_data_size h) \<le> MAX_DATA_SIZE" "f_use_crc h"
    and "length (xs @ a # ys) = unat (f_data_size h)" "length tr = 3" "a \<noteq> b"
    and "fst (snd (parse_buffer h ((xs @ a # ys) @ tr) (unat (f_data_size h) + 3))) = COMPLETE_FRAME"
  shows "fst (snd (parse_buffer h ((xs @ b # ys) @ tr) (unat (f_data_size h) + 3))) = CRC_WRONG"
proof -
  have t: "trailer_size h = 3" using assms(3) by (simp add: trailer_size_def)
  have "crc16 (xs @ a # ys) (f_crc h) = be16 (tr ! 1) (tr ! 2)"
    using accepted_iff [of h "xs @ a # ys" tr] assms t by simp
  then have "crc16 (xs @ b # ys) (f_crc h) \<noteq> be16 (tr ! 1) (tr ! 2)"
    using crc.run_one_byte_differs [of xs a ys "f_crc h" b] assms(6) by auto
  then show ?thesis
    using parse_payload_eq [of h "xs @ b # ys" tr] assms t by (simp add: Let_def)
qed

theorem single_byte_error_detected_witness:
  "\<exists>h tr. fst (snd (parse_buffer h ([0x4D, 0x01] @ tr) 5)) = COMPLETE_FRAME
     \<and> fst (snd (parse_buffer h ([0x4D, 0xFF] @ tr) 5)) = CRC_WRONG"
proof -
  let ?f = "new_frame 1 [0x4D, 0x01] 2 True"
  let ?h = "header_frame (header_bytes 2 True 1)"
  have "frame_ok ?f" by (rule new_frame_ok) simp_all
  then have ok: "fst (snd (parse_buffer ?h ([0x4D, 0x01] @ trailer ?f) 5)) = COMPLETE_FRAME"
    using parse_payload_accepted [of 5 ?f] by (simp add: trailer_def)
  then have "fst (snd (parse_buffer ?h ([0x4D, 0xFF] @ trailer ?f) 5)) = CRC_WRONG"
    using single_byte_error_detected [of ?h "[0x4D]" "0x01" "[]" "trailer ?f" "0xFF"]
    by (simp add: trailer_def)
  with ok show ?thesis by blast
qed

text \<open>Error detection without CRC: a one-byte change in an accepted payload stays
  undetected exactly when it swaps \<open>0xFF\<close> and \<open>0x54\<close>, because the stuffed \<open>0x55\<close> counted for
  \<open>0xFF\<close> makes the two weigh the same in the checksum.\<close>

lemma checksum_blind_spot:
  assumes "f_status h = FRAME_HEADER_ONLY" "unat (f_data_size h) \<le> MAX_DATA_SIZE" "\<not> f_use_crc h"
    and "length (xs @ a # ys) = unat (f_data_size h)" "length tr = 1" "a \<noteq> b"
    and "fst (snd (parse_buffer h ((xs @ a # ys) @ tr) (unat (f_data_size h) + 1))) = COMPLETE_FRAME"
  shows "fst (snd (parse_buffer h ((xs @ b # ys) @ tr) (unat (f_data_size h) + 1))) = COMPLETE_FRAME
    \<longleftrightarrow> {a, b} = {0xFF, 0x54}"
proof -
  have t: "trailer_size h = 1" using assms(3) by (simp add: trailer_size_def)
  have "f_checksum (complete_frame h (xs @ ys)) + weight a = tr ! 0"
    using accepted_iff [of h "xs @ a # ys" tr] assms t by (simp add: complete_checksum)
  then have "fst (snd (parse_buffer h ((xs @ b # ys) @ tr) (unat (f_data_size h) + 1))) = COMPLETE_FRAME
      \<longleftrightarrow> f_checksum (complete_frame h (xs @ ys)) + weight b
        = f_checksum (complete_frame h (xs @ ys)) + weight a"
    using accepted_iff [of h "xs @ b # ys" tr] assms t by (simp add: complete_checksum)
  then show ?thesis
    using assms(6) by (auto simp: weight_eq_iff doubleton_eq_iff)
qed

lemma checksum_blind_spot_example:
  "\<exists>h tr. fst (snd (parse_buffer h ([0xFF] @ tr) 2)) = COMPLETE_FRAME
     \<and> fst (snd (parse_buffer h ([0x54] @ tr) 2)) = COMPLETE_FRAME"
proof -
  let ?f = "new_frame 1 [0xFF] 1 False"
  let ?h = "header_frame (header_bytes 1 False 1)"
  have "frame_ok ?f" by (rule new_frame_ok) simp_all
  then have ok: "fst (snd (parse_buffer ?h ([0xFF] @ trailer ?f) 2)) = COMPLETE_FRAME"
    using parse_payload_accepted [of 2 ?f] by (simp add: trailer_def)
  have two: "Suc (Suc 0) = 2" by simp
  have "fst (snd (parse_buffer ?h ([0x54] @ trailer ?f) 2)) = COMPLETE_FRAME"
    using checksum_blind_spot [of ?h "[]" "0xFF" "[]" "trailer ?f" "0x54"] ok
    by (simp add: trailer_def two del: One_nat_def)
  with ok show ?thesis by blast
qed

text \<open>One call is not enough: \<open>parse_buffer\<close> given header and payload in one buffer
  skips the header when it reads the data but not when it locates the trailer, so even
  the shortest frame is refused (the check byte is taken from offset 0, the separator),
  while the same bytes are accepted in two calls.\<close>

lemma single_call_rejects_whole_frame:
  assumes "t \<noteq> 0xF7"
  defines "f \<equiv> new_frame t [] 0 False"
  shows "fst (snd (parse_buffer empty_frame
      ([SEPARATOR_BYTE, SEPARATOR_BYTE] @ header_bytes 0 False t @ trailer f) 11)) = CHECKSUM_WRONG
    \<and> fst (snd (parse_buffer (fst (parse_buffer empty_frame
        ([SEPARATOR_BYTE, SEPARATOR_BYTE] @ header_bytes 0 False t) 10)) (trailer f) 1)) = COMPLETE_FRAME"
proof -
  have ok: "frame_ok f"
    unfolding f_def by (rule new_frame_ok) simp_all
  have two: "parse_buffer (header_frame (header_bytes 0 False t)) (trailer f) 1 = (f, COMPLETE_FRAME, 0)"
    using parse_payload_roundtrip [OF ok] by (simp add: f_def length_trailer trailer_size_def)
  have chk: "checksum (header_bytes 0 False t) 0 + of_nat (separators [t]) * SEPARATOR_POST_BYTE \<noteq> SEPARATOR_BYTE"
  proof (cases "t = SEPARATOR_BYTE")
    case False
    have "8 + t = SEPARATOR_BYTE \<Longrightarrow> t = SEPARATOR_BYTE - 8"
      by (metis add_diff_cancel_left')
    then show ?thesis
      using assms(1) False by (auto simp: header_bytes_def separators_def)
  qed (simp add: header_bytes_def separators_def)
  have "scan_header ([SEPARATOR_BYTE, SEPARATOR_BYTE] @ header_bytes 0 False t @ trailer f) 0
      = \<lparr>hs_fsize = 8, hs_use_crc = False, hs_type = t, hs_chk = checksum (header_bytes 0 False t) 0,
         hs_crc = INITIAL_CRC, hs_additional = of_nat (separators [t])\<rparr>"
    by (subst scan_header_eq) simp_all
  then have "fst (snd (parse_buffer empty_frame
      ([SEPARATOR_BYTE, SEPARATOR_BYTE] @ header_bytes 0 False t @ trailer f) 11)) = CHECKSUM_WRONG"
    using chk by (simp add: parse_buffer_def empty_frame_def parse_payload_def finish_payload_def Let_def)
  then show ?thesis
    using two parse_header_roundtrip [of 0 False t] by simp
qed

lemma single_call_rejects_whole_frame_example:
  "fst (snd (parse_buffer empty_frame [0xFF, 0xFF, 8, 0, 0, 0, 0, 0, 0, 0x09, 0x11] 11)) = CHECKSUM_WRONG"
proof -
  have "trailer (new_frame 0x09 [] 0 False) = [0x11]"
    by (simp add: trailer_def new_frame_eq Let_def header_bytes_def separators_def)
  then show ?thesis
    using single_call_rejects_whole_frame [of "0x09"] by (simp add: header_bytes_def)
qed

end
