(* ===== verification/Decoder.thy ===== *)
theory Decoder
  imports Frame_Parse
begin

text \<open>
  What the transport layer promises about a received byte stream, as a decoder that eats
  one byte at a time: it looks for two separators followed by another byte, collects a
  stuffed header and then a stuffed payload, and delivers the frame when the payload is
  accepted. It holds no ring buffer, no positions and no counters. A separator without its
  post byte abandons the frame and puts the bytes from that separator on back into the
  stream. The transport handler is shown to implement it in \<open>Transport_Refinement\<close>.
\<close>

section \<open>Removal of stuffed bytes\<close>

text \<open>\<open>Inl\<close> is the input from the offending separator on.\<close>

fun unstuff :: "byte list \<Rightarrow> byte list + byte list" where
  "unstuff [] = Inr []"
| "unstuff [b] = Inr [b]"
| "unstuff (b # c # bs) =
     (if b = SEPARATOR_BYTE
      then if c = SEPARATOR_POST_BYTE then map_sum id ((#) b) (unstuff bs) else Inl (b # c # bs)
      else map_sum id ((#) b) (unstuff (c # bs)))"

lemma unstuff_stuff [simp]: "unstuff (stuff bs) = Inr bs"
proof (induction bs)
  case (Cons b bs)
  show ?case
  proof (cases "stuff bs")
    case Nil
    then have "bs = []"
      by (cases bs) (simp_all add: stuff_Cons stuff1_def split: if_splits)
    then show ?thesis by (simp add: stuff_Cons stuff1_def)
  next
    case (Cons c cs)
    then show ?thesis using Cons.IH by (simp add: stuff_Cons stuff1_def)
  qed
qed simp

lemma unstuff_back: "unstuff raw = Inl bk \<Longrightarrow> \<exists>pre. raw = pre @ bk \<and> bk \<noteq> []"
proof (induction raw rule: unstuff.induct)
  case (3 b c bs)
  show ?case
  proof (cases "b = SEPARATOR_BYTE")
    case True
    then show ?thesis
      using 3 by (cases "unstuff bs") (auto split: if_splits intro: exI [of _ "b # c # _"])
  next
    case False
    then obtain pre where "c # bs = pre @ bk" "bk \<noteq> []"
      using 3 by (cases "unstuff (c # bs)") auto
    then show ?thesis by (intro exI [of _ "b # pre"]) simp
  qed
qed simp_all

lemma unstuff_back_length: "unstuff raw = Inl bk \<Longrightarrow> length bk \<le> length raw"
  using unstuff_back [of raw bk] by auto

lemma unstuff_plain: "b \<noteq> SEPARATOR_BYTE \<Longrightarrow> unstuff (b # bs) = map_sum id ((#) b) (unstuff bs)"
  by (cases bs) simp_all

text \<open>The bytes that count, and the length of an unstuffed sequence that does not end in a
  separator.\<close>

definition plain :: "byte list \<Rightarrow> nat" where
  "plain bs = length bs - separators bs"

lemma plain_Nil [simp]: "plain [] = 0"
  and plain_append [simp]: "plain (xs @ ys) = plain xs + plain ys"
  and plain_Cons: "plain (b # bs) = (if b = SEPARATOR_BYTE then 0 else 1) + plain bs"
  using separators_le [of xs] separators_le [of ys] separators_le [of bs]
  by (simp_all add: plain_def separators_Cons)

lemma plain_le: "plain bs \<le> length bs"
  by (simp add: plain_def)

lemma plain_stuff [simp]: "plain (stuff bs) = length bs"
  by (induction bs) (simp_all add: stuff_Cons stuff1_def plain_Cons)

lemma length_unstuff:
  "unstuff raw = Inr out \<Longrightarrow> raw \<noteq> [] \<Longrightarrow> last raw \<noteq> SEPARATOR_BYTE \<Longrightarrow> length out = plain raw"
proof (induction raw arbitrary: out rule: unstuff.induct)
  case (3 b c bs)
  show ?case
  proof (cases "b = SEPARATOR_BYTE")
    case True
    then obtain out' where "unstuff bs = Inr out'" "out = b # out'" "c = SEPARATOR_POST_BYTE"
      using 3(3) by (cases "unstuff bs") (auto split: if_splits)
    then show ?thesis
      using 3 True by (cases "bs = []") (auto simp: plain_Cons)
  next
    case False
    then obtain out' where "unstuff (c # bs) = Inr out'" "out = b # out'"
      using 3(3) by (cases "unstuff (c # bs)") auto
    then show ?thesis
      using 3 False by (auto simp: plain_Cons)
  qed
qed (auto simp: plain_Cons)

lemma stuff_snocE:
  obtains xs b where "stuff (hs @ [h]) = xs @ [b]" "b \<noteq> SEPARATOR_BYTE" "plain xs = length hs"
proof (cases "h = SEPARATOR_BYTE")
  case True
  show ?thesis
    by (rule that [of "stuff hs @ [h]" SEPARATOR_POST_BYTE])
      (use True in \<open>simp_all add: stuff_Cons stuff1_def plain_Cons\<close>)
next
  case False
  show ?thesis
    by (rule that [of "stuff hs" h]) (use False in \<open>simp_all add: stuff_Cons stuff1_def\<close>)
qed

section \<open>The decoder\<close>

text \<open>
  \<open>Search raw\<close> holds the at most two bytes taken for separators, \<open>Header raw\<close> the raw bytes
  from the separators on, \<open>Payload h raw\<close> the raw bytes behind the accepted header \<open>h\<close>.
\<close>

datatype phase = Search "byte list" | Header "byte list" | Payload frame "byte list"

text \<open>A frame start has been found and the frame is neither delivered nor given up.\<close>

fun phase_found :: "phase \<Rightarrow> bool" where
  "phase_found (Search raw) = False"
| "phase_found (Header raw) = True"
| "phase_found (Payload h raw) = True"

definition header_valid :: "byte \<Rightarrow> byte \<Rightarrow> byte list \<Rightarrow> bool" where
  "header_valid s0 s1 hdr \<longleftrightarrow> s0 = SEPARATOR_BYTE \<and> s1 = SEPARATOR_BYTE
     \<and> \<not> hdr ! 0 < PURE_HEADER_SIZE \<and> \<not> hdr ! 0 > MAX_FRAME_SIZE"

definition payload_valid :: "frame \<Rightarrow> byte list \<Rightarrow> byte list \<Rightarrow> bool" where
  "payload_valid h d tr \<longleftrightarrow> (f_use_crc h \<longrightarrow> crc16 d (f_crc h) = be16 (tr ! 1) (tr ! 2))
     \<and> f_checksum (complete_frame h d) = tr ! 0"

text \<open>Why a header or a payload is given up: no reason when it is accepted.\<close>

definition header_errors :: "byte \<Rightarrow> byte \<Rightarrow> byte list \<Rightarrow> frame_error list" where
  "header_errors s0 s1 hdr =
     (if s0 \<noteq> SEPARATOR_BYTE \<or> s1 \<noteq> SEPARATOR_BYTE then [FRAME_SEPARATOR_WRONG]
      else if hdr ! 0 < PURE_HEADER_SIZE then [FRAME_TOO_SMALL]
      else if hdr ! 0 > MAX_FRAME_SIZE then [FRAME_TOO_BIG] else [])"

definition payload_errors :: "frame \<Rightarrow> byte list \<Rightarrow> frame_error list" where
  "payload_errors h out = (let d = take (unat (f_data_size h)) out; tr = drop (unat (f_data_size h)) out
     in if f_use_crc h \<and> crc16 d (f_crc h) \<noteq> be16 (tr ! 1) (tr ! 2) then [CRC_WRONG]
        else if f_checksum (complete_frame h d) \<noteq> tr ! 0 then [CHECKSUM_WRONG] else [])"

lemma header_errors_none: "header_errors s0 s1 hdr = [] \<longleftrightarrow> header_valid s0 s1 hdr"
  by (auto simp: header_errors_def header_valid_def)

lemma payload_errors_none: "payload_errors h out = [] \<longleftrightarrow>
    payload_valid h (take (unat (f_data_size h)) out) (drop (unat (f_data_size h)) out)"
  by (simp add: payload_errors_def payload_valid_def Let_def)

text \<open>The two calls of the parser in these terms.\<close>

lemma header_parsed:
  assumes "length hdr = 8"
  obtains f err n where "parse_buffer empty_frame ([s0, s1] @ hdr) 10 = (f, err, n)"
    "err = HEADER_ONLY \<longleftrightarrow> header_valid s0 s1 hdr" "err = HEADER_ONLY \<Longrightarrow> f = header_frame hdr"
    "header_errors s0 s1 hdr = (if err = HEADER_ONLY then [] else [err])"
proof (cases "s0 = SEPARATOR_BYTE \<and> s1 = SEPARATOR_BYTE")
  case True
  then show ?thesis
    using parse_header_eq [OF assms] that by (auto simp: header_valid_def header_errors_def split: if_splits)
next
  case False
  then show ?thesis
    using parse_header_separators [OF assms, of s0 s1] that by (auto simp: header_valid_def header_errors_def)
qed

text \<open>The first three raw bytes of a header always count.\<close>

definition header_count :: "byte list \<Rightarrow> nat" where
  "header_count r = length (take 3 r) + plain (drop 3 r)"

lemma header_count_append:
  "3 \<le> length raw \<Longrightarrow> header_count (raw @ xs) = header_count raw + plain xs"
  by (simp add: header_count_def)

definition deliver :: "frame \<Rightarrow> byte list \<Rightarrow> frame list" where
  "deliver h out = (let n = unat (f_data_size h)
     in if payload_valid h (take n out) (drop n out) then [complete_frame h (take n out)] else [])"

lemma payload_parsed:
  assumes "f_status h = FRAME_HEADER_ONLY" "unat (f_data_size h) \<le> MAX_DATA_SIZE"
    and "length out = unat (f_data_size h) + trailer_size h"
  obtains f err n where "parse_buffer h out (length out) = (f, err, n)"
    "deliver h out = (if err = COMPLETE_FRAME then [f] else [])"
    "payload_errors h out = (if err = COMPLETE_FRAME then [] else [err])"
proof -
  let ?n = "unat (f_data_size h)"
  have parts: "length (take ?n out) = ?n" "length (drop ?n out) = trailer_size h"
    "length (take ?n out) + length (drop ?n out) = length out"
    using assms(3) by simp_all
  obtain f err n where "parse_buffer h out (length out) = (f, err, n)"
    by (cases "parse_buffer h out (length out)") auto
  with parse_payload_eq [OF assms(1,2) parts(1,2)] that parts(3) show ?thesis
    by (auto simp: deliver_def payload_valid_def payload_errors_def Let_def split: if_splits)
qed

text \<open>One byte: the next phase, the bytes put back, the frames delivered.\<close>

fun decode_byte :: "phase \<Rightarrow> byte \<Rightarrow> phase \<times> byte list \<times> frame list" where
  "decode_byte (Search raw) b =
     (if b = SEPARATOR_BYTE then (Search (drop (length raw - 1) raw @ [b]), [], [])
      else if length raw = 2 then (Header (raw @ [b]), [], [])
      else (Search [], [], []))"
| "decode_byte (Header raw) b =
     (let r = raw @ [b]
      in if header_count r = FRAME_HEADER_SIZE
         then case unstuff (drop 2 r) of
                Inl bk \<Rightarrow> (Search [], bk, [])
              | Inr hdr \<Rightarrow> (if header_valid (r ! 0) (r ! 1) hdr then Payload (header_frame hdr) []
                           else Search [], [], [])
         else (Header r, [], []))"
| "decode_byte (Payload h raw) b =
     (let r = raw @ [b]
      in if plain r = unat (f_data_size h) + trailer_size h
         then case unstuff r of
                Inl bk \<Rightarrow> (Search [], bk, [])
              | Inr out \<Rightarrow> (Search [], [], deliver h out)
         else (Payload h r, [], []))"

lemma decode_byte_header:
  "header_count (raw @ [b]) \<noteq> FRAME_HEADER_SIZE \<Longrightarrow> decode_byte (Header raw) b = (Header (raw @ [b]), [], [])"
  "header_count (raw @ [b]) = FRAME_HEADER_SIZE \<Longrightarrow> decode_byte (Header raw) b =
     (case unstuff (drop 2 (raw @ [b])) of
        Inl bk \<Rightarrow> (Search [], bk, [])
      | Inr hdr \<Rightarrow> (if header_valid ((raw @ [b]) ! 0) ((raw @ [b]) ! 1) hdr then Payload (header_frame hdr) []
                   else Search [], [], []))"
  by (simp_all only: decode_byte.simps Let_def if_True if_False refl)

lemma decode_byte_payload:
  "plain (raw @ [b]) \<noteq> unat (f_data_size h) + trailer_size h \<Longrightarrow>
     decode_byte (Payload h raw) b = (Payload h (raw @ [b]), [], [])"
  "plain (raw @ [b]) = unat (f_data_size h) + trailer_size h \<Longrightarrow>
     decode_byte (Payload h raw) b =
     (case unstuff (raw @ [b]) of
        Inl bk \<Rightarrow> (Search [], bk, []) | Inr out \<Rightarrow> (Search [], [], deliver h out))"
  by (simp_all only: decode_byte.simps Let_def if_True if_False refl)

fun held :: "phase \<Rightarrow> byte list" where
  "held (Search raw) = raw"
| "held (Header raw) = raw"
| "held (Payload h raw) = raw"

fun phase_rank :: "phase \<Rightarrow> nat" where
  "phase_rank (Search raw) = 1"
| "phase_rank (Header raw) = 0"
| "phase_rank (Payload h raw) = 2"

definition decode_order :: "((phase \<times> byte list) \<times> (phase \<times> byte list)) set" where
  "decode_order = inv_image (less_than <*lex*> less_than <*lex*> less_than)
     (\<lambda>(ph, bs). (length (held ph) + length bs, phase_rank ph, length bs))"

lemma wf_decode_order: "wf decode_order"
  unfolding decode_order_def by (intro wf_inv_image wf_lex_prod wf_less_than)

lemma decode_byte_decreases:
  assumes "decode_byte ph b = (ph', bk, fs)"
  shows "((ph', bk @ bs), (ph, b # bs)) \<in> decode_order"
proof (cases ph)
  case (Search raw)
  then show ?thesis
    using assms by (auto simp: decode_order_def split: if_splits)
next
  case (Header raw)
  show ?thesis
  proof (cases "header_count (raw @ [b]) = FRAME_HEADER_SIZE")
    case True
    have "length bk < Suc (length raw)" if "unstuff (drop 2 (raw @ [b])) = Inl bk" for bk
      using unstuff_back_length [OF that] unstuff_back [OF that] by (cases bk) auto
    then show ?thesis
      using assms Header decode_byte_header(2) [OF True]
      by (auto simp: decode_order_def simp del: drop_append split: sum.splits if_splits)
  qed (use assms Header in \<open>auto simp: decode_order_def decode_byte_header(1) simp del: decode_byte.simps\<close>)
next
  case (Payload h raw)
  then show ?thesis
    using assms unstuff_back_length [of "raw @ [b]"]
    by (cases "plain (raw @ [b]) = unat (f_data_size h) + trailer_size h")
      (auto simp: decode_order_def decode_byte_payload simp del: decode_byte.simps plain_append split: sum.splits if_splits)
qed

function decode :: "phase \<Rightarrow> byte list \<Rightarrow> phase \<times> frame list" where
  "decode ph [] = (ph, [])"
| "decode ph (b # bs) =
     (let (ph', bk, fs) = decode_byte ph b; (q, gs) = decode ph' (bk @ bs) in (q, fs @ gs))"
  by pat_completeness auto
termination
  by (relation decode_order) (use decode_byte_decreases in \<open>auto simp: wf_decode_order dest!: sym [of "(_, _, _)"]\<close>)

lemma decode_Cons:
  "decode_byte ph b = (ph', bk, fs) \<Longrightarrow>
     decode ph (b # bs) = (fst (decode ph' (bk @ bs)), fs @ snd (decode ph' (bk @ bs)))"
  by (simp add: split_def Let_def)

text \<open>Decoding is independent of how the stream is cut.\<close>

lemma decode_append:
  "decode ph (xs @ ys) = (fst (decode (fst (decode ph xs)) ys),
     snd (decode ph xs) @ snd (decode (fst (decode ph xs)) ys))"
proof (induction ph xs rule: decode.induct)
  case (2 ph b bs)
  obtain ph' bk fs where d: "decode_byte ph b = (ph', bk, fs)"
    by (cases "decode_byte ph b") auto
  show ?case
    using 2 [OF d [symmetric] refl refl] by (simp add: d split_def Let_def)
qed simp

section \<open>Every layout is decoded\<close>

lemma decode_header_feed:
  "3 \<le> length raw \<Longrightarrow> header_count (raw @ xs) < FRAME_HEADER_SIZE \<Longrightarrow>
     decode (Header raw) (xs @ ys) = decode (Header (raw @ xs)) ys"
proof (induction xs arbitrary: raw)
  case (Cons x xs)
  then have "header_count (raw @ [x]) \<noteq> FRAME_HEADER_SIZE"
    by (auto simp: plain_Cons header_count_append)
  then show ?case
    using Cons.IH [of "raw @ [x]"] Cons.prems
    by (simp add: decode_Cons decode_byte_header del: decode_byte.simps)
qed simp

lemma decode_payload_feed:
  "plain (raw @ xs) < unat (f_data_size h) + trailer_size h \<Longrightarrow>
     decode (Payload h raw) (xs @ ys) = decode (Payload h (raw @ xs)) ys"
proof (induction xs arbitrary: raw)
  case (Cons x xs)
  then have "plain (raw @ [x]) \<noteq> unat (f_data_size h) + trailer_size h"
    by (auto simp: plain_Cons)
  then have "decode_byte (Payload h raw) x = (Payload h (raw @ [x]), [], [])"
    by (simp add: Let_def)
  then show ?case
    using Cons.IH [of "raw @ [x]"] Cons.prems by (simp add: decode_Cons del: decode_byte.simps)
qed simp

lemma decode_header:
  assumes "s \<noteq> SEPARATOR_BYTE" "length hs = 7"
  shows "decode (Header [s0, s1, s]) (stuff hs @ ys)
    = decode (if header_valid s0 s1 (s # hs) then Payload (header_frame (s # hs)) [] else Search []) ys"
proof -
  obtain hs' h where hs: "hs = hs' @ [h]" "length hs' = 6"
    using assms(2) by (cases hs rule: rev_cases) auto
  obtain xs b where x: "stuff hs = xs @ [b]" "b \<noteq> SEPARATOR_BYTE" "plain xs = length hs'"
    unfolding hs(1) by (rule stuff_snocE)
  have "decode (Header [s0, s1, s]) (stuff hs @ ys) = decode (Header ([s0, s1, s] @ xs)) (b # ys)"
    using x hs(2) by (simp add: decode_header_feed header_count_def)
  moreover have "unstuff (s # xs @ [b]) = Inr (s # hs)"
    using unstuff_stuff [of "s # hs"] assms(1) x(1) by (simp add: stuff_Cons stuff1_def)
  then have "decode_byte (Header ([s0, s1, s] @ xs)) b
      = (if header_valid s0 s1 (s # hs) then Payload (header_frame (s # hs)) [] else Search [], [], [])"
    using x hs(2) by (simp add: plain_Cons Let_def header_count_def)
  ultimately show ?thesis
    by (simp add: decode_Cons del: decode_byte.simps)
qed

lemma decode_payload:
  assumes "length out = unat (f_data_size h) + trailer_size h"
  shows "decode (Payload h []) (stuff out @ ys)
    = (fst (decode (Search []) ys), deliver h out @ snd (decode (Search []) ys))"
proof -
  have "0 < length out" using assms by (simp add: trailer_size_def)
  then obtain os c where out: "out = os @ [c]"
    by (cases out rule: rev_cases) auto
  obtain xs b where x: "stuff out = xs @ [b]" "b \<noteq> SEPARATOR_BYTE" "plain xs = length os"
    unfolding out by (rule stuff_snocE)
  have "decode (Payload h []) (stuff out @ ys) = decode (Payload h xs) (b # ys)"
    using x assms out by (simp add: decode_payload_feed)
  moreover have "decode_byte (Payload h xs) b = (Search [], [], deliver h out)"
    using x assms out unstuff_stuff [of out] by (simp add: plain_Cons Let_def)
  ultimately show ?thesis
    by (simp add: decode_Cons split_def Let_def del: decode_byte.simps)
qed

lemma decode_separators:
  assumes "b \<noteq> SEPARATOR_BYTE" "raw = [] \<or> raw = [SEPARATOR_BYTE] \<or> raw = [SEPARATOR_BYTE, SEPARATOR_BYTE]"
  shows "decode (Search raw) (SEPARATOR_BYTE # SEPARATOR_BYTE # b # ys)
    = decode (Header [SEPARATOR_BYTE, SEPARATOR_BYTE, b]) ys"
  using assms by (auto simp: split_def Let_def)

lemma deliver_complete:
  assumes "frame_ok f"
  shows "deliver (header_frame (header_bytes (f_data_size f) (f_use_crc f) (f_type f))) (frame_data f @ trailer f)
    = [f]"
proof -
  let ?h = "header_frame (header_bytes (f_data_size f) (f_use_crc f) (f_type f))"
  have "length (frame_data f) = unat (f_data_size f)"
    using assms by (simp add: frame_ok_def)
  moreover have "f_use_crc f \<Longrightarrow> crc16 (frame_data f) (f_crc ?h) = f_crc f"
    using arg_cong [OF complete_frame_roundtrip [OF assms], of f_crc] by (simp add: complete_frame_def Let_def)
  ultimately show ?thesis
    using trailer_nth [of f]
    by (simp add: deliver_def payload_valid_def Let_def complete_frame_roundtrip [OF assms])
qed

theorem decode_wire:
  assumes "frame_ok f" "raw = [] \<or> raw = [SEPARATOR_BYTE] \<or> raw = [SEPARATOR_BYTE, SEPARATOR_BYTE]"
  shows "decode (Search raw) (wire f @ ys)
    = (fst (decode (Search []) ys), f # snd (decode (Search []) ys))"
proof -
  define hdr where "hdr = header_bytes (f_data_size f) (f_use_crc f) (f_type f)"
  obtain s hs where h: "hdr = s # hs" "length hs = 7" and s: "s = PURE_HEADER_SIZE + f_data_size f"
    by (simp add: hdr_def header_bytes_def)
  have n: "unat (f_data_size f) \<le> MAX_DATA_SIZE" "length (frame_data f) = unat (f_data_size f)"
    using assms(1) by (simp_all add: frame_ok_def)
  have sep: "s \<noteq> SEPARATOR_BYTE"
    unfolding s by (rule data_size_not_separator [OF n(1)])
  have val: "header_valid SEPARATOR_BYTE SEPARATOR_BYTE (s # hs)"
    using header_size_bounds [OF n(1)] by (simp add: header_valid_def s)
  have len: "length (frame_data f @ trailer f)
      = unat (f_data_size (header_frame hdr)) + trailer_size (header_frame hdr)"
    by (simp add: n(2) length_trailer hdr_def trailer_size_def)
  have "wire f @ ys = SEPARATOR_BYTE # SEPARATOR_BYTE # s # stuff hs @ stuff (frame_data f @ trailer f) @ ys"
    using sep by (simp add: wire_def wire_header_def wire_payload_def hdr_def [symmetric] h stuff_Cons stuff1_def)
  then have "decode (Search raw) (wire f @ ys)
      = decode (Payload (header_frame hdr) []) (stuff (frame_data f @ trailer f) @ ys)"
    using decode_separators [OF sep assms(2)] decode_header [OF sep h(2)] val by (simp only: h if_True)
  then show ?thesis
    using decode_payload [OF len] deliver_complete [OF assms(1)] by (simp add: hdr_def)
qed

lemma decode_wires:
  "\<forall>f \<in> set fs. frame_ok f \<Longrightarrow> decode (Search []) (concat (map wire fs)) = (Search [], fs)"
  by (induction fs) (simp_all add: decode_wire)

text \<open>Bytes without two separators in a row are skipped.\<close>

definition no_start :: "byte list \<Rightarrow> bool" where
  "no_start g \<longleftrightarrow> (\<forall>i < length g - 1. g ! i = SEPARATOR_BYTE \<longrightarrow> g ! Suc i \<noteq> SEPARATOR_BYTE)"

lemma no_start_Cons:
  "no_start (b # g) \<longleftrightarrow> no_start g \<and> (b = SEPARATOR_BYTE \<longrightarrow> g = [] \<or> hd g \<noteq> SEPARATOR_BYTE)"
proof (cases g)
  case (Cons c cs)
  have "(\<forall>i < Suc n. P i) \<longleftrightarrow> P 0 \<and> (\<forall>i < n. P (Suc i))" for P n
    by (auto simp: less_Suc_eq_0_disj)
  then show ?thesis
    unfolding no_start_def Cons by (simp only: list.size diff_Suc_1 add_0_right One_nat_def add_Suc_right nth_Cons_0 nth_Cons_Suc list.sel) auto
qed (simp add: no_start_def)

lemma decode_no_start:
  "no_start g \<Longrightarrow> raw = [] \<or> raw = [SEPARATOR_BYTE] \<and> (g = [] \<or> hd g \<noteq> SEPARATOR_BYTE) \<Longrightarrow>
     \<exists>r. decode (Search raw) g = (Search r, []) \<and> (r = [] \<or> r = [SEPARATOR_BYTE])"
proof (induction g arbitrary: raw)
  case (Cons b g)
  show ?case
  proof (cases "b = SEPARATOR_BYTE")
    case True
    then show ?thesis
      using Cons.IH [of "[SEPARATOR_BYTE]"] Cons.prems by (auto simp: no_start_Cons split_def Let_def)
  next
    case False
    then show ?thesis
      using Cons.IH [of "[]"] Cons.prems by (auto simp: no_start_Cons split_def Let_def)
  qed
qed auto

section \<open>Every delivered frame was received\<close>

definition phase_ok :: "phase \<Rightarrow> bool" where
  "phase_ok ph \<longleftrightarrow> (case ph of
      Search raw \<Rightarrow> length raw \<le> 2
    | Header raw \<Rightarrow> 3 \<le> length raw \<and> raw ! 2 \<noteq> SEPARATOR_BYTE \<and> header_count raw < FRAME_HEADER_SIZE
    | Payload h raw \<Rightarrow> (\<exists>hdr. length hdr = 8 \<and> header_valid SEPARATOR_BYTE SEPARATOR_BYTE hdr
        \<and> h = header_frame hdr) \<and> plain raw < unat (f_data_size h) + trailer_size h)"

lemma phase_ok_simps [simp]:
  "phase_ok (Search raw) \<longleftrightarrow> length raw \<le> 2"
  "phase_ok (Header raw) \<longleftrightarrow> 3 \<le> length raw \<and> raw ! 2 \<noteq> SEPARATOR_BYTE \<and> header_count raw < FRAME_HEADER_SIZE"
  "phase_ok (Payload h raw) \<longleftrightarrow> (\<exists>hdr. length hdr = 8 \<and> header_valid SEPARATOR_BYTE SEPARATOR_BYTE hdr
        \<and> h = header_frame hdr) \<and> plain raw < unat (f_data_size h) + trailer_size h"
  by (simp_all add: phase_ok_def)

lemma header_valid_data_size:
  assumes "header_valid s0 s1 hdr"
  shows "unat (f_data_size (header_frame hdr)) \<le> MAX_DATA_SIZE"
proof -
  have "8 \<le> unat (hdr ! 0)" "unat (hdr ! 0) \<le> 0xF1"
    using assms by (simp_all add: header_valid_def word_less_nat_alt)
  then show ?thesis
    by (simp add: header_frame_def unat_sub word_le_nat_alt)
qed

text \<open>The raw bytes at the moment the count is reached: the last one is not a separator.\<close>

lemma header_reached:
  assumes "3 \<le> length raw" "raw ! 2 \<noteq> SEPARATOR_BYTE" "header_count raw < FRAME_HEADER_SIZE"
    and "header_count (raw @ [b]) = FRAME_HEADER_SIZE"
  shows "b \<noteq> SEPARATOR_BYTE" "unstuff (drop 2 (raw @ [b])) = Inr hdr \<Longrightarrow> length hdr = 8"
proof -
  show b: "b \<noteq> SEPARATOR_BYTE"
    using assms by (auto simp: plain_Cons header_count_append)
  have d: "drop 2 (raw @ [b]) = raw ! 2 # drop 3 raw @ [b]"
    using assms(1) Cons_nth_drop_Suc [of 2 raw] by (simp add: numeral_3_eq_3)
  then have "plain (drop 2 (raw @ [b])) = 8"
    using assms b by (simp add: plain_Cons header_count_def)
  moreover have "drop 2 (raw @ [b]) \<noteq> []" "last (drop 2 (raw @ [b])) \<noteq> SEPARATOR_BYTE"
    unfolding d using b by simp_all
  moreover assume "unstuff (drop 2 (raw @ [b])) = Inr hdr"
  ultimately show "length hdr = 8"
    using length_unstuff [of "drop 2 (raw @ [b])" hdr] by simp
qed

lemma payload_reached:
  assumes "plain raw < k" "plain (raw @ [b]) = k"
  shows "b \<noteq> SEPARATOR_BYTE" "unstuff (raw @ [b]) = Inr out \<Longrightarrow> length out = k"
proof -
  show b: "b \<noteq> SEPARATOR_BYTE"
    using assms by (auto simp: plain_Cons)
  then show "length out = k" if "unstuff (raw @ [b]) = Inr out"
    using assms that length_unstuff [of "raw @ [b]" out] by simp
qed

lemma decode_byte_ok:
  assumes "phase_ok ph" "decode_byte ph b = (ph', bk, fs)"
  shows "phase_ok ph'"
proof (cases ph)
  case (Search raw)
  then show ?thesis
    using assms by (auto simp: nth_append header_count_def split: if_splits)
next
  case (Header raw)
  have r: "3 \<le> length raw" "raw ! 2 \<noteq> SEPARATOR_BYTE" "header_count raw < FRAME_HEADER_SIZE"
    using assms(1) unfolding Header phase_ok_simps by blast+
  show ?thesis
  proof (cases "header_count (raw @ [b]) = FRAME_HEADER_SIZE")
    case True
    have "\<exists>hdr'. length hdr' = 8 \<and> header_valid SEPARATOR_BYTE SEPARATOR_BYTE hdr' \<and> header_frame hdr = header_frame hdr'"
      if "unstuff (drop 2 (raw @ [b])) = Inr hdr" "header_valid ((raw @ [b]) ! 0) ((raw @ [b]) ! 1) hdr" for hdr
      using header_reached(2) [OF r True that(1)] that(2) by (auto simp: header_valid_def)
    then show ?thesis
      using assms(2) Header decode_byte_header(2) [OF True]
      by (auto simp: trailer_size_def simp del: drop_append decode_byte.simps split: sum.splits if_splits)
  next
    case False
    have "header_count (raw @ [b]) \<le> Suc (header_count raw)"
      using r(1) by (simp add: plain_Cons header_count_append)
    then show ?thesis
      using assms(2) Header False r by (auto simp: decode_byte_header nth_append simp del: decode_byte.simps)
  qed
next
  case (Payload h raw)
  show ?thesis
  proof (cases "plain (raw @ [b]) = unat (f_data_size h) + trailer_size h")
    case True
    then show ?thesis
      using assms(2) Payload decode_byte_payload(2) [OF True] by (auto split: sum.splits)
  next
    case False
    then show ?thesis
      using assms Payload decode_byte_payload(1) [OF False] by (auto simp: plain_Cons simp del: decode_byte.simps)
  qed
qed

definition payload_carries :: "frame \<Rightarrow> byte list \<Rightarrow> frame \<Rightarrow> bool" where
  "payload_carries h bs g \<longleftrightarrow> (\<exists>rp post d tr. bs = rp @ post \<and> unstuff rp = Inr (d @ tr)
     \<and> length d = unat (f_data_size h) \<and> length tr = trailer_size h
     \<and> payload_valid h d tr \<and> g = complete_frame h d)"

definition carries :: "byte list \<Rightarrow> frame \<Rightarrow> bool" where
  "carries bs g \<longleftrightarrow> (\<exists>pre rh rest hdr. bs = pre @ [SEPARATOR_BYTE, SEPARATOR_BYTE] @ rh @ rest
     \<and> unstuff rh = Inr hdr \<and> length hdr = 8 \<and> header_valid SEPARATOR_BYTE SEPARATOR_BYTE hdr
     \<and> payload_carries (header_frame hdr) rest g)"

lemma carries_suffix: "carries bs g \<Longrightarrow> carries (pre @ bs) g"
  unfolding carries_def by (metis append.assoc)

lemma deliver_carries:
  assumes "g \<in> set (deliver h out)" "unstuff raw = Inr out"
    and "length out = unat (f_data_size h) + trailer_size h"
  shows "payload_carries h (raw @ post) g"
proof -
  let ?n = "unat (f_data_size h)"
  have "payload_valid h (take ?n out) (drop ?n out)" "g = complete_frame h (take ?n out)"
    using assms(1) by (simp_all add: deliver_def Let_def split: if_splits)
  moreover have "out = take ?n out @ drop ?n out" by simp
  moreover have "length (take ?n out) = ?n" "length (drop ?n out) = trailer_size h"
    using assms(3) by simp_all
  ultimately show ?thesis
    using assms(2) unfolding payload_carries_def by metis
qed

definition accounted :: "phase \<Rightarrow> byte list \<Rightarrow> frame \<Rightarrow> bool" where
  "accounted ph bs g \<longleftrightarrow> carries (held ph @ bs) g
     \<or> (\<exists>h raw. ph = Payload h raw \<and> payload_carries h (raw @ bs) g)"

text \<open>One byte keeps every frame accounted for.\<close>

text \<open>What a decoding step puts back behind an abandoned start is a suffix of what was held.\<close>

lemma accounted_suffix:
  assumes "held ph @ b # bs = pre @ raw' @ bk @ bs" "accounted (Search raw') (bk @ bs) g"
  shows "accounted ph (b # bs) g"
  unfolding accounted_def assms(1) using assms(2) carries_suffix [of "raw' @ bk @ bs" g pre] by (simp add: accounted_def)

lemma search_accounts:
  assumes "decode_byte (Search raw) b = (ph', bk, fs)"
  shows "(accounted ph' (bk @ bs) g \<longrightarrow> accounted (Search raw) (b # bs) g) \<and> (g \<in> set fs \<longrightarrow> accounted (Search raw) (b # bs) g)"
proof -
  have "raw = take (length raw - 1) raw @ drop (length raw - 1) raw" by simp
  then have cut: "held (Search raw) @ b # bs = take (length raw - 1) raw @ (drop (length raw - 1) raw @ [b]) @ [] @ bs"
    unfolding held.simps by (metis append.assoc append_Cons append_Nil)
  show ?thesis
    using assms accounted_suffix [OF cut] accounted_suffix [of "Search raw" b bs "raw @ [b]" "[]" "[]"]
    by (auto split: if_splits simp: accounted_def)
qed

lemma header_accounts:
  assumes "phase_ok (Header raw)" "decode_byte (Header raw) b = (ph', bk, fs)"
  shows "(accounted ph' (bk @ bs) g \<longrightarrow> accounted (Header raw) (b # bs) g) \<and> (g \<in> set fs \<longrightarrow> accounted (Header raw) (b # bs) g)"
proof (cases "header_count (raw @ [b]) = FRAME_HEADER_SIZE")
  case False
  then show ?thesis
    using assms(2) by (auto simp: accounted_def decode_byte_header simp del: decode_byte.simps)
next
  case True
  have r: "3 \<le> length raw" "raw ! 2 \<noteq> SEPARATOR_BYTE" "header_count raw < FRAME_HEADER_SIZE"
    using assms(1) unfolding phase_ok_simps by blast+
  have whole: "held (Header raw) @ b # bs = (raw @ [b]) @ bs" by simp
  show ?thesis
  proof (cases "unstuff (drop 2 (raw @ [b]))")
    case (Inl back')
    then obtain pre where "drop 2 (raw @ [b]) = pre @ back'"
      using unstuff_back by blast
    then have "held (Header raw) @ b # bs = (take 2 (raw @ [b]) @ pre) @ [] @ back' @ bs"
      unfolding whole by (metis append.assoc append_Nil append_take_drop_id)
    from accounted_suffix [OF this] show ?thesis
      using assms(2) True Inl
      by (auto simp: decode_byte_header simp del: drop_append take_append decode_byte.simps)
  next
    case (Inr hdr)
    have len: "length hdr = 8"
      using header_reached(2) [OF r True Inr] .
    have seps: "take 2 (raw @ [b]) = [(raw @ [b]) ! 0, (raw @ [b]) ! 1]"
      using r(1) by (cases raw; cases "tl raw") (auto simp: numeral_2_eq_2)
    have "accounted (Header raw) (b # bs) g"
      if "header_valid ((raw @ [b]) ! 0) ((raw @ [b]) ! 1) hdr" "payload_carries (header_frame hdr) bs g"
    proof -
      have "held (Header raw) @ b # bs = [] @ [SEPARATOR_BYTE, SEPARATOR_BYTE] @ drop 2 (raw @ [b]) @ bs"
        using that(1) seps append_take_drop_id [of 2 "raw @ [b]"] unfolding whole header_valid_def
        by (metis append.assoc append_Nil)
      then have "carries (held (Header raw) @ b # bs) g"
        unfolding carries_def using Inr len that by (metis header_valid_def)
      then show ?thesis by (simp add: accounted_def)
    qed
    moreover have "accounted (Header raw) (b # bs) g" if "carries bs g"
      unfolding accounted_def whole using carries_suffix [OF that] by blast
    ultimately show ?thesis
      using assms(2) True Inr
      by (auto simp: accounted_def decode_byte_header simp del: drop_append take_append decode_byte.simps
          split: if_splits)
  qed
qed

lemma payload_accounts:
  assumes "phase_ok (Payload h raw)" "decode_byte (Payload h raw) b = (ph', bk, fs)"
  shows "(accounted ph' (bk @ bs) g \<longrightarrow> accounted (Payload h raw) (b # bs) g) \<and> (g \<in> set fs \<longrightarrow> accounted (Payload h raw) (b # bs) g)"
proof (cases "plain (raw @ [b]) = unat (f_data_size h) + trailer_size h")
  case False
  then show ?thesis
    using assms(2) by (auto simp: accounted_def Let_def)
next
  case True
  have whole: "held (Payload h raw) @ b # bs = (raw @ [b]) @ bs" by simp
  have reach: "plain raw < unat (f_data_size h) + trailer_size h"
    using assms(1) by simp
  show ?thesis
  proof (cases "unstuff (raw @ [b])")
    case (Inl back')
    then obtain pre where "raw @ [b] = pre @ back'"
      using unstuff_back by blast
    then have "held (Payload h raw) @ b # bs = pre @ [] @ back' @ bs"
      unfolding whole by simp
    from accounted_suffix [OF this] show ?thesis
      using assms(2) True Inl by (auto simp: Let_def)
  next
    case (Inr out)
    have "accounted (Payload h raw) (b # bs) g" if "g \<in> set (deliver h out)"
      using deliver_carries [OF that Inr payload_reached(2) [OF reach True Inr], of bs]
      by (simp add: accounted_def)
    moreover have "accounted (Payload h raw) (b # bs) g" if "carries bs g"
      unfolding accounted_def whole using carries_suffix [OF that] by blast
    ultimately show ?thesis
      using assms(2) True Inr by (auto simp: Let_def accounted_def)
  qed
qed

lemma decode_byte_accounts:
  assumes "phase_ok ph" "decode_byte ph b = (ph', bk, fs)"
  shows "accounted ph' (bk @ bs) g \<Longrightarrow> accounted ph (b # bs) g"
    and "g \<in> set fs \<Longrightarrow> accounted ph (b # bs) g"
proof -
  have "(accounted ph' (bk @ bs) g \<longrightarrow> accounted ph (b # bs) g) \<and> (g \<in> set fs \<longrightarrow> accounted ph (b # bs) g)"
    using assms by (cases ph) (metis search_accounts, metis header_accounts, metis payload_accounts)
  then show "accounted ph' (bk @ bs) g \<Longrightarrow> accounted ph (b # bs) g"
    and "g \<in> set fs \<Longrightarrow> accounted ph (b # bs) g" by simp_all
qed

lemma decode_ok: "phase_ok ph \<Longrightarrow> phase_ok (fst (decode ph bs))"
proof (induction ph bs rule: decode.induct)
  case (2 ph b bs)
  obtain ph' bk fs where d: "decode_byte ph b = (ph', bk, fs)"
    by (cases "decode_byte ph b") auto
  show ?case
    using "2.IH" [OF d [symmetric] refl refl] "2.prems" decode_byte_ok [OF _ d] by (simp add: decode_Cons [OF d] del: decode.simps)
qed simp

lemma decode_accounts:
  "phase_ok ph \<Longrightarrow> g \<in> set (snd (decode ph bs)) \<Longrightarrow> accounted ph bs g"
proof (induction ph bs rule: decode.induct)
  case (2 ph b bs)
  obtain ph' bk fs where d: "decode_byte ph b = (ph', bk, fs)"
    by (cases "decode_byte ph b") auto
  show ?case
    using "2.IH" [OF d [symmetric] refl refl] "2.prems" decode_byte_ok [OF _ d] decode_byte_accounts [OF _ d]
    by (auto simp: decode_Cons [OF d] simp del: decode.simps)
qed simp

lemma decode_sound:
  "length raw \<le> 2 \<Longrightarrow> g \<in> set (snd (decode (Search raw) bs)) \<Longrightarrow> carries (raw @ bs) g"
  using decode_accounts [of "Search raw" g bs] by (simp add: accounted_def)

section \<open>No frame is swallowed\<close>

text \<open>Two separators in a row stop the removal of stuffed bytes there at the latest.\<close>

lemma unstuff_stops:
  "\<exists>u1 u2. u = u1 @ u2 \<and> unstuff (u @ SEPARATOR_BYTE # SEPARATOR_BYTE # v) = Inl (u2 @ SEPARATOR_BYTE # SEPARATOR_BYTE # v)"
proof (induction u rule: unstuff.induct)
  case (2 b)
  show ?case
    by (cases "b = SEPARATOR_BYTE") (auto intro: exI [of _ "[]"])
next
  case (3 b c bs)
  show ?case
  proof (cases "b = SEPARATOR_BYTE")
    case False
    then obtain u1 u2 where "c # bs = u1 @ u2"
      "unstuff ((c # bs) @ SEPARATOR_BYTE # SEPARATOR_BYTE # v) = Inl (u2 @ SEPARATOR_BYTE # SEPARATOR_BYTE # v)"
      using 3 by blast
    then have "b # c # bs = (b # u1) @ u2 \<and> unstuff ((b # c # bs) @ SEPARATOR_BYTE # SEPARATOR_BYTE # v)
        = Inl (u2 @ SEPARATOR_BYTE # SEPARATOR_BYTE # v)"
      using unstuff_plain [OF False, of "(c # bs) @ SEPARATOR_BYTE # SEPARATOR_BYTE # v"] by simp
    then show ?thesis by blast
  next
    case True
    show ?thesis
    proof (cases "c = SEPARATOR_POST_BYTE")
      case False
      then have "b # c # bs = [] @ (b # c # bs) \<and> unstuff ((b # c # bs) @ SEPARATOR_BYTE # SEPARATOR_BYTE # v)
          = Inl ((b # c # bs) @ SEPARATOR_BYTE # SEPARATOR_BYTE # v)"
        using True by simp
      then show ?thesis by blast
    next
      case post: True
      then obtain u1 u2 where "bs = u1 @ u2"
        "unstuff (bs @ SEPARATOR_BYTE # SEPARATOR_BYTE # v) = Inl (u2 @ SEPARATOR_BYTE # SEPARATOR_BYTE # v)"
        using 3 True by blast
      then have "b # c # bs = (b # c # u1) @ u2 \<and> unstuff ((b # c # bs) @ SEPARATOR_BYTE # SEPARATOR_BYTE # v)
          = Inl (u2 @ SEPARATOR_BYTE # SEPARATOR_BYTE # v)"
        using True post by simp
      then show ?thesis by blast
    qed
  qed
qed auto

lemma wire_start:
  assumes "frame_ok f"
  obtains b w where "wire f = SEPARATOR_BYTE # SEPARATOR_BYTE # b # w" "b \<noteq> SEPARATOR_BYTE"
proof -
  have n: "unat (f_data_size f) \<le> MAX_DATA_SIZE"
    using assms by (simp add: frame_ok_def)
  note sep = data_size_not_separator [OF n]
  show ?thesis
    by (rule that [OF _ sep]) (use sep in \<open>simp add: wire_def wire_header_def header_bytes_def stuff_Cons stuff1_def\<close>)
qed

lemma append_longer: "r @ bs = x @ w \<Longrightarrow> length r \<le> length x \<Longrightarrow> \<exists>x'. x = r @ x' \<and> bs = x' @ w"
  by (auto simp: append_eq_append_conv2)

text \<open>Where the raw bytes at hand reach into a later frame, they cover its two separators.\<close>

lemma reaches_separators:
  assumes eq: "(raw @ [b]) @ bs = x @ SEPARATOR_BYTE # SEPARATOR_BYTE # w" and "b \<noteq> SEPARATOR_BYTE"
    and "\<not> length (raw @ [b]) \<le> length x"
  shows "\<exists>v. raw @ [b] = x @ SEPARATOR_BYTE # SEPARATOR_BYTE # v \<and> w = v @ bs"
proof -
  from eq obtain v where "(raw @ [b] = x @ v \<and> v @ bs = SEPARATOR_BYTE # SEPARATOR_BYTE # w)
      \<or> ((raw @ [b]) @ v = x \<and> bs = v @ SEPARATOR_BYTE # SEPARATOR_BYTE # w)"
    unfolding append_eq_append_conv2 by blast
  then have v: "raw @ [b] = x @ v" "v @ bs = SEPARATOR_BYTE # SEPARATOR_BYTE # w"
    using assms(3) by auto
  moreover have "last v = b" "v \<noteq> []"
    using v(1) assms(3) by (auto dest: arg_cong [of _ _ last])
  ultimately show ?thesis
    using assms(2) by (cases v; cases "tl v") auto
qed

text \<open>The layout of \<open>f\<close> with \<open>y\<close> behind it is what is held and still to come, from \<open>x\<close> on.\<close>

definition ahead :: "frame \<Rightarrow> byte list \<Rightarrow> phase \<Rightarrow> byte list \<Rightarrow> byte list \<Rightarrow> bool" where
  "ahead f y ph bs x \<longleftrightarrow> held ph @ bs = x @ wire f @ y \<and> (\<forall>raw. ph = Header raw \<longrightarrow> x \<noteq> [])"

lemma search_keeps:
  assumes "frame_ok f" "phase_ok (Search raw)" "ahead f y (Search raw) (b # bs) x" "decode_byte (Search raw) b = (ph', bk, fs)"
  shows "(\<exists>x'. ahead f y ph' (bk @ bs) x') \<or> f \<in> set (snd (decode (Search raw) (b # bs)))"
proof -
  obtain c w where w: "wire f = SEPARATOR_BYTE # SEPARATOR_BYTE # c # w" "c \<noteq> SEPARATOR_BYTE"
    using assms(1) by (rule wire_start)
  have len: "length raw \<le> 2" and eq: "raw @ b # bs = x @ wire f @ y"
    using assms(2,3) by (simp_all add: ahead_def)
  have short: "raw = [] \<or> (\<exists>r0. raw = [r0]) \<or> (\<exists>r0 r1. raw = [r0, r1])"
    using len by (cases raw; cases "tl raw") auto
  have to: "held ph' @ bk @ bs = x' @ wire f @ y \<Longrightarrow> \<forall>raw. ph' = Header raw \<longrightarrow> x' \<noteq> [] \<Longrightarrow> ?thesis" for x'
    unfolding ahead_def by blast
  consider "b = SEPARATOR_BYTE" | "b \<noteq> SEPARATOR_BYTE" "length raw = 2" "x = []"
    | "b \<noteq> SEPARATOR_BYTE" "length raw = 2" "x \<noteq> []" | "b \<noteq> SEPARATOR_BYTE" "length raw < 2"
    using len by linarith
  then show ?thesis
  proof cases
    case 1
    then have "x \<noteq> [] \<or> length raw < 2"
      using eq w short by auto
    then show ?thesis
      using 1 assms(4) eq to [of x] to [of "tl x"] short by (cases x) auto
  next
    case 2
    then have r: "raw = [SEPARATOR_BYTE, SEPARATOR_BYTE]" "b = c" "bs = w @ y"
      using eq w short by auto
    have "decode (Search []) (wire f @ y) = decode (Header [SEPARATOR_BYTE, SEPARATOR_BYTE, c]) (w @ y)"
      unfolding w(1) using decode_separators [OF w(2), of "[]" "w @ y"] by (simp del: decode.simps)
    moreover have "ph' = Header [SEPARATOR_BYTE, SEPARATOR_BYTE, c]" "bk = []" "fs = []"
      using assms(4) 2 r by auto
    ultimately show ?thesis
      using decode_wire [OF assms(1), of "[]" y] r decode_Cons [OF assms(4), of bs]
      by (simp del: decode.simps) (metis list.set_intros(1) snd_conv)
  next
    case 3
    then show ?thesis using assms(4) eq to [of x] by auto
  next
    case 4
    then have "\<exists>x'. x = raw @ b # x'"
      using eq w short by (cases x; cases "tl x") auto
    then show ?thesis
      using 4 assms(4) eq to by auto
  qed
qed

text \<open>Where the separators of a layout are reached inside a header or payload, the destuffing stops there.\<close>

lemma inside_stops:
  assumes "(raw @ [b]) @ bs = x @ SEPARATOR_BYTE # SEPARATOR_BYTE # c # w @ y" "b \<noteq> SEPARATOR_BYTE"
    "\<not> length (raw @ [b]) \<le> length x" "n \<le> length x"
  obtains u u2 where "unstuff (drop n (raw @ [b])) = Inl u" "u @ bs = u2 @ SEPARATOR_BYTE # SEPARATOR_BYTE # c # w @ y"
proof -
  obtain v where v: "raw @ [b] = x @ SEPARATOR_BYTE # SEPARATOR_BYTE # v" "c # w @ y = v @ bs"
    using reaches_separators [OF assms(1,2,3)] by blast
  have "drop n (raw @ [b]) = drop n x @ SEPARATOR_BYTE # SEPARATOR_BYTE # v"
    unfolding v(1) using assms(4) by simp
  then obtain u2 where "unstuff (drop n (raw @ [b])) = Inl (u2 @ SEPARATOR_BYTE # SEPARATOR_BYTE # v)"
    using unstuff_stops [of "drop n x" v] by auto
  from that [OF this, of u2] show ?thesis using v(2) by simp
qed

lemma header_keeps:
  assumes "frame_ok f" "phase_ok (Header raw)" "ahead f y (Header raw) (b # bs) x" "decode_byte (Header raw) b = (ph', bk, fs)"
  shows "\<exists>x'. ahead f y ph' (bk @ bs) x'"
proof -
  obtain c w where w: "wire f = SEPARATOR_BYTE # SEPARATOR_BYTE # c # w" "c \<noteq> SEPARATOR_BYTE"
    using assms(1) by (rule wire_start)
  have r: "3 \<le> length raw" "raw ! 2 \<noteq> SEPARATOR_BYTE" "header_count raw < FRAME_HEADER_SIZE"
    and eq: "(raw @ [b]) @ bs = x @ SEPARATOR_BYTE # SEPARATOR_BYTE # c # w @ y" and x: "x \<noteq> []"
    using assms(2,3) w by (auto simp: ahead_def)
  show ?thesis
  proof (cases "header_count (raw @ [b]) = FRAME_HEADER_SIZE")
    case False
    then show ?thesis
      using assms(4) eq x w by (intro exI [of _ x]) (auto simp: ahead_def decode_byte_header simp del: decode_byte.simps)
  next
    case True
    have b: "b \<noteq> SEPARATOR_BYTE" using header_reached(1) [OF r True] .
    show ?thesis
    proof (cases "length (raw @ [b]) \<le> length x")
      case before: True
      then obtain x' where x': "x = (raw @ [b]) @ x'" "bs = x' @ wire f @ y"
        using append_longer [OF eq before] w by auto
      show ?thesis
        using assms(4) x' True
        by (intro exI [of _ "bk @ x'"]) (auto simp: ahead_def decode_byte_header simp del: decode_byte.simps split: sum.splits if_splits)
    next
      case False
      have "2 \<le> length x"
      proof (rule ccontr)
        assume "\<not> 2 \<le> length x"
        then obtain a where "x = [a]" using x by (cases x; cases "tl x") auto
        then show False using eq r(1,2) by (cases raw; cases "tl raw"; cases "tl (tl raw)") auto
      qed
      from inside_stops [OF eq b False this] obtain u u2 where
        "unstuff (drop 2 (raw @ [b])) = Inl u" "u @ bs = u2 @ SEPARATOR_BYTE # SEPARATOR_BYTE # c # w @ y" .
      then show ?thesis
        using assms(4) decode_byte_header(2) [OF True] w by (intro exI [of _ u2]) (auto simp: ahead_def)
    qed
  qed
qed

lemma payload_keeps:
  assumes "frame_ok f" "phase_ok (Payload h raw)" "ahead f y (Payload h raw) (b # bs) x" "decode_byte (Payload h raw) b = (ph', bk, fs)"
  shows "\<exists>x'. ahead f y ph' (bk @ bs) x'"
proof -
  obtain c w where w: "wire f = SEPARATOR_BYTE # SEPARATOR_BYTE # c # w" "c \<noteq> SEPARATOR_BYTE"
    using assms(1) by (rule wire_start)
  have r: "plain raw < unat (f_data_size h) + trailer_size h"
    and eq: "(raw @ [b]) @ bs = x @ SEPARATOR_BYTE # SEPARATOR_BYTE # c # w @ y"
    using assms(2,3) w by (auto simp: ahead_def)
  show ?thesis
  proof (cases "plain (raw @ [b]) = unat (f_data_size h) + trailer_size h")
    case False
    then show ?thesis
      using assms(4) eq w by (intro exI [of _ x]) (auto simp: ahead_def decode_byte_payload simp del: decode_byte.simps plain_append)
  next
    case True
    have b: "b \<noteq> SEPARATOR_BYTE" using payload_reached(1) [OF r True] .
    show ?thesis
    proof (cases "length (raw @ [b]) \<le> length x")
      case before: True
      then obtain x' where x': "x = (raw @ [b]) @ x'" "bs = x' @ wire f @ y"
        using append_longer [OF eq before] w by auto
      show ?thesis
        using assms(4) x' decode_byte_payload(2) [OF True]
        by (intro exI [of _ "bk @ x'"]) (auto simp: ahead_def simp del: decode_byte.simps plain_append split: sum.splits)
    next
      case False
      from inside_stops [OF eq b False, of 0] obtain u u2 where
        "unstuff (raw @ [b]) = Inl u" "u @ bs = u2 @ SEPARATOR_BYTE # SEPARATOR_BYTE # c # w @ y"
        by auto
      then show ?thesis
        using assms(4) decode_byte_payload(2) [OF True] w by (intro exI [of _ u2]) (auto simp: ahead_def)
    qed
  qed
qed

lemma decode_keeps:
  assumes f: "frame_ok f"
  shows "phase_ok ph \<Longrightarrow> held ph @ bs = x @ wire f @ y \<Longrightarrow> (\<forall>raw. ph = Header raw \<longrightarrow> x \<noteq> []) \<Longrightarrow>
     f \<in> set (snd (decode ph bs)) \<or> (\<exists>z. held (fst (decode ph bs)) = z @ wire f @ y)"
proof (induction ph bs arbitrary: x rule: decode.induct)
  case (1 ph)
  then show ?case by auto
next
  case (2 ph b bs)
  obtain ph' bk fs where d: "decode_byte ph b = (ph', bk, fs)"
    by (cases "decode_byte ph b") auto
  have "ahead f y ph (b # bs) x" using "2.prems"(2,3) by (simp add: ahead_def)
  then have "(\<exists>x'. ahead f y ph' (bk @ bs) x') \<or> f \<in> set (snd (decode ph (b # bs)))"
    using "2.prems"(1) d f by (cases ph) (metis search_keeps, metis header_keeps, metis payload_keeps)
  moreover have ?case if "ahead f y ph' (bk @ bs) x'" for x'
    using "2.IH" [OF d [symmetric] refl refl decode_byte_ok [OF "2.prems"(1) d], of x'] that
    by (auto simp: ahead_def decode_Cons [OF d] simp del: decode.simps)
  ultimately show ?case by blast
qed

text \<open>What is held is short, so enough further bytes bring the frame out.\<close>

lemma held_bound:
  assumes "phase_ok ph"
  shows "plain (held ph) \<le> 235"
proof (cases ph)
  case (Search raw)
  then show ?thesis using assms by (simp add: plain_def)
next
  case (Header raw)
  then have "header_count raw < FRAME_HEADER_SIZE" using assms by simp
  moreover have "plain raw = plain (take 3 raw) + plain (drop 3 raw)"
    by (simp flip: plain_append)
  moreover have "plain (take 3 raw) \<le> length (take 3 raw)"
    by (rule plain_le)
  ultimately show ?thesis
    using Header by (simp add: header_count_def)
next
  case (Payload h raw)
  then show ?thesis
    using assms header_valid_data_size by (fastforce simp: trailer_size_def split: if_splits)
qed

lemma decode_recovers:
  assumes "frame_ok f" "235 < plain y"
  shows "f \<in> set (snd (decode (Search []) (x @ wire f @ y)))"
proof -
  let ?q = "fst (decode (Search []) (x @ wire f @ y))"
  have "plain (held ?q) \<le> 235"
    by (intro held_bound decode_ok) simp
  moreover have "235 < plain (z @ wire f @ y)" for z
    using assms(2) by simp
  ultimately have "held ?q \<noteq> z @ wire f @ y" for z
    by (metis not_le)
  then show ?thesis
    using decode_keeps [OF assms(1), of "Search []" "x @ wire f @ y" x y] by simp
qed

end
