(* ===== verification/Transport_Refinement.thy ===== *)
theory Transport_Refinement
  imports Transport Decoder
begin

text \<open>
  The transport handler implements the decoder: a relation between the members of the
  handler and a phase of the decoder, the simulation of one loop iteration by one decoded
  byte, and the termination and functional correctness of \<open>process_data\<close> that follow.
\<close>

section \<open>The copying loops\<close>

lemma header_loop_payload_loop:
  "0 < bPos \<Longrightarrow> header_loop buf pos bPos out = payload_loop buf pos bPos out"
proof (induction buf pos bPos out rule: header_loop.induct)
  case (1 buf pos bPos out)
  then show ?case
    by (subst header_loop.simps, subst payload_loop.simps) simp
qed

lemma payload_loop_next:
  assumes "i \<le> pos"
  shows "i = 0 \<or> buf (i - 1) \<noteq> SEPARATOR_BYTE \<Longrightarrow>
      payload_loop buf pos i out = payload_loop buf pos (Suc i) (out @ [buf i])"
    and "0 < i \<Longrightarrow> buf (i - 1) = SEPARATOR_BYTE \<Longrightarrow> buf i = SEPARATOR_POST_BYTE \<Longrightarrow>
      payload_loop buf pos i out = payload_loop buf pos (Suc i) out"
    and "0 < i \<Longrightarrow> buf (i - 1) = SEPARATOR_BYTE \<Longrightarrow> buf i \<noteq> SEPARATOR_POST_BYTE \<Longrightarrow>
      payload_loop buf pos i out = (False, i, out)"
  using assms by (subst payload_loop.simps, simp)+

lemma payload_loop_unstuff:
  assumes raw: "length raw = Suc pos" "\<forall>j < length raw. buf j = raw ! j"
  shows "drop i raw = ys \<Longrightarrow> i \<le> length raw \<Longrightarrow> i = 0 \<or> raw ! (i - 1) \<noteq> SEPARATOR_BYTE \<Longrightarrow>
    (case unstuff ys of
       Inr os \<Rightarrow> payload_loop buf pos i out = (True, Suc pos, out @ os)
     | Inl bk \<Rightarrow> \<exists>j out'. payload_loop buf pos i out = (False, j, out') \<and> 0 < j \<and> drop (j - 1) raw = bk)"
proof (induction ys arbitrary: i out rule: unstuff.induct)
  case 1
  then have "i = Suc pos" using raw by simp
  then show ?case by (subst payload_loop.simps) simp
next
  case (2 b)
  have "length (drop i raw) = 1"
    unfolding "2.prems"(1) by simp
  then have "i = pos"
    using raw by simp
  moreover have "drop i raw ! 0 = b"
    unfolding "2.prems"(1) by simp
  ultimately have i: "i = pos" "buf i = b"
    using raw by simp_all
  have "payload_loop buf pos (Suc i) (out @ [b]) = (True, Suc pos, out @ [b])"
    using i by (subst payload_loop.simps) simp
  then show ?case
    using 2 i raw by (subst payload_loop_next(1)) auto
next
  case (3 b c bs)
  have len: "Suc i < length raw"
    using arg_cong [OF "3.prems"(1), of length] by simp
  have b: "buf i = b" "raw ! i = b" and c: "buf (Suc i) = c" "raw ! Suc i = c"
    using raw len arg_cong [OF "3.prems"(1), of "\<lambda>l. l ! 0"] arg_cong [OF "3.prems"(1), of "\<lambda>l. l ! 1"]
    by simp_all
  have d1: "drop (Suc i) raw = c # bs" and d2: "drop (Suc (Suc i)) raw = bs"
    using "3.prems"(1) by (metis drop_Suc list.sel(3) tl_drop)+
  have first: "payload_loop buf pos i out = payload_loop buf pos (Suc i) (out @ [b])"
    using "3.prems"(3) raw len b by (subst payload_loop_next(1)) auto
  show ?case
  proof (cases "b = SEPARATOR_BYTE")
    case False
    then show ?thesis
      using "3.IH"(2) [OF False d1, of "out @ [b]"] len b first
      by (cases "unstuff (c # bs)") auto
  next
    case True
    show ?thesis
    proof (cases "c = SEPARATOR_POST_BYTE")
      case False
      have "payload_loop buf pos (Suc i) (out @ [b]) = (False, Suc i, out @ [b])"
        using raw len b c True False by (subst payload_loop_next(3)) auto
      then show ?thesis
        using first True False "3.prems"(1) by auto
    next
      case post: True
      have "payload_loop buf pos (Suc i) (out @ [b]) = payload_loop buf pos (Suc (Suc i)) (out @ [b])"
        using raw len b c True post by (subst payload_loop_next(2)) auto
      then show ?thesis
        using "3.IH"(1) [OF True post d2, of "out @ [b]"] len c post True first
        by (cases "unstuff bs") auto
    qed
  qed
qed

section \<open>The representation relation\<close>

text \<open>
  With \<open>d\<close> bytes at the front of the buffer already given up (always none once the start of
  a frame is found), the members of the handler are those the phase dictates: the bytes
  between there and the position are the raw bytes of the phase, and the separator count,
  the flag and the current frame are functions of it.
\<close>

fun phase_seps :: "phase \<Rightarrow> nat" where
  "phase_seps (Search raw) = 0"
| "phase_seps (Header raw) = separators (drop 3 raw)"
| "phase_seps (Payload h raw) = separators raw"

fun phase_frame :: "phase \<Rightarrow> frame" where
  "phase_frame (Search raw) = empty_frame"
| "phase_frame (Header raw) = empty_frame"
| "phase_frame (Payload h raw) = h"

definition represents :: "transport \<Rightarrow> nat \<Rightarrow> phase \<Rightarrow> bool" where
  "represents t d ph \<longleftrightarrow> cb_wf (tr_buffer t) \<and> d \<le> tr_pos t \<and> tr_pos t \<le> cb_get_size (tr_buffer t)
     \<and> drop d (take (tr_pos t) (cb_list (tr_buffer t))) = held ph \<and> phase_ok ph
     \<and> (phase_found ph \<longrightarrow> d = 0)
     \<and> tr_frame_start_found t = phase_found ph \<and> tr_sep_count t = phase_seps ph
     \<and> tr_current_frame t = phase_frame ph"

definition unread :: "transport \<Rightarrow> byte list" where
  "unread t = drop (tr_pos t) (cb_list (tr_buffer t))"

lemma representsD:
  assumes "represents t d ph"
  shows "cb_wf (tr_buffer t)" "d \<le> tr_pos t" "tr_pos t \<le> cb_get_size (tr_buffer t)"
    "drop d (take (tr_pos t) (cb_list (tr_buffer t))) = held ph" "phase_ok ph"
    "phase_found ph \<Longrightarrow> d = 0"
    "tr_frame_start_found t = phase_found ph" "tr_sep_count t = phase_seps ph"
    "tr_current_frame t = phase_frame ph" "length (held ph) = tr_pos t - d"
  using assms by (auto simp: represents_def dest: arg_cong [of _ _ length])

text \<open>What one iteration does to the phase, seen on the list of stored bytes.\<close>

definition stamp :: "transport \<Rightarrow> frame list \<Rightarrow> timestamped_frame list" where
  "stamp t gs = map (\<lambda>g. \<lparr>tf_frame = g, tf_timestamp = tr_frame_start t\<rparr>) gs"

definition simulates :: "process_state \<Rightarrow> process_state \<Rightarrow> phase \<Rightarrow> byte list \<Rightarrow> frame list \<Rightarrow> bool" where
  "simulates p p' ph' rest gs \<longleftrightarrow>
     represents (ps_transport p') (ps_bytes_to_drop p') ph'
     \<and> unread (ps_transport p') = rest
     \<and> ps_buf_size p' = cb_get_size (tr_buffer (ps_transport p'))
     \<and> cb_capacity (tr_buffer (ps_transport p')) = cb_capacity (tr_buffer (ps_transport p))
     \<and> tr_frame_start (ps_transport p') = tr_frame_start (ps_transport p)
     \<and> tr_incoming_queue (ps_transport p')
         = tr_incoming_queue (ps_transport p) @ stamp (ps_transport p) gs"

lemma reset_empty: "reset f = empty_frame"
  by (cases f) (simp add: reset_def empty_frame_def)

lemma tr_restart_sel [simp]:
  "tr_buffer (tr_restart t) = tr_buffer t" "tr_pos (tr_restart t) = 0" "tr_sep_count (tr_restart t) = 0"
  "tr_frame_start_found (tr_restart t) = False" "tr_current_frame (tr_restart t) = empty_frame"
  "tr_frame_start (tr_restart t) = tr_frame_start t" "tr_incoming_queue (tr_restart t) = tr_incoming_queue t"
  by (simp_all add: tr_restart_def reset_empty)

lemma tr_drop_bytes_sel [simp]:
  "tr_buffer (tr_drop_bytes n t) = snd (cb_drop (tr_buffer t) n)" "tr_pos (tr_drop_bytes n t) = tr_pos t"
  "tr_sep_count (tr_drop_bytes n t) = tr_sep_count t"
  "tr_frame_start_found (tr_drop_bytes n t) = tr_frame_start_found t"
  "tr_current_frame (tr_drop_bytes n t) = tr_current_frame t"
  "tr_frame_start (tr_drop_bytes n t) = tr_frame_start t"
  "tr_incoming_queue (tr_drop_bytes n t) = tr_incoming_queue t"
  by (simp_all add: tr_drop_bytes_def)

text \<open>After a restart the handler represents the decoder at the start of whatever is stored.\<close>

lemma represents_restart:
  "cb_wf (tr_buffer t) \<Longrightarrow> represents (tr_restart t) 0 (Search [])"
  by (simp add: represents_def)

lemma unread_restart: "unread (tr_restart t) = cb_list (tr_buffer t)"
  by (simp add: unread_def)

lemma stamp_Nil [simp]: "stamp t [] = []"
  by (simp add: stamp_def)

section \<open>One iteration\<close>

lemma take_pos_snoc:
  "tr_pos t < cb_get_size (tr_buffer t) \<Longrightarrow>
     take (Suc (tr_pos t)) (cb_list (tr_buffer t))
       = take (tr_pos t) (cb_list (tr_buffer t)) @ [cb_get (tr_buffer t) (tr_pos t)]"
  by (simp add: take_Suc_conv_app_nth cb_get_nth)

lemma unread_Cons:
  "tr_pos t < cb_get_size (tr_buffer t) \<Longrightarrow>
     unread t = cb_get (tr_buffer t) (tr_pos t) # drop (Suc (tr_pos t)) (cb_list (tr_buffer t))"
  by (simp add: unread_def Cons_nth_drop_Suc cb_get_nth)

lemma search_simulates:
  assumes rep: "represents t d (Search raw)" and pos: "tr_pos t < cb_get_size (tr_buffer t)"
    and p: "p = \<lparr>ps_transport = t, ps_buf_size = cb_get_size (tr_buffer t), ps_bytes_to_drop = d\<rparr>"
    and b: "unread t = b # bs" and dec: "decode_byte (Search raw) b = (ph', bk, fs)"
  shows "simulates p (process_step p) ph' (bk @ bs) fs"
proof -
  note r = representsD [OF rep]
  let ?L = "cb_list (tr_buffer t)"
  have byte: "cb_get (tr_buffer t) (tr_pos t) = b" and bs: "bs = drop (Suc (tr_pos t)) ?L"
    using unread_Cons [OF pos] b by simp_all
  have pre: "drop d (take (tr_pos t) ?L) = raw" and len: "length raw = tr_pos t - d" "length raw \<le> 2"
    using r by simp_all
  have suc: "drop d (take (Suc (tr_pos t)) ?L) = raw @ [b]"
    using take_pos_snoc [OF pos] pre r(2,3) byte by simp
  have t0: "\<not> tr_frame_start_found t" "tr_sep_count t = 0" "tr_current_frame t = empty_frame"
    using r by simp_all
  note [simp] = simulates_def represents_def unread_def process_step_def next_pos_def search_step_def Let_def
  consider "b = SEPARATOR_BYTE" "length raw < 2" | "b = SEPARATOR_BYTE" "length raw = 2"
    | "b \<noteq> SEPARATOR_BYTE" "length raw = 2" | "b \<noteq> SEPARATOR_BYTE" "length raw < 2"
    using len(2) by linarith
  then show ?thesis
  proof cases
    case 1
    then have "decode_byte (Search raw) b = (Search (raw @ [b]), [], [])" by simp
    moreover have "\<not> Suc (tr_pos t) - d > 2" using 1 len by simp
    ultimately show ?thesis
      using dec 1 p r t0 pos byte suc bs by auto
  next
    case 2
    have "drop (tr_pos t - 1) (take (Suc (tr_pos t)) ?L) = drop 1 (drop d (take (Suc (tr_pos t)) ?L))"
    proof -
      have "tr_pos t - 1 = d + 1" using 2 len by simp
      then show ?thesis by simp
    qed
    then have "drop (tr_pos t - 1) (take (Suc (tr_pos t)) ?L) = drop 1 raw @ [b]"
      unfolding suc using 2 by simp
    moreover have "Suc (tr_pos t) - d > 2" using 2 len by simp
    ultimately show ?thesis
      using dec 2 p r t0 pos byte bs by auto
  next
    case 3
    have h: "phase_ok (Header (raw @ [b]))"
      using 3 by (simp add: nth_append header_count_def)
    have "3 + d = Suc (tr_pos t)" using 3 len by simp
    then have at: "drop (3 + d) ?L = drop (Suc (tr_pos t)) ?L" by (simp only:)
    have "take (Suc (tr_pos t - d)) (drop d ?L) = raw @ [b]"
      using suc r(2) by (simp add: drop_take Suc_diff_le)
    then show ?thesis
      using dec 3 p r t0 pos byte bs suc h len at cb_drop_correct [OF r(1), of d]
        ring.size_after_skip [OF r(1), of d]
      by (cases "d = 0") auto
  next
    case 4
    then have "tr_pos t - d \<noteq> 2" using len by simp
    then show ?thesis
      using dec 4 p r t0 pos byte bs by auto
  qed
qed

text \<open>The bytes up to the position, as the copying loops see them.\<close>

lemma loop_buffer:
  assumes "tr_pos t < cb_get_size (tr_buffer t)" "raw = take (Suc (tr_pos t)) (cb_list (tr_buffer t))"
  shows "length raw = Suc (tr_pos t)" "\<forall>j < length raw. cb_get (tr_buffer t) j = raw ! j"
  using assms by (auto simp: cb_get_nth less_Suc_eq_le)

lemma wrong_post_byte_simulates:
  assumes "cb_wf (tr_buffer t)" "Suc (tr_pos t) \<le> cb_get_size (tr_buffer t)"
    and "0 < j" "drop (j - 1) (take (Suc (tr_pos t)) (cb_list (tr_buffer t))) = bk" "bk \<noteq> []"
    and "ps_transport p = t" "ps_bytes_to_drop p = 0"
    and "bs = drop (Suc (tr_pos t)) (cb_list (tr_buffer t))"
  shows "simulates p (wrong_post_byte j p) (Search []) (bk @ bs) []"
proof -
  let ?L = "cb_list (tr_buffer t)"
  have j: "j - 1 < Suc (tr_pos t)"
    using assms(4,5) by (cases "j - 1 < Suc (tr_pos t)") auto
  have "drop (j - 1) ?L = drop (j - 1) (take (Suc (tr_pos t)) ?L @ drop (Suc (tr_pos t)) ?L)"
    by simp
  also have "\<dots> = bk @ bs"
    using assms(2,4,8) j by (simp del: append_take_drop_id)
  finally have "drop (j - 1) ?L = bk @ bs" .
  then show ?thesis
    using assms cb_drop_correct [OF assms(1), of "j - 1"]
      represents_restart [of "tr_drop_bytes (j - 1) t"] unread_restart [of "tr_drop_bytes (j - 1) t"]
    by (simp add: simulates_def wrong_post_byte_def Let_def)
qed

text \<open>What the header loop copies.\<close>

abbreviation header_copy :: "transport \<Rightarrow> bool \<times> nat \<times> byte list" where
  "header_copy t \<equiv> header_loop (cb_get (tr_buffer t)) (tr_pos t) (FRAME_SEPARATORS_COUNT + 1)
     (map (cb_get (tr_buffer t)) [0..<FRAME_SEPARATORS_COUNT] @ [cb_get (tr_buffer t) FRAME_SEPARATORS_COUNT])"

lemma header_copied:
  assumes pos: "tr_pos t < cb_get_size (tr_buffer t)"
    and raw: "r = take (Suc (tr_pos t)) (cb_list (tr_buffer t))" "3 \<le> length r" "r ! 2 \<noteq> SEPARATOR_BYTE"
  shows "unstuff (drop 2 r) = Inr hdr \<Longrightarrow> header_copy t = (True, Suc (tr_pos t), [r ! 0, r ! 1] @ hdr)"
    and "unstuff (drop 2 r) = Inl bk \<Longrightarrow> \<exists>j out. header_copy t = (False, j, out) \<and> 0 < j \<and> drop (j - 1) r = bk"
proof -
  let ?buf = "cb_get (tr_buffer t)"
  note lb = loop_buffer [OF pos raw(1)]
  have two: "take 2 r = [r ! 0, r ! 1]"
    using raw(2) by (cases r; cases "tl r") (auto simp: numeral_2_eq_2)
  have "map ?buf [0..<FRAME_SEPARATORS_COUNT] @ [?buf FRAME_SEPARATORS_COUNT] = [r ! 0, r ! 1] @ [r ! 2]"
    using lb raw(2) by (simp add: upt_conv_Cons)
  then have loop: "header_copy t = payload_loop ?buf (tr_pos t) 3 ([r ! 0, r ! 1] @ [r ! 2])"
    by (simp only: header_loop_payload_loop) simp
  have "drop 2 r = r ! 2 # drop 3 r"
    using raw(2) Cons_nth_drop_Suc [of 2 r] by (simp add: numeral_3_eq_3)
  then have un: "unstuff (drop 2 r) = map_sum id ((#) (r ! 2)) (unstuff (drop 3 r))"
    using unstuff_plain [OF raw(3)] by simp
  note result = payload_loop_unstuff [OF lb refl, of 3 "[r ! 0, r ! 1] @ [r ! 2]"]
  show "header_copy t = (True, Suc (tr_pos t), [r ! 0, r ! 1] @ hdr)" if "unstuff (drop 2 r) = Inr hdr"
    unfolding loop using result raw(2,3) that un by (cases "unstuff (drop 3 r)") auto
  show "\<exists>j out. header_copy t = (False, j, out) \<and> 0 < j \<and> drop (j - 1) r = bk" if "unstuff (drop 2 r) = Inl bk"
    unfolding loop using result raw(2,3) that un by (cases "unstuff (drop 3 r)") auto
qed

lemma header_complete_simulates:
  assumes wf: "cb_wf (tr_buffer t)" and pos: "tr_pos t < cb_get_size (tr_buffer t)"
    and cur: "tr_current_frame t = empty_frame" "tr_frame_start_found t"
    and raw: "r = take (Suc (tr_pos t)) (cb_list (tr_buffer t))" "3 \<le> length r" "r ! 2 \<noteq> SEPARATOR_BYTE"
    and hdr: "\<And>hdr. unstuff (drop 2 r) = Inr hdr \<Longrightarrow> length hdr = 8"
    and p: "p = \<lparr>ps_transport = t, ps_buf_size = cb_get_size (tr_buffer t), ps_bytes_to_drop = 0\<rparr>"
    and bs: "bs = drop (Suc (tr_pos t)) (cb_list (tr_buffer t))"
    and dec: "(ph', bk, fs) = (case unstuff (drop 2 r) of
        Inl bk \<Rightarrow> (Search [], bk, [])
      | Inr hdr \<Rightarrow> (if header_valid (r ! 0) (r ! 1) hdr then Payload (header_frame hdr) [] else Search [], [], []))"
  shows "simulates p (header_complete p) ph' (bk @ bs) fs"
proof -
  note copy = header_copied [OF pos raw]
  show ?thesis
  proof (cases "unstuff (drop 2 r)")
    case (Inl back')
    obtain j out' where j: "header_copy t = (False, j, out')" "0 < j" "drop (j - 1) r = back'"
      using copy(2) [OF Inl] by blast
    have "header_complete p = wrong_post_byte j p"
      unfolding header_complete_def using p j(1) by (simp add: Let_def)
    moreover have "ph' = Search []" "bk = back'" "fs = []" "back' \<noteq> []"
      using dec Inl unstuff_back [OF Inl] by auto
    ultimately show ?thesis
      using wrong_post_byte_simulates [OF wf _ j(2), of back' p bs] pos raw(1) j(3) p bs by simp
  next
    case (Inr hdr)
    note hd = Inr
    have len: "length hdr = 8" by (rule hdr [OF Inr])
    define t1 where "t1 = (tr_drop_bytes (Suc (tr_pos t)) t)\<lparr>tr_pos := 0, tr_sep_count := 0\<rparr>"
    obtain f err n where parse: "parse_buffer empty_frame ([r ! 0, r ! 1] @ hdr) 10 = (f, err, n)"
      and valid: "err = HEADER_ONLY \<longleftrightarrow> header_valid (r ! 0) (r ! 1) hdr" "err = HEADER_ONLY \<Longrightarrow> f = header_frame hdr"
      by (rule header_parsed [OF len, of "r ! 0" "r ! 1"]) blast
    have hc: "header_complete p = p\<lparr>
        ps_transport := (if err \<noteq> HEADER_ONLY
           then t1\<lparr>tr_current_frame := reset f, tr_frame_start_found := False\<rparr>
           else t1\<lparr>tr_current_frame := f\<rparr>),
        ps_buf_size := cb_get_size (tr_buffer t) - Suc (tr_pos t)\<rparr>"
      unfolding header_complete_def using p copy(1) [OF Inr] parse len cur(1) by (simp add: Let_def t1_def)
    have "bk = []" "fs = []"
      and ph': "ph' = (if err = HEADER_ONLY then Payload (header_frame hdr) [] else Search [])"
      using dec hd valid(1) by auto
    moreover have "phase_ok ph'"
      using ph' valid(1) len by (auto simp: trailer_size_def header_valid_def)
    ultimately show ?thesis
      unfolding hc using p bs cur(2) valid(2) cb_drop_correct [OF wf, of "Suc (tr_pos t)"]
        ring.size_after_skip [OF wf, of "Suc (tr_pos t)"]
      by (cases "err = HEADER_ONLY") (simp_all add: simulates_def represents_def unread_def t1_def reset_empty)
  qed
qed

lemma payload_complete_simulates:
  assumes wf: "cb_wf (tr_buffer t)" and pos: "tr_pos t < cb_get_size (tr_buffer t)"
    and cur: "f_status (tr_current_frame t) = FRAME_HEADER_ONLY"
      "unat (f_data_size (tr_current_frame t)) \<le> MAX_DATA_SIZE"
    and raw: "r = take (Suc (tr_pos t)) (cb_list (tr_buffer t))"
    and out: "\<And>out. unstuff r = Inr out \<Longrightarrow>
      length out = unat (f_data_size (tr_current_frame t)) + trailer_size (tr_current_frame t)"
    and p: "ps_transport p = t" "ps_bytes_to_drop p = 0"
    and bs: "bs = drop (Suc (tr_pos t)) (cb_list (tr_buffer t))"
    and dec: "(ph', bk, fs) = (case unstuff r of
        Inl bk \<Rightarrow> (Search [], bk, []) | Inr out \<Rightarrow> (Search [], [], deliver (tr_current_frame t) out))"
  shows "simulates p (payload_complete p) ph' (bk @ bs) fs"
proof -
  let ?buf = "cb_get (tr_buffer t)" and ?h = "tr_current_frame t"
  note lb = loop_buffer [OF pos raw]
  show ?thesis
  proof (cases "unstuff r")
    case (Inl back')
    obtain j out' where j: "payload_loop ?buf (tr_pos t) 0 [] = (False, j, out')"
      "0 < j" "drop (j - 1) r = back'"
      using payload_loop_unstuff [OF lb, of 0 r "[]"] Inl by auto
    have "payload_complete p = wrong_post_byte j p"
      unfolding payload_complete_def using p j(1) by (simp add: Let_def)
    moreover have "ph' = Search []" "bk = back'" "fs = []" "back' \<noteq> []"
      using dec Inl unstuff_back [OF Inl] by auto
    ultimately show ?thesis
      using wrong_post_byte_simulates [OF wf _ j(2), of back' p bs] pos raw j(3) p bs by simp
  next
    case (Inr os)
    have len: "length os = unat (f_data_size ?h) + trailer_size ?h" by (rule out [OF Inr])
    have loop: "payload_loop ?buf (tr_pos t) 0 [] = (True, Suc (tr_pos t), os)"
      using payload_loop_unstuff [OF lb, of 0 r "[]"] Inr by simp
    obtain f err n where pr: "parse_buffer ?h os (length os) = (f, err, n)"
      and del: "deliver ?h os = (if err = COMPLETE_FRAME then [f] else [])"
      by (rule payload_parsed [OF cur len]) blast
    define t2 where "t2 = (tr_drop_bytes (Suc (tr_pos t)) t)\<lparr>
        tr_incoming_queue := tr_incoming_queue t @ stamp t (deliver ?h os)\<rparr>"
    have pc: "payload_complete p = p\<lparr>ps_transport := tr_restart t2, ps_buf_size := cb_get_size (tr_buffer t2)\<rparr>"
      unfolding payload_complete_def using p loop pr del
      by (simp add: Let_def t2_def stamp_def move_frame_def tr_restart_def reset_empty)
    have "ph' = Search []" "bk = []" "fs = deliver ?h os"
      using dec Inr by auto
    then show ?thesis
      unfolding pc using p bs cb_drop_correct [OF wf, of "Suc (tr_pos t)"]
        represents_restart [of t2] unread_restart [of t2]
      by (simp add: simulates_def t2_def)
  qed
qed

text \<open>The test on positions and separator counts is the test on counting bytes.\<close>

lemma header_count_eq: "3 \<le> length r \<Longrightarrow> length r - separators (drop 3 r) = header_count r"
  using separators_le [of "drop 3 r"] by (simp add: header_count_def plain_def)

lemma process_step_header:
  assumes rep: "represents t 0 (Header raw)" and pos: "tr_pos t < cb_get_size (tr_buffer t)"
    and p: "p = \<lparr>ps_transport = t, ps_buf_size = cb_get_size (tr_buffer t), ps_bytes_to_drop = 0\<rparr>"
    and b: "unread t = b # bs" and dec: "decode_byte (Header raw) b = (ph', bk, fs)"
  shows "simulates p (process_step p) ph' (bk @ bs) fs"
proof -
  note r = representsD [OF rep]
  let ?L = "cb_list (tr_buffer t)" and ?r = "raw @ [b]"
  have byte: "cb_get (tr_buffer t) (tr_pos t) = b" and bs: "bs = drop (Suc (tr_pos t)) ?L"
    using unread_Cons [OF pos] b by simp_all
  have raw: "3 \<le> length raw" "raw ! 2 \<noteq> SEPARATOR_BYTE" "header_count raw < FRAME_HEADER_SIZE"
    using r(5) by simp_all
  have take: "take (Suc (tr_pos t)) ?L = ?r"
    using take_pos_snoc [OF pos] r(4) byte by simp
  have len: "length raw = tr_pos t" using r(10) by simp
  define t1 where "t1 = t\<lparr>tr_sep_count := separators (drop 3 ?r)\<rparr>"
  define p1 where "p1 = p\<lparr>ps_transport := t1\<rparr>"
  have t1: "(if cb_get (tr_buffer t) (tr_pos t) = SEPARATOR_BYTE then t\<lparr>tr_sep_count := tr_sep_count t + 1\<rparr> else t) = t1"
    using r(8) raw(1) byte by (simp add: t1_def separators_Cons)
  have "tr_pos t + 1 - separators (drop 3 ?r) = length ?r - separators (drop 3 ?r)"
    using len by simp
  also have "\<dots> = header_count ?r"
    using raw(1) by (intro header_count_eq) simp
  finally have cnt: "tr_pos t + 1 - tr_sep_count t1 = header_count ?r"
    by (simp add: t1_def)
  have step: "process_step p = (if header_count ?r = FRAME_HEADER_SIZE then header_complete p1 else next_pos p1)"
    unfolding process_step_def using p r(7,9) t1 cnt
    by (simp add: p1_def Let_def t1_def [symmetric] del: One_nat_def) (simp add: empty_frame_def t1_def)
  have lift: "simulates p1 q ph' (bk @ bs) fs \<Longrightarrow> simulates p q ph' (bk @ bs) fs" for q
    using p by (simp add: simulates_def p1_def t1_def stamp_def)
  show ?thesis
  proof (cases "header_count ?r = FRAME_HEADER_SIZE")
    case True
    have "simulates p1 (header_complete p1) ph' (bk @ bs) fs"
    proof (rule header_complete_simulates [of t1 ?r])
      show "length hdr = 8" if "unstuff (drop 2 ?r) = Inr hdr" for hdr
        using header_reached(2) [OF raw True that] .
      show "(ph', bk, fs) = (case unstuff (drop 2 ?r) of Inl bk \<Rightarrow> (Search [], bk, [])
         | Inr hdr \<Rightarrow> (if header_valid (?r ! 0) (?r ! 1) hdr then Payload (header_frame hdr) [] else Search [], [], []))"
        using dec decode_byte_header(2) [OF True] by simp
    qed (use r pos take p raw bs in \<open>simp_all add: t1_def p1_def nth_append\<close>)
    then show ?thesis using step True lift by simp
  next
    case False
    have "phase_ok (Header ?r)"
      using decode_byte_ok [OF r(5) decode_byte_header(1) [OF False]] .
    then have "simulates p1 (next_pos p1) ph' (bk @ bs) fs"
      using dec decode_byte_header(1) [OF False] r pos p bs take
      by (auto simp: simulates_def represents_def unread_def next_pos_def p1_def t1_def)
    then show ?thesis using step False lift by simp
  qed
qed

lemma process_step_payload:
  assumes rep: "represents t 0 (Payload h raw)" and pos: "tr_pos t < cb_get_size (tr_buffer t)"
    and p: "p = \<lparr>ps_transport = t, ps_buf_size = cb_get_size (tr_buffer t), ps_bytes_to_drop = 0\<rparr>"
    and b: "unread t = b # bs" and dec: "decode_byte (Payload h raw) b = (ph', bk, fs)"
  shows "simulates p (process_step p) ph' (bk @ bs) fs"
proof -
  note r = representsD [OF rep]
  let ?L = "cb_list (tr_buffer t)" and ?r = "raw @ [b]"
  have byte: "cb_get (tr_buffer t) (tr_pos t) = b" and bs: "bs = drop (Suc (tr_pos t)) ?L"
    using unread_Cons [OF pos] b by simp_all
  obtain hdr where h: "header_valid SEPARATOR_BYTE SEPARATOR_BYTE hdr" "h = header_frame hdr"
    and reach: "plain raw < unat (f_data_size h) + trailer_size h"
    using r(5) by auto
  have cur: "f_status h = FRAME_HEADER_ONLY" "unat (f_data_size h) \<le> MAX_DATA_SIZE"
    using h header_valid_data_size [OF h(1)] by simp_all
  have take: "take (Suc (tr_pos t)) ?L = ?r"
    using take_pos_snoc [OF pos] r(4) byte by simp
  have len: "length raw = tr_pos t" using r(10) by simp
  define t1 where "t1 = t\<lparr>tr_sep_count := separators ?r\<rparr>"
  define p1 where "p1 = p\<lparr>ps_transport := t1\<rparr>"
  have cf: "tr_current_frame t1 = h"
    using r(9) by (simp add: t1_def)
  have t1: "(if cb_get (tr_buffer t) (tr_pos t) = SEPARATOR_BYTE then t\<lparr>tr_sep_count := tr_sep_count t + 1\<rparr> else t) = t1"
    using r(8) byte by (simp add: t1_def separators_Cons)
  have cnt: "tr_pos t + 1 - tr_sep_count t1 = plain ?r"
    using len by (simp add: t1_def plain_def del: plain_append)
  have step: "process_step p = (if plain ?r = unat (f_data_size h) + trailer_size h
      then payload_complete p1 else next_pos p1)"
    unfolding process_step_def using p r(7,9) t1 cnt cur(1)
    by (simp add: p1_def Let_def t1_def [symmetric] trailer_size_def del: One_nat_def plain_append)
      (simp add: t1_def trailer_size_def)
  have lift: "simulates p1 q ph' (bk @ bs) fs \<Longrightarrow> simulates p q ph' (bk @ bs) fs" for q
    using p by (simp add: simulates_def p1_def t1_def stamp_def)
  show ?thesis
  proof (cases "plain ?r = unat (f_data_size h) + trailer_size h")
    case True
    have "simulates p1 (payload_complete p1) ph' (bk @ bs) fs"
    proof (rule payload_complete_simulates [of t1 ?r])
      show "length out = unat (f_data_size (tr_current_frame t1)) + trailer_size (tr_current_frame t1)"
        if "unstuff ?r = Inr out" for out
        using payload_reached(2) [OF reach True that] r(9) by (simp add: t1_def)
      show "(ph', bk, fs) = (case unstuff ?r of Inl bk \<Rightarrow> (Search [], bk, [])
         | Inr out \<Rightarrow> (Search [], [], deliver (tr_current_frame t1) out))"
        unfolding cf using dec decode_byte_payload(2) [OF True] by simp
    qed (use r pos take p cur bs in \<open>simp_all add: t1_def p1_def\<close>)
    then show ?thesis using step True lift by simp
  next
    case False
    have "phase_ok (Payload h ?r)"
      using decode_byte_ok [OF r(5) decode_byte_payload(1) [OF False]] .
    then have "simulates p1 (next_pos p1) ph' (bk @ bs) fs"
      using dec decode_byte_payload(1) [OF False] r pos p bs take
      by (auto simp: simulates_def represents_def unread_def next_pos_def p1_def t1_def)
    then show ?thesis using step False lift by simp
  qed
qed

lemma process_step_simulates:
  assumes rep: "represents t d ph" and pos: "tr_pos t < cb_get_size (tr_buffer t)"
    and p: "p = \<lparr>ps_transport = t, ps_buf_size = cb_get_size (tr_buffer t), ps_bytes_to_drop = d\<rparr>"
    and b: "unread t = b # bs" and dec: "decode_byte ph b = (ph', bk, fs)"
  shows "simulates p (process_step p) ph' (bk @ bs) fs"
proof (cases ph)
  case (Search raw)
  then show ?thesis using search_simulates [OF _ pos p b] rep dec by blast
next
  case (Header raw)
  then have "d = 0" using representsD(6) [OF rep] by simp
  then show ?thesis using process_step_header [OF _ pos _ b] rep dec p Header by blast
next
  case (Payload h raw)
  then have "d = 0" using representsD(6) [OF rep] by simp
  then show ?thesis using process_step_payload [OF _ pos _ b] rep dec p Payload by blast
qed

section \<open>The loop\<close>

abbreviation process_loop :: "process_state \<Rightarrow> process_state option" where
  "process_loop \<equiv> while_option (\<lambda>p. tr_pos (ps_transport p) < ps_buf_size p) process_step"

lemma process_loop_decodes:
  "represents t d ph \<Longrightarrow> unread t = bs \<Longrightarrow>
   p = \<lparr>ps_transport = t, ps_buf_size = cb_get_size (tr_buffer t), ps_bytes_to_drop = d\<rparr> \<Longrightarrow>
     \<exists>p'. process_loop p = Some p' \<and> simulates p p' (fst (decode ph bs)) [] (snd (decode ph bs))"
proof (induction ph bs arbitrary: t d p rule: decode.induct)
  case (1 ph)
  then have "tr_pos t = cb_get_size (tr_buffer t)"
    using representsD(3) [of t d ph] by (simp add: unread_def)
  then have "process_loop p = Some p"
    using 1 by (subst while_option_unfold) simp
  then show ?case
    using 1 by (simp add: simulates_def)
next
  case (2 ph b bs)
  obtain ph' bk fs where d: "decode_byte ph b = (ph', bk, fs)"
    by (cases "decode_byte ph b") auto
  have pos: "tr_pos t < cb_get_size (tr_buffer t)"
    using arg_cong [OF "2.prems"(2), of length] by (simp add: unread_def)
  define q where "q = process_step p"
  have sim: "simulates p q ph' (bk @ bs) fs"
    unfolding q_def by (rule process_step_simulates [OF "2.prems"(1) pos "2.prems"(3,2) d])
  then have "q = \<lparr>ps_transport = ps_transport q, ps_buf_size = cb_get_size (tr_buffer (ps_transport q)),
      ps_bytes_to_drop = ps_bytes_to_drop q\<rparr>"
    by (simp add: simulates_def)
  then obtain p' where p': "process_loop q = Some p'"
    "simulates q p' (fst (decode ph' (bk @ bs))) [] (snd (decode ph' (bk @ bs)))"
    using "2.IH" [OF d [symmetric] refl refl, of "ps_transport q" "ps_bytes_to_drop q" q] sim
    by (auto simp: simulates_def)
  have "process_loop p = process_loop q"
    using pos "2.prems"(3) by (subst while_option_unfold) (simp add: q_def)
  moreover have "simulates p p' (fst (decode ph' (bk @ bs))) [] (fs @ snd (decode ph' (bk @ bs)))"
    using sim p'(2) by (simp add: simulates_def stamp_def)
  ultimately show ?case
    using p'(1) decode_Cons [OF d, of bs] by simp
qed

section \<open>The handler between two calls\<close>

text \<open>
  Between calls nothing is marked for dropping. \<open>handler t ph\<close> says that the handler is in
  phase \<open>ph\<close> with the bytes \<open>unread t\<close> not looked at yet; \<open>settled t ph\<close> that nothing
  is unread, so that what is stored is exactly what the phase holds.
\<close>

abbreviation handler :: "transport \<Rightarrow> phase \<Rightarrow> bool" where
  "handler t ph \<equiv> represents t 0 ph"

definition settled :: "transport \<Rightarrow> phase \<Rightarrow> bool" where
  "settled t ph \<longleftrightarrow> handler t ph \<and> unread t = []"

lemma settled_stored: "settled t ph \<Longrightarrow> cb_list (tr_buffer t) = held ph"
  using representsD(4) [of t 0 ph] by (simp add: settled_def unread_def)

lemma frame_timeout_never: "frame_timeout now t = t"
  by (cases "f_status (tr_current_frame t)")
    (simp_all add: frame_timeout_def less_frame_status_def)

lemma process_data_decodes:
  assumes h: "handler t ph"
  shows "\<exists>t'. process_data now t = Some t' \<and> settled t' (fst (decode ph (unread t)))
    \<and> tr_incoming_queue t' = tr_incoming_queue t @ stamp t (snd (decode ph (unread t)))
    \<and> cb_capacity (tr_buffer t') = cb_capacity (tr_buffer t) \<and> tr_frame_start t' = tr_frame_start t"
proof (cases "cb_is_empty (tr_buffer t)")
  case True
  then have "cb_list (tr_buffer t) = []" "cb_get_size (tr_buffer t) = 0"
    using representsD(1) [OF h] cb_empty_iff cb_wf_empty_size by blast+
  then show ?thesis
    using h True by (simp add: process_data_def frame_timeout_never unread_def settled_def)
next
  case False
  define p where "p = \<lparr>ps_transport = t, ps_buf_size = cb_get_size (tr_buffer t), ps_bytes_to_drop = 0\<rparr>"
  obtain p' where loop: "process_loop p = Some p'"
    and sim: "simulates p p' (fst (decode ph (unread t))) [] (snd (decode ph (unread t)))"
    using process_loop_decodes [OF h refl p_def] by blast
  define u where "u = ps_transport p'"
  define d where "d = ps_bytes_to_drop p'"
  define ph' where "ph' = fst (decode ph (unread t))"
  have rep: "represents u d ph'" and un: "unread u = []"
    using sim by (simp_all add: simulates_def u_def d_def ph'_def)
  note r = representsD [OF rep]
  define t' where "t' = (if d > 0 then (tr_drop_bytes d u)\<lparr>tr_pos := tr_pos u - d\<rparr> else u)"
  have "process_data now t = Some t'"
    using False loop by (simp add: process_data_def frame_timeout_never Let_def p_def t'_def u_def d_def)
  moreover have "handler t' ph'"
    using r cb_drop_correct [OF r(1), of d] ring.size_after_skip [OF r(1), of d]
    by (cases "d = 0") (auto simp: t'_def represents_def drop_take)
  moreover have "unread t' = []"
    using un r(2) cb_drop_correct(2) [OF r(1), of d] ring.size_after_skip [OF r(1), of d]
    by (auto simp: unread_def t'_def)
  ultimately show ?thesis
    using sim cb_drop_correct(3) [OF r(1), of d]
    by (auto simp: settled_def simulates_def t'_def ph'_def u_def d_def p_def)
qed

end
