(* ===== verification/Transport_Stream.thy ===== *)
theory Transport_Stream
  imports Transport_Refinement
begin

text \<open>
  The transport handler on a byte stream: \<open>read_data\<close> and \<open>send_data\<close> over any stream
  that keeps the contract \<open>protocol_stream\<close>, the invariant of the handler, and the
  properties of the transport layer as a whole.
\<close>

section \<open>The remaining operations\<close>

lemma tr_new_handler:
  assumes "allocates new"
  shows "settled (tr_new new n) (Search [])" "tr_incoming_queue (tr_new new n) = []"
    "cb_capacity (tr_buffer (tr_new new n)) = max CIRCULAR_BUFFER_MINIMUM_SIZE n"
  using assms by (simp_all add: tr_new_def settled_def represents_def unread_def cb_new_correct)

lemma tr_reset_protocol_handler:
  assumes "handler t ph"
  shows "handler (tr_reset_protocol t) (Search [])" "unread (tr_reset_protocol t) = unread t"
    "tr_incoming_queue (tr_reset_protocol t) = tr_incoming_queue t"
proof -
  note r = representsD [OF assms]
  have "tr_reset_protocol t = tr_restart (tr_drop_bytes (tr_pos t) t)"
    using r(3) by (auto simp: tr_reset_protocol_def Let_def)
  then show "handler (tr_reset_protocol t) (Search [])" "unread (tr_reset_protocol t) = unread t"
    "tr_incoming_queue (tr_reset_protocol t) = tr_incoming_queue t"
    using cb_drop_correct [OF r(1)] represents_restart [of "tr_drop_bytes (tr_pos t) t"]
    by (simp_all add: unread_restart unread_def [of t])
qed

lemma tr_clear_handler:
  assumes "handler t ph"
  shows "settled (tr_clear t) (Search [])"
proof -
  have "cb_wf (cb_clear (tr_buffer t))" "cb_list (cb_clear (tr_buffer t)) = []"
    using cb_clear_correct [OF representsD(1) [OF assms]] by simp_all
  then show ?thesis
    using represents_restart [of "t\<lparr>tr_buffer := cb_clear (tr_buffer t)\<rparr>"]
    by (simp add: tr_clear_def settled_def unread_restart)
qed

lemma represents_queue [simp]: "represents (t\<lparr>tr_incoming_queue := q\<rparr>) d ph = represents t d ph"
  by (simp add: represents_def)

lemma unread_queue [simp]: "unread (t\<lparr>tr_incoming_queue := q\<rparr>) = unread t"
  by (simp add: unread_def)

lemma tl_power: "((\<lambda>t. t\<lparr>tr_incoming_queue := tl (tr_incoming_queue t)\<rparr>) ^^ n) t
    = t\<lparr>tr_incoming_queue := drop n (tr_incoming_queue t)\<rparr>"
  by (induction n) (simp_all add: drop_Suc tl_drop)

lemma tr_drop_eq: "tr_drop n t = t\<lparr>tr_incoming_queue := drop n (tr_incoming_queue t)\<rparr>"
  by (simp add: tr_drop_def Let_def tl_power)

lemma tr_pop_eq:
  "tr_pop t = (if tr_incoming_queue t = [] then None else Some (hd (tr_incoming_queue t)),
     t\<lparr>tr_incoming_queue := drop 1 (tr_incoming_queue t)\<rparr>)"
  by (cases "tr_incoming_queue t") (simp_all add: tr_pop_def)

section \<open>Reading from a stream\<close>

text \<open>Two reservations cover any amount that fits: the second one starts at the beginning
  of the array.\<close>

definition received :: "transport \<Rightarrow> nat \<Rightarrow> transport" where
  "received t count =
     (if count > cb_get_space (tr_buffer t)
      then let td = tr_drop_bytes (count - cb_get_space (tr_buffer t)) t
           in if tr_frame_start_found td then tr_restart td else td
      else t)"

lemma received_correct:
  assumes "cb_wf (tr_buffer t)" "count \<le> cb_capacity (tr_buffer t)"
  shows "cb_wf (tr_buffer (received t count))" "count \<le> cb_get_space (tr_buffer (received t count))"
    "cb_list (tr_buffer (received t count)) = drop (count - cb_get_space (tr_buffer t)) (cb_list (tr_buffer t))"
    "cb_capacity (tr_buffer (received t count)) = cb_capacity (tr_buffer t)"
  using assms cb_drop_correct [OF assms(1)] ring.size_after_skip [OF assms(1)] cb_get_size_le [OF assms(1)]
  by (auto simp: received_def Let_def cb_get_space_def)

lemma send_data_eq:
  fixes ty :: byte and u :: bool
  assumes new: "allocates new" and n: "n \<le> MAX_DATA_SIZE" "length d = n"
    and w: "length (wire (new_frame ty d (of_nat n) u)) \<le> 256"
  shows "tr_send_data ops new ty d n u s
    = (of_nat (length (wire (new_frame ty d (of_nat n) u))), so_write_array ops (wire (new_frame ty d (of_nat n) u)) s)"
proof -
  define f where "f = new_frame ty d (of_nat n) u"
  have nb: "unat (of_nat n :: byte) = n"
    using n(1) by (simp add: unat_of_nat)
  have ok: "frame_ok f"
    unfolding f_def by (rule new_frame_ok) (use n nb in simp_all)
  have sz: "get_buffer_size f = length (wire f)"
    by (rule get_buffer_size_wire [OF ok])
  have "snd (fill_buffer f (new (length (wire f))) (length (wire f))) = wire f"
    using fill_buffer_fits [OF ok _ _ w [folded f_def], of "length (wire f)" "new (length (wire f))"] new by simp
  moreover have "\<not> n > unat MAX_FRAME_SIZE - unat PURE_HEADER_SIZE"
    using n(1) by simp
  ultimately show ?thesis
    unfolding tr_send_data_def f_def [symmetric] Let_def sz by (simp only: if_False)
qed

context byte_stream
begin

lemma read_arrived_correct:
  assumes s: "sinv s" and wf: "cb_wf (tr_buffer t)"
  defines "count \<equiv> min (length (arrived ops pending s)) (cb_capacity (tr_buffer t))"
  shows "\<exists>b s'. tr_read_data ops t s = (count, (received t count)\<lparr>tr_buffer := b\<rparr>, s')
    \<and> cb_wf b \<and> cb_capacity b = cb_capacity (tr_buffer t)
    \<and> cb_list b = cb_list (tr_buffer (received t count)) @ take count (arrived ops pending s)
    \<and> sinv s' \<and> pending s' = drop count (arrived ops pending s) \<and> written s' = written s"
proof -
  define t1 where "t1 = received t count"
  have t1: "cb_wf (tr_buffer t1)" "count \<le> cb_get_space (tr_buffer t1)"
    "cb_capacity (tr_buffer t1) = cb_capacity (tr_buffer t)"
    unfolding t1_def by (rule received_correct [OF wf]; simp add: count_def)+
  obtain c s0 where av: "so_available ops s = (c, s0)"
    by (cases "so_available ops s") auto
  have c: "c = length (arrived ops pending s)" "sinv s0" "pending s0 = arrived ops pending s" "written s0 = written s"
    using available_count [OF s] available_state [OF s] av by (simp_all add: arrived_def)
  have cnt: "(if c \<ge> cb_capacity (tr_buffer t) then cb_capacity (tr_buffer t) else c) = count"
    using c(1) by (simp add: count_def)
  obtain o1 n1 b1 where r1: "cb_reserve (tr_buffer t1) count = (o1, n1, b1)"
    by (cases "cb_reserve (tr_buffer t1) count") auto
  obtain xs1 s1 where rd1: "so_read_array ops n1 s0 = (xs1, s1)"
    by (cases "so_read_array ops n1 s0") auto
  have n1: "n1 = min count (cb_capacity (tr_buffer t) - cb_tail (tr_buffer t1))"
    using cb_reserve_size [OF t1(1), of count] r1 t1(3) by simp
  have xs1: "xs1 = take n1 (arrived ops pending s)" "sinv s1" "pending s1 = drop n1 (arrived ops pending s)" "written s1 = written s"
    using read_bytes [OF c(2), of n1] read_state [OF c(2), of n1] rd1 c by simp_all
  have len1: "length xs1 = n1" using xs1(1) n1 by (simp add: count_def)
  define b2 where "b2 = cb_fill o1 xs1 b1"
  note f1 = cb_reserve_fill_correct [OF t1(1,2) r1 len1, folded b2_def]
  show ?thesis
  proof (cases "n1 < count")
    case False
    then have "n1 = count" using f1(4) by simp
    then have "tr_read_data ops t s = (count, t1\<lparr>tr_buffer := b2\<rparr>, s1)"
      unfolding tr_read_data_def av Let_def prod.case cnt received_def [unfolded Let_def, symmetric]
      using r1 rd1 len1 by (simp add: t1_def b2_def)
    then show ?thesis
      using f1 t1 xs1 \<open>n1 = count\<close> by (auto simp: t1_def)
  next
    case True
    have tail: "cb_tail b2 = 0" using f1(5) True by simp
    have space: "count - n1 \<le> cb_get_space b2"
    proof -
      have "cb_get_size b2 = cb_get_size (tr_buffer t1) + n1"
        unfolding length_cb_list [symmetric] f1(2) by (simp add: len1)
      then show ?thesis
        using t1(2,3) f1(3) by (simp add: cb_get_space_def)
    qed
    obtain o2 n2 b3 where r2: "cb_reserve b2 (count - n1) = (o2, n2, b3)"
      by (cases "cb_reserve b2 (count - n1)") auto
    have n2: "n2 = count - n1"
      using cb_reserve_size [OF f1(1), of "count - n1"] r2 tail f1(3) t1(3) by (simp add: count_def)
    obtain xs2 s2 where rd2: "so_read_array ops n2 s1 = (xs2, s2)"
      by (cases "so_read_array ops n2 s1") auto
    have xs2: "xs2 = take n2 (drop n1 (arrived ops pending s))" "sinv s2" "pending s2 = drop n2 (drop n1 (arrived ops pending s))"
      "written s2 = written s"
      using read_bytes [OF xs1(2), of n2] read_state [OF xs1(2), of n2] rd2 xs1 by simp_all
    have len2: "length xs2 = n2" using xs2(1) n2 by (simp add: count_def)
    note f2 = cb_reserve_fill_correct [OF f1(1) space r2 len2]
    have "xs1 @ xs2 = take count (arrived ops pending s)"
      using xs1(1) xs2(1) n2 f1(4) take_add [of n1 n2 "arrived ops pending s"] by simp
    moreover have "tr_read_data ops t s = (count, t1\<lparr>tr_buffer := cb_fill o2 xs2 b3\<rparr>, s2)"
      unfolding tr_read_data_def av Let_def prod.case cnt received_def [unfolded Let_def, symmetric]
      using r1 rd1 len1 True r2 rd2 len2 n2 by (simp add: t1_def b2_def)
    ultimately show ?thesis
      using f1 f2 t1 xs2 n2 by (auto simp: t1_def)
  qed
qed

text \<open>Without overflow the bytes are appended to the unread ones and the phase stays.\<close>

lemma read_arrived_appends:
  assumes s: "sinv s" and h: "handler t ph"
  defines "count \<equiv> min (length (arrived ops pending s)) (cb_capacity (tr_buffer t))"
  assumes fits: "count \<le> cb_get_space (tr_buffer t)"
  shows "\<exists>t' s'. tr_read_data ops t s = (count, t', s') \<and> handler t' ph
    \<and> unread t' = unread t @ take count (arrived ops pending s) \<and> tr_incoming_queue t' = tr_incoming_queue t
    \<and> tr_frame_start t' = tr_frame_start t \<and> cb_capacity (tr_buffer t') = cb_capacity (tr_buffer t)
    \<and> sinv s' \<and> pending s' = drop count (arrived ops pending s) \<and> written s' = written s"
proof -
  note r = representsD [OF h]
  have rec: "received t count = t"
    using fits by (simp add: received_def)
  obtain b s' where b: "tr_read_data ops t s = (count, t\<lparr>tr_buffer := b\<rparr>, s')"
    "cb_wf b" "cb_capacity b = cb_capacity (tr_buffer t)" "cb_list b = cb_list (tr_buffer t) @ take count (arrived ops pending s)"
    "sinv s'" "pending s' = drop count (arrived ops pending s)" "written s' = written s"
    using read_arrived_correct [OF s r(1)] unfolding count_def [symmetric] rec by auto
  have "cb_get_size b = cb_get_size (tr_buffer t) + count"
    unfolding length_cb_list [symmetric] b(4) by (simp add: count_def)
  then have "handler (t\<lparr>tr_buffer := b\<rparr>) ph"
    "unread (t\<lparr>tr_buffer := b\<rparr>) = unread t @ take count (arrived ops pending s)"
    using r b by (simp_all add: represents_def unread_def)
  then show ?thesis
    using b by auto
qed

text \<open>With overflow the oldest bytes are dropped; a frame being collected is abandoned, and a
  search keeps its position over the bytes that have moved there.\<close>

lemma read_arrived_overflow:
  assumes s: "sinv s" and h: "handler t ph"
  defines "count \<equiv> min (length (arrived ops pending s)) (cb_capacity (tr_buffer t))"
  assumes over: "cb_get_space (tr_buffer t) < count"
  shows "\<exists>t' s'. tr_read_data ops t s = (count, t', s') \<and> sinv s' \<and> pending s' = drop count (arrived ops pending s)
    \<and> cb_list (tr_buffer t') = drop (count - cb_get_space (tr_buffer t)) (cb_list (tr_buffer t)) @ take count (arrived ops pending s)
    \<and> handler t' (if phase_found ph then Search [] else Search (take (tr_pos t) (cb_list (tr_buffer t'))))
    \<and> tr_incoming_queue t' = tr_incoming_queue t \<and> tr_frame_start t' = tr_frame_start t
    \<and> cb_capacity (tr_buffer t') = cb_capacity (tr_buffer t)"
proof -
  note r = representsD [OF h]
  let ?k = "count - cb_get_space (tr_buffer t)"
  have c: "count \<le> cb_capacity (tr_buffer t)" "count \<le> length (arrived ops pending s)"
    by (simp_all add: count_def)
  note rc = received_correct [OF r(1) c(1)]
  obtain b s' where b: "tr_read_data ops t s = (count, (received t count)\<lparr>tr_buffer := b\<rparr>, s')"
    "cb_wf b" "cb_list b = cb_list (tr_buffer (received t count)) @ take count (arrived ops pending s)"
    "sinv s'" "pending s' = drop count (arrived ops pending s)" "cb_capacity b = cb_capacity (tr_buffer t)"
    using read_arrived_correct [OF s r(1)] unfolding count_def [symmetric] by blast
  have bl: "cb_list b = drop ?k (cb_list (tr_buffer t)) @ take count (arrived ops pending s)"
    using b(3) rc(3) by simp
  have le: "cb_get_size (tr_buffer t) \<le> cb_capacity (tr_buffer t)"
    using cb_get_size_le [OF r(1)] .
  have sz: "cb_get_size b = cb_capacity (tr_buffer t)"
    unfolding length_cb_list [symmetric] bl using over le c by (simp add: cb_get_space_def)
  have rec: "received t count = (if phase_found ph then tr_restart (tr_drop_bytes ?k t) else tr_drop_bytes ?k t)"
    using over r(7) by (simp add: received_def Let_def)
  have "handler ((received t count)\<lparr>tr_buffer := b\<rparr>)
      (if phase_found ph then Search [] else Search (take (tr_pos t) (cb_list b)))"
  proof (cases "phase_found ph")
    case True
    then show ?thesis using b(2) by (simp add: rec represents_def)
  next
    case False
    then obtain raw where "ph = Search raw" by (cases ph) auto
    then show ?thesis
      using r b(2) sz le by (simp add: rec represents_def)
  qed
  then show ?thesis
    using b bl rec by auto
qed

text \<open>What goes out on a send: the layout of the frame, unless the data is too long.\<close>

lemma send_data_correct:
  fixes ty :: byte and u :: bool
  assumes s: "sinv s" and new: "allocates new" and n: "n \<le> MAX_DATA_SIZE" "length d = n"
  defines "f \<equiv> new_frame ty d (of_nat n) u"
  assumes w: "length (wire f) \<le> 256" "length (wire f) \<le> room s"
  shows "fst (tr_send_data ops new ty d n u s) = of_nat (length (wire f))
    \<and> written (snd (tr_send_data ops new ty d n u s)) = written s @ wire f
    \<and> sinv (snd (tr_send_data ops new ty d n u s))
    \<and> pending (snd (tr_send_data ops new ty d n u s)) = pending s"
  using write_state [OF s] write_written [OF s w(2)]
  by (simp add: f_def send_data_eq [OF new n w(1) [unfolded f_def]])

end

context protocol_stream
begin

lemma read_data_correct:
  assumes s: "sinv s" and wf: "cb_wf (tr_buffer t)"
  defines "count \<equiv> min (length (pending s)) (cb_capacity (tr_buffer t))"
  shows "\<exists>b s'. tr_read_data ops t s = (count, (received t count)\<lparr>tr_buffer := b\<rparr>, s')
    \<and> cb_wf b \<and> cb_capacity b = cb_capacity (tr_buffer t)
    \<and> cb_list b = cb_list (tr_buffer (received t count)) @ take count (pending s)
    \<and> sinv s' \<and> pending s' = drop count (pending s) \<and> written s' = written s"
  using read_arrived_correct [OF assms(1,2)] by (simp add: available_still [OF s] count_def)

lemma read_data_appends:
  assumes s: "sinv s" and h: "handler t ph"
  defines "count \<equiv> min (length (pending s)) (cb_capacity (tr_buffer t))"
  assumes fits: "count \<le> cb_get_space (tr_buffer t)"
  shows "\<exists>t' s'. tr_read_data ops t s = (count, t', s') \<and> handler t' ph
    \<and> unread t' = unread t @ take count (pending s) \<and> tr_incoming_queue t' = tr_incoming_queue t
    \<and> tr_frame_start t' = tr_frame_start t \<and> cb_capacity (tr_buffer t') = cb_capacity (tr_buffer t)
    \<and> sinv s' \<and> pending s' = drop count (pending s) \<and> written s' = written s"
  using read_arrived_appends [OF s h] fits by (simp add: available_still [OF s] count_def)

lemma read_data_overflow:
  assumes s: "sinv s" and h: "handler t ph"
  defines "count \<equiv> min (length (pending s)) (cb_capacity (tr_buffer t))"
  assumes over: "cb_get_space (tr_buffer t) < count"
  shows "\<exists>t' s'. tr_read_data ops t s = (count, t', s') \<and> sinv s' \<and> pending s' = drop count (pending s)
    \<and> cb_list (tr_buffer t') = drop (count - cb_get_space (tr_buffer t)) (cb_list (tr_buffer t)) @ take count (pending s)
    \<and> handler t' (if phase_found ph then Search [] else Search (take (tr_pos t) (cb_list (tr_buffer t'))))
    \<and> tr_incoming_queue t' = tr_incoming_queue t \<and> tr_frame_start t' = tr_frame_start t
    \<and> cb_capacity (tr_buffer t') = cb_capacity (tr_buffer t)"
  using read_arrived_overflow [OF s h] over by (simp add: available_still [OF s] count_def)

end

section \<open>Sessions\<close>

text \<open>
  The handler driven the way \<^verbatim>\<open>simple_transport_test\<close> drives it: each chunk of bytes
  arrives in the stream, is read and processed. \<open>no_overflow\<close> says that no chunk is larger
  than the space left by what the decoder holds.
\<close>

fun chunk_session ::
    "millis \<Rightarrow> byte list list \<Rightarrow> transport \<times> test_stream \<Rightarrow> (transport \<times> test_stream) option" where
  "chunk_session now [] (t, s) = Some (t, s)"
| "chunk_session now (c # cs) (t, s) =
     (let (_, t1, s1) = tr_read_data test_stream_ops t (ts_addBuffer c s)
      in case process_data now t1 of None \<Rightarrow> None | Some t2 \<Rightarrow> chunk_session now cs (t2, s1))"

fun no_overflow :: "nat \<Rightarrow> phase \<Rightarrow> byte list list \<Rightarrow> bool" where
  "no_overflow cap ph [] = True"
| "no_overflow cap ph (c # cs) \<longleftrightarrow> length (held ph) + length c \<le> cap \<and> length c \<le> 2000
     \<and> no_overflow cap (fst (decode ph c)) cs"

lemma stamp_append: "stamp t (xs @ ys) = stamp t xs @ stamp t ys"
  by (simp add: stamp_def)

lemma stamp_cong: "tr_frame_start t' = tr_frame_start t \<Longrightarrow> stamp t' = stamp t"
  by (simp add: stamp_def fun_eq_iff)

text \<open>One chunk that fits.\<close>

lemma chunk_processed:
  assumes t: "settled t ph" and s: "ts_inv s" "cb_list (ts_buffer s) = []"
    and c: "length (held ph) + length c \<le> cb_capacity (tr_buffer t)" "length c \<le> 2000"
  shows "\<exists>t1 s1 t2. tr_read_data test_stream_ops t (ts_addBuffer c s) = (length c, t1, s1) \<and> handler t1 ph \<and> unread t1 = c
    \<and> ts_inv s1 \<and> cb_list (ts_buffer s1) = []
    \<and> process_data now t1 = Some t2 \<and> settled t2 (fst (decode ph c))
    \<and> tr_incoming_queue t2 = tr_incoming_queue t @ stamp t (snd (decode ph c))
    \<and> cb_capacity (tr_buffer t2) = cb_capacity (tr_buffer t) \<and> tr_frame_start t2 = tr_frame_start t"
proof -
  let ?s = "ts_addBuffer c s"
  have h: "handler t ph" and un: "unread t = []" and len: "cb_get_size (tr_buffer t) = length (held ph)"
    using t settled_stored [of t ph] by (auto simp: settled_def simp flip: length_cb_list)
  have "cb_get_space (ts_buffer s) = 2000"
    using s by (simp add: ts_inv_def cb_get_space_def flip: length_cb_list)
  then have s': "ts_inv ?s" "cb_list (ts_buffer ?s) = c"
    using s c ts_addBuffer_correct [OF s(1), of c] by simp_all
  have fits: "length c \<le> cb_get_space (tr_buffer t)"
    using c(1) len by (auto simp: cb_get_space_def)
  then have count: "min (length c) (cb_capacity (tr_buffer t)) = length c"
    by (simp add: cb_get_space_def)
  obtain t1 s1 where rd: "tr_read_data test_stream_ops t ?s = (length c, t1, s1)" "handler t1 ph"
    "unread t1 = c" "tr_incoming_queue t1 = tr_incoming_queue t" "tr_frame_start t1 = tr_frame_start t"
    "cb_capacity (tr_buffer t1) = cb_capacity (tr_buffer t)" "ts_inv s1" "cb_list (ts_buffer s1) = []"
    using test.read_data_appends [OF s'(1) h] fits unfolding s'(2) count un by auto
  then show ?thesis
    using process_data_decodes [OF rd(2), of now] stamp_cong [OF rd(5)] by auto
qed

lemma chunk_session_decodes:
  assumes "settled t ph" "ts_inv s" "cb_list (ts_buffer s) = []"
    "no_overflow (cb_capacity (tr_buffer t)) ph cs"
  shows "\<exists>t' s'. chunk_session now cs (t, s) = Some (t', s') \<and> settled t' (fst (decode ph (concat cs)))
    \<and> tr_incoming_queue t' = tr_incoming_queue t @ stamp t (snd (decode ph (concat cs)))"
  using assms
proof (induction cs arbitrary: t s ph)
  case Nil
  then show ?case by simp
next
  case (Cons c cs)
  obtain t1 s1 t2 where rd: "tr_read_data test_stream_ops t (ts_addBuffer c s) = (length c, t1, s1)"
      "ts_inv s1" "cb_list (ts_buffer s1) = []"
    and pd: "process_data now t1 = Some t2" "settled t2 (fst (decode ph c))"
      "tr_incoming_queue t2 = tr_incoming_queue t @ stamp t (snd (decode ph c))"
      "cb_capacity (tr_buffer t2) = cb_capacity (tr_buffer t)" "tr_frame_start t2 = tr_frame_start t"
    using chunk_processed [OF Cons.prems(1-3), of c now] Cons.prems(4) by auto
  obtain t' s' where "chunk_session now cs (t2, s1) = Some (t', s')"
    "settled t' (fst (decode (fst (decode ph c)) (concat cs)))"
    "tr_incoming_queue t' = tr_incoming_queue t2 @ stamp t2 (snd (decode (fst (decode ph c)) (concat cs)))"
    using Cons.IH [OF pd(2) rd(2,3)] Cons.prems(4) pd(4) by auto
  then show ?case
    using rd(1) pd decode_append [of ph c "concat cs"] stamp_cong [OF pd(5)] by (simp add: stamp_append)
qed

lemma fresh_session:
  assumes "allocates new" "no_overflow (max CIRCULAR_BUFFER_MINIMUM_SIZE n) (Search []) cs"
  shows "\<exists>t s. chunk_session now cs (tr_new new n, ts_new new) = Some (t, s)
    \<and> settled t (fst (decode (Search []) (concat cs)))
    \<and> tr_incoming_queue t = map (\<lambda>g. \<lparr>tf_frame = g, tf_timestamp = 0\<rparr>) (snd (decode (Search []) (concat cs)))"
  using chunk_session_decodes [OF tr_new_handler(1) [OF assms(1)] ts_new_inv [OF assms(1)]]
    assms tr_new_handler [OF assms(1)]
  by (simp add: stamp_def tr_new_def)

text \<open>A sending and a receiving handler on the two ends of a virtual stream: each message is
  sent, read and processed before the next one.\<close>

fun link_session :: "byte allocator \<Rightarrow> millis \<Rightarrow> (byte \<times> byte list \<times> bool) list \<Rightarrow>
    transport \<times> virtual_stream_holder \<Rightarrow> (transport \<times> virtual_stream_holder) option" where
  "link_session new now [] (t, h) = Some (t, h)"
| "link_session new now ((ty, d, u) # ms) (t, h) =
     (let (_, h1) = tr_send_data (get_stream_reference DIRECTION_A) new ty d (length d) u h;
          (_, t1, h2) = tr_read_data (get_stream_reference DIRECTION_B) t h1
      in case process_data now t1 of None \<Rightarrow> None | Some t2 \<Rightarrow> link_session new now ms (t2, h2))"

definition message_frame :: "byte \<times> byte list \<times> bool \<Rightarrow> frame" where
  "message_frame = (\<lambda>(ty, d, u). new_frame ty d (of_nat (length d)) u)"

lemma link_session_delivers:
  assumes "allocates new" "settled t (Search [])" "vs_inv h" "cb_list (vs_rx DIRECTION_B h) = []"
    and "256 \<le> cb_capacity (tr_buffer t)"
    and "\<forall>m \<in> set ms. length (fst (snd m)) \<le> MAX_DATA_SIZE \<and> length (wire (message_frame m)) \<le> 256"
  shows "\<exists>t' h'. link_session new now ms (t, h) = Some (t', h') \<and> settled t' (Search [])
    \<and> tr_incoming_queue t' = tr_incoming_queue t @ stamp t (map message_frame ms)"
  using assms(2-)
proof (induction ms arbitrary: t h)
  case Nil
  then show ?case by simp
next
  case (Cons m ms)
  obtain ty d u where m: "m = (ty, d, u)" by (cases m) auto
  let ?A = "get_stream_reference DIRECTION_A" and ?B = "get_stream_reference DIRECTION_B"
  define f where "f = message_frame m"
  have f: "f = new_frame ty d (of_nat (length d)) u" by (simp add: f_def message_frame_def m)
  have w: "length d \<le> MAX_DATA_SIZE" "length (wire f) \<le> 256"
    using Cons.prems(5) by (simp_all add: m f_def)
  have ok: "frame_ok f"
    unfolding f by (rule new_frame_ok) (use w(1) in \<open>simp_all add: unat_of_nat\<close>)
  have tx: "vs_tx DIRECTION_A h' = vs_rx DIRECTION_B h'" for h'
    using vs_crossed [of DIRECTION_A h'] by (simp add: other_end_def)
  have room: "cb_get_space (vs_tx DIRECTION_A h) = BUFFER_SIZE"
    using Cons.prems(2,3) by (simp add: cb_get_space_def tx flip: length_cb_list)
  define h1 where "h1 = snd (tr_send_data ?A new ty d (length d) u h)"
  have h1: "vs_inv h1" "cb_list (vs_rx DIRECTION_B h1) = wire f"
    using virtual.send_data_correct [OF Cons.prems(2) assms(1) w(1) refl, of ty u, where dir = DIRECTION_A]
      w(2) room Cons.prems(3)
    unfolding f [symmetric] h1_def by (simp_all flip: tx)
  have hd: "handler t (Search [])" and un: "unread t = []" and sz: "cb_get_size (tr_buffer t) = 0"
    using Cons.prems(1) settled_stored [OF Cons.prems(1)] by (auto simp: settled_def simp flip: length_cb_list)
  have count: "min (length (wire f)) (cb_capacity (tr_buffer t)) = length (wire f)"
    using w(2) Cons.prems(4) by simp
  obtain t1 h2 where rd: "tr_read_data ?B t h1 = (length (wire f), t1, h2)" "handler t1 (Search [])"
    "unread t1 = wire f" "tr_incoming_queue t1 = tr_incoming_queue t" "tr_frame_start t1 = tr_frame_start t"
    "cb_capacity (tr_buffer t1) = cb_capacity (tr_buffer t)" "vs_inv h2" "cb_list (vs_rx DIRECTION_B h2) = []"
    using virtual.read_data_appends [OF h1(1) hd, of DIRECTION_B] w(2) Cons.prems(4) sz
    unfolding h1(2) count un by (auto simp: cb_get_space_def)
  have dec: "decode (Search []) (wire f) = (Search [], [f])"
    using decode_wire [OF ok, of "[]" "[]"] by simp
  obtain t2 where pd: "process_data now t1 = Some t2" "settled t2 (Search [])"
    "tr_incoming_queue t2 = tr_incoming_queue t @ stamp t [f]"
    "cb_capacity (tr_buffer t2) = cb_capacity (tr_buffer t)" "tr_frame_start t2 = tr_frame_start t"
    using process_data_decodes [OF rd(2), of now] rd(3-6) stamp_cong [OF rd(5)] dec by auto
  obtain t' h' where "link_session new now ms (t2, h2) = Some (t', h')" "settled t' (Search [])"
    "tr_incoming_queue t' = tr_incoming_queue t2 @ stamp t2 (map message_frame ms)"
    using Cons.IH [OF pd(2) rd(7,8)] Cons.prems pd(4) by auto
  moreover have "link_session new now (m # ms) (t, h) = link_session new now ms (t2, h2)"
    using rd(1) pd(1) by (simp add: m split_def Let_def flip: h1_def)
  ultimately show ?case
    using pd stamp_cong [OF pd(5)] by (simp add: f_def stamp_def)
qed

end
