(* ===== verification/Decoder_Errors.thy ===== *)
theory Decoder_Errors
  imports Decoder
begin

text \<open>
  Why the decoder gives frames up. \<open>decode_errors\<close> follows \<open>decode\<close> byte by byte and lists the
  reasons in order; nothing is given up on a stream of whole frames, the list does not depend on how the
  stream is cut, and every frame start that is found ends in exactly one way: delivered, given up for one
  reason, or still incomplete. The warnings of the transport handler are shown to be these
  reasons in \<open>Transport_Log\<close>.
\<close>

section \<open>The reasons\<close>

fun decode_byte_errors :: "phase \<Rightarrow> byte \<Rightarrow> frame_error list" where
  "decode_byte_errors (Search raw) b = []"
| "decode_byte_errors (Header raw) b =
     (let r = raw @ [b]
      in if header_count r = FRAME_HEADER_SIZE
         then case unstuff (drop 2 r) of
                Inl bk \<Rightarrow> [WRONG_POST_SEPARATOR_BYTE]
              | Inr hdr \<Rightarrow> header_errors (r ! 0) (r ! 1) hdr
         else [])"
| "decode_byte_errors (Payload h raw) b =
     (let r = raw @ [b]
      in if plain r = unat (f_data_size h) + trailer_size h
         then case unstuff r of
                Inl bk \<Rightarrow> [WRONG_POST_SEPARATOR_BYTE]
              | Inr out \<Rightarrow> payload_errors h out
         else [])"

lemma decode_byte_errors_header:
  "header_count (raw @ [b]) \<noteq> FRAME_HEADER_SIZE \<Longrightarrow> decode_byte_errors (Header raw) b = []"
  "header_count (raw @ [b]) = FRAME_HEADER_SIZE \<Longrightarrow> decode_byte_errors (Header raw) b =
     (case unstuff (drop 2 (raw @ [b])) of
        Inl bk \<Rightarrow> [WRONG_POST_SEPARATOR_BYTE]
      | Inr hdr \<Rightarrow> header_errors ((raw @ [b]) ! 0) ((raw @ [b]) ! 1) hdr)"
  by (simp_all only: decode_byte_errors.simps Let_def if_True if_False refl)

lemma decode_byte_errors_payload:
  "plain (raw @ [b]) \<noteq> unat (f_data_size h) + trailer_size h \<Longrightarrow> decode_byte_errors (Payload h raw) b = []"
  "plain (raw @ [b]) = unat (f_data_size h) + trailer_size h \<Longrightarrow> decode_byte_errors (Payload h raw) b =
     (case unstuff (raw @ [b]) of Inl bk \<Rightarrow> [WRONG_POST_SEPARATOR_BYTE] | Inr out \<Rightarrow> payload_errors h out)"
  by (simp_all only: decode_byte_errors.simps Let_def if_True if_False refl)

function decode_errors :: "phase \<Rightarrow> byte list \<Rightarrow> frame_error list" where
  "decode_errors ph [] = []"
| "decode_errors ph (b # bs) =
     (let (ph', bk, fs) = decode_byte ph b in decode_byte_errors ph b @ decode_errors ph' (bk @ bs))"
  by pat_completeness auto
termination
  by (relation decode_order) (use decode_byte_decreases in \<open>auto simp: wf_decode_order dest!: sym [of "(_, _, _)"]\<close>)

lemma decode_errors_Cons:
  "decode_byte ph b = (ph', bk, fs) \<Longrightarrow> decode_errors ph (b # bs) = decode_byte_errors ph b @ decode_errors ph' (bk @ bs)"
  by simp

lemma decode_errors_append:
  "decode_errors ph (xs @ ys) = decode_errors ph xs @ decode_errors (fst (decode ph xs)) ys"
proof (induction ph xs rule: decode.induct)
  case (2 ph b bs)
  obtain ph' bk fs where d: "decode_byte ph b = (ph', bk, fs)"
    by (cases "decode_byte ph b") auto
  show ?case
    using 2 [OF d [symmetric] refl refl] by (simp add: d split_def Let_def)
qed simp

section \<open>One outcome per frame start\<close>

fun decode_starts :: "phase \<Rightarrow> byte \<Rightarrow> nat" where
  "decode_starts (Search raw) b = (if b \<noteq> SEPARATOR_BYTE \<and> length raw = 2 then 1 else 0)"
| "decode_starts (Header raw) b = 0"
| "decode_starts (Payload h raw) b = 0"

function frame_starts :: "phase \<Rightarrow> byte list \<Rightarrow> nat" where
  "frame_starts ph [] = 0"
| "frame_starts ph (b # bs) =
     (let (ph', bk, fs) = decode_byte ph b in decode_starts ph b + frame_starts ph' (bk @ bs))"
  by pat_completeness auto
termination
  by (relation decode_order) (use decode_byte_decreases in \<open>auto simp: wf_decode_order dest!: sym [of "(_, _, _)"]\<close>)

lemma header_errors_length: "length (header_errors s0 s1 hdr) = (if header_valid s0 s1 hdr then 0 else 1)"
  by (auto simp: header_errors_def header_valid_def)

lemma payload_outcome: "length (deliver h out) + length (payload_errors h out) = 1"
  by (auto simp: deliver_def payload_valid_def payload_errors_def Let_def)

lemma decode_byte_outcome:
  assumes "decode_byte ph b = (ph', bk, fs)"
  shows "length fs + length (decode_byte_errors ph b) + of_bool (phase_found ph')
    = of_bool (phase_found ph) + decode_starts ph b"
proof (cases ph)
  case (Search raw)
  then show ?thesis using assms by (auto split: if_splits)
next
  case (Header raw)
  then show ?thesis
    using assms decode_byte_header [of raw b] decode_byte_errors_header [of raw b]
    by (cases "header_count (raw @ [b]) = FRAME_HEADER_SIZE")
      (auto simp: header_errors_length header_errors_none simp del: decode_byte.simps decode_byte_errors.simps drop_append split: sum.splits if_splits)
next
  case (Payload h raw)
  then show ?thesis
    using assms decode_byte_payload [of raw b h] decode_byte_errors_payload [of raw b h] payload_outcome [of h]
    by (cases "plain (raw @ [b]) = unat (f_data_size h) + trailer_size h")
      (auto simp del: decode_byte.simps decode_byte_errors.simps plain_append split: sum.splits)
qed

lemma one_outcome:
  "length (snd (decode ph bs)) + length (decode_errors ph bs) + of_bool (phase_found (fst (decode ph bs)))
    = of_bool (phase_found ph) + frame_starts ph bs"
proof (induction ph bs rule: decode.induct)
  case (2 ph b bs)
  obtain ph' bk fs where d: "decode_byte ph b = (ph', bk, fs)"
    by (cases "decode_byte ph b") auto
  show ?case
    using 2 [OF d [symmetric] refl refl] decode_byte_outcome [OF d] by (simp add: d split_def Let_def)
qed simp

section \<open>Whole frames are not given up\<close>

lemma header_feed_errors:
  "3 \<le> length raw \<Longrightarrow> header_count (raw @ xs) < FRAME_HEADER_SIZE \<Longrightarrow>
     decode_errors (Header raw) (xs @ ys) = decode_errors (Header (raw @ xs)) ys"
proof (induction xs arbitrary: raw)
  case (Cons x xs)
  then have "header_count (raw @ [x]) \<noteq> FRAME_HEADER_SIZE"
    by (auto simp: plain_Cons header_count_append)
  then show ?case
    using Cons.IH [of "raw @ [x]"] Cons.prems
    by (simp add: decode_byte_header decode_byte_errors_header del: decode_byte.simps decode_byte_errors.simps)
qed simp

lemma payload_feed_errors:
  "plain (raw @ xs) < unat (f_data_size h) + trailer_size h \<Longrightarrow>
     decode_errors (Payload h raw) (xs @ ys) = decode_errors (Payload h (raw @ xs)) ys"
proof (induction xs arbitrary: raw)
  case (Cons x xs)
  then have "plain (raw @ [x]) \<noteq> unat (f_data_size h) + trailer_size h"
    by (auto simp: plain_Cons)
  then show ?case
    using Cons.IH [of "raw @ [x]"] Cons.prems
    by (simp add: decode_byte_payload decode_byte_errors_payload del: decode_byte.simps decode_byte_errors.simps plain_append)
qed simp

lemma header_fed_errors:
  assumes "s \<noteq> SEPARATOR_BYTE" "length hs = 7" "header_valid s0 s1 (s # hs)"
  shows "decode_errors (Header [s0, s1, s]) (stuff hs @ ys) = decode_errors (Payload (header_frame (s # hs)) []) ys"
proof -
  obtain hs' h where hs: "hs = hs' @ [h]" "length hs' = 6"
    using assms(2) by (cases hs rule: rev_cases) auto
  obtain xs b where x: "stuff hs = xs @ [b]" "b \<noteq> SEPARATOR_BYTE" "plain xs = length hs'"
    unfolding hs(1) by (rule stuff_snocE)
  have "decode_errors (Header [s0, s1, s]) (stuff hs @ ys) = decode_errors (Header ([s0, s1, s] @ xs)) (b # ys)"
    using x hs(2) by (simp add: header_feed_errors header_count_def)
  moreover have "unstuff (drop 2 (([s0, s1, s] @ xs) @ [b])) = Inr (s # hs)"
    using unstuff_stuff [of "s # hs"] assms(1) x(1) by (simp add: stuff_Cons stuff1_def)
  moreover have "header_count (([s0, s1, s] @ xs) @ [b]) = FRAME_HEADER_SIZE"
    using x hs(2) by (simp add: plain_Cons header_count_def)
  ultimately show ?thesis
    using assms(3) by (simp add: decode_byte_header decode_byte_errors_header header_errors_none
        del: decode_byte.simps decode_byte_errors.simps)
qed

lemma payload_fed_errors:
  assumes "length out = unat (f_data_size h) + trailer_size h" "deliver h out \<noteq> []"
  shows "decode_errors (Payload h []) (stuff out @ ys) = decode_errors (Search []) ys"
proof -
  have "0 < length out" using assms(1) by (simp add: trailer_size_def)
  then obtain os c where out: "out = os @ [c]"
    by (cases out rule: rev_cases) auto
  obtain xs b where x: "stuff out = xs @ [b]" "b \<noteq> SEPARATOR_BYTE" "plain xs = length os"
    unfolding out by (rule stuff_snocE)
  have "decode_errors (Payload h []) (stuff out @ ys) = decode_errors (Payload h xs) (b # ys)"
    using x assms(1) out by (simp add: payload_feed_errors)
  moreover have "plain (xs @ [b]) = unat (f_data_size h) + trailer_size h" "unstuff (xs @ [b]) = Inr out"
    using x assms(1) out unstuff_stuff [of out] by (simp_all add: plain_Cons)
  moreover have "payload_errors h out = []"
    using payload_outcome [of h out] assms(2) by (cases "deliver h out") auto
  ultimately show ?thesis
    by (simp add: decode_byte_payload decode_byte_errors_payload del: decode_byte.simps decode_byte_errors.simps plain_append)
qed

lemma wire_errors:
  assumes "frame_ok f"
  shows "decode_errors (Search []) (wire f @ ys) = decode_errors (Search []) ys"
proof -
  define hdr where "hdr = header_bytes (f_data_size f) (f_use_crc f) (f_type f)"
  obtain s hs where h: "hdr = s # hs" "length hs = 7" and s: "s = PURE_HEADER_SIZE + f_data_size f"
    by (simp add: hdr_def header_bytes_def)
  have n: "unat (f_data_size f) \<le> MAX_DATA_SIZE" "length (frame_data f) = unat (f_data_size f)"
    using assms by (simp_all add: frame_ok_def)
  have sep: "s \<noteq> SEPARATOR_BYTE"
    unfolding s by (rule data_size_not_separator [OF n(1)])
  have val: "header_valid SEPARATOR_BYTE SEPARATOR_BYTE (s # hs)"
    using header_size_bounds [OF n(1)] by (simp add: header_valid_def s)
  have len: "length (frame_data f @ trailer f)
      = unat (f_data_size (header_frame hdr)) + trailer_size (header_frame hdr)"
    by (simp add: n(2) length_trailer hdr_def trailer_size_def)
  have "wire f @ ys = SEPARATOR_BYTE # SEPARATOR_BYTE # s # stuff hs @ stuff (frame_data f @ trailer f) @ ys"
    using sep by (simp add: wire_def wire_header_def wire_payload_def hdr_def [symmetric] h stuff_Cons stuff1_def)
  moreover have "decode_errors (Search []) (SEPARATOR_BYTE # SEPARATOR_BYTE # s # zs)
      = decode_errors (Header [SEPARATOR_BYTE, SEPARATOR_BYTE, s]) zs" for zs
    using sep by (simp add: Let_def)
  ultimately have "decode_errors (Search []) (wire f @ ys)
      = decode_errors (Payload (header_frame hdr) []) (stuff (frame_data f @ trailer f) @ ys)"
    using header_fed_errors [OF sep h(2) val] by (simp only: h)
  then show ?thesis
    using payload_fed_errors [OF len] deliver_complete [OF assms] by (simp add: hdr_def)
qed

lemma wires_errors:
  "\<forall>f \<in> set fs. frame_ok f \<Longrightarrow> decode_errors (Search []) (concat (map wire fs)) = []"
  by (induction fs) (simp_all add: wire_errors)

end
