(* ===== verification/Haier_Log.thy ===== *)
theory Haier_Log
  imports HP_Prelude "HOL-Library.Monad_Syntax"
begin

text \<open>
  The logging routines of \<^verbatim>\<open>src/utils/haier_log.cpp\<close> and
  \<^verbatim>\<open>include/utils/haier_log.h\<close>: hexadecimal dumps and the static message buffer that
  is handed to the log handler. A character buffer is the memory from the pointer to the end
  of the object, so a write behind it is \<open>None\<close> (undefined); \<^verbatim>\<open>size_t\<close>
  subtractions wrap. The expansion of a format by \<^verbatim>\<open>vsnprintf\<close> is an argument of
  the model.
\<close>

section \<open>Hexadecimal digits\<close>

definition hex_map :: string where
  "hex_map =
     ''000102030405060708090A0B0C0D0E0F101112131415161718191A1B1C1D1E1F'' @
     ''202122232425262728292A2B2C2D2E2F303132333435363738393A3B3C3D3E3F'' @
     ''404142434445464748494A4B4C4D4E4F505152535455565758595A5B5C5D5E5F'' @
     ''606162636465666768696A6B6C6D6E6F707172737475767778797A7B7C7D7E7F'' @
     ''808182838485868788898A8B8C8D8E8F909192939495969798999A9B9C9D9E9F'' @
     ''A0A1A2A3A4A5A6A7A8A9AAABACADAEAFB0B1B2B3B4B5B6B7B8B9BABBBCBDBEBF'' @
     ''C0C1C2C3C4C5C6C7C8C9CACBCCCDCECFD0D1D2D3D4D5D6D7D8D9DADBDCDDDEDF'' @
     ''E0E1E2E3E4E5E6E7E8E9EAEBECEDEEEFF0F1F2F3F4F5F6F7F8F9FAFBFCFDFEFF''"

definition buf_to_hex :: "byte list \<Rightarrow> nat \<Rightarrow> string" where
  "buf_to_hex message n =
     (if n = 0 then []
      else fold (\<lambda>i raw. let p = unat (message ! i) * 2
                         in raw[3 * i := hex_map ! p, 3 * i + 1 := hex_map ! (p + 1)])
             [0..<n] (replicate (n * 3 - 1) CHR '' ''))"

section \<open>Dumping into a character buffer\<close>

text \<open>\<^verbatim>\<open>size_t\<close> subtraction.\<close>

definition size_sub :: "nat \<Rightarrow> nat \<Rightarrow> nat" where
  "size_sub a b = (a + 2 ^ 64 - b) mod 2 ^ 64"

definition poke :: "nat \<Rightarrow> char \<Rightarrow> string \<Rightarrow> string option" where
  "poke i c m = (if i < length m then Some (m[i := c]) else None)"

text \<open>\<open>k\<close> iterations are left, the next one is number \<open>i\<close>.\<close>

fun print_loop :: "nat \<Rightarrow> nat \<Rightarrow> byte list \<Rightarrow> string \<Rightarrow> string option" where
  "print_loop 0 i src dst = Some dst"
| "print_loop (Suc k) i src dst =
     (if i < length src
      then let p = unat (src ! i) * 2
           in do {
             d \<leftarrow> poke (3 * i) (hex_map ! p) dst;
             d \<leftarrow> poke (3 * i + 1) (hex_map ! (p + 1)) d;
             d \<leftarrow> poke (3 * i + 2) CHR '' '' d;
             print_loop k (i + 1) src d
           }
      else None)"

definition print_buf :: "byte list \<Rightarrow> nat \<Rightarrow> string \<Rightarrow> nat \<Rightarrow> (nat \<times> string) option" where
  "print_buf src_buf src_size dst_buf dst_size =
     (if src_size > 0
      then let dots = (src_size * 3 > dst_size);
               bytes_to_print = (if dots then size_sub dst_size 5 div 3 else src_size)
           in do {
             d \<leftarrow> print_loop bytes_to_print 0 src_buf dst_buf;
             let pos = size_sub (3 * bytes_to_print) 1;
             (pos, d) \<leftarrow>
               (if dots
                then let pos = (pos + 1) mod 2 ^ 64
                     in do {
                       d \<leftarrow> poke pos CHR ''.'' d;
                       d \<leftarrow> poke (pos + 1) CHR ''.'' d;
                       d \<leftarrow> poke (pos + 2) CHR ''.'' d;
                       Some (pos + 3, d)
                     }
                else Some (pos, d));
             d \<leftarrow> poke pos CHR 0x00 d;
             Some (pos, d)
           }
      else Some (0, dst_buf))"

section \<open>Specification of a dump\<close>

definition hex_digit :: "nat \<Rightarrow> char" where
  "hex_digit n = ''0123456789ABCDEF'' ! n"

definition hex_byte :: "byte \<Rightarrow> string" where
  "hex_byte b = [hex_digit (unat b div 16), hex_digit (unat b mod 16)]"

text \<open>Two digits and a space for every byte; the text of a buffer lacks the last space.\<close>

definition dump :: "byte list \<Rightarrow> string" where
  "dump ds = concat (map (\<lambda>b. hex_byte b @ '' '') ds)"

definition hex_text :: "byte list \<Rightarrow> string" where
  "hex_text ds = butlast (dump ds)"

lemma hex_map_upt: "hex_map = concat (map (\<lambda>n. [hex_digit (n div 16), hex_digit (n mod 16)]) [0..<256])"
  by code_simp

lemma nth_concat_pairs:
  "n < length ns \<Longrightarrow> concat (map (\<lambda>n. [f n, g n]) ns) ! (n * 2) = f (ns ! n)
     \<and> concat (map (\<lambda>n. [f n, g n]) ns) ! (n * 2 + 1) = g (ns ! n)"
proof (induction ns arbitrary: n)
  case (Cons a ns)
  then show ?case by (cases n) auto
qed simp

lemma unat_byte_less: "unat (b :: byte) < 256"
  by (rule order_less_le_trans [OF unsigned_less]) simp

lemma hex_map_digits:
  fixes b :: byte
  shows "hex_map ! (unat b * 2) = hex_digit (unat b div 16)" "hex_map ! (unat b * 2 + 1) = hex_digit (unat b mod 16)"
  "hex_map ! Suc (unat b * 2) = hex_digit (unat b mod 16)"
proof -
  have "unat b < length [0..<256]" using unat_byte_less [of b] by simp
  note p = nth_concat_pairs [OF this, of "\<lambda>n. hex_digit (n div 16)" "\<lambda>n. hex_digit (n mod 16)", folded hex_map_upt]
  show "hex_map ! (unat b * 2) = hex_digit (unat b div 16)" "hex_map ! (unat b * 2 + 1) = hex_digit (unat b mod 16)"
    "hex_map ! Suc (unat b * 2) = hex_digit (unat b mod 16)"
    using p unat_byte_less [of b] by simp_all
qed

lemma dump_simps [simp]:
  "dump [] = []" "dump (b # ds) = hex_digit (unat b div 16) # hex_digit (unat b mod 16) # CHR '' '' # dump ds"
  "dump (ds @ es) = dump ds @ dump es"
  by (simp_all add: dump_def hex_byte_def)

lemma length_dump [simp]: "length (dump ds) = 3 * length ds"
  by (induction ds) simp_all

section \<open>The loops\<close>

lemma print_loop_correct:
  "i + k \<le> length src \<Longrightarrow> 3 * (i + k) \<le> length dst \<Longrightarrow>
     print_loop k i src dst = Some (seg_put dst (3 * i) (dump (take k (drop i src))))"
proof (induction k arbitrary: i dst)
  case (Suc k)
  have d: "drop i src = src ! i # drop (Suc i) src"
    using Suc.prems by (simp add: Cons_nth_drop_Suc)
  show ?case
    using Suc.IH [of "Suc i"] Suc.prems
    by (simp add: d poke_def seg_put_Cons hex_map_digits) (simp add: numeral_3_eq_3)
qed simp

lemma print_loop_overrun:
  "0 < k \<Longrightarrow> length src < i + k \<or> length dst < 3 * (i + k) \<Longrightarrow> print_loop k i src dst = None"
proof (induction k arbitrary: i dst)
  case (Suc k)
  show ?case
  proof (cases "k = 0")
    case True
    then show ?thesis using Suc.prems by (auto simp: poke_def Let_def)
  next
    case False
    then have "print_loop k (Suc i) src d = None" if "length d = length dst" for d
      using Suc.IH [of "Suc i" d] Suc.prems that by auto
    then show ?thesis by (auto simp: poke_def Let_def)
  qed
qed simp

lemma hex_fill:
  assumes "j \<le> n" "n \<le> length ds" "0 < n"
  shows "fold (\<lambda>i raw. let p = unat (ds ! i) * 2 in raw[3 * i := hex_map ! p, 3 * i + 1 := hex_map ! (p + 1)])
      [0..<j] (replicate (n * 3 - 1) CHR '' '')
    = take (n * 3 - 1) (dump (take j ds) @ replicate (3 * (n - j)) CHR '' '')"
  using assms(1)
proof (induction j)
  case 0
  then show ?case by (simp add: mult.commute)
next
  case (Suc j)
  have t: "take (Suc j) ds = take j ds @ [ds ! j]" and l: "length (take j ds) = j"
    using Suc.prems assms(2) by (simp_all add: take_Suc_conv_app_nth)
  have r: "replicate (3 * (n - j)) CHR '' '' = CHR '' '' # CHR '' '' # CHR '' '' # replicate (3 * (n - Suc j)) CHR '' ''"
  proof -
    have "3 * (n - j) = Suc (Suc (Suc (3 * (n - Suc j))))" using Suc.prems by simp
    then show ?thesis by (simp del: replicate.simps(2) add: replicate_Suc)
  qed
  define X where "X = dump (take j ds) @ replicate (3 * (n - j)) CHR '' ''"
  let ?a = "hex_digit (unat (ds ! j) div 16)" and ?c = "hex_digit (unat (ds ! j) mod 16)"
  have step: "X[3 * j := ?a, 3 * j + 1 := ?c] = dump (take (Suc j) ds) @ replicate (3 * (n - Suc j)) CHR '' ''"
    using l unfolding X_def r t by (simp add: list_update_append)
  show ?case
    using Suc.IH Suc.prems
    by (simp add: Let_def hex_map_digits take_update_swap step [symmetric, simplified] del: take_append flip: X_def)
qed

lemma buf_to_hex_eq: "n \<le> length ds \<Longrightarrow> buf_to_hex ds n = hex_text (take n ds)"
proof (cases "n = 0")
  case False
  assume "n \<le> length ds"
  then have "buf_to_hex ds n = take (n * 3 - 1) (dump (take n ds))"
    using False hex_fill [of n n ds] by (simp add: buf_to_hex_def)
  also have "\<dots> = butlast (dump (take n ds))"
    using \<open>n \<le> length ds\<close> by (simp add: butlast_conv_take mult.commute)
  finally show ?thesis by (simp add: hex_text_def)
qed (simp add: buf_to_hex_def hex_text_def)

section \<open>Reading a dump back\<close>

definition hex_value :: "char \<Rightarrow> nat" where
  "hex_value c = length (takeWhile (\<lambda>d. d \<noteq> c) ''0123456789ABCDEF'')"

fun hex_read :: "string \<Rightarrow> byte list" where
  "hex_read (a # b # cs) = of_nat (16 * hex_value a + hex_value b) # hex_read (drop 1 cs)"
| "hex_read _ = []"

lemma hex_value_digit: "n < 16 \<Longrightarrow> hex_value (hex_digit n) = n"
proof -
  have "\<forall>n \<in> set [0..<16]. hex_value (hex_digit n) = n" by code_simp
  then show "n < 16 \<Longrightarrow> hex_value (hex_digit n) = n" by simp
qed

lemma hex_read_text: "hex_read (hex_text ds) = ds"
proof (induction ds)
  case (Cons b ds)
  have v: "hex_value (hex_digit (unat b div 16)) = unat b div 16" "hex_value (hex_digit (unat b mod 16)) = unat b mod 16"
    using unat_byte_less [of b] by (simp_all add: hex_value_digit)
  have "of_nat (16 * (unat b div 16) + unat b mod 16) = b"
    unfolding mult_div_mod_eq by simp
  then show ?case
    using Cons.IH by (cases ds) (simp_all add: hex_text_def v)
qed (simp add: hex_text_def)

section \<open>What \<open>print_buf\<close> writes\<close>

lemma size_sub_le: "b \<le> a \<Longrightarrow> a < 2 ^ 64 \<Longrightarrow> size_sub a b = a - b"
proof -
  assume "b \<le> a" "a < 2 ^ 64"
  then have "a + 2 ^ 64 - b = (a - b) + 2 ^ 64" "a - b < 2 ^ 64" by linarith+
  then show ?thesis unfolding size_sub_def by (simp only: mod_add_self2 mod_less)
qed

lemma size_sub_borrow: "a < b \<Longrightarrow> b \<le> 2 ^ 64 \<Longrightarrow> size_sub a b = a + 2 ^ 64 - b"
  unfolding size_sub_def by (rule mod_less) linarith

lemma size_sub_succ: "a < 2 ^ 64 \<Longrightarrow> (size_sub a 1 + 1) mod 2 ^ 64 = a"
proof (cases "a = 0")
  case True
  then have "size_sub a 1 + 1 = 2 ^ 64" by (simp add: size_sub_borrow)
  then show ?thesis unfolding True by simp
next
  case False
  assume "a < 2 ^ 64"
  moreover from this False have "size_sub a 1 + 1 = a" by (simp add: size_sub_le)
  ultimately show ?thesis by (simp only: mod_less)
qed

text \<open>A text written over the beginning of a buffer.\<close>

definition over :: "string \<Rightarrow> string \<Rightarrow> string" where
  "over xs m = xs @ drop (length xs) m"

definition dots_text :: "byte list \<Rightarrow> nat \<Rightarrow> string" where
  "dots_text ds room = dump (take ((room - 5) div 3) ds) @ ''...''"

lemma length_over [simp]: "length xs \<le> length m \<Longrightarrow> length (over xs m) = length m"
  by (simp add: over_def)

lemma poke_over: "length xs < length m \<Longrightarrow> poke (length xs) c (over xs m) = Some (over (xs @ [c]) m)"
proof -
  assume "length xs < length m"
  then have "drop (length xs) m = m ! length xs # drop (Suc (length xs)) m"
    by (simp add: Cons_nth_drop_Suc)
  with \<open>length xs < length m\<close> show ?thesis
    by (simp add: poke_def over_def list_update_append)
qed

lemma over_butlast: "xs \<noteq> [] \<Longrightarrow> length xs \<le> length m \<Longrightarrow>
    poke (length xs - 1) c (over xs m) = Some (over (butlast xs @ [c]) m)"
  by (cases xs rule: rev_cases) (simp_all add: poke_def over_def list_update_append)

lemma print_loop_over: "k \<le> length src \<Longrightarrow> 3 * k \<le> length dst \<Longrightarrow>
    print_loop k 0 src dst = Some (over (dump (take k src)) dst)"
  by (simp add: print_loop_correct seg_put_def over_def)

lemma print_buf_fits:
  assumes "0 < n" "n \<le> length src" "3 * n \<le> d" "d \<le> length dst" "d < 2 ^ 64"
  shows "print_buf src n dst d = Some (3 * n - 1, over (hex_text (take n src) @ [CHR 0x00]) dst)"
proof -
  have pos: "size_sub (3 * n) 1 = 3 * n - 1"
    using assms by (intro size_sub_le) linarith+
  have "dump (take n src) \<noteq> []" "length (dump (take n src)) = 3 * n"
    using assms by (auto simp flip: length_0_conv)
  then have "poke (3 * n - 1) CHR 0x00 (over (dump (take n src)) dst)
      = Some (over (hex_text (take n src) @ [CHR 0x00]) dst)"
    using over_butlast [of "dump (take n src)" dst "CHR 0x00"] assms by (simp add: hex_text_def)
  then show ?thesis
    using assms print_loop_over [of n src dst] by (simp add: print_buf_def pos [simplified] Let_def)
qed

lemma poke_dots:
  assumes "length xs = k" "k + 3 < length m"
  shows "poke k CHR ''.'' (over xs m) = Some (over (xs @ ''.'') m)"
    "poke (k + 1) CHR ''.'' (over (xs @ ''.'') m) = Some (over (xs @ ''..'') m)"
    "poke (k + 2) CHR ''.'' (over (xs @ ''..'') m) = Some (over (xs @ ''...'') m)"
    "poke (k + 3) c (over (xs @ ''...'') m) = Some (over (xs @ ''...'' @ [c]) m)"
  using assms poke_over [of xs m "CHR ''.''"] poke_over [of "xs @ ''.''" m "CHR ''.''"]
    poke_over [of "xs @ ''..''" m "CHR ''.''"] poke_over [of "xs @ ''...''" m c]
  by (simp_all add: numeral_3_eq_3)

lemma print_buf_dots:
  assumes "n \<le> length src" "d < 3 * n" "5 \<le> d" "d \<le> length dst" "d < 2 ^ 64"
  shows "print_buf src n dst d = Some (3 * ((d - 5) div 3) + 3, over (dots_text src d @ [CHR 0x00]) dst)"
proof -
  define b where "b = (d - 5) div 3"
  define x where "x = dump (take b src)"
  have b: "3 * b + 5 \<le> d" "b \<le> length src" "length x = 3 * b"
    using assms by (simp_all add: b_def x_def)
  have sub: "size_sub d 5 = d - 5" "(size_sub (3 * b) 1 + 1) mod 2 ^ 64 = 3 * b"
    using assms(3,5) b(1) size_sub_le [of 5 d] size_sub_succ [of "3 * b"] by linarith+
  have loop: "print_loop b 0 src dst = Some (over x dst)"
    using b assms(4) unfolding x_def by (intro print_loop_over) linarith+
  have "print_buf src n dst d = do {
      d \<leftarrow> poke (3 * b) CHR ''.'' (over x dst);
      d \<leftarrow> poke (3 * b + 1) CHR ''.'' d;
      d \<leftarrow> poke (3 * b + 2) CHR ''.'' d;
      d \<leftarrow> poke (3 * b + 3) CHR 0x00 d;
      Some (3 * b + 3, d)}"
    using assms(2,3) unfolding print_buf_def Let_def sub(1) b_def [symmetric]
    by (simp add: loop sub(2) [simplified])
  also have "\<dots> = Some (3 * b + 3, over (x @ ''...'' @ [CHR 0x00]) dst)"
    using poke_dots [OF b(3), of dst] b(1) assms(4) by simp
  finally show ?thesis by (simp add: b_def x_def dots_text_def)
qed

text \<open>With fewer than five cells the subtraction wraps and the loop runs out of both buffers.\<close>

lemma print_buf_wraps:
  assumes "d < 3 * n" "d < 5" "length src < 2 ^ 60"
  shows "print_buf src n dst d = None"
proof -
  have "size_sub d 5 = d + 2 ^ 64 - 5"
    using assms(2) by (intro size_sub_borrow) simp_all
  then have "length src < size_sub d 5 div 3"
    using assms(3) by simp
  then have "print_loop (size_sub d 5 div 3) 0 src dst = None"
    by (intro print_loop_overrun) simp_all
  then show ?thesis
    using assms(1) by (simp add: print_buf_def Let_def)
qed

section \<open>The log functions\<close>

datatype haier_log_level =
  LEVEL_NONE | LEVEL_ERROR | LEVEL_WARNING | LEVEL_INFO | LEVEL_DEBUG | LEVEL_VERBOSE

abbreviation LOG_BUFFER_SIZE :: nat where "LOG_BUFFER_SIZE \<equiv> 4096"

definition HAIER_LOG_TAG :: string where
  "HAIER_LOG_TAG = ''haier.protocol''"

text \<open>The static message buffer, the handler and, for the statements, the calls it has had:
  the handler, the level, the tag and the text up to the terminating zero.\<close>

record 'l logger =
  lg_msg_buffer :: string
  lg_handler :: "'l option"
  lg_calls :: "('l \<times> haier_log_level \<times> string \<times> string) list"

definition set_log_handler :: "'l \<Rightarrow> 'l logger \<Rightarrow> 'l logger" where
  "set_log_handler h lg = lg\<lparr>lg_handler := Some h\<rparr>"

definition reset_log_handler :: "'l logger \<Rightarrow> 'l logger" where
  "reset_log_handler lg = lg\<lparr>lg_handler := None\<rparr>"

definition c_string :: "string \<Rightarrow> string option" where
  "c_string m = (if CHR 0x00 \<in> set m then Some (takeWhile (\<lambda>c. c \<noteq> CHR 0x00) m) else None)"

definition call_log_handler :: "'l \<Rightarrow> haier_log_level \<Rightarrow> string \<Rightarrow> 'l logger \<Rightarrow> 'l logger option" where
  "call_log_handler h level m lg =
     map_option (\<lambda>msg. lg\<lparr>lg_msg_buffer := m, lg_calls := lg_calls lg @ [(h, level, HAIER_LOG_TAG, msg)]\<rparr>) (c_string m)"

text \<open>\<^verbatim>\<open>snprintf\<close> of a text without conversions at an offset; \<open>n\<close> is the size it is given.\<close>

definition snprintf :: "nat \<Rightarrow> nat \<Rightarrow> string \<Rightarrow> string \<Rightarrow> nat \<times> string" where
  "snprintf off n txt m = (length txt, if n = 0 then m else seg_put m off (take (n - 1) txt @ [CHR 0x00]))"

text \<open>\<open>expansion\<close> is what the format and its arguments expand to.\<close>

definition log_haier :: "haier_log_level \<Rightarrow> string \<Rightarrow> 'l logger \<Rightarrow> (nat \<times> 'l logger) option" where
  "log_haier level expansion lg =
     (case lg_handler lg of
        None \<Rightarrow> Some (0, lg)
      | Some h \<Rightarrow>
          if level \<noteq> LEVEL_NONE
          then let (res, m) = snprintf 0 LOG_BUFFER_SIZE expansion (lg_msg_buffer lg)
               in map_option (\<lambda>lg. (res, lg)) (call_log_handler h level m lg)
          else Some (0, lg))"

text \<open>\<open>header\<close> is the C string without its terminating zero.\<close>

fun header_copy :: "string \<Rightarrow> nat \<Rightarrow> string \<Rightarrow> nat \<times> string" where
  "header_copy [] res m = (res, m)"
| "header_copy (c # cs) res m =
     (if res \<le> LOG_BUFFER_SIZE - 7 then header_copy cs (res + 1) (m[res := c]) else (res, m))"

definition log_haier_buffers ::
    "haier_log_level \<Rightarrow> string option \<Rightarrow> byte list option \<Rightarrow> nat \<Rightarrow> byte list option \<Rightarrow> nat
       \<Rightarrow> 'l logger \<Rightarrow> (nat \<times> 'l logger) option" where
  "log_haier_buffers level header buffer1 size1 buffer2 size2 lg =
     (case lg_handler lg of
        None \<Rightarrow> Some (0, lg)
      | Some h \<Rightarrow>
          if level \<noteq> LEVEL_NONE
          then do {
            (res, m) \<leftarrow>
              (case header of
                 None \<Rightarrow> Some (0, lg_msg_buffer lg)
               | Some cs \<Rightarrow>
                   let (res, m) = header_copy cs 0 (lg_msg_buffer lg)
                   in map_option (\<lambda>m. (res + 1, m)) (poke res CHR '' '' m));
            (res, m) \<leftarrow>
              (if size1 + size2 = 0
               then let (k, m) = snprintf res (LOG_BUFFER_SIZE - res - 1) ''<empty>'' m in Some (res + k, m)
               else case buffer1 of
                 None \<Rightarrow> Some (res, m)
               | Some b1 \<Rightarrow>
                   if size1 > 0
                   then do {
                     (k, d) \<leftarrow> print_buf b1 size1 (drop res m) (size_sub LOG_BUFFER_SIZE res);
                     let m = take res m @ d;
                     let res = res + k;
                     if size_sub LOG_BUFFER_SIZE res > 0 \<and> size2 > 0
                     then do {
                       m \<leftarrow> poke res CHR '' '' m;
                       let res = res + 1;
                       b2 \<leftarrow> buffer2;
                       (k, d) \<leftarrow> print_buf b2 size2 (drop res m) (size_sub LOG_BUFFER_SIZE res);
                       Some (res + k, take res m @ d)
                     }
                     else Some (res, m)
                   }
                   else Some (res, m));
            lg \<leftarrow> call_log_handler h level m lg;
            Some (res, lg)
          }
          else Some (0, lg))"

definition log_haier_buffer ::
    "haier_log_level \<Rightarrow> string option \<Rightarrow> byte list option \<Rightarrow> nat \<Rightarrow> 'l logger \<Rightarrow> (nat \<times> 'l logger) option" where
  "log_haier_buffer level header buffer n lg = log_haier_buffers level header buffer n None 0 lg"

section \<open>The text of a message\<close>

definition log_prefix :: "string \<Rightarrow> string" where
  "log_prefix header = take 4090 header @ '' ''"

text \<open>A block of bytes in the remaining room: whole, or cut off with dots.\<close>

definition log_block :: "byte list \<Rightarrow> nat \<Rightarrow> string" where
  "log_block ds room = (if 3 * length ds \<le> room then hex_text ds else dots_text ds room)"

definition log_body :: "byte list \<Rightarrow> nat \<Rightarrow> string" where
  "log_body ds room = (if ds = [] then take (room - 2) ''<empty>'' else log_block ds room)"

lemma length_log_prefix: "length (log_prefix header) \<le> 4091" "0 < length (log_prefix header)"
  by (simp_all add: log_prefix_def)

lemma header_copy_correct:
  "res \<le> 4090 \<Longrightarrow> length m = LOG_BUFFER_SIZE \<Longrightarrow>
     header_copy cs res m = (res + length (take (4090 - res) cs), seg_put m res (take (4090 - res) cs))"
proof (induction cs res m rule: header_copy.induct)
  case (2 c cs res m)
  show ?case
  proof (cases "res \<le> 4089")
    case True
    then have "4090 - res = Suc (4090 - Suc res)" by simp
    then show ?thesis
      using 2 True by (simp add: seg_put_Cons)
  next
    case False
    then have "res = 4090" using 2(2) by simp
    then show ?thesis using 2(3) by simp
  qed
qed simp

lemma header_start:
  assumes "length m = LOG_BUFFER_SIZE"
  shows "(let (res, m) = header_copy header 0 m in map_option (\<lambda>m. (res + 1, m)) (poke res CHR '' '' m))
    = Some (length (log_prefix header), over (log_prefix header) m)"
proof -
  let ?p = "take 4090 header"
  have "header_copy header 0 m = (length ?p, over ?p m)"
    using header_copy_correct [of 0 m header] assms by (simp add: seg_put_def over_def)
  moreover have "poke (length ?p) CHR '' '' (over ?p m) = Some (over (log_prefix header) m)"
    using poke_over [of ?p m "CHR '' ''"] assms by (simp add: log_prefix_def)
  ultimately show ?thesis
    by (simp add: Let_def log_prefix_def del: length_take)
qed

lemma length_log_block: "5 \<le> room \<Longrightarrow> length (log_block ds room) < room"
  by (auto simp: log_block_def hex_text_def dots_text_def)

lemma print_block:
  assumes "ds \<noteq> []" "3 * length ds \<le> d \<or> 5 \<le> d" "d \<le> length dst" "d < 2 ^ 64"
  shows "print_buf ds (length ds) dst d = Some (length (log_block ds d), over (log_block ds d @ [CHR 0x00]) dst)"
proof (cases "3 * length ds \<le> d")
  case True
  then show ?thesis
    using print_buf_fits [of "length ds" ds d dst] assms by (simp add: log_block_def hex_text_def)
next
  case False
  then have "length (dots_text ds d) = 3 * ((d - 5) div 3) + 3"
    by (simp add: dots_text_def)
  then show ?thesis
    using print_buf_dots [of "length ds" ds d dst] False assms by (simp add: log_block_def)
qed

text \<open>Printing behind a text that is already in the buffer.\<close>

lemma over_drop [simp]: "drop (length xs) (over xs m) = drop (length xs) m" "take (length xs) (over xs m) = xs"
  by (simp_all add: over_def)

lemma append_over: "xs @ over ys (drop (length xs) m) = over (xs @ ys) m"
  by (simp add: over_def add.commute)

lemma print_block_at:
  assumes "ds \<noteq> []" "length m = LOG_BUFFER_SIZE" "length xs \<le> LOG_BUFFER_SIZE"
    and "3 * length ds \<le> LOG_BUFFER_SIZE - length xs \<or> 5 \<le> LOG_BUFFER_SIZE - length xs"
  shows "print_buf ds (length ds) (drop (length xs) m) (size_sub LOG_BUFFER_SIZE (length xs))
    = Some (length (log_block ds (LOG_BUFFER_SIZE - length xs)),
            over (log_block ds (LOG_BUFFER_SIZE - length xs) @ [CHR 0x00]) (drop (length xs) m))"
proof -
  have "size_sub LOG_BUFFER_SIZE (length xs) = LOG_BUFFER_SIZE - length xs"
    using assms(3) by (intro size_sub_le) simp_all
  then show ?thesis
    using print_block [of ds "LOG_BUFFER_SIZE - length xs" "drop (length xs) m"] assms by simp
qed

section \<open>No zero inside a message\<close>

lemma hex_digit_nonzero: "n < 16 \<Longrightarrow> hex_digit n \<noteq> CHR 0x00"
proof -
  have "\<forall>n \<in> set [0..<16]. hex_digit n \<noteq> CHR 0x00" by code_simp
  then show "n < 16 \<Longrightarrow> hex_digit n \<noteq> CHR 0x00" by simp
qed

lemma dump_nonzero: "CHR 0x00 \<notin> set (dump ds)"
proof (induction ds)
  case (Cons b ds)
  have "unat b div 16 < 16" using unat_byte_less [of b] by simp
  with Cons show ?case
    using hex_digit_nonzero [of "unat b div 16"] hex_digit_nonzero [of "unat b mod 16"]
    by auto
qed simp

lemma log_block_nonzero: "CHR 0x00 \<notin> set (log_block ds room)"
  using dump_nonzero [of ds] dump_nonzero [of "take ((room - 5) div 3) ds"]
  by (auto simp: log_block_def hex_text_def dots_text_def dest: in_set_butlastD)

lemma c_string_over: "CHR 0x00 \<notin> set xs \<Longrightarrow> c_string (over (xs @ [CHR 0x00]) m) = Some xs"
  by (auto simp: c_string_def over_def takeWhile_append)

lemma log_empty_nonzero: "CHR 0x00 \<notin> set (take n ''<empty>'')"
  by (auto dest: in_set_takeD)

section \<open>Both blocks\<close>

text \<open>The result for a non-empty first block, as a function of the text that is already there.\<close>

lemma log_buffers_eq:
  fixes lg :: "'l logger" and header :: string
  assumes lg: "lg_handler lg = Some h" "level \<noteq> LEVEL_NONE" "length (lg_msg_buffer lg) = LOG_BUFFER_SIZE"
    and ds: "ds \<noteq> []"
  defines "p \<equiv> log_prefix header" and "room \<equiv> LOG_BUFFER_SIZE - length (log_prefix header)"
  defines "x \<equiv> p @ log_block ds room"
  shows "log_haier_buffers level (Some header) (Some ds) (length ds) b2 n2 lg = do {
      (res, m) \<leftarrow> (if 0 < n2
        then do {
          b2 \<leftarrow> b2;
          (k, d) \<leftarrow> print_buf b2 n2 (drop (length (x @ '' '')) (lg_msg_buffer lg))
                     (size_sub LOG_BUFFER_SIZE (length (x @ '' '')));
          Some (length (x @ '' '') + k, (x @ '' '') @ d)
        }
        else Some (length x, over (x @ [CHR 0x00]) (lg_msg_buffer lg)));
      lg \<leftarrow> call_log_handler h level m lg;
      Some (res, lg)}"
proof -
  let ?m = "lg_msg_buffer lg"
  have room: "5 \<le> room" "length p + room = LOG_BUFFER_SIZE"
    using length_log_prefix [of header] by (simp_all add: room_def p_def)
  have x: "length x < LOG_BUFFER_SIZE" "length x = length p + length (log_block ds room)"
    using length_log_block [OF room(1), of ds] room(2) by (simp_all add: x_def)
  have pr: "print_buf ds (length ds) (drop (length p) ?m) (size_sub LOG_BUFFER_SIZE (length p))
      = Some (length (log_block ds room), over (log_block ds room @ [CHR 0x00]) (drop (length p) ?m))"
    using print_block_at [OF ds lg(3), of p] room unfolding room_def p_def by simp
  have pos: "size_sub LOG_BUFFER_SIZE (length x) > 0"
    using x(1) by (simp add: size_sub_le)
  have poke: "poke (length x) CHR '' '' (over (x @ [CHR 0x00]) ?m) = Some (over (x @ '' '') ?m)"
    using x(1) lg(3) by (simp add: poke_def over_def list_update_append)
  have start: "(let (res, m) = header_copy header 0 ?m in map_option (\<lambda>m. (res + 1, m)) (poke res CHR '' '' m))
      = Some (length p, over p ?m)"
    using header_start [OF lg(3), of header] by (simp add: p_def)
  have app: "p @ over (log_block ds room @ [CHR 0x00]) (drop (length p) ?m) = over (x @ [CHR 0x00]) ?m"
    using append_over [of p "log_block ds room @ [CHR 0x00]" ?m] by (simp add: x_def)
  have tail: "take (length (x @ '' '')) (over (x @ '' '') ?m) = x @ '' ''"
    "drop (length (x @ '' '')) (over (x @ '' '') ?m) = drop (length (x @ '' '')) ?m"
    by (simp_all only: over_drop)
  show ?thesis
    using lg(2) ds unfolding log_haier_buffers_def lg(1) option.case start
    by (simp add: Let_def pr app x(2) [symmetric] pos poke tail [simplified] over_drop [of p, simplified]
        split del: if_split cong: if_cong)
qed

section \<open>Properties\<close>

text \<open>A dump can be read back: \<open>buf_to_hex\<close> of \<open>n\<close> bytes has \<open>3 n - 1\<close> characters (none
  for an empty buffer), and reading its digit pairs gives exactly these bytes, so a log line
  shows what was on the wire.\<close>

lemma buf_to_hex_roundtrip:
  assumes "n \<le> length ds"
  shows "length (buf_to_hex ds n) = 3 * n - 1 \<and> hex_read (buf_to_hex ds n) = take n ds"
  using assms by (simp add: buf_to_hex_eq hex_read_text) (simp add: hex_text_def)

lemma buf_to_hex_roundtrip_example:
  "length (buf_to_hex [0xFF, 0x55, 0x0A] 2) = 5 \<and> hex_read (buf_to_hex [0xFF, 0x55, 0x0A] 2) = [0xFF, 0x55]"
  using buf_to_hex_roundtrip [of 2 "[0xFF, 0x55, 0x0A]"] by simp

text \<open>Claim C39. Logging one buffer never leaves the 4096-byte message buffer, whatever the length of the
  header and of the data: the handler is called once, with at most 4090 characters of the
  header, a space, and the hexadecimal dump, which is cut off and ends in dots exactly when
  three characters per byte do not fit (\<open>log_body\<close> and \<open>log_prefix\<close> are the text).\<close>

theorem log_buffer_message:
  assumes "lg_handler lg = Some h" "level \<noteq> LEVEL_NONE" "length (lg_msg_buffer lg) = LOG_BUFFER_SIZE"
    and "CHR 0x00 \<notin> set header"
  shows "\<exists>res lg'. log_haier_buffer level (Some header) (Some ds) (length ds) lg = Some (res, lg')
    \<and> lg_calls lg' = lg_calls lg @ [(h, level, HAIER_LOG_TAG,
        log_prefix header @ log_body ds (LOG_BUFFER_SIZE - length (log_prefix header)))]
    \<and> length (lg_msg_buffer lg') = LOG_BUFFER_SIZE"
proof -
  define p where "p = log_prefix header"
  define room where "room = LOG_BUFFER_SIZE - length p"
  have room: "5 \<le> room" "length p + room = LOG_BUFFER_SIZE"
    using length_log_prefix [of header] by (simp_all add: room_def p_def)
  have nz: "CHR 0x00 \<notin> set p"
    using assms(4) by (auto simp: p_def log_prefix_def dest: in_set_takeD)
  show ?thesis
  proof (cases "ds = []")
    case True
    have body: "log_body ds room = take (room - 2) ''<empty>''" "length (log_body ds room) < room"
      using True room(1) by (simp_all add: log_body_def)
    have cut: "take (LOG_BUFFER_SIZE - length p - 1 - 1) ''<empty>'' = log_body ds room"
      unfolding body(1) by (simp add: room_def)
    define m where "m = over ((p @ log_body ds room) @ [CHR 0x00]) (lg_msg_buffer lg)"
    have "seg_put (over p (lg_msg_buffer lg)) (length p) (take (LOG_BUFFER_SIZE - length p - 1 - 1) ''<empty>'' @ [CHR 0x00]) = m"
      unfolding cut by (simp add: m_def seg_put_def over_def add.commute)
    then have sn: "snprintf (length p) (LOG_BUFFER_SIZE - length p - 1) ''<empty>'' (over p (lg_msg_buffer lg)) = (7, m)"
      using room by (simp add: snprintf_def)
    have cs: "c_string m = Some (p @ log_body ds room)"
      unfolding m_def using nz log_empty_nonzero [of "room - 2"] body(1) by (intro c_string_over) simp
    have len: "length m = LOG_BUFFER_SIZE"
      using assms(3) room body(2) by (simp add: m_def)
    show ?thesis
      using assms(2) True len
      unfolding log_haier_buffer_def log_haier_buffers_def assms(1) option.case header_start [OF assms(3)] p_def [symmetric]
      by (simp add: sn [simplified] cs [simplified] call_log_handler_def room_def)
  next
    case False
    have "c_string (over ((p @ log_block ds room) @ [CHR 0x00]) (lg_msg_buffer lg)) = Some (p @ log_block ds room)"
      using nz log_block_nonzero [of ds room] by (intro c_string_over) simp
    moreover have "length (log_block ds room) < room"
      by (rule length_log_block [OF room(1)])
    ultimately show ?thesis
      using assms(3) room(2) False unfolding log_haier_buffer_def log_buffers_eq [OF assms(1-3) False] p_def [symmetric]
      by (simp add: call_log_handler_def log_body_def room_def [symmetric])
  qed
qed

definition sample_logger :: "unit logger" where
  "sample_logger = \<lparr>lg_msg_buffer = replicate 4096 CHR 0x00, lg_handler = Some (), lg_calls = []\<rparr>"

lemma sample_logger_simps [simp]:
  "lg_handler sample_logger = Some ()" "length (lg_msg_buffer sample_logger) = LOG_BUFFER_SIZE"
  "lg_calls sample_logger = []"
  by (simp_all add: sample_logger_def)

theorem log_buffer_message_witness:
  "\<exists>res lg'. log_haier_buffer LEVEL_INFO (Some ''rx:'') (Some [0xFF, 0x0A]) 2 sample_logger = Some (res, lg')
     \<and> lg_calls lg' = [((), LEVEL_INFO, HAIER_LOG_TAG, ''rx: FF 0A'')]"
proof -
  have "log_prefix ''rx:'' @ log_body [0xFF, 0x0A] (LOG_BUFFER_SIZE - length (log_prefix ''rx:'')) = ''rx: FF 0A''"
    by code_simp
  then show ?thesis
    using log_buffer_message [of sample_logger "()" LEVEL_INFO "''rx:''" "[0xFF, 0x0A]"]
    by (auto simp: numeral_2_eq_2)
qed

text \<open>Logging two buffers can overrun the message buffer: behind the first dump and a space,
  \<open>print_buf\<close> gets what is left of the 4096 bytes, and when that is less than five bytes and
  too little for the second block, \<^verbatim>\<open>dst_size - 5\<close> wraps around and the loop
  writes behind the buffer (the result is undefined). This is exactly the case when the
  first block was cut off (then one to three bytes are left) or all but filled the buffer.\<close>

lemma second_block_overrun:
  fixes ds es :: "byte list" and header :: string
  assumes "lg_handler lg = Some h" "level \<noteq> LEVEL_NONE" "length (lg_msg_buffer lg) = LOG_BUFFER_SIZE"
    and "CHR 0x00 \<notin> set header" "ds \<noteq> []" "length es < 2 ^ 60"
  defines "room \<equiv> LOG_BUFFER_SIZE - length (log_prefix header)"
  defines "left \<equiv> (if 3 * length ds \<le> room then room - 3 * length ds else (room - 5) mod 3 + 1)"
  shows "log_haier_buffers level (Some header) (Some ds) (length ds) (Some es) (length es) lg = None
    \<longleftrightarrow> left < 5 \<and> left < 3 * length es"
proof -
  define x where "x = log_prefix header @ log_block ds room"
  let ?m = "lg_msg_buffer lg" and ?y = "x @ '' ''"
  have room: "5 \<le> room" "length (log_prefix header) + room = LOG_BUFFER_SIZE"
    using length_log_prefix [of header] by (simp_all add: room_def)
  have left: "length ?y + left = LOG_BUFFER_SIZE"
  proof (cases "3 * length ds \<le> room")
    case True
    moreover have "0 < length ds" using assms(5) by simp
    ultimately show ?thesis
      using room by (simp add: left_def x_def log_block_def hex_text_def)
  next
    case False
    then have "length (log_block ds room) = 3 * ((room - 5) div 3) + 3"
      by (simp add: log_block_def dots_text_def)
    moreover have "3 * ((room - 5) div 3) + (room - 5) mod 3 = room - 5" by simp
    ultimately show ?thesis
      using False room by (simp add: left_def x_def)
  qed
  note eq = log_buffers_eq [OF assms(1-3,5), of header "Some es" "length es", folded room_def x_def]
  have nz: "CHR 0x00 \<notin> set x"
    using assms(4) log_block_nonzero [of ds room] by (auto simp: x_def log_prefix_def dest: in_set_takeD)
  have sub: "size_sub LOG_BUFFER_SIZE (length ?y) = left"
    using left by (subst size_sub_le) simp_all
  consider "es = []" | "es \<noteq> []" "left < 5" "left < 3 * length es" | "es \<noteq> []" "3 * length es \<le> left \<or> 5 \<le> left"
    by linarith
  then show ?thesis
  proof cases
    case 1
    then show ?thesis
      unfolding eq using c_string_over [OF nz, of ?m] by (simp add: call_log_handler_def)
  next
    case 2
    then show ?thesis
      using print_buf_wraps [of left "length es" es] assms(6) sub by (simp add: eq)
  next
    case 3
    let ?z = "?y @ log_block es left"
    have "print_buf es (length es) (drop (length ?y) ?m) (size_sub LOG_BUFFER_SIZE (length ?y))
        = Some (length (log_block es left), over (log_block es left @ [CHR 0x00]) (drop (length ?y) ?m))"
      using print_block_at [OF 3(1) assms(3), of ?y] 3(2) left by (simp add: flip: left)
    moreover have "c_string (over (?z @ [CHR 0x00]) ?m) = Some ?z"
      using nz log_block_nonzero [of es left] by (intro c_string_over) simp
    ultimately show ?thesis
      using 3 append_over [of ?y "log_block es left @ [CHR 0x00]" ?m] by (auto simp: eq call_log_handler_def)
  qed
qed

lemma second_block_overrun_example:
  "log_haier_buffers LEVEL_VERBOSE (Some ''Received data:'') (Some (replicate 1361 0)) 1361 (Some [1, 2]) 2 sample_logger = None"
proof -
  have p: "length (log_prefix ''Received data:'') = 15" "CHR 0x00 \<notin> set ''Received data:''"
    and es: "length [1, 2 :: byte] < 2 ^ 60" "length [1, 2 :: byte] = 2" by (simp_all add: log_prefix_def)
  have "log_haier_buffers LEVEL_VERBOSE (Some ''Received data:'') (Some (replicate 1361 0))
      (length (replicate 1361 (0 :: byte))) (Some [1, 2]) (length [1, 2 :: byte]) sample_logger = None"
    by (rule second_block_overrun [THEN iffD2, OF sample_logger_simps(1) _ sample_logger_simps(2) p(2) _ es(1)])
      (use p(1) in simp_all)
  then show ?thesis unfolding es(2) by simp
qed

end
