(* ===== verification/Console_Log.thy ===== *)
theory Console_Log
  imports Haier_Log
begin

text \<open>
  The log macros of \<^verbatim>\<open>include/utils/haier_log.h\<close> and the console logger of
  \<^verbatim>\<open>tools/utils/console_log.cpp\<close>, which the tests and tools install as the log handler, with
  its counters of warnings and errors. Modelled is the output to \<^verbatim>\<open>std::cout\<close>; the branch for
  curses and the copy for DebugView are left out. The time of day is an argument.
\<close>

section \<open>The log macros\<close>

text \<open>\<^verbatim>\<open>HAIER_LOGE\<close> to \<^verbatim>\<open>HAIER_LOGV\<close> and \<^verbatim>\<open>HAIER_BUFE\<close> to
  \<^verbatim>\<open>HAIER_BUFV\<close>: with \<^verbatim>\<open>HAIER_LOG_LEVEL\<close> below the level the macro expands to nothing.\<close>

definition macro_enabled :: "nat \<Rightarrow> haier_log_level \<Rightarrow> bool" where
  "macro_enabled HAIER_LOG_LEVEL level =
     (case level of
        LEVEL_NONE \<Rightarrow> False
      | LEVEL_ERROR \<Rightarrow> HAIER_LOG_LEVEL > 0
      | LEVEL_WARNING \<Rightarrow> HAIER_LOG_LEVEL > 1
      | LEVEL_INFO \<Rightarrow> HAIER_LOG_LEVEL > 2
      | LEVEL_DEBUG \<Rightarrow> HAIER_LOG_LEVEL > 3
      | LEVEL_VERBOSE \<Rightarrow> HAIER_LOG_LEVEL > 4)"

definition HAIER_LOG :: "nat \<Rightarrow> haier_log_level \<Rightarrow> string \<Rightarrow> 'l logger \<Rightarrow> 'l logger option" where
  "HAIER_LOG HAIER_LOG_LEVEL level expansion lg =
     (if macro_enabled HAIER_LOG_LEVEL level then map_option snd (log_haier level expansion lg) else Some lg)"

definition HAIER_BUF ::
    "nat \<Rightarrow> haier_log_level \<Rightarrow> string \<Rightarrow> byte list \<Rightarrow> nat \<Rightarrow> 'l logger \<Rightarrow> 'l logger option" where
  "HAIER_BUF HAIER_LOG_LEVEL level header buffer n lg =
     (if macro_enabled HAIER_LOG_LEVEL level
      then map_option snd (log_haier_buffer level (Some header) (Some buffer) n lg) else Some lg)"

section \<open>The console logger\<close>

definition haier_log_level_code :: "haier_log_level \<Rightarrow> nat" where
  "haier_log_level_code level =
     (case level of
        LEVEL_NONE \<Rightarrow> 0 | LEVEL_ERROR \<Rightarrow> 1 | LEVEL_WARNING \<Rightarrow> 2 | LEVEL_INFO \<Rightarrow> 3 | LEVEL_DEBUG \<Rightarrow> 5 | LEVEL_VERBOSE \<Rightarrow> 6)"

abbreviation CONSOLE_BUFFER_SIZE :: nat where "CONSOLE_BUFFER_SIZE \<equiv> 4096"

definition ll2tag :: "char list" where
  "ll2tag = ''#EWI#DV''"

text \<open>The escape character starts a colour.\<close>

definition ll2color :: "string list" where
  "ll2color = map ((#) CHR 0x1B) [''[0m'', ''[91m'', ''[93m'', ''[32m'', ''[0m'', ''[37m'', ''[90m'']"

record console =
  cl_warnings_counter :: "32 word"
  cl_errors_counter :: "32 word"
  cl_msg_buffer :: string
  cl_cout :: string

definition get_warnings_count :: "console \<Rightarrow> 32 word" where
  "get_warnings_count c = cl_warnings_counter c"

definition get_errors_count :: "console \<Rightarrow> 32 word" where
  "get_errors_count c = cl_errors_counter c"

text \<open>The key that is waiting, if any; the keyboard is read without waiting.\<close>

abbreviation NO_KB_HIT :: int where "NO_KB_HIT \<equiv> -1"

definition get_kb_hit :: "int option \<Rightarrow> int" where
  "get_kb_hit key = (case key of Some ch \<Rightarrow> ch | None \<Rightarrow> NO_KB_HIT)"

text \<open>The conversions of \<^verbatim>\<open>snprintf\<close> that occur: \<^verbatim>\<open>%02d\<close> of a number that is not negative, and what a
  format without arguments expands to. \<^verbatim>\<open>%%\<close> is a percent sign; any other conversion reads an
  argument that is not there (\<open>None\<close>).\<close>

definition decimal_digit :: "nat \<Rightarrow> char" where
  "decimal_digit n = ''0123456789'' ! n"

fun decimal :: "nat \<Rightarrow> string" where
  "decimal n = (if n < 10 then [decimal_digit n] else decimal (n div 10) @ [decimal_digit (n mod 10)])"

definition decimal02 :: "nat \<Rightarrow> string" where
  "decimal02 n = (if n < 10 then CHR ''0'' # decimal n else decimal n)"

fun expand :: "string \<Rightarrow> string option" where
  "expand [] = Some []"
| "expand (c # cs) =
     (if c \<noteq> CHR ''%'' then map_option ((#) c) (expand cs)
      else case cs of
             [] \<Rightarrow> None
           | d # ds \<Rightarrow> if d = CHR ''%'' then map_option ((#) CHR ''%'') (expand ds) else None)"

record local_time =
  tm_hour :: nat
  tm_min :: nat
  tm_sec :: nat

definition console_prefix :: "local_time \<Rightarrow> haier_log_level \<Rightarrow> string \<Rightarrow> string" where
  "console_prefix now level tag =
     ''['' @ decimal02 (tm_hour now) @ '':'' @ decimal02 (tm_min now) @ '':'' @ decimal02 (tm_sec now) @ '']['' @
     [ll2tag ! haier_log_level_code level] @ '']['' @ tag @ '']: ''"

text \<open>\<^verbatim>\<open>snprintf\<close> fails, with a negative result, when the length does not fit an \<^verbatim>\<open>int\<close>. When
  the prefix does not fit the buffer, \<^verbatim>\<open>BUFFER_SIZE - len - 1\<close> is negative and becomes a huge
  size: the message is then written behind the buffer (\<open>None\<close>).\<close>

definition console_logger :: "local_time \<Rightarrow> haier_log_level \<Rightarrow> string \<Rightarrow> string \<Rightarrow> console \<Rightarrow> console option" where
  "console_logger now level tag format c =
     (if level = LEVEL_NONE then Some c
      else
        let c = (if level = LEVEL_WARNING then c\<lparr>cl_warnings_counter := cl_warnings_counter c + 1\<rparr> else c);
            c = (if level = LEVEL_ERROR then c\<lparr>cl_errors_counter := cl_errors_counter c + 1\<rparr> else c);
            (len, m) = snprintf 0 CONSOLE_BUFFER_SIZE (console_prefix now level tag) (cl_msg_buffer c)
        in if len \<ge> 2 ^ 31 then Some (c\<lparr>cl_cout := cl_cout c @ ''error writing message!'' @ [CHR 0x0A]\<rparr>)
           else if len \<ge> CONSOLE_BUFFER_SIZE then None
           else do {
             txt \<leftarrow> expand format;
             let m = snd (snprintf len (CONSOLE_BUFFER_SIZE - len - 1) txt m);
             line \<leftarrow> c_string m;
             Some (c\<lparr>cl_msg_buffer := m,
                     cl_cout := cl_cout c @ ll2color ! haier_log_level_code level @ line @ CHR 0x1B # ''[0m'' @ [CHR 0x0A]\<rparr>)
           })"

text \<open>What \<^verbatim>\<open>set_log_handler(console_logger)\<close> makes of the calls of the log handler: the text arrives as the
  format.\<close>

fun console_calls ::
    "local_time \<Rightarrow> ('l \<times> haier_log_level \<times> string \<times> string) list \<Rightarrow> console \<Rightarrow> console option" where
  "console_calls now [] c = Some c"
| "console_calls now ((h, level, tag, txt) # calls) c =
     (case console_logger now level tag txt c of None \<Rightarrow> None | Some c' \<Rightarrow> console_calls now calls c')"

section \<open>One line\<close>

lemma expand_plain: "CHR ''%'' \<notin> set cs \<Longrightarrow> expand cs = Some cs"
  by (induction cs) auto

lemma expand_conversion:
  "CHR ''%'' \<notin> set cs \<Longrightarrow> d \<noteq> CHR ''%'' \<Longrightarrow> expand (cs @ CHR ''%'' # d # ds) = None"
  by (induction cs) auto

declare decimal.simps [simp del]

lemma length_decimal02: "n < 100 \<Longrightarrow> length (decimal02 n) = 2"
  by (simp add: decimal02_def decimal.simps [of n] decimal.simps [of "n div 10"] div_less_iff_less_mult)

lemma decimal_nonzero: "CHR 0x00 \<notin> set (decimal n)"
proof (induction n rule: decimal.induct)
  case (1 n)
  have "\<forall>k \<in> set [0..<10]. decimal_digit k \<noteq> CHR 0x00" by code_simp
  then have "decimal_digit k \<noteq> CHR 0x00" if "k < 10" for k using that by simp
  from this [of n] this [of "n mod 10"] 1 show ?case
    by (subst decimal.simps) auto
qed

text \<open>A time of day has fields of two digits, and a tag is a C string.\<close>

definition time_ok :: "local_time \<Rightarrow> bool" where
  "time_ok now \<longleftrightarrow> tm_hour now < 100 \<and> tm_min now < 100 \<and> tm_sec now < 100"

lemma length_console_prefix: "time_ok now \<Longrightarrow> length (console_prefix now level tag) = length tag + 17"
  by (simp add: console_prefix_def time_ok_def length_decimal02)

lemma ll2tag_nonzero: "ll2tag ! haier_log_level_code level \<noteq> CHR 0x00"
  by (cases level) (simp_all add: haier_log_level_code_def ll2tag_def)

lemma console_prefix_nonzero: "CHR 0x00 \<notin> set tag \<Longrightarrow> CHR 0x00 \<notin> set (console_prefix now level tag)"
  using decimal_nonzero ll2tag_nonzero [of level] by (auto simp: console_prefix_def decimal02_def)

text \<open>The buffer after a prefix that fits and a text behind it.\<close>

lemma printed_line:
  assumes "length m = CONSOLE_BUFFER_SIZE" "length xs < CONSOLE_BUFFER_SIZE" "CHR 0x00 \<notin> set (xs @ txt)"
  shows "c_string (snd (snprintf (length xs) (CONSOLE_BUFFER_SIZE - length xs - 1) txt
      (snd (snprintf 0 CONSOLE_BUFFER_SIZE xs m)))) = Some (xs @ take (CONSOLE_BUFFER_SIZE - length xs - 2) txt)"
proof -
  have z: "snd (snprintf 0 CONSOLE_BUFFER_SIZE xs m) = over (xs @ [CHR 0x00]) m"
    using assms(1,2) by (simp add: snprintf_def seg_put_def over_def)
  show ?thesis
  proof (cases "length xs = CONSOLE_BUFFER_SIZE - 1")
    case True
    then show ?thesis using c_string_over [of xs m] assms(3) unfolding z by (simp add: snprintf_def)
  next
    case False
    define t where "t = take (CONSOLE_BUFFER_SIZE - length xs - 2) txt"
    have t: "take (CONSOLE_BUFFER_SIZE - length xs - 1 - 1) txt = t" "length xs + length t + 1 < CONSOLE_BUFFER_SIZE"
      using False assms(2) by (simp_all add: t_def)
    have "snd (snprintf (length xs) (CONSOLE_BUFFER_SIZE - length xs - 1) txt (over (xs @ [CHR 0x00]) m))
        = over (xs @ t @ [CHR 0x00]) (over (xs @ [CHR 0x00]) m)"
      using False assms(2) t(1) by (simp add: snprintf_def seg_put_def over_def)
    moreover have "CHR 0x00 \<notin> set (xs @ t)"
      using assms(3) by (auto simp: t_def dest: in_set_takeD)
    ultimately show ?thesis
      using c_string_over [of "xs @ t" "over (xs @ [CHR 0x00]) m"] unfolding z t_def by simp
  qed
qed

text \<open>A whole line on the console.\<close>

definition console_line :: "local_time \<Rightarrow> haier_log_level \<Rightarrow> string \<Rightarrow> string \<Rightarrow> string" where
  "console_line now level tag txt =
     ll2color ! haier_log_level_code level @ console_prefix now level tag @ take (4077 - length tag) txt
       @ CHR 0x1B # ''[0m'' @ [CHR 0x0A]"

definition console_wf :: "console \<Rightarrow> bool" where
  "console_wf c \<longleftrightarrow> length (cl_msg_buffer c) = CONSOLE_BUFFER_SIZE"

lemma console_logger_line:
  assumes "console_wf c" "time_ok now" "length tag \<le> 4078" "level \<noteq> LEVEL_NONE"
    and "CHR 0x00 \<notin> set (tag @ txt)" "expand format = Some txt"
  shows "\<exists>c'. console_logger now level tag format c = Some c' \<and> console_wf c'
    \<and> cl_cout c' = cl_cout c @ console_line now level tag txt
    \<and> get_warnings_count c' = get_warnings_count c + (if level = LEVEL_WARNING then 1 else 0)
    \<and> get_errors_count c' = get_errors_count c + (if level = LEVEL_ERROR then 1 else 0)"
proof -
  define xs where "xs = console_prefix now level tag"
  have xs: "length xs = length tag + 17" "CHR 0x00 \<notin> set (xs @ txt)"
    using length_console_prefix [OF assms(2), of level tag] console_prefix_nonzero [of tag now level] assms(5)
    by (simp_all add: xs_def)
  define c1 where "c1 = (if level = LEVEL_WARNING then c\<lparr>cl_warnings_counter := cl_warnings_counter c + 1\<rparr> else c)"
  define c2 where "c2 = (if level = LEVEL_ERROR then c1\<lparr>cl_errors_counter := cl_errors_counter c1 + 1\<rparr> else c1)"
  define m where "m = snd (snprintf (length xs) (CONSOLE_BUFFER_SIZE - length xs - 1) txt (snd (snprintf 0 CONSOLE_BUFFER_SIZE xs (cl_msg_buffer c2))))"
  have c2: "cl_msg_buffer c2 = cl_msg_buffer c" "cl_cout c2 = cl_cout c"
    "cl_warnings_counter c2 = cl_warnings_counter c + (if level = LEVEL_WARNING then 1 else 0)"
    "cl_errors_counter c2 = cl_errors_counter c + (if level = LEVEL_ERROR then 1 else 0)"
    by (simp_all add: c2_def c1_def)
  have len: "length (cl_msg_buffer c2) = CONSOLE_BUFFER_SIZE" "length xs < CONSOLE_BUFFER_SIZE"
    using assms(1,3) xs(1) by (simp_all add: c2 console_wf_def)
  have line: "c_string m = Some (xs @ take (4077 - length tag) txt)"
    using printed_line [OF len xs(2)] unfolding m_def xs(1) by simp
  have "length m = CONSOLE_BUFFER_SIZE"
    using len unfolding m_def by (auto simp: snprintf_def)
  moreover have "console_logger now level tag format c = Some (c2\<lparr>cl_msg_buffer := m,
      cl_cout := cl_cout c2 @ console_line now level tag txt\<rparr>)"
    using len(2) line unfolding console_logger_def c1_def [symmetric] Let_def c2_def [symmetric] xs_def [symmetric]
    by (simp add: assms(4,6) snprintf_def [of 0] console_line_def xs_def [symmetric] m_def [simplified snprintf_def [of 0], simplified])
  ultimately show ?thesis
    using c2 by (simp add: console_wf_def get_warnings_count_def get_errors_count_def)
qed

section \<open>A logging program\<close>

text \<open>One log statement with the console logger installed: the library's logger and the console.\<close>

definition log_statement ::
    "nat \<Rightarrow> local_time \<times> haier_log_level \<times> string \<Rightarrow> 'l logger \<times> console \<Rightarrow> ('l logger \<times> console) option" where
  "log_statement HAIER_LOG_LEVEL = (\<lambda>(now, level, expansion) (lg, c).
     do {
       lg' \<leftarrow> HAIER_LOG HAIER_LOG_LEVEL level expansion lg;
       c' \<leftarrow> console_calls now (drop (length (lg_calls lg)) (lg_calls lg')) c;
       Some (lg', c')
     })"

fun log_statements ::
    "nat \<Rightarrow> (local_time \<times> haier_log_level \<times> string) list \<Rightarrow> 'l logger \<times> console \<Rightarrow> ('l logger \<times> console) option" where
  "log_statements lv [] s = Some s"
| "log_statements lv (e # es) s = (case log_statement lv e s of None \<Rightarrow> None | Some s' \<Rightarrow> log_statements lv es s')"

text \<open>The frame of a test, \<^verbatim>\<open>TEST_START\<close> and \<^verbatim>\<open>TEST_END\<close> of \<^verbatim>\<open>test/utils/test_macro.h\<close>: the
  counters at the start, the line with the number of the test as it is written in the program, and whether the test passes.\<close>

definition TEST_START ::
    "nat \<Rightarrow> local_time \<Rightarrow> string \<Rightarrow> 'l logger \<times> console \<Rightarrow> ((32 word \<times> 32 word) \<times> 'l logger \<times> console) option" where
  "TEST_START lv now test_number s =
     (let warnings = get_warnings_count (snd s);
          errors = get_errors_count (snd s)
      in map_option (Pair (warnings, errors)) (log_statement lv (now, LEVEL_INFO, ''Test #'' @ test_number) s))"

definition TEST_END :: "32 word \<times> 32 word \<Rightarrow> nat \<Rightarrow> nat \<Rightarrow> console \<Rightarrow> bool" where
  "TEST_END start warn err c =
     (\<not> (fst start + of_nat warn \<noteq> get_warnings_count c \<or> snd start + of_nat err \<noteq> get_errors_count c))"

definition log_ready :: "'l logger \<times> console \<Rightarrow> bool" where
  "log_ready = (\<lambda>(lg, c). lg_handler lg \<noteq> None \<and> length (lg_msg_buffer lg) = LOG_BUFFER_SIZE \<and> console_wf c)"

text \<open>A text that is shown as it is: no terminating zero inside and no percent sign.\<close>

definition plain_text :: "string \<Rightarrow> bool" where
  "plain_text txt \<longleftrightarrow> CHR 0x00 \<notin> set txt \<and> CHR ''%'' \<notin> set txt"

lemma log_haier_calls:
  assumes "lg_handler lg = Some h" "level \<noteq> LEVEL_NONE" "length (lg_msg_buffer lg) = LOG_BUFFER_SIZE" "CHR 0x00 \<notin> set txt"
  shows "\<exists>m. length m = LOG_BUFFER_SIZE \<and> map_option snd (log_haier level txt lg)
    = Some (lg\<lparr>lg_msg_buffer := m, lg_calls := lg_calls lg @ [(h, level, HAIER_LOG_TAG, take 4095 txt)]\<rparr>)"
proof -
  let ?m = "over (take 4095 txt @ [CHR 0x00]) (lg_msg_buffer lg)"
  have m: "snprintf 0 LOG_BUFFER_SIZE txt (lg_msg_buffer lg) = (length txt, ?m)"
    by (simp add: snprintf_def seg_put_def over_def)
  have "c_string ?m = Some (take 4095 txt)"
    using assms(4) by (intro c_string_over) (auto dest: in_set_takeD)
  moreover have "length ?m = LOG_BUFFER_SIZE" using assms(3) by simp
  ultimately show ?thesis
    using assms(1,2) by (intro exI [of _ ?m]) (simp add: log_haier_def m call_log_handler_def)
qed

lemma length_HAIER_LOG_TAG: "length HAIER_LOG_TAG = 14" "CHR 0x00 \<notin> set HAIER_LOG_TAG"
  by (simp_all add: HAIER_LOG_TAG_def)

lemma log_statement_line:
  assumes "log_ready s" "time_ok now" "plain_text txt"
  shows "\<exists>s'. log_statement lv (now, level, txt) s = Some s' \<and> log_ready s'
    \<and> cl_cout (snd s') = cl_cout (snd s) @ (if macro_enabled lv level then console_line now level HAIER_LOG_TAG txt else [])
    \<and> get_warnings_count (snd s') = get_warnings_count (snd s) + (if macro_enabled lv level \<and> level = LEVEL_WARNING then 1 else 0)
    \<and> get_errors_count (snd s') = get_errors_count (snd s) + (if macro_enabled lv level \<and> level = LEVEL_ERROR then 1 else 0)"
proof (cases "macro_enabled lv level")
  case True
  obtain lg c where s: "s = (lg, c)" by (cases s)
  obtain h where lg: "lg_handler lg = Some h" "length (lg_msg_buffer lg) = LOG_BUFFER_SIZE" and c: "console_wf c"
    using assms(1) by (auto simp: log_ready_def s)
  have lv: "level \<noteq> LEVEL_NONE" using True by (auto simp: macro_enabled_def)
  have z: "CHR 0x00 \<notin> set txt" "CHR 0x00 \<notin> set (HAIER_LOG_TAG @ take 4095 txt)" "expand (take 4095 txt) = Some (take 4095 txt)"
    using assms(3) length_HAIER_LOG_TAG(2) by (auto simp: plain_text_def intro!: expand_plain dest: in_set_takeD)
  obtain m where m: "length m = LOG_BUFFER_SIZE" "map_option snd (log_haier level txt lg)
      = Some (lg\<lparr>lg_msg_buffer := m, lg_calls := lg_calls lg @ [(h, level, HAIER_LOG_TAG, take 4095 txt)]\<rparr>)"
    using log_haier_calls [OF lg(1) lv lg(2) z(1)] by blast
  obtain c' where c': "console_logger now level HAIER_LOG_TAG (take 4095 txt) c = Some c'" "console_wf c'"
    "cl_cout c' = cl_cout c @ console_line now level HAIER_LOG_TAG (take 4095 txt)"
    "get_warnings_count c' = get_warnings_count c + (if level = LEVEL_WARNING then 1 else 0)"
    "get_errors_count c' = get_errors_count c + (if level = LEVEL_ERROR then 1 else 0)"
    using console_logger_line [OF c assms(2) _ lv z(2,3)] length_HAIER_LOG_TAG(1) by auto
  have "console_line now level HAIER_LOG_TAG (take 4095 txt) = console_line now level HAIER_LOG_TAG txt"
    by (simp add: console_line_def length_HAIER_LOG_TAG)
  moreover have "log_statement lv (now, level, txt) s
      = Some (lg\<lparr>lg_msg_buffer := m, lg_calls := lg_calls lg @ [(h, level, HAIER_LOG_TAG, take 4095 txt)]\<rparr>, c')"
    unfolding log_statement_def HAIER_LOG_def s prod.case if_P [OF True] m(2) by (simp add: c'(1))
  ultimately show ?thesis
    using True m(1) c' lg by (simp add: s log_ready_def)
next
  case False
  then show ?thesis
    using assms(1) by (cases s) (simp add: log_statement_def HAIER_LOG_def)
qed

definition shown_lines :: "nat \<Rightarrow> (local_time \<times> haier_log_level \<times> string) list \<Rightarrow> string" where
  "shown_lines lv es = concat (map (\<lambda>(now, level, txt). console_line now level HAIER_LOG_TAG txt)
     (filter (\<lambda>(now, level, txt). macro_enabled lv level) es))"

definition logged_at :: "nat \<Rightarrow> haier_log_level \<Rightarrow> (local_time \<times> haier_log_level \<times> string) list \<Rightarrow> nat" where
  "logged_at lv level es = length (filter (\<lambda>(now, l, txt). macro_enabled lv l \<and> l = level) es)"

lemma logged_lines:
  assumes "log_ready s" "\<forall>(now, level, txt) \<in> set es. time_ok now \<and> plain_text txt"
  shows "\<exists>s'. log_statements lv es s = Some s' \<and> log_ready s'
    \<and> cl_cout (snd s') = cl_cout (snd s) @ shown_lines lv es
    \<and> get_warnings_count (snd s') = get_warnings_count (snd s) + of_nat (logged_at lv LEVEL_WARNING es)
    \<and> get_errors_count (snd s') = get_errors_count (snd s) + of_nat (logged_at lv LEVEL_ERROR es)"
  using assms
proof (induction es arbitrary: s)
  case Nil
  then show ?case by (simp add: shown_lines_def logged_at_def)
next
  case (Cons e es)
  obtain now level msg where e: "e = (now, level, msg)" by (cases e)
  have "time_ok now" "plain_text msg" using Cons.prems(2) by (simp_all add: e)
  from log_statement_line [OF Cons.prems(1) this, of lv level] obtain s1 where s1:
    "log_statement lv e s = Some s1" "log_ready s1"
    "cl_cout (snd s1) = cl_cout (snd s) @ (if macro_enabled lv level then console_line now level HAIER_LOG_TAG msg else [])"
    "get_warnings_count (snd s1) = get_warnings_count (snd s) + (if macro_enabled lv level \<and> level = LEVEL_WARNING then 1 else 0)"
    "get_errors_count (snd s1) = get_errors_count (snd s) + (if macro_enabled lv level \<and> level = LEVEL_ERROR then 1 else 0)"
    unfolding e by blast
  from Cons.IH [OF s1(2)] Cons.prems(2) s1 show ?case
    by (auto simp: shown_lines_def logged_at_def e)
qed

lemma test_started:
  assumes "log_ready s" "time_ok t0" "plain_text number"
  shows "\<exists>s1. TEST_START lv t0 number s = Some ((get_warnings_count (snd s), get_errors_count (snd s)), s1) \<and> log_ready s1
    \<and> cl_cout (snd s1) = cl_cout (snd s) @ shown_lines lv [(t0, LEVEL_INFO, ''Test #'' @ number)]
    \<and> get_warnings_count (snd s1) = get_warnings_count (snd s) \<and> get_errors_count (snd s1) = get_errors_count (snd s)"
proof -
  have "plain_text (''Test #'' @ number)" using assms(3) by (simp add: plain_text_def)
  from log_statement_line [OF assms(1,2) this, of lv LEVEL_INFO] show ?thesis
    by (auto simp: TEST_START_def shown_lines_def)
qed

lemma logged_session:
  fixes warn err :: nat
  assumes "log_ready s" "\<forall>(now, level, txt) \<in> set es. time_ok now \<and> plain_text txt" "time_ok t0" "plain_text number"
  shows "\<exists>start s1 s'. TEST_START lv t0 number s = Some (start, s1) \<and> log_statements lv es s1 = Some s' \<and> log_ready s'
    \<and> cl_cout (snd s') = cl_cout (snd s) @ shown_lines lv ((t0, LEVEL_INFO, ''Test #'' @ number) # es)
    \<and> (TEST_END start warn err (snd s')
         \<longleftrightarrow> warn mod 2 ^ 32 = logged_at lv LEVEL_WARNING es mod 2 ^ 32
           \<and> err mod 2 ^ 32 = logged_at lv LEVEL_ERROR es mod 2 ^ 32)"
proof -
  obtain s1 where s1: "TEST_START lv t0 number s = Some ((get_warnings_count (snd s), get_errors_count (snd s)), s1)" "log_ready s1"
    "cl_cout (snd s1) = cl_cout (snd s) @ shown_lines lv [(t0, LEVEL_INFO, ''Test #'' @ number)]"
    "get_warnings_count (snd s1) = get_warnings_count (snd s)" "get_errors_count (snd s1) = get_errors_count (snd s)"
    using test_started [OF assms(1,3,4)] by blast
  obtain s' where s': "log_statements lv es s1 = Some s'" "log_ready s'"
    "cl_cout (snd s') = cl_cout (snd s1) @ shown_lines lv es"
    "get_warnings_count (snd s') = get_warnings_count (snd s1) + of_nat (logged_at lv LEVEL_WARNING es)"
    "get_errors_count (snd s') = get_errors_count (snd s1) + of_nat (logged_at lv LEVEL_ERROR es)"
    using logged_lines [OF s1(2) assms(2)] by blast
  have w: "(of_nat a = (of_nat b :: 32 word)) \<longleftrightarrow> a mod 2 ^ 32 = b mod 2 ^ 32" for a b
    by (simp add: word_of_nat_eq_iff take_bit_eq_mod)
  show ?thesis
    using s1(1,3-5) s'
    by (intro exI [of _ "(get_warnings_count (snd s), get_errors_count (snd s))"] exI [of _ s1] exI [of _ s'])
      (simp add: TEST_END_def w [simplified] shown_lines_def)
qed

text \<open>Claim C30. What a test relies on. With the console logger installed and a log level chosen at
  compile time, any sequence of log statements whose texts contain no percent sign shows exactly the
  lines of the enabled levels on the console, in order, each with time, level letter, tag and
  colour and cut off at 4063 characters. After \<^verbatim>\<open>TEST_START\<close>, which shows a line with the number of the test first,
  \<^verbatim>\<open>TEST_END(warn, err)\<close> succeeds if and only if,
  modulo 2 ^ 32, as many warnings and errors as stated were logged at an enabled level in between.\<close>

theorem log_session:
  fixes warn err :: nat
  assumes "log_ready s" "\<forall>(now, level, txt) \<in> set es. time_ok now \<and> plain_text txt" "time_ok t0" "plain_text number"
  shows "(\<exists>s'. log_statements lv es s = Some s' \<and> log_ready s' \<and> cl_cout (snd s') = cl_cout (snd s) @ shown_lines lv es)
    \<and> (\<exists>start s1 s'. TEST_START lv t0 number s = Some (start, s1) \<and> log_statements lv es s1 = Some s' \<and> log_ready s'
      \<and> cl_cout (snd s') = cl_cout (snd s) @ shown_lines lv ((t0, LEVEL_INFO, ''Test #'' @ number) # es)
      \<and> (TEST_END start warn err (snd s')
           \<longleftrightarrow> warn mod 2 ^ 32 = logged_at lv LEVEL_WARNING es mod 2 ^ 32
             \<and> err mod 2 ^ 32 = logged_at lv LEVEL_ERROR es mod 2 ^ 32))"
  using logged_lines [OF assms(1,2), of lv] logged_session [OF assms] by blast

definition sample_console :: console where
  "sample_console = \<lparr>cl_warnings_counter = 0, cl_errors_counter = 0,
     cl_msg_buffer = replicate CONSOLE_BUFFER_SIZE CHR 0x00, cl_cout = []\<rparr>"

definition midday :: local_time where
  "midday = \<lparr>tm_hour = 12, tm_min = 5, tm_sec = 0\<rparr>"

theorem log_session_witness:
  "\<exists>start s1 s'. TEST_START 2 midday ''1'' (sample_logger, sample_console) = Some (start, s1)
    \<and> log_statements 2 [(midday, LEVEL_WARNING, ''No answer''), (midday, LEVEL_INFO, ''Test'')] s1 = Some s' \<and> TEST_END start 1 0 (snd s')
    \<and> cl_cout (snd s') = CHR 0x1B # ''[93m[12:05:00][W][haier.protocol]: No answer'' @ CHR 0x1B # ''[0m'' @ [CHR 0x0A]"
proof -
  let ?es = "[(midday, LEVEL_WARNING, ''No answer''), (midday, LEVEL_INFO, ''Test'')]"
  have "log_ready (sample_logger, sample_console)" "time_ok midday" "plain_text ''1''"
    by (simp_all add: log_ready_def console_wf_def sample_console_def time_ok_def midday_def plain_text_def)
  moreover have "\<forall>(now, level, txt) \<in> set ?es. time_ok now \<and> plain_text txt"
    by (simp add: time_ok_def plain_text_def midday_def)
  moreover have "logged_at 2 LEVEL_WARNING ?es = 1" "logged_at 2 LEVEL_ERROR ?es = 0" by code_simp+
  moreover have "shown_lines 2 ((midday, LEVEL_INFO, ''Test #'' @ ''1'') # ?es) = CHR 0x1B # ''[93m[12:05:00][W][haier.protocol]: No answer'' @ CHR 0x1B # ''[0m'' @ [CHR 0x0A]"
    by code_simp
  ultimately show ?thesis
    using log_session [where s = "(sample_logger, sample_console)" and es = ?es and lv = 2 and warn = 1 and err = 0 and ?t0.0 = midday and number = "''1''"]
    by (auto simp: sample_console_def)
qed

text \<open>The console logger takes the finished text for a format. A text in which a percent
  sign, among the first 4095 characters, is not followed by another one makes it read an argument
  that was never passed, at every enabled level and whatever the rest of the text: nothing the
  text depends on, such as the path of a port, may contain a percent sign. A tag that leaves no
  room makes it write behind its buffer.\<close>

lemma console_logger_undefined:
  assumes "time_ok now" "level \<noteq> LEVEL_NONE" "CHR ''%'' \<notin> set pre" "d \<noteq> CHR ''%''"
  shows "(log_ready s \<and> macro_enabled lv level \<and> length pre < 4095 \<and> CHR 0x00 \<notin> set (pre @ d # rest) \<longrightarrow>
      log_statement lv (now, level, pre @ CHR ''%'' # d # rest) s = None)
    \<and> (length tag \<le> 4078 \<longrightarrow> console_logger now level tag (pre @ CHR ''%'' # d # rest) c = None)
    \<and> (4078 < length tag \<and> length tag + 17 < 2 ^ 31 \<longrightarrow> console_logger now level tag format c = None)"
proof -
  have bad: "console_logger now level tag format c = None" if "length tag \<le> 4078" "expand format = None" for tag format c
    using that assms(2) length_console_prefix [OF assms(1), of level tag]
    by (simp add: console_logger_def Let_def snprintf_def)
  have direct: "length tag \<le> 4078 \<Longrightarrow> console_logger now level tag (pre @ CHR ''%'' # d # rest) c = None"
    using bad expand_conversion [OF assms(3,4)] by blast
  have long: "4078 < length tag \<Longrightarrow> length tag + 17 < 2 ^ 31 \<Longrightarrow> console_logger now level tag format c = None"
    using assms(2) length_console_prefix [OF assms(1), of level tag]
    by (simp add: console_logger_def Let_def snprintf_def)
  have "log_statement lv (now, level, pre @ CHR ''%'' # d # rest) s = None"
    if s: "log_ready s" "macro_enabled lv level" "length pre < 4095" "CHR 0x00 \<notin> set (pre @ d # rest)"
  proof -
    obtain lg c where sc: "s = (lg, c)" by (cases s)
    obtain h where lg: "lg_handler lg = Some h" "length (lg_msg_buffer lg) = LOG_BUFFER_SIZE"
      using s(1) by (auto simp: log_ready_def sc)
    let ?txt = "pre @ CHR ''%'' # d # rest"
    have "CHR 0x00 \<notin> set ?txt" using s(4) by simp
    from log_haier_calls [OF lg(1) assms(2) lg(2) this] obtain m where m: "map_option snd (log_haier level ?txt lg)
        = Some (lg\<lparr>lg_msg_buffer := m, lg_calls := lg_calls lg @ [(h, level, HAIER_LOG_TAG, take 4095 ?txt)]\<rparr>)" by blast
    have "4095 - length pre = Suc (4094 - length pre)" using s(3) by simp
    then have t: "take 4095 ?txt = pre @ CHR ''%'' # take (4094 - length pre) (d # rest)"
      using s(3) by simp
    have "expand (pre @ CHR ''%'' # take k (d # rest)) = None" for k
      using assms(3,4) expand_conversion [OF assms(3,4)] by (cases k; induction pre) auto
    then have "console_logger now level HAIER_LOG_TAG (take 4095 ?txt) c = None"
      using bad [of HAIER_LOG_TAG] length_HAIER_LOG_TAG(1) unfolding t by simp
    then show ?thesis
      unfolding log_statement_def HAIER_LOG_def sc prod.case if_P [OF s(2)] m by simp
  qed
  then show ?thesis using direct long by blast
qed

lemma console_logger_undefined_example:
  "log_statement 1 (midday, LEVEL_ERROR, ''Can't open port /dev/tty%n'') (sample_logger, sample_console) = None"
proof -
  have "log_ready (sample_logger, sample_console)" "time_ok midday"
    by (simp_all add: log_ready_def console_wf_def sample_console_def time_ok_def midday_def)
  then show ?thesis
    using console_logger_undefined [THEN conjunct1, THEN mp, of midday LEVEL_ERROR "''Can't open port /dev/tty''" "CHR ''n''"
        "(sample_logger, sample_console)" 1 "[]"]
    by (simp add: macro_enabled_def)
qed

end
