(* ===== verification/Transport_Log.thy ===== *)
theory Transport_Log
  imports Transport_Stream Decoder_Errors Console_Log
begin

text \<open>
  The warnings of \<^verbatim>\<open>src/transport/protocol_transport.cpp\<close>: beside each operation of
  \<open>Transport\<close> that logs at level WARNING a function with the same control flow that lists the lines it
  logs, and the proof that they are the reasons for which the decoder gives frames up, in order and
  with the number of the error. The lines at the levels INFO to VERBOSE are left out.
\<close>

section \<open>The lines\<close>

type_synonym log_line = "haier_log_level \<times> string"

text \<open>The enumerators of \<^verbatim>\<open>FrameError\<close> are numbered in the order of their declaration.\<close>

primrec frame_error_code :: "frame_error \<Rightarrow> nat" where
  "frame_error_code COMPLETE_FRAME = 0"
| "frame_error_code HEADER_ONLY = 1"
| "frame_error_code FRAME_SEPARATOR_WRONG = 2"
| "frame_error_code HEADER_TOO_SMALL = 3"
| "frame_error_code FRAME_TOO_BIG = 4"
| "frame_error_code FRAME_TOO_SMALL = 5"
| "frame_error_code DATA_SIZE_WRONG = 6"
| "frame_error_code CHECKSUM_WRONG = 7"
| "frame_error_code CRC_WRONG = 8"
| "frame_error_code WRONG_POST_SEPARATOR_BYTE = 9"
| "frame_error_code UNKNOWN_DATA = 10"

definition parsing_error_line :: "frame_error \<Rightarrow> log_line" where
  "parsing_error_line err = (LEVEL_WARNING, ''Frame parsing error: '' @ decimal (frame_error_code err))"

definition frame_lost_line :: log_line where
  "frame_lost_line = (LEVEL_WARNING, ''Frame lost because of buffer overflow'')"

definition frame_timeout_line :: log_line where
  "frame_timeout_line = (LEVEL_WARNING, ''Frame timeout!'')"

section \<open>What the operations log\<close>

definition tr_read_data_log :: "'s stream_ops \<Rightarrow> transport \<Rightarrow> 's \<Rightarrow> log_line list" where
  "tr_read_data_log ops t s =
     (let c = fst (so_available ops s);
          count = (if c \<ge> cb_capacity (tr_buffer t) then cb_capacity (tr_buffer t) else c);
          available = cb_get_space (tr_buffer t)
      in if count > available
         then if tr_frame_start_found (tr_drop_bytes (count - available) t) then [frame_lost_line] else []
         else [])"

definition header_complete_log :: "process_state \<Rightarrow> log_line list" where
  "header_complete_log p =
     (let t = ps_transport p; pos = tr_pos t; buf = cb_get (tr_buffer t);
          (correctFrame, bPos, headerBuffer) =
            header_loop buf pos (FRAME_SEPARATORS_COUNT + 1)
              (map buf [0..<FRAME_SEPARATORS_COUNT] @ [buf FRAME_SEPARATORS_COUNT])
      in if \<not> correctFrame then [parsing_error_line WRONG_POST_SEPARATOR_BYTE]
         else let (f, err, _) = parse_buffer (tr_current_frame t) headerBuffer (length headerBuffer)
              in if err \<noteq> HEADER_ONLY then [parsing_error_line err] else [])"

definition payload_complete_log :: "process_state \<Rightarrow> log_line list" where
  "payload_complete_log p =
     (let t = ps_transport p; pos = tr_pos t; buf = cb_get (tr_buffer t);
          (correctFrame, bPos, tmp_buf) = payload_loop buf pos 0 []
      in if \<not> correctFrame then [parsing_error_line WRONG_POST_SEPARATOR_BYTE]
         else let (f, err, _) = parse_buffer (tr_current_frame t) tmp_buf (length tmp_buf)
              in if err = COMPLETE_FRAME then [] else [parsing_error_line err])"

definition process_step_log :: "process_state \<Rightarrow> log_line list" where
  "process_step_log p =
     (let t = ps_transport p; pos = tr_pos t
      in if \<not> tr_frame_start_found t then []
         else let t1 = (if cb_get (tr_buffer t) pos = SEPARATOR_BYTE
                        then t\<lparr>tr_sep_count := tr_sep_count t + 1\<rparr> else t);
                  p1 = p\<lparr>ps_transport := t1\<rparr>; f = tr_current_frame t1
              in case f_status f of
                   FRAME_EMPTY \<Rightarrow>
                     if pos + 1 - tr_sep_count t1 = FRAME_HEADER_SIZE then header_complete_log p1 else []
                 | FRAME_HEADER_ONLY \<Rightarrow>
                     if pos + 1 - tr_sep_count t1 = unat (f_data_size f) + (if f_use_crc f then 3 else 1)
                     then payload_complete_log p1 else []
                 | FRAME_COMPLETE \<Rightarrow> [])"

definition frame_timeout_log :: "millis \<Rightarrow> transport \<Rightarrow> log_line list" where
  "frame_timeout_log now t =
     (if f_status (tr_current_frame t) > FRAME_EMPTY
      then if now - tr_frame_start t > FRAME_TIMEOUT then [frame_timeout_line] else []
      else [])"

text \<open>The loop of \<open>process_data\<close> with the lines logged so far.\<close>

definition process_data_log :: "millis \<Rightarrow> transport \<Rightarrow> log_line list option" where
  "process_data_log now t0 =
     (let t = frame_timeout now t0; ls0 = frame_timeout_log now t0
      in if cb_is_empty (tr_buffer t) then Some ls0
         else map_option snd
           (while_option (\<lambda>(p, ls). tr_pos (ps_transport p) < ps_buf_size p)
             (\<lambda>(p, ls). (process_step p, ls @ process_step_log p))
             (\<lparr>ps_transport = t, ps_buf_size = cb_get_size (tr_buffer t), ps_bytes_to_drop = 0\<rparr>, ls0)))"

section \<open>They are the decoder's reasons\<close>

lemma header_complete_reports:
  assumes pos: "tr_pos t < cb_get_size (tr_buffer t)" and cur: "tr_current_frame t = empty_frame"
    and raw: "r = take (Suc (tr_pos t)) (cb_list (tr_buffer t))" "3 \<le> length r" "r ! 2 \<noteq> SEPARATOR_BYTE"
    and hdr: "\<And>hdr. unstuff (drop 2 r) = Inr hdr \<Longrightarrow> length hdr = 8"
    and p: "ps_transport p = t"
  shows "header_complete_log p = map parsing_error_line (case unstuff (drop 2 r) of
        Inl bk \<Rightarrow> [WRONG_POST_SEPARATOR_BYTE] | Inr hdr \<Rightarrow> header_errors (r ! 0) (r ! 1) hdr)"
proof (cases "unstuff (drop 2 r)")
  case (Inl bk)
  then show ?thesis
    unfolding header_complete_log_def using header_copied(2) [OF pos raw Inl] p by (auto simp: Let_def)
next
  case (Inr h)
  obtain f err n where parse: "parse_buffer empty_frame ([r ! 0, r ! 1] @ h) 10 = (f, err, n)"
    and errs: "header_errors (r ! 0) (r ! 1) h = (if err = HEADER_ONLY then [] else [err])"
    by (rule header_parsed [OF hdr [OF Inr], of "r ! 0" "r ! 1"]) blast
  show ?thesis
    unfolding header_complete_log_def using header_copied(1) [OF pos raw Inr] p parse errs hdr [OF Inr] cur Inr
    by (simp add: Let_def)
qed

lemma payload_complete_reports:
  assumes pos: "tr_pos t < cb_get_size (tr_buffer t)"
    and cur: "f_status (tr_current_frame t) = FRAME_HEADER_ONLY"
      "unat (f_data_size (tr_current_frame t)) \<le> MAX_DATA_SIZE"
    and raw: "r = take (Suc (tr_pos t)) (cb_list (tr_buffer t))"
    and out: "\<And>out. unstuff r = Inr out \<Longrightarrow>
      length out = unat (f_data_size (tr_current_frame t)) + trailer_size (tr_current_frame t)"
    and p: "ps_transport p = t"
  shows "payload_complete_log p = map parsing_error_line (case unstuff r of
        Inl bk \<Rightarrow> [WRONG_POST_SEPARATOR_BYTE] | Inr out \<Rightarrow> payload_errors (tr_current_frame t) out)"
proof -
  note lb = loop_buffer [OF pos raw]
  show ?thesis
  proof (cases "unstuff r")
    case (Inl bk)
    then show ?thesis
      unfolding payload_complete_log_def using payload_loop_unstuff [OF lb, of 0 r "[]"] p by (auto simp: Let_def)
  next
    case (Inr os)
    obtain f err n where "parse_buffer (tr_current_frame t) os (length os) = (f, err, n)"
      "payload_errors (tr_current_frame t) os = (if err = COMPLETE_FRAME then [] else [err])"
      by (rule payload_parsed [OF cur out [OF Inr]]) blast
    then show ?thesis
      unfolding payload_complete_log_def using payload_loop_unstuff [OF lb, of 0 r "[]"] p Inr by (simp add: Let_def)
  qed
qed

lemma process_step_reports:
  assumes rep: "represents t d ph" and pos: "tr_pos t < cb_get_size (tr_buffer t)"
    and p: "ps_transport p = t" and b: "unread t = b # bs"
  shows "process_step_log p = map parsing_error_line (decode_byte_errors ph b)"
proof (cases ph)
  case (Search raw)
  then show ?thesis
    using representsD(7) [OF rep] p by (simp add: process_step_log_def Let_def)
next
  case (Header raw)
  note r = representsD [OF rep [unfolded Header]]
  let ?r = "raw @ [b]"
  have d: "d = 0" using r(6) by simp
  have byte: "cb_get (tr_buffer t) (tr_pos t) = b"
    using unread_Cons [OF pos] b by simp
  have raw: "3 \<le> length raw" "raw ! 2 \<noteq> SEPARATOR_BYTE" "header_count raw < FRAME_HEADER_SIZE"
    using r(5) by simp_all
  have take: "take (Suc (tr_pos t)) (cb_list (tr_buffer t)) = ?r"
    using take_pos_snoc [OF pos] r(4) byte d by simp
  have len: "length raw = tr_pos t" using r(10) d by simp
  define t1 where "t1 = t\<lparr>tr_sep_count := separators (drop 3 ?r)\<rparr>"
  have t1: "(if cb_get (tr_buffer t) (tr_pos t) = SEPARATOR_BYTE then t\<lparr>tr_sep_count := tr_sep_count t + 1\<rparr> else t) = t1"
    using r(8) raw(1) byte by (simp add: t1_def separators_Cons)
  have "tr_pos t + 1 - separators (drop 3 ?r) = length ?r - separators (drop 3 ?r)"
    using len by simp
  also have "\<dots> = header_count ?r"
    using raw(1) by (intro header_count_eq) simp
  finally have cnt: "tr_pos t + 1 - tr_sep_count t1 = header_count ?r"
    by (simp add: t1_def)
  have step: "process_step_log p = (if header_count ?r = FRAME_HEADER_SIZE
      then header_complete_log (p\<lparr>ps_transport := t1\<rparr>) else [])"
    unfolding process_step_log_def p Let_def t1 cnt using r(7,9) by (simp add: t1_def empty_frame_def)
  show ?thesis
  proof (cases "header_count ?r = FRAME_HEADER_SIZE")
    case True
    have len8: "length hdr = 8" if "unstuff (drop 2 ?r) = Inr hdr" for hdr
      by (rule header_reached(2) [OF raw True that])
    have sel: "tr_pos t1 < cb_get_size (tr_buffer t1)" "tr_current_frame t1 = empty_frame"
      "?r = take (Suc (tr_pos t1)) (cb_list (tr_buffer t1))" "3 \<le> length ?r" "?r ! 2 \<noteq> SEPARATOR_BYTE"
      using r(9) pos take raw(1,2) by (simp_all add: t1_def nth_append)
    have "header_complete_log (p\<lparr>ps_transport := t1\<rparr>) = map parsing_error_line (decode_byte_errors (Header raw) b)"
      unfolding decode_byte_errors_header(2) [OF True]
      by (rule header_complete_reports [OF sel]) (rule len8, assumption, simp)
    then show ?thesis using step True Header by simp
  next
    case False
    then show ?thesis using step Header decode_byte_errors_header(1) [OF False] by simp
  qed
next
  case (Payload h raw)
  note r = representsD [OF rep [unfolded Payload]]
  let ?r = "raw @ [b]"
  have d: "d = 0" using r(6) by simp
  have byte: "cb_get (tr_buffer t) (tr_pos t) = b"
    using unread_Cons [OF pos] b by simp
  obtain hdr where h: "header_valid SEPARATOR_BYTE SEPARATOR_BYTE hdr" "h = header_frame hdr"
    and reach: "plain raw < unat (f_data_size h) + trailer_size h"
    using r(5) by auto
  have take: "take (Suc (tr_pos t)) (cb_list (tr_buffer t)) = ?r"
    using take_pos_snoc [OF pos] r(4) byte d by simp
  have len: "length raw = tr_pos t" using r(10) d by simp
  define t1 where "t1 = t\<lparr>tr_sep_count := separators ?r\<rparr>"
  have cf: "tr_current_frame t1 = h"
    using r(9) by (simp add: t1_def)
  have cur: "f_status (tr_current_frame t1) = FRAME_HEADER_ONLY" "unat (f_data_size (tr_current_frame t1)) \<le> MAX_DATA_SIZE"
    unfolding cf using h header_valid_data_size [OF h(1)] by simp_all
  have t1: "(if cb_get (tr_buffer t) (tr_pos t) = SEPARATOR_BYTE then t\<lparr>tr_sep_count := tr_sep_count t + 1\<rparr> else t) = t1"
    using r(8) byte by (simp add: t1_def separators_Cons)
  have cnt: "tr_pos t + 1 - tr_sep_count t1 = plain ?r"
    using len by (simp add: t1_def plain_def del: plain_append)
  have step: "process_step_log p = (if plain ?r = unat (f_data_size h) + trailer_size h
      then payload_complete_log (p\<lparr>ps_transport := t1\<rparr>) else [])"
    unfolding process_step_log_def p Let_def t1 cnt cf using r(7) cur(1) by (simp add: cf trailer_size_def del: plain_append)
  show ?thesis
  proof (cases "plain ?r = unat (f_data_size h) + trailer_size h")
    case True
    have "payload_complete_log (p\<lparr>ps_transport := t1\<rparr>) = map parsing_error_line (case unstuff ?r of
        Inl bk \<Rightarrow> [WRONG_POST_SEPARATOR_BYTE] | Inr out \<Rightarrow> payload_errors h out)"
    proof (rule payload_complete_reports [OF _ cur, unfolded cf])
      show "length out = unat (f_data_size h) + trailer_size h" if "unstuff ?r = Inr out" for out
        by (rule payload_reached(2) [OF reach True that])
    qed (use pos take in \<open>simp_all add: t1_def\<close>)
    then show ?thesis using step True Payload decode_byte_errors_payload(2) [OF True] by simp
  next
    case False
    then show ?thesis using step Payload decode_byte_errors_payload(1) [OF False] by simp
  qed
qed

text \<open>The loop, and a whole call.\<close>

abbreviation process_loop_log :: "process_state \<times> log_line list \<Rightarrow> (process_state \<times> log_line list) option" where
  "process_loop_log \<equiv> while_option (\<lambda>(p, ls). tr_pos (ps_transport p) < ps_buf_size p)
     (\<lambda>(p, ls). (process_step p, ls @ process_step_log p))"

lemma process_loop_reports:
  "represents t d ph \<Longrightarrow> unread t = bs \<Longrightarrow>
   p = \<lparr>ps_transport = t, ps_buf_size = cb_get_size (tr_buffer t), ps_bytes_to_drop = d\<rparr> \<Longrightarrow>
     \<exists>p'. process_loop_log (p, ls) = Some (p', ls @ map parsing_error_line (decode_errors ph bs))"
proof (induction ph bs arbitrary: t d p ls rule: decode.induct)
  case (1 ph)
  then have "tr_pos t = cb_get_size (tr_buffer t)"
    using representsD(3) [of t d ph] by (simp add: unread_def)
  then have "process_loop_log (p, ls) = Some (p, ls)"
    using 1 by (subst while_option_unfold) simp
  then show ?case by simp
next
  case (2 ph b bs)
  obtain ph' bk fs where d: "decode_byte ph b = (ph', bk, fs)"
    by (cases "decode_byte ph b") auto
  have pos: "tr_pos t < cb_get_size (tr_buffer t)"
    using arg_cong [OF "2.prems"(2), of length] by (simp add: unread_def)
  define q where "q = process_step p"
  have sim: "simulates p q ph' (bk @ bs) fs"
    unfolding q_def by (rule process_step_simulates [OF "2.prems"(1) pos "2.prems"(3,2) d])
  then have "q = \<lparr>ps_transport = ps_transport q, ps_buf_size = cb_get_size (tr_buffer (ps_transport q)),
      ps_bytes_to_drop = ps_bytes_to_drop q\<rparr>"
    by (simp add: simulates_def)
  then obtain p' where p': "process_loop_log (q, ls @ process_step_log p)
      = Some (p', (ls @ process_step_log p) @ map parsing_error_line (decode_errors ph' (bk @ bs)))"
    using "2.IH" [OF d [symmetric] refl refl, of "ps_transport q" "ps_bytes_to_drop q" q "ls @ process_step_log p"] sim
    by (auto simp: simulates_def)
  have "process_step_log p = map parsing_error_line (decode_byte_errors ph b)"
    by (rule process_step_reports [OF "2.prems"(1) pos _ "2.prems"(2)]) (simp add: "2.prems"(3))
  moreover have "process_loop_log (p, ls) = process_loop_log (q, ls @ process_step_log p)"
    using pos "2.prems"(3) by (subst while_option_unfold) (simp add: q_def)
  ultimately show ?case
    using p' decode_errors_Cons [OF d, of bs] by simp
qed

lemma process_data_reports:
  assumes h: "handler t ph"
  shows "process_data_log now t = Some (map parsing_error_line (decode_errors ph (unread t)))"
proof -
  have never: "frame_timeout_log now t = []"
    by (cases "f_status (tr_current_frame t)") (simp_all add: frame_timeout_log_def less_frame_status_def)
  show ?thesis
  proof (cases "cb_is_empty (tr_buffer t)")
    case True
    then have "cb_list (tr_buffer t) = []"
      using representsD(1) [OF h] cb_empty_iff by blast
    then show ?thesis
      using True never by (simp add: process_data_log_def frame_timeout_never unread_def)
  next
    case False
    obtain p' where "process_loop_log (\<lparr>ps_transport = t, ps_buf_size = cb_get_size (tr_buffer t), ps_bytes_to_drop = 0\<rparr>, [])
        = Some (p', [] @ map parsing_error_line (decode_errors ph (unread t)))"
      using process_loop_reports [OF h refl refl] by blast
    then show ?thesis
      using False never by (simp add: process_data_log_def frame_timeout_never)
  qed
qed

text \<open>Reading logs one line, exactly when an overflow takes the start of a frame away.\<close>

context byte_stream
begin

lemma read_data_reports:
  assumes "sinv s" "handler t ph"
  shows "tr_read_data_log ops t s =
    (if cb_get_space (tr_buffer t) < min (length (arrived ops pending s)) (cb_capacity (tr_buffer t)) \<and> phase_found ph
     then [frame_lost_line] else [])"
  using available_count [OF assms(1)] representsD(7) [OF assms(2)]
  by (auto simp: tr_read_data_log_def Let_def min_def)

end

section \<open>Sessions\<close>

text \<open>The lines of \<open>chunk_session\<close>.\<close>

fun chunk_session_log :: "millis \<Rightarrow> byte list list \<Rightarrow> transport \<times> test_stream \<Rightarrow> log_line list option" where
  "chunk_session_log now [] (t, s) = Some []"
| "chunk_session_log now (c # cs) (t, s) =
     (let s0 = ts_addBuffer c s; (_, t1, s1) = tr_read_data test_stream_ops t s0
      in do {
        lines \<leftarrow> process_data_log now t1;
        t2 \<leftarrow> process_data now t1;
        rest \<leftarrow> chunk_session_log now cs (t2, s1);
        Some (tr_read_data_log test_stream_ops t s0 @ lines @ rest)
      })"

lemma chunk_session_reports:
  assumes "settled t ph" "ts_inv s" "cb_list (ts_buffer s) = []"
    "no_overflow (cb_capacity (tr_buffer t)) ph cs"
  shows "chunk_session_log now cs (t, s) = Some (map parsing_error_line (decode_errors ph (concat cs)))"
  using assms
proof (induction cs arbitrary: t s ph)
  case (Cons c cs)
  have c: "length (held ph) + length c \<le> cb_capacity (tr_buffer t)" "length c \<le> 2000"
    using Cons.prems(4) by simp_all
  obtain t1 s1 t2 where rd: "tr_read_data test_stream_ops t (ts_addBuffer c s) = (length c, t1, s1)" "handler t1 ph" "unread t1 = c"
      "ts_inv s1" "cb_list (ts_buffer s1) = []"
    and pd: "process_data now t1 = Some t2" "settled t2 (fst (decode ph c))"
      "cb_capacity (tr_buffer t2) = cb_capacity (tr_buffer t)"
    using chunk_processed [OF Cons.prems(1-3) c, of now] by auto
  have h: "handler t ph" and len: "cb_get_size (tr_buffer t) = length (held ph)"
    using Cons.prems(1) settled_stored [of t ph] by (auto simp: settled_def simp flip: length_cb_list)
  have "cb_get_space (ts_buffer s) = 2000"
    using Cons.prems(2,3) by (simp add: ts_inv_def cb_get_space_def flip: length_cb_list)
  then have s: "ts_inv (ts_addBuffer c s)" "cb_list (ts_buffer (ts_addBuffer c s)) = c"
    using Cons.prems(3) c(2) ts_addBuffer_correct [OF Cons.prems(2), of c] by simp_all
  have none: "tr_read_data_log test_stream_ops t (ts_addBuffer c s) = []"
    using test.read_data_reports [OF s(1) h] test.available_still [OF s(1)] s(2) c(1) len by (auto simp: cb_get_space_def)
  have "chunk_session_log now cs (t2, s1) = Some (map parsing_error_line (decode_errors (fst (decode ph c)) (concat cs)))"
    using Cons.IH [OF pd(2) rd(4,5)] Cons.prems(4) pd(3) by simp
  then show ?case
    using rd(1) pd(1) process_data_reports [OF rd(2), of now] rd(3) decode_errors_append [of ph c "concat cs"] none by simp
qed simp

text \<open>Claim C15. Every frame start is accounted for. When bytes arrive in chunks that fit, the warnings logged are one
  line per frame that is given up, with the number of its error, in order, and they are those of the
  decoder on the whole stream, so they do not depend on how it was cut; and every place where two separators and another byte were
  seen outside a frame ends as exactly one queued frame, one warning, or the frame still in progress. For
  the layouts of frames nothing is logged at all.\<close>

theorem frame_starts_are_accounted_for:
  assumes "allocates new" "no_overflow (max CIRCULAR_BUFFER_MINIMUM_SIZE n) (Search []) cs"
  shows "\<exists>t s lines. chunk_session now cs (tr_new new n, ts_new new) = Some (t, s)
    \<and> chunk_session_log now cs (tr_new new n, ts_new new) = Some lines
    \<and> lines = map parsing_error_line (decode_errors (Search []) (concat cs))
    \<and> length (tr_incoming_queue t) + length lines + of_bool (tr_frame_start_found t) = frame_starts (Search []) (concat cs)
    \<and> (\<forall>fs. concat cs = concat (map wire fs) \<longrightarrow> (\<forall>f \<in> set fs. frame_ok f) \<longrightarrow> lines = [])"
proof -
  have lines: "chunk_session_log now cs (tr_new new n, ts_new new) = Some (map parsing_error_line (decode_errors (Search []) (concat cs)))"
    using chunk_session_reports [OF tr_new_handler(1) [OF assms(1)] ts_new_inv [OF assms(1)]]
      assms(2) tr_new_handler(3) [OF assms(1)] by simp
  obtain t s where ts: "chunk_session now cs (tr_new new n, ts_new new) = Some (t, s)"
    "settled t (fst (decode (Search []) (concat cs)))"
    "tr_incoming_queue t = map (\<lambda>g. \<lparr>tf_frame = g, tf_timestamp = 0\<rparr>) (snd (decode (Search []) (concat cs)))"
    using fresh_session [OF assms] by blast
  have "tr_frame_start_found t = phase_found (fst (decode (Search []) (concat cs)))"
    using ts(2) representsD(7) by (auto simp: settled_def)
  then show ?thesis
    using lines ts(1,3) one_outcome [of "Search []" "concat cs"] wires_errors by auto
qed

text \<open>A frame with a wrong checksum, a frame cut short by a separator, and a good frame.\<close>

theorem frame_starts_are_accounted_for_witness:
  "\<exists>t s. chunk_session 0 [[0xFF, 0xFF, 8, 0, 0, 0, 0, 0, 0, 9, 0x12, 0xFF], [0xFF, 8, 0xFF, 1, 0, 0, 0, 0, 0, 0, 9],
        [0xFF, 0xFF, 8, 0, 0, 0, 0, 0, 0, 9, 0x11]] (tr_new (\<lambda>n. replicate n 0) 0, ts_new (\<lambda>n. replicate n 0)) = Some (t, s)
    \<and> chunk_session_log 0 [[0xFF, 0xFF, 8, 0, 0, 0, 0, 0, 0, 9, 0x12, 0xFF], [0xFF, 8, 0xFF, 1, 0, 0, 0, 0, 0, 0, 9],
        [0xFF, 0xFF, 8, 0, 0, 0, 0, 0, 0, 9, 0x11]] (tr_new (\<lambda>n. replicate n 0) 0, ts_new (\<lambda>n. replicate n 0))
      = Some [(LEVEL_WARNING, ''Frame parsing error: 7''), (LEVEL_WARNING, ''Frame parsing error: 9'')]
    \<and> length (tr_incoming_queue t) + of_bool (tr_frame_start_found t) = 1"
proof -
  let ?cs = "[[0xFF, 0xFF, 8, 0, 0, 0, 0, 0, 0, 9, 0x12, 0xFF], [0xFF, 8, 0xFF, 1, 0, 0, 0, 0, 0, 0, 9],
        [0xFF, 0xFF, 8, 0, 0, 0, 0, 0, 0, 9, 0x11 :: byte]]"
  have "no_overflow (max CIRCULAR_BUFFER_MINIMUM_SIZE 0) (Search []) ?cs" by code_simp
  moreover have "map parsing_error_line (decode_errors (Search []) (concat ?cs))
      = [(LEVEL_WARNING, ''Frame parsing error: 7''), (LEVEL_WARNING, ''Frame parsing error: 9'')]" by code_simp
  moreover have "frame_starts (Search []) (concat ?cs) = 3" by code_simp
  ultimately show ?thesis
    using frame_starts_are_accounted_for [OF allocates_replicate [of 0], of 0 ?cs 0] by auto
qed

end
