(* ===== verification/Transport_Test.thy ===== *)
theory Transport_Test
  imports Transport_Log
begin

text \<open>
  The test program \<^verbatim>\<open>test/simple_transport_test/test.cpp\<close>: its eight tests on the transport
  handler and the test stream, with the frames it takes out of the queue, the bytes it sends back and
  the warnings that \<^verbatim>\<open>TEST_END\<close> counts. What the handler does with the bytes of each test is
  evaluated on the decoder.
\<close>

section \<open>One test\<close>

text \<open>The bytes are added to the stream, read and processed; a frame is popped and, in all tests but the
  third, sent back. The frame of a default-constructed \<^verbatim>\<open>TimestampedFrame\<close> is the empty one.
  The result holds the popped frame, what \<^verbatim>\<open>send_data\<close> returned and the warnings.\<close>

definition transport_test ::
    "byte allocator \<Rightarrow> millis \<Rightarrow> byte list list \<Rightarrow> bool \<Rightarrow> transport \<times> test_stream
      \<Rightarrow> ((transport \<times> test_stream) \<times> frame option \<times> byte \<times> log_line list) option" where
  "transport_test new now buffers send_back = (\<lambda>(t, s).
     let s0 = fold ts_addBuffer buffers s;
         lines1 = tr_read_data_log test_stream_ops t s0;
         (_, t1, s1) = tr_read_data test_stream_ops t s0
     in do {
       lines2 \<leftarrow> process_data_log now t1;
       t2 \<leftarrow> process_data now t1;
       let (tsframe, t3) = tr_pop t2;
       let frame = (case tsframe of None \<Rightarrow> empty_frame | Some tf \<Rightarrow> tf_frame tf);
       let (sent, s2) = (if send_back
              then tr_send_data test_stream_ops new (f_type frame) (frame_data frame) (unat (f_data_size frame))
                     (f_use_crc frame) s1
              else (0, s1));
       Some ((t3, s2), map_option tf_frame tsframe, sent, lines1 @ lines2)
     })"

definition test2_buffer1 :: "byte list" where
  "test2_buffer1 = [0x0E, 0x40, 0x00, 0x00, 0x00, 0x00, 0x00, 0xFF, 0x55, 0xFF, 0x55, 0xFF, 0x55, 0x05, 0xFF, 0x55, 0xFF, 0x55, 0x08, 0xFF, 0x55, 0xD0, 0x8E, 0xFF]"

definition test2_buffer2 :: "byte list" where
  "test2_buffer2 = [0xFF, 0xFF, 0x2A, 0x40, 0x00, 0x00, 0x00, 0x00, 0x00, 0x02, 0x6D, 0x01, 0x02, 0x06, 0x25, 0x00, 0x02, 0x00, 0x00, 0x00, 0x00, 0x00, 0x27, 0x00, 0x44, 0x00, 0x00, 0x03, 0x00, 0x00, 0x00, 0x00, 0x00, 0x00, 0x00, 0x00, 0x00, 0x00, 0x00, 0x00, 0x00, 0x00, 0x00, 0x00, 0x77, 0xD1, 0x7B]"

definition test3_buffer :: "byte list" where
  "test3_buffer = [0xFF, 0xFF, 0x0E, 0x40, 0x00, 0x00, 0x00, 0x00, 0x00, 0xFF, 0x55, 0xFF, 0x55, 0xFF, 0x54, 0x05, 0xFF, 0x55, 0xFF, 0x55, 0x08, 0xFF, 0x55, 0xD0, 0x8E]"

definition test4_buffer :: "byte list" where
  "test4_buffer = [0xFF, 0xFF, 0x2A, 0x40, 0x00, 0x00, 0x00, 0x00, 0x00, 0x02, 0x6D, 0x01, 0x02, 0x06, 0x25, 0x00, 0x02, 0x00, 0x00, 0x00, 0x00, 0x00, 0x26, 0x00, 0x46, 0x00, 0x00, 0x03, 0x00, 0x00, 0x00, 0x00, 0x00, 0x00, 0x00, 0x00, 0x00, 0x00, 0x00, 0x00, 0x00, 0x00, 0x00, 0x00, 0x78, 0xFF, 0x55, 0xD2]"

definition test5_buffer :: "byte list" where
  "test5_buffer = [0xFF, 0xFF, 0x0E, 0x40, 0x00, 0x00, 0x00, 0x00, 0x00, 0xFF, 0x55, 0xFF, 0x55, 0xFF, 0x55, 0x05, 0xFF, 0x55, 0xFF, 0x55, 0x08, 0xFF, 0x55, 0xD0, 0x8E]"

definition test6_buffer :: "byte list" where
  "test6_buffer = [0xFF, 0xFF, 0x0D, 0x40, 0x00, 0x00, 0x00, 0x00, 0x00, 0x01, 0x4D, 0x01, 0xFF, 0x55, 0xBB, 0xFF, 0x55, 0xFF, 0x55, 0xD1, 0x3C]"

definition test7_buffer :: "byte list" where
  "test7_buffer = [0xFF, 0xFF, 0x2A, 0x40, 0x00, 0x00, 0x00, 0x00, 0x00, 0x02, 0x6D, 0x01, 0x02, 0x06, 0x25, 0x00, 0x02, 0x00, 0x00, 0x00, 0x00, 0x00, 0x26, 0x00, 0x46, 0x00, 0x00, 0x03, 0x00, 0x00, 0x00, 0x00, 0x00, 0x00, 0x00, 0x00, 0x00, 0x00, 0x00, 0x00, 0x00, 0x00, 0x00, 0x00, 0x78, 0xFF, 0x55, 0xD2]"

definition test8_buffer :: "byte list" where
  "test8_buffer = [0x4D, 0x01, 0x02, 0x06, 0xFF, 0x00, 0x56, 0x00, 0xFF, 0x04]"

text \<open>Tests 2 to 7: the buffers added and whether the frame is sent back.\<close>

definition simple_transport_tests :: "(byte list list \<times> bool) list" where
  "simple_transport_tests =
     [([test2_buffer1, test2_buffer2], True), ([test3_buffer], False), ([test4_buffer], True),
      ([test5_buffer], True), ([test6_buffer], True), ([test7_buffer], True)]"

text \<open>The tests one after the other, each with its reading of the clock.\<close>

fun transport_tests ::
    "byte allocator \<Rightarrow> (millis \<times> byte list list \<times> bool) list \<Rightarrow> transport \<times> test_stream
      \<Rightarrow> ((transport \<times> test_stream) \<times> (frame option \<times> byte \<times> log_line list) list) option" where
  "transport_tests new [] st = Some (st, [])"
| "transport_tests new ((now, buffers, send_back) # tests) st =
     do {
       (st1, frame, sent, lines) \<leftarrow> transport_test new now buffers send_back st;
       (st2, outcomes) \<leftarrow> transport_tests new tests st1;
       Some (st2, (frame, sent, lines) # outcomes)
     }"

text \<open>Test 1 looks at the buffer size. Test 8 compares the bytes that \<^verbatim>\<open>send_data\<close> wrote with the length of
  a frame; the difference of the two counters is at the width of \<^verbatim>\<open>size_t\<close> a natural number, as the
  counter only grows.\<close>

definition buffer_size_test :: "transport \<Rightarrow> log_line list" where
  "buffer_size_test t = (let buffer_size = tr_get_buffer_size t
     in if buffer_size < CIRCULAR_BUFFER_MINIMUM_SIZE then [(LEVEL_ERROR, ''ERROR: Buffer is too small!'')] else [])"

definition frame_length_test :: "byte allocator \<Rightarrow> test_stream \<Rightarrow> test_stream \<times> log_line list" where
  "frame_length_test new s =
     (let old_size = ts_bytes_counter s;
          s1 = snd (tr_send_data test_stream_ops new 0x02 test8_buffer (length test8_buffer) True s);
          buf_size = ts_bytes_counter s1 - old_size
      in (s1, if buf_size \<noteq> 2 + FRAME_HEADER_SIZE + length test8_buffer + 1 + 2
              then [(LEVEL_ERROR, ''Buffers don't match!'')] else []))"

section \<open>A test from its bytes\<close>

text \<open>The frame with given data and a CRC.\<close>

definition crc_frame :: "byte \<Rightarrow> byte list \<Rightarrow> frame" where
  "crc_frame ty d = new_frame ty d (of_nat (length d)) True"

text \<open>Between two tests the handler looks for a frame start, and nothing is queued or waits in the stream.\<close>

definition between_tests :: "transport \<times> test_stream \<Rightarrow> bool" where
  "between_tests = (\<lambda>(t, s). settled t (Search []) \<and> tr_incoming_queue t = [] \<and> cb_capacity (tr_buffer t) = 128
     \<and> ts_inv s \<and> cb_list (ts_buffer s) = [])"

lemma add_buffers:
  "ts_inv s \<Longrightarrow> length (cb_list (ts_buffer s)) + length (concat bufs) \<le> 2000 \<Longrightarrow>
     ts_inv (fold ts_addBuffer bufs s)
     \<and> cb_list (ts_buffer (fold ts_addBuffer bufs s)) = cb_list (ts_buffer s) @ concat bufs"
proof (induction bufs arbitrary: s)
  case (Cons b bufs)
  have "length b \<le> cb_get_space (ts_buffer s)"
    using Cons.prems by (simp add: ts_inv_def cb_get_space_def flip: length_cb_list)
  then show ?case
    using Cons.IH [of "ts_addBuffer b s"] Cons.prems ts_addBuffer_correct [OF Cons.prems(1), of b] by simp
qed simp

lemma transport_test_decodes:
  assumes b: "between_tests (t, s)" and len: "length (concat bufs) \<le> 128"
    and dec: "decode (Search []) (concat bufs) = (Search [], fs)" "fs = [] \<or> fs = [f]"
    and snd: "send_back \<Longrightarrow> fs = [f]" and new: "allocates new"
    and f: "f = crc_frame ty d" "length d \<le> MAX_DATA_SIZE" "length (wire f) < 256"
  shows "\<exists>st. transport_test new now bufs send_back (t, s) = Some (st, if fs = [] then None else Some f,
      if send_back then of_nat (length (wire f)) else 0,
      map parsing_error_line (decode_errors (Search []) (concat bufs))) \<and> between_tests st"
proof -
  let ?s = "fold ts_addBuffer bufs s" and ?bs = "concat bufs"
  have h: "handler t (Search [])" "unread t = []" "cb_get_size (tr_buffer t) = 0"
    and b': "tr_incoming_queue t = []" "cb_capacity (tr_buffer t) = 128" "ts_inv s" "cb_list (ts_buffer s) = []"
    using b settled_stored [of t "Search []"] by (auto simp: between_tests_def settled_def simp flip: length_cb_list)
  have s: "ts_inv ?s" "cb_list (ts_buffer ?s) = ?bs"
    using add_buffers [OF b'(3), of bufs] b'(4) len by simp_all
  have count: "min (length ?bs) (cb_capacity (tr_buffer t)) = length ?bs"
    using len b'(2) by simp
  obtain t1 s1 where rd: "tr_read_data test_stream_ops t ?s = (length ?bs, t1, s1)" "handler t1 (Search [])"
    "unread t1 = ?bs" "tr_incoming_queue t1 = []" "cb_capacity (tr_buffer t1) = 128" "ts_inv s1" "cb_list (ts_buffer s1) = []"
    using test.read_data_appends [OF s(1) h(1)] h(3) b' len unfolding s(2) count h(2) by (auto simp: cb_get_space_def)
  have log1: "tr_read_data_log test_stream_ops t ?s = []"
    using test.read_data_reports [OF s(1) h(1)] by simp
  have log2: "process_data_log now t1 = Some (map parsing_error_line (decode_errors (Search []) ?bs))"
    using process_data_reports [OF rd(2)] rd(3) by simp
  obtain t2 where pd: "process_data now t1 = Some t2" "settled t2 (Search [])" "tr_incoming_queue t2 = stamp t1 fs"
    "cb_capacity (tr_buffer t2) = 128"
    using process_data_decodes [OF rd(2), of now] rd(3-5) dec(1) by auto
  have pop: "tr_pop t2 = (if fs = [] then None else Some \<lparr>tf_frame = f, tf_timestamp = tr_frame_start t1\<rparr>,
      t2\<lparr>tr_incoming_queue := []\<rparr>)"
    using pd(3) dec(2) by (auto simp: tr_pop_eq stamp_def)
  have sel: "f_type f = ty" "frame_data f = d" "unat (f_data_size f) = length d" "f_use_crc f = True"
    using f(2) by (simp_all add: f(1) crc_frame_def unat_of_nat)
  have send: "tr_send_data test_stream_ops new ty d (length d) True s1 = (of_nat (length (wire f)), ts_write_array (wire f) s1)"
    using send_data_eq [OF new f(2) refl, of ty True test_stream_ops s1] f(1,3) by (simp add: crc_frame_def test_stream_ops_def)
  let ?st = "(t2\<lparr>tr_incoming_queue := []\<rparr>, if send_back then ts_write_array (wire f) s1 else s1)"
  have "transport_test new now bufs send_back (t, s) = Some (?st, if fs = [] then None else Some f,
      if send_back then of_nat (length (wire f)) else 0,
      map parsing_error_line (decode_errors (Search []) ?bs))"
    using snd by (auto simp: transport_test_def Let_def rd(1) log1 log2 pd(1) pop sel send)
  moreover have "between_tests ?st"
    using pd(2,4) rd(6,7) by (simp add: between_tests_def ts_write_array_def ts_inv_def settled_def)
  ultimately show ?thesis by blast
qed

section \<open>The tests\<close>

definition status_payload :: "byte \<Rightarrow> byte \<Rightarrow> byte list" where
  "status_payload a b = [0x6D, 0x01, 0x02, 0x06, 0x25, 0x00, 0x02, 0, 0, 0, 0, 0, a, 0, b, 0, 0, 0x03] @ replicate 16 0"

definition test2_frame :: frame where
  "test2_frame = crc_frame 0x02 (status_payload 0x27 0x44)"

definition test4_frame :: frame where
  "test4_frame = crc_frame 0x02 (status_payload 0x26 0x46)"

definition test5_frame :: frame where
  "test5_frame = crc_frame 0xFF [0xFF, 0xFF, 0x05, 0xFF, 0xFF, 0x08]"

definition test6_frame :: frame where
  "test6_frame = crc_frame 0x01 [0x4D, 0x01, 0xFF, 0xBB, 0xFF]"

lemma test_wires:
  "wire test2_frame = test2_buffer2" "wire test4_frame = test4_buffer" "wire test5_frame = test5_buffer"
  "wire test6_frame = test6_buffer" "test7_buffer = test4_buffer"
  by code_simp+

lemma test_lengths:
  "length (status_payload a b) = 34" "length test2_buffer2 = 47" "length test4_buffer = 48" "length test5_buffer = 25"
  "length test6_buffer = 21" "length (test2_buffer1 @ test2_buffer2) = 71" "length test3_buffer = 25"
  by (simp_all add: status_payload_def test2_buffer1_def test2_buffer2_def test3_buffer_def test4_buffer_def test5_buffer_def test6_buffer_def)

lemma test2_decoded:
  "decode (Search []) (test2_buffer1 @ test2_buffer2) = (Search [], [test2_frame])"
  "decode_errors (Search []) (test2_buffer1 @ test2_buffer2) = []"
  by code_simp+

lemma test3_decoded:
  "decode (Search []) test3_buffer = (Search [], [])"
  "decode_errors (Search []) test3_buffer = [WRONG_POST_SEPARATOR_BYTE]"
  by code_simp+

text \<open>Tests 4 to 7 get the wire form of one frame and send it back as it came.\<close>

lemma echo_test:
  assumes "between_tests (t, s)" "allocates new" "wire f = buf"
    and f: "f = crc_frame ty d" "length d \<le> MAX_DATA_SIZE" "length (wire f) \<le> 128"
  shows "\<exists>st. transport_test new now [buf] True (t, s) = Some (st, Some f, of_nat (length buf), []) \<and> between_tests st"
proof -
  have ok: "frame_ok f"
    unfolding f(1) crc_frame_def by (rule new_frame_ok) (use f(2) in \<open>simp_all add: unat_of_nat\<close>)
  have "decode (Search []) (concat [buf]) = (Search [], [f])" "decode_errors (Search []) (concat [buf]) = []"
    using decode_wires [of "[f]"] wires_errors [of "[f]"] ok assms(3) by simp_all
  then show ?thesis
    using transport_test_decodes [OF assms(1), of "[buf]" "[f]" f True new ty d now] assms(2,3) f by auto
qed

lemma test_outcomes:
  assumes "between_tests st" "allocates new"
  shows "\<exists>st'. transport_test new now [test2_buffer1, test2_buffer2] True st = Some (st', Some test2_frame, 47, []) \<and> between_tests st'"
    "\<exists>st'. transport_test new now [test3_buffer] False st
      = Some (st', None, 0, [parsing_error_line WRONG_POST_SEPARATOR_BYTE]) \<and> between_tests st'"
    "\<exists>st'. transport_test new now [test4_buffer] True st = Some (st', Some test4_frame, 48, []) \<and> between_tests st'"
    "\<exists>st'. transport_test new now [test5_buffer] True st = Some (st', Some test5_frame, 25, []) \<and> between_tests st'"
    "\<exists>st'. transport_test new now [test6_buffer] True st = Some (st', Some test6_frame, 21, []) \<and> between_tests st'"
    "\<exists>st'. transport_test new now [test7_buffer] True st = Some (st', Some test4_frame, 48, []) \<and> between_tests st'"
proof -
  obtain t s where st: "st = (t, s)" by (cases st)
  note b = assms(1) [unfolded st]
  have small: "length (status_payload a b) \<le> MAX_DATA_SIZE" for a b
    by (simp add: test_lengths MAX_DATA_SIZE_def)
  have "length (concat [test2_buffer1, test2_buffer2]) \<le> 128" "length (wire test2_frame) < 256" "length (wire test2_frame) = 47"
    using test_lengths(2,6) by (simp_all add: test_wires)
  then show "\<exists>st'. transport_test new now [test2_buffer1, test2_buffer2] True st = Some (st', Some test2_frame, 47, []) \<and> between_tests st'"
    using transport_test_decodes [OF b, of "[test2_buffer1, test2_buffer2]" "[test2_frame]" test2_frame True, OF _ _ _ _ assms(2) test2_frame_def small]
      test2_decoded unfolding st by simp
  have "length (concat [test3_buffer]) \<le> 128" "length (wire test6_frame) < 256" "length [0x4D, 0x01, 0xFF, 0xBB, 0xFF :: byte] \<le> MAX_DATA_SIZE"
    using test_lengths(5,7) by (simp_all add: test_wires MAX_DATA_SIZE_def)
  then show "\<exists>st'. transport_test new now [test3_buffer] False st
      = Some (st', None, 0, [parsing_error_line WRONG_POST_SEPARATOR_BYTE]) \<and> between_tests st'"
    using transport_test_decodes [OF b, of "[test3_buffer]" "[]" test6_frame False, OF _ _ _ _ assms(2) test6_frame_def]
      test3_decoded unfolding st by simp
  show t4: "\<exists>st'. transport_test new now [test4_buffer] True st = Some (st', Some test4_frame, 48, []) \<and> between_tests st'"
    using echo_test [OF b assms(2) test_wires(2) test4_frame_def small, of now] test_lengths(3) unfolding st test_wires by simp
  show "\<exists>st'. transport_test new now [test7_buffer] True st = Some (st', Some test4_frame, 48, []) \<and> between_tests st'"
    using t4 unfolding test_wires .
  show "\<exists>st'. transport_test new now [test5_buffer] True st = Some (st', Some test5_frame, 25, []) \<and> between_tests st'"
    using echo_test [OF b assms(2) test_wires(3) test5_frame_def, of now] test_lengths(4) unfolding st test_wires
    by (simp add: MAX_DATA_SIZE_def)
  show "\<exists>st'. transport_test new now [test6_buffer] True st = Some (st', Some test6_frame, 21, []) \<and> between_tests st'"
    using echo_test [OF b assms(2) test_wires(4) test6_frame_def, of now] test_lengths(5) unfolding st test_wires
    by (simp add: MAX_DATA_SIZE_def)
qed

lemma test8_frame:
  "length (wire (crc_frame 0x02 test8_buffer)) = 2 + FRAME_HEADER_SIZE + length test8_buffer + 1 + 2"
  by code_simp

text \<open>Claim C23. What the transport test program checks, with a fresh handler and stream, whatever the clock shows. Test 1 finds the buffer
  large enough. In test 2 the bytes before the frame are skipped without a warning. In test 3, where a separator is followed by
  \<open>0x54\<close>, no frame comes out and exactly one warning is logged, with the number of
  \<open>WRONG_POST_SEPARATOR_BYTE\<close>, as \<^verbatim>\<open>TEST_END(1, 0)\<close> expects; no other test logs a
  warning. In the others one frame is popped and sent back with the bytes that came: the stuffed separators in header, data, checksum and
  CRC are removed and put in again. In test 8 the stream gets the layout of the frame, whose length is
  the one the test computes: no error is logged.\<close>

theorem transport_tests_pass:
  assumes "allocates new" "length nows = 6"
  shows "\<exists>t s. transport_tests new (zip nows simple_transport_tests) (tr_new new 0, ts_new new) = Some ((t, s),
      [(Some test2_frame, of_nat (length test2_buffer2), []),
       (None, 0, [parsing_error_line WRONG_POST_SEPARATOR_BYTE]),
       (Some test4_frame, of_nat (length test4_buffer), []), (Some test5_frame, of_nat (length test5_buffer), []),
       (Some test6_frame, of_nat (length test6_buffer), []), (Some test4_frame, of_nat (length test7_buffer), [])])
    \<and> wire test2_frame = test2_buffer2 \<and> wire test4_frame = test4_buffer \<and> wire test5_frame = test5_buffer
    \<and> wire test6_frame = test6_buffer \<and> wire test4_frame = test7_buffer
    \<and> buffer_size_test (tr_new new 0) = []
    \<and> frame_length_test new s = (ts_write_array (wire (crc_frame 0x02 test8_buffer)) s, [])"
proof -
  obtain n2 n3 n4 n5 n6 n7 where n: "nows = [n2, n3, n4, n5, n6, n7]"
    using assms(2) by (auto simp: numeral_eq_Suc length_Suc_conv)
  note new = tr_new_handler [OF assms(1), of 0]
  have "between_tests (tr_new new 0, ts_new new)"
    using new ts_new_inv [OF assms(1)] by (simp add: between_tests_def CIRCULAR_BUFFER_MINIMUM_SIZE_def)
  note o = test_outcomes [OF _ assms(1)]
  obtain s2 where s2: "transport_test new n2 [test2_buffer1, test2_buffer2] True (tr_new new 0, ts_new new) = Some (s2, Some test2_frame, 47, [])"
    "between_tests s2" using o(1) [OF \<open>between_tests (tr_new new 0, ts_new new)\<close>] by blast
  obtain s3 where s3: "transport_test new n3 [test3_buffer] False s2 = Some (s3, None, 0, [parsing_error_line WRONG_POST_SEPARATOR_BYTE])"
    "between_tests s3" using o(2) [OF s2(2)] by blast
  obtain s4 where s4: "transport_test new n4 [test4_buffer] True s3 = Some (s4, Some test4_frame, 48, [])" "between_tests s4"
    using o(3) [OF s3(2)] by blast
  obtain s5 where s5: "transport_test new n5 [test5_buffer] True s4 = Some (s5, Some test5_frame, 25, [])" "between_tests s5"
    using o(4) [OF s4(2)] by blast
  obtain s6 where s6: "transport_test new n6 [test6_buffer] True s5 = Some (s6, Some test6_frame, 21, [])" "between_tests s6"
    using o(5) [OF s5(2)] by blast
  obtain t s where s7: "transport_test new n7 [test7_buffer] True s6 = Some ((t, s), Some test4_frame, 48, [])"
    using o(6) [OF s6(2), of n7] by auto
  have "transport_tests new (zip nows simple_transport_tests) (tr_new new 0, ts_new new) = Some ((t, s),
      [(Some test2_frame, 47, []), (None, 0, [parsing_error_line WRONG_POST_SEPARATOR_BYTE]), (Some test4_frame, 48, []),
       (Some test5_frame, 25, []), (Some test6_frame, 21, []), (Some test4_frame, 48, [])])"
    by (simp add: n simple_transport_tests_def s2(1) s3(1) s4(1) s5(1) s6(1) s7)
  moreover have "length test8_buffer = 10" by (simp add: test8_buffer_def)
  moreover have "length (wire (new_frame 0x02 test8_buffer (of_nat (length test8_buffer)) True)) = 25"
    using test8_frame calculation(2) by (simp add: crc_frame_def)
  moreover have "snd (tr_send_data test_stream_ops new 0x02 test8_buffer (length test8_buffer) True s)
      = ts_write_array (wire (new_frame 0x02 test8_buffer (of_nat (length test8_buffer)) True)) s"
    using send_data_eq [OF assms(1) _ refl, of test8_buffer 2 True test_stream_ops s] calculation(2,3)
    by (simp add: test_stream_ops_def MAX_DATA_SIZE_def)
  ultimately show ?thesis
    using new(3) test_wires test_lengths by (intro exI [of _ t] exI [of _ s])
      (simp add: ts_write_array_def tr_get_buffer_size_def buffer_size_test_def frame_length_test_def crc_frame_def)
qed

theorem transport_tests_pass_witness:
  "\<exists>st frames. transport_tests (\<lambda>n. replicate n 0) (zip [0, 1, 2, 3, 4, 5] simple_transport_tests)
      (tr_new (\<lambda>n. replicate n 0) 0, ts_new (\<lambda>n. replicate n 0)) = Some (st, frames) \<and> length frames = 6
    \<and> concat (map (snd \<circ> snd) frames) = [(LEVEL_WARNING, ''Frame parsing error: 9'')]"
proof -
  have "parsing_error_line WRONG_POST_SEPARATOR_BYTE = (LEVEL_WARNING, ''Frame parsing error: 9'')" by code_simp
  then show ?thesis
    using transport_tests_pass [OF allocates_replicate [of 0], of "[0, 1, 2, 3, 4, 5]"] by auto
qed

end
