(* ===== verification/Frame_Types.thy ===== *)
theory Frame_Types
  imports HP_Prelude
begin

text \<open>
  The frame types of \<^verbatim>\<open>include/protocol/haier_frame_types.h\<close>. The enumeration has
  the underlying type \<^verbatim>\<open>uint8_t\<close> and the code converts every received byte to it,
  so a frame type is a byte and an enumerator is a name for one. The comments of the enumeration
  say which side sends a frame.
\<close>

abbreviation (input) UNKNOWN_FRAME_TYPE :: byte where "UNKNOWN_FRAME_TYPE \<equiv> 0x00"
abbreviation (input) CONTROL :: byte where "CONTROL \<equiv> 0x01"
abbreviation (input) STATUS :: byte where "STATUS \<equiv> 0x02"
abbreviation (input) INVALID :: byte where "INVALID \<equiv> 0x03"
abbreviation (input) ALARM_STATUS :: byte where "ALARM_STATUS \<equiv> 0x04"
abbreviation (input) CONFIRM :: byte where "CONFIRM \<equiv> 0x05"
abbreviation (input) REPORT :: byte where "REPORT \<equiv> 0x06"
abbreviation (input) STOP_FAULT_ALARM :: byte where "STOP_FAULT_ALARM \<equiv> 0x09"
abbreviation (input) SYSTEM_DOWNLINK :: byte where "SYSTEM_DOWNLINK \<equiv> 0x11"
abbreviation (input) DEVICE_UPLINK :: byte where "DEVICE_UPLINK \<equiv> 0x12"
abbreviation (input) SYSTEM_QUERY :: byte where "SYSTEM_QUERY \<equiv> 0x13"
abbreviation (input) SYSTEM_QUERY_RESPONSE :: byte where "SYSTEM_QUERY_RESPONSE \<equiv> 0x14"
abbreviation (input) DEVICE_QUERY :: byte where "DEVICE_QUERY \<equiv> 0x15"
abbreviation (input) DEVICE_QUERY_RESPONSE :: byte where "DEVICE_QUERY_RESPONSE \<equiv> 0x16"
abbreviation (input) GROUP_COMMAND :: byte where "GROUP_COMMAND \<equiv> 0x60"
abbreviation (input) GET_DEVICE_VERSION :: byte where "GET_DEVICE_VERSION \<equiv> 0x61"
abbreviation (input) GET_DEVICE_VERSION_RESPONSE :: byte where "GET_DEVICE_VERSION_RESPONSE \<equiv> 0x62"
abbreviation (input) GET_ALL_ADDRESSES :: byte where "GET_ALL_ADDRESSES \<equiv> 0x67"
abbreviation (input) GET_ALL_ADDRESSES_RESPONSE :: byte where "GET_ALL_ADDRESSES_RESPONSE \<equiv> 0x68"
abbreviation (input) HANDSET_CHANGE_NOTIFICATION :: byte where "HANDSET_CHANGE_NOTIFICATION \<equiv> 0x69"
abbreviation (input) GET_DEVICE_ID :: byte where "GET_DEVICE_ID \<equiv> 0x70"
abbreviation (input) GET_DEVICE_ID_RESPONSE :: byte where "GET_DEVICE_ID_RESPONSE \<equiv> 0x71"
abbreviation (input) GET_ALARM_STATUS :: byte where "GET_ALARM_STATUS \<equiv> 0x73"
abbreviation (input) GET_ALARM_STATUS_RESPONSE :: byte where "GET_ALARM_STATUS_RESPONSE \<equiv> 0x74"
abbreviation (input) GET_DEVICE_CONFIGURATION :: byte where "GET_DEVICE_CONFIGURATION \<equiv> 0x7C"
abbreviation (input) GET_DEVICE_CONFIGURATION_RESPONSE :: byte where "GET_DEVICE_CONFIGURATION_RESPONSE \<equiv> 0x7D"
abbreviation (input) DOWNLINK_TRANSPARENT_TRANSMISSION :: byte where "DOWNLINK_TRANSPARENT_TRANSMISSION \<equiv> 0x8C"
abbreviation (input) UPLINK_TRANSPARENT_TRANSMISSION :: byte where "UPLINK_TRANSPARENT_TRANSMISSION \<equiv> 0x8D"
abbreviation (input) START_DEVICE_UPGRADE :: byte where "START_DEVICE_UPGRADE \<equiv> 0xE1"
abbreviation (input) START_DEVICE_UPGRADE_RESPONSE :: byte where "START_DEVICE_UPGRADE_RESPONSE \<equiv> 0xE2"
abbreviation (input) GET_FIRMWARE_CONTENT :: byte where "GET_FIRMWARE_CONTENT \<equiv> 0xE5"
abbreviation (input) GET_FIRMWARE_CONTENT_RESPONSE :: byte where "GET_FIRMWARE_CONTENT_RESPONSE \<equiv> 0xE6"
abbreviation (input) CHANGE_BAUD_RATE :: byte where "CHANGE_BAUD_RATE \<equiv> 0xE7"
abbreviation (input) CHANGE_BAUD_RATE_RESPONSE :: byte where "CHANGE_BAUD_RATE_RESPONSE \<equiv> 0xE8"
abbreviation (input) GET_SUBBOARD_INFO :: byte where "GET_SUBBOARD_INFO \<equiv> 0xE9"
abbreviation (input) GET_SUBBOARD_INFO_RESPONSE :: byte where "GET_SUBBOARD_INFO_RESPONSE \<equiv> 0xEA"
abbreviation (input) GET_HARDWARE_INFO :: byte where "GET_HARDWARE_INFO \<equiv> 0xEB"
abbreviation (input) GET_HARDWARE_INFO_RESPONSE :: byte where "GET_HARDWARE_INFO_RESPONSE \<equiv> 0xEC"
abbreviation (input) GET_UPGRADE_RESULT :: byte where "GET_UPGRADE_RESULT \<equiv> 0xED"
abbreviation (input) GET_UPGRADE_RESULT_RESPONSE :: byte where "GET_UPGRADE_RESULT_RESPONSE \<equiv> 0xEF"
abbreviation (input) GET_NETWORK_STATUS :: byte where "GET_NETWORK_STATUS \<equiv> 0xF0"
abbreviation (input) GET_NETWORK_STATUS_RESPONSE :: byte where "GET_NETWORK_STATUS_RESPONSE \<equiv> 0xF1"
abbreviation (input) START_WIFI_CONFIGURATION :: byte where "START_WIFI_CONFIGURATION \<equiv> 0xF2"
abbreviation (input) START_WIFI_CONFIGURATION_RESPONSE :: byte where "START_WIFI_CONFIGURATION_RESPONSE \<equiv> 0xF3"
abbreviation (input) STOP_WIFI_CONFIGURATION :: byte where "STOP_WIFI_CONFIGURATION \<equiv> 0xF4"
abbreviation (input) STOP_WIFI_CONFIGURATION_RESPONSE :: byte where "STOP_WIFI_CONFIGURATION_RESPONSE \<equiv> 0xF5"
abbreviation (input) REPORT_NETWORK_STATUS :: byte where "REPORT_NETWORK_STATUS \<equiv> 0xF7"
abbreviation (input) CLEAR_CONFIGURATION :: byte where "CLEAR_CONFIGURATION \<equiv> 0xF8"
abbreviation (input) BIG_DATA_REPORT_CONFIGURATION :: byte where "BIG_DATA_REPORT_CONFIGURATION \<equiv> 0xFA"
abbreviation (input) BIG_DATA_REPORT_CONFIGURATION_RESPONSE :: byte where "BIG_DATA_REPORT_CONFIGURATION_RESPONSE \<equiv> 0xFB"
abbreviation (input) GET_MANAGEMENT_INFORMATION :: byte where "GET_MANAGEMENT_INFORMATION \<equiv> 0xFC"
abbreviation (input) GET_MANAGEMENT_INFORMATION_RESPONSE :: byte where "GET_MANAGEMENT_INFORMATION_RESPONSE \<equiv> 0xFD"
abbreviation (input) WAKE_UP :: byte where "WAKE_UP \<equiv> 0xFE"

section \<open>The enumeration as a whole\<close>

definition frame_types :: "byte list" where
  "frame_types =
     [UNKNOWN_FRAME_TYPE, CONTROL, STATUS, INVALID, ALARM_STATUS, CONFIRM, REPORT,
      STOP_FAULT_ALARM, SYSTEM_DOWNLINK, DEVICE_UPLINK, SYSTEM_QUERY, SYSTEM_QUERY_RESPONSE,
      DEVICE_QUERY, DEVICE_QUERY_RESPONSE, GROUP_COMMAND, GET_DEVICE_VERSION,
      GET_DEVICE_VERSION_RESPONSE, GET_ALL_ADDRESSES, GET_ALL_ADDRESSES_RESPONSE,
      HANDSET_CHANGE_NOTIFICATION, GET_DEVICE_ID, GET_DEVICE_ID_RESPONSE, GET_ALARM_STATUS,
      GET_ALARM_STATUS_RESPONSE, GET_DEVICE_CONFIGURATION,
      GET_DEVICE_CONFIGURATION_RESPONSE, DOWNLINK_TRANSPARENT_TRANSMISSION,
      UPLINK_TRANSPARENT_TRANSMISSION, START_DEVICE_UPGRADE, START_DEVICE_UPGRADE_RESPONSE,
      GET_FIRMWARE_CONTENT, GET_FIRMWARE_CONTENT_RESPONSE, CHANGE_BAUD_RATE,
      CHANGE_BAUD_RATE_RESPONSE, GET_SUBBOARD_INFO, GET_SUBBOARD_INFO_RESPONSE,
      GET_HARDWARE_INFO, GET_HARDWARE_INFO_RESPONSE, GET_UPGRADE_RESULT,
      GET_UPGRADE_RESULT_RESPONSE, GET_NETWORK_STATUS, GET_NETWORK_STATUS_RESPONSE,
      START_WIFI_CONFIGURATION, START_WIFI_CONFIGURATION_RESPONSE, STOP_WIFI_CONFIGURATION,
      STOP_WIFI_CONFIGURATION_RESPONSE, REPORT_NETWORK_STATUS, CLEAR_CONFIGURATION,
      BIG_DATA_REPORT_CONFIGURATION, BIG_DATA_REPORT_CONFIGURATION_RESPONSE,
      GET_MANAGEMENT_INFORMATION, GET_MANAGEMENT_INFORMATION_RESPONSE, WAKE_UP]"

text \<open>Two enumerators never share a code, and none has the code of the separator byte, so the
  frame type of a named frame is not stuffed.\<close>

lemma frame_types_distinct: "distinct frame_types"
  by code_simp

lemma frame_types_not_separator: "0xFF \<notin> set frame_types"
  by code_simp

text \<open>A request and its response have consecutive codes, with one exception: the code between
  \<open>GET_UPGRADE_RESULT\<close> and its response is not used.\<close>

lemma response_code:
  "GET_DEVICE_VERSION_RESPONSE = GET_DEVICE_VERSION + 1" "GET_DEVICE_ID_RESPONSE = GET_DEVICE_ID + 1"
  "GET_ALARM_STATUS_RESPONSE = GET_ALARM_STATUS + 1" "GET_NETWORK_STATUS_RESPONSE = GET_NETWORK_STATUS + 1"
  "GET_MANAGEMENT_INFORMATION_RESPONSE = GET_MANAGEMENT_INFORMATION + 1"
  "GET_UPGRADE_RESULT_RESPONSE = GET_UPGRADE_RESULT + 2" "GET_UPGRADE_RESULT + 1 \<notin> set frame_types"
  by code_simp+

end
