(* ===== verification/Haier_Message.thy ===== *)
theory Haier_Message
  imports Haier_Frame Frame_Types
begin

text \<open>
  The message of \<^verbatim>\<open>include/protocol/haier_message.h\<close> and
  \<^verbatim>\<open>src/protocol/haier_message.cpp\<close>: a frame type, an optional subcommand and a
  data block. The data pointer is \<open>None\<close> when null. Reading through a null pointer, which
  copying or serialising a moved-from message does, is the value \<open>None\<close> of the operation.
\<close>

section \<open>Data\<close>

abbreviation NO_SUBCOMMAND :: u16 where "NO_SUBCOMMAND \<equiv> 0x0000"

record haier_message =
  m_frame_type :: byte
  m_subcommand :: u16
  m_data_size :: nat
  m_data :: "byte list option"

section \<open>Construction, copying and moving\<close>

text \<open>\<open>data\<close> is what the data pointer refers to, \<open>None\<close> when it is null.\<close>

definition msg_new :: "byte \<Rightarrow> u16 \<Rightarrow> byte list option \<Rightarrow> nat \<Rightarrow> haier_message" where
  "msg_new ty sub data n =
     (case data of
        Some d \<Rightarrow> if n \<noteq> 0
          then \<lparr>m_frame_type = ty, m_subcommand = sub, m_data_size = n, m_data = Some (take n d)\<rparr>
          else \<lparr>m_frame_type = ty, m_subcommand = sub, m_data_size = 0, m_data = None\<rparr>
      | None \<Rightarrow> \<lparr>m_frame_type = ty, m_subcommand = sub, m_data_size = 0, m_data = None\<rparr>)"

definition msg_default :: haier_message where
  "msg_default = msg_new UNKNOWN_FRAME_TYPE NO_SUBCOMMAND None 0"

definition msg_of_type :: "byte \<Rightarrow> haier_message" where
  "msg_of_type ty = msg_new ty NO_SUBCOMMAND None 0"

definition msg_of_subcommand :: "byte \<Rightarrow> u16 \<Rightarrow> haier_message" where
  "msg_of_subcommand ty sub = msg_new ty sub None 0"

definition msg_of_data :: "byte \<Rightarrow> byte list option \<Rightarrow> nat \<Rightarrow> haier_message" where
  "msg_of_data ty data n = msg_new ty NO_SUBCOMMAND data n"

text \<open>The copy constructor always allocates, also for an empty message; copying from null is
  allowed for zero bytes only.\<close>

definition msg_copy :: "haier_message \<Rightarrow> haier_message option" where
  "msg_copy source =
     (case m_data source of
        Some d \<Rightarrow> Some \<lparr>m_frame_type = m_frame_type source, m_subcommand = m_subcommand source,
                     m_data_size = m_data_size source, m_data = Some (take (m_data_size source) d)\<rparr>
      | None \<Rightarrow> if m_data_size source = 0
               then Some \<lparr>m_frame_type = m_frame_type source, m_subcommand = m_subcommand source,
                          m_data_size = 0, m_data = Some []\<rparr>
               else None)"

text \<open>Move construction: the new message and the source.\<close>

definition msg_move :: "haier_message \<Rightarrow> haier_message \<times> haier_message" where
  "msg_move source = (source, source\<lparr>m_data := None\<rparr>)"

text \<open>Assignment to a distinct object. The block the target owned is not released: the last
  component is the block that is no longer reachable.\<close>

definition msg_assign ::
    "haier_message \<Rightarrow> haier_message \<Rightarrow> (haier_message \<times> byte list option) option" where
  "msg_assign this source = map_option (\<lambda>m. (m, m_data this)) (msg_copy source)"

definition msg_move_assign ::
    "haier_message \<Rightarrow> haier_message \<Rightarrow> haier_message \<times> haier_message \<times> byte list option" where
  "msg_move_assign this source = (source, source\<lparr>m_data := None\<rparr>, m_data this)"

section \<open>Serialisation\<close>

definition msg_get_buffer_size :: "haier_message \<Rightarrow> nat" where
  "msg_get_buffer_size m = m_data_size m + (if m_subcommand m = NO_SUBCOMMAND then 0 else 2)"

definition msg_fill_buffer :: "haier_message \<Rightarrow> byte list \<Rightarrow> nat \<Rightarrow> (nat \<times> byte list) option" where
  "msg_fill_buffer m buffer limit =
     (if msg_get_buffer_size m > limit then Some (0, buffer)
      else let (pos, b) =
             (if m_subcommand m \<noteq> NO_SUBCOMMAND
              then (2, (buffer[0 := ucast (drop_bit 8 (m_subcommand m))])[1 := ucast (m_subcommand m AND 0xFF)])
              else (0, buffer))
           in if m_data_size m > 0
              then case m_data m of
                     None \<Rightarrow> None
                   | Some d \<Rightarrow> Some (pos + m_data_size m, seg_put b pos (take (m_data_size m) d))
              else Some (pos + m_data_size m, b))"

section \<open>Layout\<close>

text \<open>A usable message: the data block has the recorded size.\<close>

definition msg_ok :: "haier_message \<Rightarrow> bool" where
  "msg_ok m \<longleftrightarrow> (case m_data m of None \<Rightarrow> m_data_size m = 0 | Some d \<Rightarrow> length d = m_data_size m)"

definition msg_data :: "haier_message \<Rightarrow> byte list" where
  "msg_data m = (case m_data m of None \<Rightarrow> [] | Some d \<Rightarrow> d)"

text \<open>The payload of the frame that carries the message: the subcommand, most significant
  byte first, unless it is zero, and the data.\<close>

definition msg_payload :: "haier_message \<Rightarrow> byte list" where
  "msg_payload m = (if m_subcommand m = NO_SUBCOMMAND then []
     else [ucast (drop_bit 8 (m_subcommand m)), ucast (m_subcommand m AND 0xFF)]) @ msg_data m"

lemma msg_new_ok: "(case data of None \<Rightarrow> True | Some d \<Rightarrow> n \<le> length d) \<Longrightarrow> msg_ok (msg_new ty sub data n)"
  by (auto simp: msg_new_def msg_ok_def split: option.splits)

lemma msg_new_data [simp]:
  "m_frame_type (msg_new ty sub data n) = ty" "m_subcommand (msg_new ty sub data n) = sub"
  "msg_data (msg_new ty sub (Some d) n) = take n d" "msg_data (msg_new ty sub None n) = []"
  by (auto simp: msg_new_def msg_data_def split: option.splits)

lemma length_msg_data: "msg_ok m \<Longrightarrow> length (msg_data m) = m_data_size m"
  by (auto simp: msg_ok_def msg_data_def split: option.splits)

lemma length_msg_payload: "msg_ok m \<Longrightarrow> length (msg_payload m) = msg_get_buffer_size m"
  by (simp add: msg_payload_def msg_get_buffer_size_def length_msg_data)

lemma msg_copy_correct:
  assumes "msg_ok m"
  shows "\<exists>c. msg_copy m = Some c \<and> msg_ok c \<and> msg_payload c = msg_payload m
    \<and> m_frame_type c = m_frame_type m \<and> m_subcommand c = m_subcommand m
    \<and> msg_data c = msg_data m \<and> m_data_size c = m_data_size m"
proof (cases "m_data m")
  case None
  then have "msg_copy m = Some (m\<lparr>m_data := Some []\<rparr>)"
    using assms by (simp add: msg_copy_def msg_ok_def)
  then show ?thesis
    using assms None by (simp add: msg_ok_def msg_payload_def msg_data_def)
next
  case (Some d)
  then have "msg_copy m = Some m"
    using assms by (simp add: msg_copy_def msg_ok_def)
  then show ?thesis
    using assms by simp
qed

lemma msg_fill_buffer_correct:
  assumes ok: "msg_ok m" and fits: "msg_get_buffer_size m \<le> limit" "limit \<le> length buffer"
  shows "msg_fill_buffer m buffer limit
    = Some (msg_get_buffer_size m, msg_payload m @ drop (msg_get_buffer_size m) buffer)"
proof -
  let ?sub = "m_subcommand m"
  define h :: "byte list" where
    "h = (if ?sub = NO_SUBCOMMAND then [] else [ucast (drop_bit 8 ?sub), ucast (?sub AND 0xFF)])"
  have hb: "length h + m_data_size m = msg_get_buffer_size m"
    by (simp add: h_def msg_get_buffer_size_def)
  have start: "(if ?sub \<noteq> NO_SUBCOMMAND
      then (2, (buffer[0 := ucast (drop_bit 8 ?sub)])[1 := ucast (?sub AND 0xFF)]) else (0, buffer))
      = (length h, seg_put buffer 0 h)"
  proof (cases "?sub = NO_SUBCOMMAND")
    case True
    then show ?thesis by (simp add: h_def seg_put_def)
  next
    case False
    then have "2 \<le> length buffer"
      using fits hb by (simp add: h_def)
    then obtain x y zs where "buffer = x # y # zs"
      by (cases buffer; cases "tl buffer") auto
    then show ?thesis
      using False by (simp add: h_def seg_put_def)
  qed
  have "msg_fill_buffer m buffer limit
      = Some (msg_get_buffer_size m, seg_put (seg_put buffer 0 h) (length h) (msg_data m))"
  proof (cases "m_data_size m = 0")
    case True
    then have "msg_data m = []" using length_msg_data [OF ok] by simp
    then show ?thesis
      using True fits hb unfolding msg_fill_buffer_def start by simp
  next
    case False
    then obtain d where "m_data m = Some d" "length d = m_data_size m"
      using ok by (auto simp: msg_ok_def split: option.splits)
    then show ?thesis
      using False fits hb unfolding msg_fill_buffer_def start by (simp add: msg_data_def)
  qed
  also have "seg_put (seg_put buffer 0 h) (length h) (msg_data m)
      = msg_payload m @ drop (msg_get_buffer_size m) buffer"
    using hb fits length_msg_data [OF ok] by (simp add: seg_put_def msg_payload_def h_def)
  finally show ?thesis .
qed

section \<open>Properties\<close>

text \<open>Serialisation of a message: with a large enough limit \<open>fill_buffer\<close> writes the
  subcommand (big endian, only when it is not zero) and the data, returns exactly
  \<open>get_buffer_size\<close> bytes and leaves the rest of the buffer alone; with a smaller limit it
  writes nothing and returns 0. A copy serialises the same.\<close>

lemma message_serialisation:
  assumes "msg_ok m" "limit \<le> length buffer"
  shows "msg_fill_buffer m buffer limit = Some
      (if limit < msg_get_buffer_size m then (0, buffer)
       else (msg_get_buffer_size m, msg_payload m @ drop (msg_get_buffer_size m) buffer))
    \<and> (\<exists>c. msg_copy m = Some c \<and> msg_fill_buffer c buffer limit = msg_fill_buffer m buffer limit)"
proof -
  have all: "msg_fill_buffer x buffer limit = Some
      (if limit < msg_get_buffer_size x then (0, buffer)
       else (msg_get_buffer_size x, msg_payload x @ drop (msg_get_buffer_size x) buffer))" if "msg_ok x" for x
    using msg_fill_buffer_correct [OF that _ assms(2)] by (simp add: msg_fill_buffer_def)
  obtain c where c: "msg_copy m = Some c" "msg_ok c" "msg_payload c = msg_payload m"
    "m_subcommand c = m_subcommand m" "m_data_size c = m_data_size m"
    using msg_copy_correct [OF assms(1)] by blast
  then have "msg_get_buffer_size c = msg_get_buffer_size m"
    by (simp add: msg_get_buffer_size_def)
  then show ?thesis
    using all [OF assms(1)] all [OF c(2)] c by simp
qed

lemma message_serialisation_example:
  "msg_fill_buffer (msg_new CONTROL 0x4D01 (Some [7, 8, 9]) 2) [0, 0, 0, 0, 0] 5
     = Some (4, [0x4D, 0x01, 7, 8, 0])"
proof -
  let ?m = "msg_new CONTROL 0x4D01 (Some [7, 8, 9]) 2"
  have "msg_ok ?m" by (rule msg_new_ok) simp
  moreover have "msg_get_buffer_size ?m = 4"
    by (simp add: msg_get_buffer_size_def msg_new_def)
  ultimately show ?thesis
    using message_serialisation [of ?m 5 "[0, 0, 0, 0, 0]"] by (simp add: msg_payload_def)
qed

end
