(* ===== verification/Haier_Protocol.thy ===== *)
theory Haier_Protocol
  imports Haier_Message Transport "HOL-Library.Monad_Syntax"
begin

text \<open>
  The protocol handler of \<^verbatim>\<open>include/protocol/haier_protocol.h\<close> and
  \<^verbatim>\<open>src/protocol/haier_protocol.cpp\<close>. The record \<open>protocol\<close> holds the members of
  the class. What the code takes from outside is a \<open>platform\<close>: the stream operations, the
  memory allocator, the steady clock (its successive readings) and the meaning of the
  registered handlers. A handler changes the application state and calls the protocol
  handler back; the calls are a list that is executed in order. \<open>None\<close> as the result of an
  operation is undefined behaviour or not returning. What the operations log is in \<open>Protocol_Log\<close>.
\<close>

section \<open>State\<close>

datatype handler_error =
    HANDLER_OK | UNSUPPORTED_MESSAGE | UNEXPECTED_MESSAGE | UNSUPPORTED_SUBCOMMAND
  | WRONG_MESSAGE_STRUCTURE | RUNTIME_ERROR | UNKNOWN_ERROR | INVALID_ANSWER

datatype protocol_state = IDLE | WAITING_FOR_ANSWER

abbreviation MAX_PACKET_RETRIES :: nat where "MAX_PACKET_RETRIES \<equiv> 9"
abbreviation DEFAULT_ANSWER_TIMEOUT :: millis where "DEFAULT_ANSWER_TIMEOUT \<equiv> 200"
abbreviation DEFAULT_COOLDOWN_INTERVAL :: millis where "DEFAULT_COOLDOWN_INTERVAL \<equiv> 400"

record outgoing_item =
  oi_message :: haier_message
  oi_use_crc :: bool
  oi_no_answer :: bool
  oi_number_of_retries :: int
  oi_retry_interval :: millis

text \<open>Handlers are named by values of type \<open>'h\<close>; \<open>None\<close> is the built-in default handler.\<close>

record 'h protocol =
  pr_transport :: transport
  pr_message_handlers_map :: "byte \<rightharpoonup> 'h"
  pr_answer_handlers_map :: "byte \<rightharpoonup> 'h"
  pr_timeout_handlers_map :: "byte \<rightharpoonup> 'h"
  pr_outgoing_messages :: "outgoing_item list"
  pr_default_message_handler :: "'h option"
  pr_default_answer_handler :: "'h option"
  pr_default_timeout_handler :: "'h option"
  pr_state :: protocol_state
  pr_processing_message :: bool
  pr_incoming_message_crc_status :: bool
  pr_answer_sent :: bool
  pr_last_message_type :: byte
  pr_answer_timeout_interval :: millis
  pr_cooldown_interval :: millis
  pr_cooldown_time_point :: millis
  pr_answer_time_point :: millis
  pr_retry_time_point :: millis

text \<open>The public member functions a handler can call.\<close>

datatype 'h api_call =
    Send_Message haier_message bool byte millis
  | Send_Message_Without_Answer haier_message bool
  | Send_Answer haier_message
  | Send_Answer_Crc haier_message bool
  | No_Answer
  | Set_Answer_Timeout millis
  | Set_Cooldown_Interval millis
  | Set_Message_Handler byte 'h
  | Remove_Message_Handler byte
  | Set_Answer_Handler byte 'h
  | Remove_Answer_Handler byte
  | Set_Timeout_Handler byte 'h
  | Remove_Timeout_Handler byte
  | Set_Default_Message_Handler 'h
  | Set_Default_Answer_Handler 'h
  | Set_Default_Timeout_Handler 'h

text \<open>\<open>pf_popped_kept\<close>: the memory of an element that has been popped from the queue stays with the queue, so that
  a write to it changes nothing else. The language promises nothing of the kind and the write is undefined; a deque that
  frees its memory by blocks behaves so inside a block.\<close>

record ('s, 'h, 'app) platform =
  pf_ops :: "'s stream_ops"
  pf_new :: "byte allocator"
  pf_clock :: "nat \<Rightarrow> millis"
  pf_message :: "'h \<Rightarrow> byte \<Rightarrow> byte list \<Rightarrow> 'app \<Rightarrow> 'app \<times> 'h api_call list \<times> handler_error"
  pf_answer :: "'h \<Rightarrow> byte \<Rightarrow> byte \<Rightarrow> byte list \<Rightarrow> 'app \<Rightarrow> 'app \<times> 'h api_call list \<times> handler_error"
  pf_timeout :: "'h \<Rightarrow> byte \<Rightarrow> 'app \<Rightarrow> 'app \<times> 'h api_call list \<times> handler_error"
  pf_popped_kept :: bool

text \<open>The protocol handler, the stream, the number of clock readings so far, the application.\<close>

record ('s, 'h, 'app) world =
  w_protocol :: "'h protocol"
  w_stream :: 's
  w_tick :: nat
  w_app :: 'app

definition on_protocol ::
    "('h protocol \<Rightarrow> 'h protocol) \<Rightarrow> ('s, 'h, 'app) world \<Rightarrow> ('s, 'h, 'app) world" where
  "on_protocol g w = w\<lparr>w_protocol := g (w_protocol w)\<rparr>"

definition read_clock :: "('s, 'h, 'app) platform \<Rightarrow> ('s, 'h, 'app) world \<Rightarrow> millis \<times> ('s, 'h, 'app) world" where
  "read_clock pf w = (pf_clock pf (w_tick w), w\<lparr>w_tick := w_tick w + 1\<rparr>)"

section \<open>Construction and settings\<close>

definition pr_new_sized :: "byte allocator \<Rightarrow> nat \<Rightarrow> 'h protocol" where
  "pr_new_sized new buffer_size =
     \<lparr>pr_transport = tr_new new buffer_size,
      pr_message_handlers_map = Map.empty, pr_answer_handlers_map = Map.empty,
      pr_timeout_handlers_map = Map.empty, pr_outgoing_messages = [],
      pr_default_message_handler = None, pr_default_answer_handler = None,
      pr_default_timeout_handler = None, pr_state = IDLE, pr_processing_message = False,
      pr_incoming_message_crc_status = False, pr_answer_sent = False,
      pr_last_message_type = UNKNOWN_FRAME_TYPE,
      pr_answer_timeout_interval = DEFAULT_ANSWER_TIMEOUT,
      pr_cooldown_interval = DEFAULT_COOLDOWN_INTERVAL, pr_cooldown_time_point = 0,
      pr_answer_time_point = 0, pr_retry_time_point = 0\<rparr>"

definition pr_new :: "byte allocator \<Rightarrow> 'h protocol" where
  "pr_new new = pr_new_sized new (unat MAX_FRAME_SIZE + 10)"

definition pr_get_outgoing_queue_size :: "'h protocol \<Rightarrow> nat" where
  "pr_get_outgoing_queue_size p = length (pr_outgoing_messages p)"

definition pr_is_waiting_for_answer :: "'h protocol \<Rightarrow> bool" where
  "pr_is_waiting_for_answer p \<longleftrightarrow> pr_state p = WAITING_FOR_ANSWER"

definition pr_set_answer_timeout :: "millis \<Rightarrow> 'h protocol \<Rightarrow> 'h protocol" where
  "pr_set_answer_timeout t p = p\<lparr>pr_answer_timeout_interval := t\<rparr>"

definition pr_set_cooldown_interval :: "millis \<Rightarrow> 'h protocol \<Rightarrow> 'h protocol" where
  "pr_set_cooldown_interval t p = p\<lparr>pr_cooldown_interval := t\<rparr>"

definition pr_set_message_handler :: "byte \<Rightarrow> 'h \<Rightarrow> 'h protocol \<Rightarrow> 'h protocol" where
  "pr_set_message_handler ty h p = p\<lparr>pr_message_handlers_map := (pr_message_handlers_map p)(ty \<mapsto> h)\<rparr>"

definition pr_remove_message_handler :: "byte \<Rightarrow> 'h protocol \<Rightarrow> 'h protocol" where
  "pr_remove_message_handler ty p =
     (if pr_message_handlers_map p ty \<noteq> None
      then p\<lparr>pr_message_handlers_map := (pr_message_handlers_map p)(ty := None)\<rparr> else p)"

definition pr_set_default_message_handler :: "'h \<Rightarrow> 'h protocol \<Rightarrow> 'h protocol" where
  "pr_set_default_message_handler h p = p\<lparr>pr_default_message_handler := Some h\<rparr>"

definition pr_set_answer_handler :: "byte \<Rightarrow> 'h \<Rightarrow> 'h protocol \<Rightarrow> 'h protocol" where
  "pr_set_answer_handler ty h p = p\<lparr>pr_answer_handlers_map := (pr_answer_handlers_map p)(ty \<mapsto> h)\<rparr>"

definition pr_remove_answer_handler :: "byte \<Rightarrow> 'h protocol \<Rightarrow> 'h protocol" where
  "pr_remove_answer_handler ty p =
     (if pr_answer_handlers_map p ty \<noteq> None
      then p\<lparr>pr_answer_handlers_map := (pr_answer_handlers_map p)(ty := None)\<rparr> else p)"

definition pr_set_default_answer_handler :: "'h \<Rightarrow> 'h protocol \<Rightarrow> 'h protocol" where
  "pr_set_default_answer_handler h p = p\<lparr>pr_default_answer_handler := Some h\<rparr>"

definition pr_set_timeout_handler :: "byte \<Rightarrow> 'h \<Rightarrow> 'h protocol \<Rightarrow> 'h protocol" where
  "pr_set_timeout_handler ty h p = p\<lparr>pr_timeout_handlers_map := (pr_timeout_handlers_map p)(ty \<mapsto> h)\<rparr>"

definition pr_remove_timeout_handler :: "byte \<Rightarrow> 'h protocol \<Rightarrow> 'h protocol" where
  "pr_remove_timeout_handler ty p =
     (if pr_timeout_handlers_map p ty \<noteq> None
      then p\<lparr>pr_timeout_handlers_map := (pr_timeout_handlers_map p)(ty := None)\<rparr> else p)"

definition pr_set_default_timeout_handler :: "'h \<Rightarrow> 'h protocol \<Rightarrow> 'h protocol" where
  "pr_set_default_timeout_handler h p = p\<lparr>pr_default_timeout_handler := Some h\<rparr>"

section \<open>Sending\<close>

text \<open>The \<^verbatim>\<open>&&\<close> of the code: nothing is sent when \<open>fill_buffer\<close> returned 0.\<close>

definition write_message ::
    "('s, 'h, 'app) platform \<Rightarrow> haier_message \<Rightarrow> bool \<Rightarrow> ('s, 'h, 'app) world
       \<Rightarrow> (bool \<times> ('s, 'h, 'app) world) option" where
  "write_message pf m use_crc w =
     (let buf_size = msg_get_buffer_size m; ty = m_frame_type m
      in do {
        (is_success, s) \<leftarrow>
          (if buf_size = 0
           then let (r, s) = tr_send_data (pf_ops pf) (pf_new pf) ty [] 0 use_crc (w_stream w)
                in Some (r > 0, s)
           else do {
             (k, buffer) \<leftarrow> msg_fill_buffer m (pf_new pf buf_size) buf_size;
             Some (if k > 0
                   then let (r, s) = tr_send_data (pf_ops pf) (pf_new pf) ty buffer buf_size use_crc (w_stream w)
                        in (r > 0, s)
                   else (False, w_stream w))
           });
        let (now, w1) = read_clock pf (w\<lparr>w_stream := s\<rparr>);
        Some (is_success,
          on_protocol (\<lambda>p. p\<lparr>pr_cooldown_time_point := now + pr_cooldown_interval p\<rparr>) w1)
      })"

text \<open>The queue item holds a copy of the message (its member is constant, so pushing the
  item copies it again).\<close>

definition send_message ::
    "haier_message \<Rightarrow> bool \<Rightarrow> byte \<Rightarrow> millis \<Rightarrow> ('s, 'h, 'app) world \<Rightarrow> ('s, 'h, 'app) world option" where
  "send_message m use_crc num_repeats interval w =
     do {
       c \<leftarrow> msg_copy m; c \<leftarrow> msg_copy c;
       Some (on_protocol (\<lambda>p. p\<lparr>pr_outgoing_messages := pr_outgoing_messages p @
         [\<lparr>oi_message = c, oi_use_crc = use_crc, oi_no_answer = False,
           oi_number_of_retries = int (min (unat num_repeats) MAX_PACKET_RETRIES) + 1,
           oi_retry_interval = interval\<rparr>]\<rparr>) w)
     }"

definition send_message_without_answer ::
    "haier_message \<Rightarrow> bool \<Rightarrow> ('s, 'h, 'app) world \<Rightarrow> ('s, 'h, 'app) world option" where
  "send_message_without_answer m use_crc w =
     do {
       c \<leftarrow> msg_copy m; c \<leftarrow> msg_copy c;
       Some (on_protocol (\<lambda>p. p\<lparr>pr_outgoing_messages := pr_outgoing_messages p @
         [\<lparr>oi_message = c, oi_use_crc = use_crc, oi_no_answer = True,
           oi_number_of_retries = 1, oi_retry_interval = 0\<rparr>]\<rparr>) w)
     }"

definition send_answer_crc ::
    "('s, 'h, 'app) platform \<Rightarrow> haier_message \<Rightarrow> bool \<Rightarrow> ('s, 'h, 'app) world
       \<Rightarrow> ('s, 'h, 'app) world option" where
  "send_answer_crc pf m use_crc w =
     (if pr_processing_message (w_protocol w)
      then do {
        (sent, w1) \<leftarrow> write_message pf m use_crc w;
        Some (on_protocol (\<lambda>p. p\<lparr>pr_answer_sent := sent\<rparr>) w1)
      }
      else Some w)"

definition send_answer ::
    "('s, 'h, 'app) platform \<Rightarrow> haier_message \<Rightarrow> ('s, 'h, 'app) world \<Rightarrow> ('s, 'h, 'app) world option" where
  "send_answer pf m w = send_answer_crc pf m (pr_incoming_message_crc_status (w_protocol w)) w"

definition no_answer :: "('s, 'h, 'app) world \<Rightarrow> ('s, 'h, 'app) world" where
  "no_answer w =
     (if pr_processing_message (w_protocol w) then on_protocol (\<lambda>p. p\<lparr>pr_answer_sent := True\<rparr>) w else w)"

fun exec_call ::
    "('s, 'h, 'app) platform \<Rightarrow> 'h api_call \<Rightarrow> ('s, 'h, 'app) world \<Rightarrow> ('s, 'h, 'app) world option" where
  "exec_call pf (Send_Message m crc n i) w = send_message m crc n i w"
| "exec_call pf (Send_Message_Without_Answer m crc) w = send_message_without_answer m crc w"
| "exec_call pf (Send_Answer m) w = send_answer pf m w"
| "exec_call pf (Send_Answer_Crc m crc) w = send_answer_crc pf m crc w"
| "exec_call pf No_Answer w = Some (no_answer w)"
| "exec_call pf (Set_Answer_Timeout t) w = Some (on_protocol (pr_set_answer_timeout t) w)"
| "exec_call pf (Set_Cooldown_Interval t) w = Some (on_protocol (pr_set_cooldown_interval t) w)"
| "exec_call pf (Set_Message_Handler ty h) w = Some (on_protocol (pr_set_message_handler ty h) w)"
| "exec_call pf (Remove_Message_Handler ty) w = Some (on_protocol (pr_remove_message_handler ty) w)"
| "exec_call pf (Set_Answer_Handler ty h) w = Some (on_protocol (pr_set_answer_handler ty h) w)"
| "exec_call pf (Remove_Answer_Handler ty) w = Some (on_protocol (pr_remove_answer_handler ty) w)"
| "exec_call pf (Set_Timeout_Handler ty h) w = Some (on_protocol (pr_set_timeout_handler ty h) w)"
| "exec_call pf (Remove_Timeout_Handler ty) w = Some (on_protocol (pr_remove_timeout_handler ty) w)"
| "exec_call pf (Set_Default_Message_Handler h) w = Some (on_protocol (pr_set_default_message_handler h) w)"
| "exec_call pf (Set_Default_Answer_Handler h) w = Some (on_protocol (pr_set_default_answer_handler h) w)"
| "exec_call pf (Set_Default_Timeout_Handler h) w = Some (on_protocol (pr_set_default_timeout_handler h) w)"

fun exec_calls ::
    "('s, 'h, 'app) platform \<Rightarrow> 'h api_call list \<Rightarrow> ('s, 'h, 'app) world \<Rightarrow> ('s, 'h, 'app) world option" where
  "exec_calls pf [] w = Some w"
| "exec_calls pf (c # cs) w = do { w1 \<leftarrow> exec_call pf c w; exec_calls pf cs w1 }"

section \<open>Handlers\<close>

definition default_message_handler :: "byte \<Rightarrow> byte list \<Rightarrow> 'app \<Rightarrow> 'app \<times> 'h api_call list \<times> handler_error" where
  "default_message_handler message_type data app = (app, [], UNSUPPORTED_MESSAGE)"

definition default_answer_handler ::
    "byte \<Rightarrow> byte \<Rightarrow> byte list \<Rightarrow> 'app \<Rightarrow> 'app \<times> 'h api_call list \<times> handler_error" where
  "default_answer_handler requestType message_type data app = (app, [], UNSUPPORTED_MESSAGE)"

definition default_timeout_handler :: "byte \<Rightarrow> 'app \<Rightarrow> 'app \<times> 'h api_call list \<times> handler_error" where
  "default_timeout_handler message_type app = (app, [], HANDLER_OK)"

definition find_handler :: "(byte \<rightharpoonup> 'h) \<Rightarrow> byte \<Rightarrow> 'h option \<Rightarrow> 'h option" where
  "find_handler handlers ty dflt = (case handlers ty of Some h \<Rightarrow> Some h | None \<Rightarrow> dflt)"

definition run_handler ::
    "('s, 'h, 'app) platform \<Rightarrow> ('app \<Rightarrow> 'app \<times> 'h api_call list \<times> handler_error)
       \<Rightarrow> ('s, 'h, 'app) world \<Rightarrow> (handler_error \<times> ('s, 'h, 'app) world) option" where
  "run_handler pf h w =
     (let (app, calls, hres) = h (w_app w)
      in do { w1 \<leftarrow> exec_calls pf calls (w\<lparr>w_app := app\<rparr>); Some (hres, w1) })"

definition call_message_handler ::
    "('s, 'h, 'app) platform \<Rightarrow> byte \<Rightarrow> byte list \<Rightarrow> ('s, 'h, 'app) world
       \<Rightarrow> (handler_error \<times> ('s, 'h, 'app) world) option" where
  "call_message_handler pf ty data w =
     (let p = w_protocol w
      in case find_handler (pr_message_handlers_map p) ty (pr_default_message_handler p) of
           Some h \<Rightarrow> run_handler pf (pf_message pf h ty data) w
         | None \<Rightarrow> run_handler pf (default_message_handler ty data) w)"

definition call_answer_handler ::
    "('s, 'h, 'app) platform \<Rightarrow> byte \<Rightarrow> byte \<Rightarrow> byte list \<Rightarrow> ('s, 'h, 'app) world
       \<Rightarrow> (handler_error \<times> ('s, 'h, 'app) world) option" where
  "call_answer_handler pf request ty data w =
     (let p = w_protocol w
      in case find_handler (pr_answer_handlers_map p) request (pr_default_answer_handler p) of
           Some h \<Rightarrow> run_handler pf (pf_answer pf h request ty data) w
         | None \<Rightarrow> run_handler pf (default_answer_handler request ty data) w)"

definition call_timeout_handler ::
    "('s, 'h, 'app) platform \<Rightarrow> byte \<Rightarrow> ('s, 'h, 'app) world
       \<Rightarrow> (handler_error \<times> ('s, 'h, 'app) world) option" where
  "call_timeout_handler pf request w =
     (let p = w_protocol w
      in case find_handler (pr_timeout_handlers_map p) request (pr_default_timeout_handler p) of
           Some h \<Rightarrow> run_handler pf (pf_timeout pf h request) w
         | None \<Rightarrow> run_handler pf (default_timeout_handler request) w)"

section \<open>The loop\<close>

text \<open>The handler's error code is only logged.\<close>

definition idle_receive ::
    "('s, 'h, 'app) platform \<Rightarrow> ('s, 'h, 'app) world \<Rightarrow> ('s, 'h, 'app) world option" where
  "idle_receive pf w =
     (let t = pr_transport (w_protocol w); messagesCount = tr_available t;
          t1 = (if messagesCount > 1 then tr_drop (messagesCount - 1) t else t);
          messagesCount = (if messagesCount > 1 then 1 else messagesCount)
      in if messagesCount > 0
         then case tr_pop t1 of
                (Some tf, t2) \<Rightarrow>
                  (let msg_type = f_type (tf_frame tf);
                       w1 = on_protocol (\<lambda>p. p\<lparr>pr_transport := t2,
                              pr_incoming_message_crc_status := f_use_crc (tf_frame tf),
                              pr_processing_message := True, pr_answer_sent := False\<rparr>) w
                   in do {
                     (hres, w2) \<leftarrow> call_message_handler pf msg_type (frame_data (tf_frame tf)) w1;
                     Some (on_protocol (\<lambda>p. p\<lparr>pr_processing_message := False\<rparr>) w2)
                   })
              | (None, t2) \<Rightarrow> None
         else Some (on_protocol (\<lambda>p. p\<lparr>pr_transport := t1\<rparr>) w))"

text \<open>
  Whether sending succeeds or fails, the retry counter of the message is decremented at the end. A message
  that expects no answer has been popped by then: the decrement goes through a reference to an element that is no
  more, which is undefined unless its memory is kept.
\<close>

definition idle_send ::
    "('s, 'h, 'app) platform \<Rightarrow> millis \<Rightarrow> ('s, 'h, 'app) world \<Rightarrow> ('s, 'h, 'app) world option" where
  "idle_send pf now w =
     (let p = w_protocol w
      in case pr_outgoing_messages p of
           [] \<Rightarrow> Some w
         | msg # rest \<Rightarrow>
             if now \<ge> pr_cooldown_time_point p \<and> now \<ge> pr_retry_time_point p
             then if oi_number_of_retries msg > 0
                  then do {
                    (sent, w1) \<leftarrow> write_message pf (oi_message msg) (oi_use_crc msg) w;
                    let msg' = msg\<lparr>oi_number_of_retries := oi_number_of_retries msg - 1\<rparr>;
                    if sent
                    then if oi_no_answer msg
                         then if pf_popped_kept pf
                              then Some (on_protocol (\<lambda>p. p\<lparr>pr_last_message_type := m_frame_type (oi_message msg),
                                     pr_outgoing_messages := rest, pr_retry_time_point := now\<rparr>) w1)
                              else None
                         else Some (on_protocol (\<lambda>p. p\<lparr>pr_last_message_type := m_frame_type (oi_message msg),
                                pr_state := WAITING_FOR_ANSWER,
                                pr_answer_time_point := now + pr_answer_timeout_interval p,
                                pr_retry_time_point := now + oi_retry_interval msg,
                                pr_outgoing_messages := msg' # rest\<rparr>) w1)
                    else Some (on_protocol (\<lambda>p. p\<lparr>pr_outgoing_messages := msg' # rest\<rparr>) w1)
                  }
                  else Some (on_protocol (\<lambda>p. p\<lparr>pr_outgoing_messages := rest, pr_retry_time_point := now\<rparr>) w)
             else Some w)"

text \<open>\<^verbatim>\<open>front()\<close> and \<^verbatim>\<open>pop()\<close> of an empty queue are undefined.\<close>

definition pop_outgoing :: "'h protocol \<Rightarrow> 'h protocol option" where
  "pop_outgoing p = (case pr_outgoing_messages p of
      [] \<Rightarrow> None | msg # rest \<Rightarrow> Some (p\<lparr>pr_outgoing_messages := rest\<rparr>))"

definition waiting_timeout ::
    "('s, 'h, 'app) platform \<Rightarrow> millis \<Rightarrow> ('s, 'h, 'app) world \<Rightarrow> ('s, 'h, 'app) world option" where
  "waiting_timeout pf now w =
     (case pr_outgoing_messages (w_protocol w) of
        [] \<Rightarrow> None
      | msg # _ \<Rightarrow>
          do {
            w2 \<leftarrow> (if oi_number_of_retries msg = 0
                   then do {
                     p1 \<leftarrow> pop_outgoing (w_protocol w);
                     (hres, w2) \<leftarrow> call_timeout_handler pf (pr_last_message_type p1)
                                     (w\<lparr>w_protocol := p1\<lparr>pr_retry_time_point := now\<rparr>\<rparr>);
                     Some w2
                   }
                   else Some w);
            Some (on_protocol (\<lambda>p. p\<lparr>pr_state := IDLE\<rparr>) w2)
          })"

definition waiting_answer ::
    "('s, 'h, 'app) platform \<Rightarrow> millis \<Rightarrow> ('s, 'h, 'app) world \<Rightarrow> ('s, 'h, 'app) world option" where
  "waiting_answer pf now w =
     (case tr_pop (pr_transport (w_protocol w)) of
        (Some tf, t1) \<Rightarrow>
          do {
            (hres, w1) \<leftarrow> call_answer_handler pf (pr_last_message_type (w_protocol w)) (f_type (tf_frame tf))
                            (frame_data (tf_frame tf)) (on_protocol (\<lambda>p. p\<lparr>pr_transport := t1\<rparr>) w);
            p2 \<leftarrow> pop_outgoing (w_protocol w1);
            Some (w1\<lparr>w_protocol := p2\<lparr>pr_retry_time_point := now, pr_state := IDLE\<rparr>\<rparr>)
          }
      | (None, t1) \<Rightarrow> None)"

definition dispatch ::
    "('s, 'h, 'app) platform \<Rightarrow> millis \<Rightarrow> ('s, 'h, 'app) world \<Rightarrow> ('s, 'h, 'app) world option" where
  "dispatch pf now w =
     (case pr_state (w_protocol w) of
        IDLE \<Rightarrow> do { w1 \<leftarrow> idle_receive pf w; idle_send pf now w1 }
      | WAITING_FOR_ANSWER \<Rightarrow>
          if now > pr_answer_time_point (w_protocol w) then waiting_timeout pf now w
          else if tr_available (pr_transport (w_protocol w)) > 0 then waiting_answer pf now w
          else Some w)"

definition loop :: "('s, 'h, 'app) platform \<Rightarrow> ('s, 'h, 'app) world \<Rightarrow> ('s, 'h, 'app) world option" where
  "loop pf w =
     (let (_, t1, s1) = tr_read_data (pf_ops pf) (pr_transport (w_protocol w)) (w_stream w)
      in do {
        t2 \<leftarrow> process_data (pf_clock pf (w_tick w)) t1;
        let (now, w1) = read_clock pf (w\<lparr>w_stream := s1, w_protocol := (w_protocol w)\<lparr>pr_transport := t2\<rparr>\<rparr>);
        dispatch pf now w1
      })"

end
