(* ===== verification/Transport_Properties.thy ===== *)
theory Transport_Properties
  imports Transport_Stream
begin

text \<open>
  The properties of the transport layer, over the handler of \<open>Transport\<close>, the decoder and
  the two stream implementations of \<open>Protocol_Stream\<close>.
\<close>

lemma handler_stored: "handler t ph \<Longrightarrow> cb_list (tr_buffer t) = held ph @ unread t"
  using representsD(4) [of t 0 ph] by (simp add: unread_def) (metis append_take_drop_id)

section \<open>The invariant\<close>

definition transport_ok :: "transport \<Rightarrow> bool" where
  "transport_ok t \<longleftrightarrow> (\<exists>ph. handler t ph)"

context byte_stream
begin

lemma read_data_ok:
  assumes "sinv s" "transport_ok t"
  shows "transport_ok (fst (snd (tr_read_data ops t s)))" "sinv (snd (snd (tr_read_data ops t s)))"
proof -
  obtain ph where h: "handler t ph" using assms(2) by (auto simp: transport_ok_def)
  let ?c = "min (length (arrived ops pending s)) (cb_capacity (tr_buffer t))"
  have "(\<exists>ph'. handler (fst (snd (tr_read_data ops t s))) ph') \<and> sinv (snd (snd (tr_read_data ops t s)))"
  proof (cases "?c \<le> cb_get_space (tr_buffer t)")
    case True
    then show ?thesis using read_arrived_appends [OF assms(1) h] by auto
  next
    case False
    then have "cb_get_space (tr_buffer t) < ?c" by (simp only: not_le)
    then show ?thesis using read_arrived_overflow [OF assms(1) h] by fastforce
  qed
  then show "transport_ok (fst (snd (tr_read_data ops t s)))" "sinv (snd (snd (tr_read_data ops t s)))"
    by (simp_all add: transport_ok_def)
qed

end

text \<open>Claim C17. The invariant of the transport handler (a well-formed ring buffer, a position
  inside it, and flag, separator count and current frame that are exactly what the bytes
  before the position dictate) holds after construction and is kept by every operation,
  in particular by \<open>read_data\<close> on overflow; \<open>process_data\<close> always returns.\<close>

theorem transport_invariant:
  assumes "allocates new" "transport_ok t" "vs_inv h"
  shows "transport_ok (tr_new new size0)
    \<and> transport_ok (fst (snd (tr_read_data (get_stream_reference dir) t h)))
    \<and> (\<exists>t'. process_data now t = Some t' \<and> transport_ok t')
    \<and> transport_ok (tr_reset_protocol t) \<and> transport_ok (tr_clear t)
    \<and> transport_ok (snd (tr_pop t)) \<and> transport_ok (tr_drop n t)"
proof -
  obtain ph where h: "handler t ph" using assms(2) by (auto simp: transport_ok_def)
  have "transport_ok (tr_new new size0)"
    using tr_new_handler(1) [OF assms(1)] by (auto simp: transport_ok_def settled_def)
  moreover have "\<exists>t'. process_data now t = Some t' \<and> transport_ok t'"
    using process_data_decodes [OF h, of now] by (auto simp: transport_ok_def settled_def)
  moreover have "transport_ok (tr_reset_protocol t)" "transport_ok (tr_clear t)"
    using tr_reset_protocol_handler(1) [OF h] tr_clear_handler [OF h] by (auto simp: transport_ok_def settled_def)
  moreover have "transport_ok (snd (tr_pop t))" "transport_ok (tr_drop n t)"
    using h by (auto simp: transport_ok_def tr_pop_eq tr_drop_eq)
  ultimately show ?thesis
    using virtual.read_data_ok(1) [OF assms(3,2)] by simp
qed

theorem transport_invariant_witness:
  "\<exists>t'. process_data 0 (tr_new (\<lambda>n. replicate n 0) 0) = Some t' \<and> transport_ok t'"
proof -
  have new: "allocates (\<lambda>n. replicate n (0::byte))" by (rule allocates_replicate)
  have "transport_ok (tr_new (\<lambda>n. replicate n 0) 0)"
    using tr_new_handler(1) [OF new] by (auto simp: transport_ok_def settled_def)
  then show ?thesis
    using transport_invariant [OF new _ vs_new_inv [OF new], of "tr_new (\<lambda>n. replicate n 0) 0"
        0 DIRECTION_A 0 0] by simp
qed

text \<open>Claim C35. No subtraction of the parsing loop goes below zero and no read leaves the
  stored bytes: in every iteration the local \<^verbatim>\<open>bytes_to_drop\<close> and the separator
  count are at most the position, the position is below the number of stored bytes, and
  the next loop state satisfies the same invariant.\<close>

theorem process_step_in_bounds:
  assumes "represents (ps_transport p) (ps_bytes_to_drop p) ph"
    and "ps_buf_size p = cb_get_size (tr_buffer (ps_transport p))"
    and "tr_pos (ps_transport p) < ps_buf_size p"
  shows "ps_bytes_to_drop p \<le> tr_pos (ps_transport p)
    \<and> tr_sep_count (ps_transport p) \<le> tr_pos (ps_transport p)
    \<and> tr_pos (ps_transport p) < cb_get_size (tr_buffer (ps_transport p))
    \<and> (\<exists>ph'. represents (ps_transport (process_step p)) (ps_bytes_to_drop (process_step p)) ph')
    \<and> ps_buf_size (process_step p) = cb_get_size (tr_buffer (ps_transport (process_step p)))"
proof -
  let ?t = "ps_transport p"
  note r = representsD [OF assms(1)]
  have pos: "tr_pos ?t < cb_get_size (tr_buffer ?t)" using assms(2,3) by simp
  have "phase_seps ph \<le> length (held ph)"
  proof (cases ph)
    case (Header raw)
    then show ?thesis using separators_le [of "drop 3 raw"] by simp
  qed (simp_all add: separators_le)
  then have "tr_sep_count ?t \<le> tr_pos ?t" using r(8,10) by simp
  moreover obtain ph' bk fs where d: "decode_byte ph (cb_get (tr_buffer ?t) (tr_pos ?t)) = (ph', bk, fs)"
    by (cases "decode_byte ph (cb_get (tr_buffer ?t) (tr_pos ?t))") auto
  have "p = \<lparr>ps_transport = ?t, ps_buf_size = cb_get_size (tr_buffer ?t), ps_bytes_to_drop = ps_bytes_to_drop p\<rparr>"
    using assms(2) by simp
  from process_step_simulates [OF assms(1) pos this unread_Cons [OF pos] d]
  have "represents (ps_transport (process_step p)) (ps_bytes_to_drop (process_step p)) ph'"
    "ps_buf_size (process_step p) = cb_get_size (tr_buffer (ps_transport (process_step p)))"
    by (simp_all add: simulates_def)
  ultimately show ?thesis
    using r(2) pos by blast
qed

text \<open>A handler with the bytes of a given sequence stored and none looked at.\<close>

definition loaded :: "byte list \<Rightarrow> transport" where
  "loaded bs = fst (snd (tr_read_data test_stream_ops (tr_new (\<lambda>n. replicate n 0) 0)
     (ts_addBuffer bs (ts_new (\<lambda>n. replicate n 0)))))"

lemma loaded_handler:
  assumes "length bs \<le> 128"
  shows "handler (loaded bs) (Search [])" "unread (loaded bs) = bs" "tr_incoming_queue (loaded bs) = []"
    "tr_frame_start (loaded bs) = 0"
proof -
  have new: "allocates (\<lambda>n. replicate n (0::byte))" by (rule allocates_replicate)
  let ?t = "tr_new (\<lambda>n. replicate n 0) 0" and ?s = "ts_addBuffer bs (ts_new (\<lambda>n. replicate n 0))"
  have t: "handler ?t (Search [])" "unread ?t = []" "cb_capacity (tr_buffer ?t) = 128" "cb_get_size (tr_buffer ?t) = 0"
    using tr_new_handler [OF new, of 0] settled_stored [OF tr_new_handler(1) [OF new, of 0]]
    by (auto simp: settled_def CIRCULAR_BUFFER_MINIMUM_SIZE_def simp flip: length_cb_list)
  have space: "cb_get_space (ts_buffer (ts_new (\<lambda>n. replicate n (0::byte)))) = 2000"
    using ts_new_inv [OF new] by (simp add: ts_inv_def cb_get_space_def flip: length_cb_list)
  have s: "ts_inv ?s" "cb_list (ts_buffer ?s) = bs"
    using ts_addBuffer_correct [OF ts_new_inv(1) [OF new], of bs] ts_new_inv(2) [OF new] space assms by simp_all
  have "min (length bs) (cb_capacity (tr_buffer ?t)) = length bs" using assms t(3) by simp
  then show "handler (loaded bs) (Search [])" "unread (loaded bs) = bs" "tr_incoming_queue (loaded bs) = []"
    "tr_frame_start (loaded bs) = 0"
    using test.read_data_appends [OF s(1) t(1)] s(2) t assms
    by (auto simp: loaded_def cb_get_space_def tr_new_def)
qed

text \<open>A short frame and its bytes.\<close>

abbreviation sample_frame :: frame where "sample_frame \<equiv> new_frame 0x09 [] 0 False"

lemma sample_ok: "frame_ok sample_frame"
  by (rule new_frame_ok) simp_all

lemma sample_wire: "wire sample_frame = [0xFF, 0xFF, 8, 0, 0, 0, 0, 0, 0, 0x09, 0x11]"
  by (simp add: new_frame_eq wire_def wire_header_def wire_payload_def header_bytes_def stuff_Cons
      stuff1_def trailer_def frame_data_def separators_def Let_def)

theorem process_step_in_bounds_witness:
  "tr_pos (loaded [0xFF, 0xFF, 8]) < cb_get_size (tr_buffer (loaded [0xFF, 0xFF, 8]))
   \<and> (\<exists>ph'. represents (ps_transport (process_step \<lparr>ps_transport = loaded [0xFF, 0xFF, 8],
          ps_buf_size = cb_get_size (tr_buffer (loaded [0xFF, 0xFF, 8])), ps_bytes_to_drop = 0\<rparr>)) 
        (ps_bytes_to_drop (process_step \<lparr>ps_transport = loaded [0xFF, 0xFF, 8],
          ps_buf_size = cb_get_size (tr_buffer (loaded [0xFF, 0xFF, 8])), ps_bytes_to_drop = 0\<rparr>)) ph')"
proof -
  let ?t = "loaded [0xFF, 0xFF, 8]"
  have l: "handler ?t (Search [])" "unread ?t = [0xFF, 0xFF, 8]"
    by (rule loaded_handler; simp)+
  have "length (unread ?t) = 3"
    unfolding l(2) by simp
  then have "tr_pos ?t < cb_get_size (tr_buffer ?t)"
    by (simp add: unread_def)
  then show ?thesis
    using process_step_in_bounds [of "\<lparr>ps_transport = ?t, ps_buf_size = cb_get_size (tr_buffer ?t),
      ps_bytes_to_drop = 0\<rparr>" "Search []"] l(1) by simp
qed

section \<open>The decoder is implemented\<close>

text \<open>Claim C2. \<open>process_data\<close> implements the decoder: from any state of the invariant it
  returns, having consumed every stored byte; the phase it stops in and the frames it
  appends to the queue are those of the byte-wise decoder on the unread bytes, and what it
  leaves stored is exactly what that phase holds.\<close>

theorem process_data_implements_decoder:
  assumes "handler t ph"
  shows "\<exists>t'. process_data now t = Some t' \<and> handler t' (fst (decode ph (unread t)))
    \<and> unread t' = [] \<and> cb_list (tr_buffer t') = held (fst (decode ph (unread t)))
    \<and> map tf_frame (tr_incoming_queue t') = map tf_frame (tr_incoming_queue t) @ snd (decode ph (unread t))"
proof -
  have "map tf_frame (stamp t gs) = gs" for gs
    by (simp add: stamp_def o_def)
  then show ?thesis
    using process_data_decodes [OF assms, of now] settled_stored by (fastforce simp: settled_def)
qed

theorem process_data_implements_decoder_witness:
  "\<exists>t'. process_data 7 (loaded (0xFF # wire sample_frame @ [0xFF])) = Some t'
     \<and> map tf_frame (tr_incoming_queue t') = [sample_frame] \<and> cb_list (tr_buffer t') = [0xFF]"
proof -
  let ?bs = "0xFF # wire sample_frame @ [0xFF]"
  have l: "handler (loaded ?bs) (Search [])" "unread (loaded ?bs) = ?bs" "tr_incoming_queue (loaded ?bs) = []"
    by (rule loaded_handler; simp add: sample_wire)+
  have "decode (Search []) ?bs = decode (Search [0xFF]) (wire sample_frame @ [0xFF])"
    by (simp add: split_def Let_def)
  then have "decode (Search []) ?bs = (Search [0xFF], [sample_frame])"
    using decode_wire [OF sample_ok, of "[0xFF]" "[0xFF]"] by simp
  then show ?thesis
    using process_data_implements_decoder [OF l(1), of 7] l(2,3) by auto
qed

text \<open>Claim C22. The way the bytes are cut into chunks does not matter: if no chunk overflows
  the buffer, reading and processing them one by one succeeds and delivers what the decoder
  delivers on their concatenation, in the same order, and ends in the same phase.\<close>

theorem chunking_is_irrelevant:
  assumes "allocates new" "no_overflow (max CIRCULAR_BUFFER_MINIMUM_SIZE n) (Search []) cs"
  shows "\<exists>t s. chunk_session now cs (tr_new new n, ts_new new) = Some (t, s)
    \<and> handler t (fst (decode (Search []) (concat cs)))
    \<and> map tf_frame (tr_incoming_queue t) = snd (decode (Search []) (concat cs))"
  using fresh_session [OF assms, of now] by (auto simp: settled_def o_def)

theorem chunking_is_irrelevant_witness:
  "\<exists>t s. chunk_session 0 [[0xFF, 0xFF, 8, 0], [0, 0, 0, 0, 0, 0x09, 0x11]]
       (tr_new (\<lambda>n. replicate n 0) 0, ts_new (\<lambda>n. replicate n 0)) = Some (t, s)
     \<and> map tf_frame (tr_incoming_queue t) = [sample_frame]"
proof -
  let ?cs = "[[0xFF, 0xFF, 8, 0], [0, 0, 0, 0, 0, 0x09, 0x11 :: byte]]"
  have "no_overflow (max CIRCULAR_BUFFER_MINIMUM_SIZE 0) (Search []) ?cs"
    by (simp add: CIRCULAR_BUFFER_MINIMUM_SIZE_def Let_def header_count_def plain_def separators_def)
  moreover have "decode (Search []) (concat ?cs) = (Search [], [sample_frame])"
    using decode_wire [OF sample_ok, of "[]" "[]"] by (simp add: sample_wire)
  ultimately show ?thesis
    using chunking_is_irrelevant [OF allocates_replicate, of 0 ?cs 0 0] by auto
qed

section \<open>Delivery\<close>

text \<open>Claim C5. Lossless delivery: if the received bytes are garbage without two separators in
  a row followed by the layouts of any number of complete frames, cut into chunks in any
  way that does not overflow, the queue afterwards holds exactly these frames, unchanged
  and in order, and nothing is left over.\<close>

theorem frames_delivered_in_order:
  assumes "allocates new" "no_overflow (max CIRCULAR_BUFFER_MINIMUM_SIZE n) (Search []) cs"
    and "concat cs = g @ concat (map wire (f # fs))" "no_start g" "\<forall>x \<in> set (f # fs). frame_ok x"
  shows "\<exists>t s. chunk_session now cs (tr_new new n, ts_new new) = Some (t, s)
    \<and> map tf_frame (tr_incoming_queue t) = f # fs \<and> cb_is_empty (tr_buffer t)"
proof -
  obtain r where r: "decode (Search []) g = (Search r, [])" "r = [] \<or> r = [SEPARATOR_BYTE]"
    using decode_no_start [OF assms(4), of "[]"] by auto
  have "decode (Search r) (concat (map wire (f # fs))) = (Search [], f # fs)"
    using decode_wire [of f r "concat (map wire fs)"] decode_wires [of fs] assms(5) r(2) by auto
  then have dec: "decode (Search []) (concat cs) = (Search [], f # fs)"
    using decode_append [of "Search []" g "concat (map wire (f # fs))"] r(1) assms(3) by simp
  then obtain t s where t: "chunk_session now cs (tr_new new n, ts_new new) = Some (t, s)" "settled t (Search [])"
    "map tf_frame (tr_incoming_queue t) = f # fs"
    using fresh_session [OF assms(1,2), of now] by (auto simp: o_def)
  then have "cb_is_empty (tr_buffer t)"
    using settled_stored [OF t(2)] cb_empty_iff [of "tr_buffer t"] representsD(1) [of t 0 "Search []"]
    by (simp add: settled_def)
  then show ?thesis using t(1,3) by auto
qed

theorem frames_delivered_in_order_witness:
  "\<exists>t s. chunk_session 0 [[0x12, 0xFF, 0x55] @ wire sample_frame, wire sample_frame]
       (tr_new (\<lambda>n. replicate n 0) 0, ts_new (\<lambda>n. replicate n 0)) = Some (t, s)
     \<and> map tf_frame (tr_incoming_queue t) = [sample_frame, sample_frame]"
proof -
  let ?cs = "[[0x12, 0xFF, 0x55] @ wire sample_frame, wire sample_frame]"
  have "decode (Search []) ([0x12, 0xFF, 0x55] @ wire sample_frame) = (Search [], [sample_frame])"
    using decode_wire [OF sample_ok, of "[]" "[]"] decode_append [of "Search []" "[0x12, 0xFF, 0x55]" "wire sample_frame"]
    by simp
  then have "no_overflow (max CIRCULAR_BUFFER_MINIMUM_SIZE 0) (Search []) ?cs"
    by (simp add: CIRCULAR_BUFFER_MINIMUM_SIZE_def sample_wire del: decode.simps)
  moreover have "concat ?cs = [0x12, 0xFF, 0x55] @ concat (map wire (sample_frame # [sample_frame]))"
    by simp
  moreover have "no_start [0x12, 0xFF, 0x55 :: byte]"
    by (simp add: no_start_Cons) (simp add: no_start_def)
  ultimately show ?thesis
    using frames_delivered_in_order [OF allocates_replicate, of 0 ?cs "[0x12, 0xFF, 0x55]" sample_frame "[sample_frame]" 0 0]
      sample_ok by auto
qed

text \<open>Claim C14. Nothing is invented: every frame in the queue was received, that is, the bytes
  contain, one behind the other, two separators, a stuffed header of eight bytes with a
  legal length, and a stuffed payload with the check byte (and CRC) that header and data
  call for, and the frame is the one they describe.\<close>

theorem delivered_frames_were_received:
  assumes "allocates new" "no_overflow (max CIRCULAR_BUFFER_MINIMUM_SIZE n) (Search []) cs"
    and "chunk_session now cs (tr_new new n, ts_new new) = Some (t, s)"
    and "tf \<in> set (tr_incoming_queue t)"
  shows "carries (concat cs) (tf_frame tf)"
proof -
  have "tr_incoming_queue t = map (\<lambda>g. \<lparr>tf_frame = g, tf_timestamp = 0\<rparr>) (snd (decode (Search []) (concat cs)))"
    using fresh_session [OF assms(1,2), of now] assms(3) by auto
  then have "tf_frame tf \<in> set (snd (decode (Search []) (concat cs)))"
    using assms(4) by auto
  then show ?thesis
    using decode_sound [of "[]" "tf_frame tf" "concat cs"] by simp
qed

theorem delivered_frames_were_received_witness:
  "\<exists>t s tf. chunk_session 0 [wire sample_frame] (tr_new (\<lambda>n. replicate n 0) 0, ts_new (\<lambda>n. replicate n 0)) = Some (t, s)
     \<and> tf \<in> set (tr_incoming_queue t) \<and> carries (wire sample_frame) (tf_frame tf)"
proof -
  have new: "allocates (\<lambda>n. replicate n (0::byte))" by (rule allocates_replicate)
  have "decode (Search []) (wire sample_frame) = (Search [], [sample_frame])"
    using decode_wire [OF sample_ok, of "[]" "[]"] by simp
  moreover have fits: "no_overflow (max CIRCULAR_BUFFER_MINIMUM_SIZE 0) (Search []) [wire sample_frame]"
    by (simp add: sample_wire CIRCULAR_BUFFER_MINIMUM_SIZE_def)
  ultimately obtain t s where t: "chunk_session 0 [wire sample_frame]
      (tr_new (\<lambda>n. replicate n 0) 0, ts_new (\<lambda>n. replicate n 0)) = Some (t, s)"
    "tr_incoming_queue t = [\<lparr>tf_frame = sample_frame, tf_timestamp = 0\<rparr>]"
    using fresh_session [OF new, of 0 "[wire sample_frame]" 0] by auto
  then show ?thesis
    using delivered_frames_were_received [OF new fits t(1), of "\<lparr>tf_frame = sample_frame, tf_timestamp = 0\<rparr>"] by auto
qed

text \<open>Claim C6. No frame is swallowed: whatever bytes come before it (bogus frame starts,
  truncated frames, bad lengths), a complete frame in the stream is either in the queue
  or still stored whole in the buffer; and once bytes that count for more than 235 follow
  it, it is in the queue.\<close>

theorem no_frame_swallowed:
  assumes "allocates new" "no_overflow (max CIRCULAR_BUFFER_MINIMUM_SIZE n) (Search []) cs"
    and "chunk_session now cs (tr_new new n, ts_new new) = Some (t, s)"
    and "concat cs = x @ wire f @ y" "frame_ok f"
  shows "(f \<in> set (map tf_frame (tr_incoming_queue t)) \<or> (\<exists>z. cb_list (tr_buffer t) = z @ wire f @ y))
    \<and> (235 < plain y \<longrightarrow> f \<in> set (map tf_frame (tr_incoming_queue t)))"
proof -
  let ?d = "decode (Search []) (concat cs)"
  have t: "settled t (fst ?d)" "map tf_frame (tr_incoming_queue t) = snd ?d"
    using fresh_session [OF assms(1,2), of now] assms(3) by (auto simp: o_def)
  then show ?thesis
    using decode_keeps [OF assms(5), of "Search []" "concat cs" x y] decode_recovers [OF assms(5), of y x]
      settled_stored [OF t(1)] assms(4) by auto
qed

theorem no_frame_swallowed_witness:
  "\<exists>t s. chunk_session 0 [[0xFF, 0xFF, 9, 0, 0, 0, 0, 0, 0, 0, 7], wire sample_frame]
        (tr_new (\<lambda>n. replicate n 0) 0, ts_new (\<lambda>n. replicate n 0)) = Some (t, s)
     \<and> (sample_frame \<in> set (map tf_frame (tr_incoming_queue t))
        \<or> (\<exists>z. cb_list (tr_buffer t) = z @ wire sample_frame @ []))"
proof -
  have new: "allocates (\<lambda>n. replicate n (0::byte))" by (rule allocates_replicate)
  let ?g = "[0xFF, 0xFF, 9, 0, 0, 0, 0, 0, 0, 0, 7 :: byte]"
  let ?cs = "[?g, wire sample_frame]"
  have "length (held (fst (decode (Search []) ?g))) \<le> length ?g"
    by (simp add: Let_def header_count_def plain_def separators_def header_valid_def header_frame_def trailer_size_def)
  then have fits: "no_overflow (max CIRCULAR_BUFFER_MINIMUM_SIZE 0) (Search []) ?cs"
    by (simp add: sample_wire CIRCULAR_BUFFER_MINIMUM_SIZE_def del: decode.simps)
  obtain t s where t: "chunk_session 0 ?cs (tr_new (\<lambda>n. replicate n 0) 0, ts_new (\<lambda>n. replicate n 0)) = Some (t, s)"
    using fresh_session [OF new fits, of 0] by blast
  then show ?thesis
    using no_frame_swallowed [OF new fits t, of ?g sample_frame "[]"] sample_ok by auto
qed

section \<open>Sending\<close>

text \<open>Claim C34. \<open>send_data\<close> over a virtual stream: more than 233 data bytes are refused with 0
  and nothing is written; otherwise, if the layout has at most 256 bytes and the stream
  room for it, exactly the layout of the frame is written and the returned
  \<^verbatim>\<open>uint8_t\<close> is its length modulo 256, so a layout of 256 bytes is sent whole and
  reported like a refusal.\<close>

theorem send_data_writes_layout:
  fixes ty :: byte and u :: bool and dir :: stream_direction
  assumes "allocates new" "vs_inv h" "length d = n"
  defines "r \<equiv> tr_send_data (get_stream_reference dir) new ty d n u h"
    and "w \<equiv> wire (new_frame ty d (of_nat n) u)"
  shows "(MAX_DATA_SIZE < n \<longrightarrow> r = (0, h))
    \<and> (n \<le> MAX_DATA_SIZE \<longrightarrow> length w \<le> 256 \<longrightarrow> length w \<le> cb_get_space (vs_tx dir h) \<longrightarrow>
        cb_list (vs_tx dir (snd r)) = cb_list (vs_tx dir h) @ w
        \<and> unat (fst r) = length w mod 256 \<and> (fst r = 0 \<longleftrightarrow> length w = 256))"
proof (intro conjI impI)
  show "r = (0, h)" if "MAX_DATA_SIZE < n"
    using that by (simp add: r_def tr_send_data_def)
next
  assume n: "n \<le> MAX_DATA_SIZE" and w: "length w \<le> 256" "length w \<le> cb_get_space (vs_tx dir h)"
  note c = virtual.send_data_correct [OF assms(2,1) n assms(3) w [unfolded w_def], folded r_def w_def]
  show "cb_list (vs_tx dir (snd r)) = cb_list (vs_tx dir h) @ w"
    using c by simp
  show len: "unat (fst r) = length w mod 256"
    using c by (simp add: unat_of_nat)
  have "0 < length w"
    by (simp add: w_def wire_def wire_header_def)
  then show "fst r = 0 \<longleftrightarrow> length w = 256"
    using len w(1) unat_eq_zero [of "fst r"] by (cases "length w = 256") auto
qed

theorem send_data_writes_layout_witness:
  "fst (tr_send_data (get_stream_reference DIRECTION_A) (\<lambda>n. replicate n 0) 0x01
      (replicate 12 0xFF @ replicate 221 0) 233 False (vs_new (\<lambda>n. replicate n 0))) = 0"
proof -
  let ?d = "replicate 12 0xFF @ replicate 221 0 :: byte list"
  let ?f = "new_frame 0x01 ?d (of_nat 233) False"
  have new: "allocates (\<lambda>n. replicate n (0::byte))" by (rule allocates_replicate)
  have h: "separators (header_bytes 233 False 1) = 0"
    by (simp add: header_bytes_def separators_def)
  have s: "separators ?d = 12"
    by (simp add: separators_def)
  have c: "checksum (replicate n b) c = c + of_nat n * b" for n :: nat and b c :: byte
    by (induction n arbitrary: c) (simp_all add: algebra_simps)
  have "checksum (header_bytes 233 False 1) 0 = 0xF2"
    by (simp add: header_bytes_def)
  then have "f_checksum ?f = 0xE2"
    using h s by (simp add: new_frame_eq Let_def sum.run_append c)
  then have len: "length (wire ?f) = 256"
    using h s by (simp add: wire_def wire_header_def wire_payload_def length_stuff trailer_def separators_Cons)
  show ?thesis
    using send_data_writes_layout [OF new vs_new_inv [OF new], of ?d 233 DIRECTION_A "0x01" False]
      len vs_new_empty(3) [OF new, of DIRECTION_A] by simp
qed

text \<open>Claim C1. End to end: over a virtual stream, any sequence of messages (type, data of at
  most 233 bytes, CRC flag) whose layouts have at most 256 bytes, each sent at one end and
  read and processed at the other by a handler with a buffer of at least 256 bytes, arrives
  as the sequence of the frames the sender built, with every byte of data.\<close>

theorem link_delivers_messages:
  assumes "allocates new" "256 \<le> n"
    and "\<forall>(ty, d, u) \<in> set ms. length d \<le> MAX_DATA_SIZE \<and> length (wire (new_frame ty d (of_nat (length d)) u)) \<le> 256"
  shows "\<exists>t h. link_session new now ms (tr_new new n, vs_new new) = Some (t, h)
    \<and> map (\<lambda>tf. (f_type (tf_frame tf), frame_data (tf_frame tf), f_use_crc (tf_frame tf))) (tr_incoming_queue t) = ms"
proof -
  have cap: "256 \<le> cb_capacity (tr_buffer (tr_new new n))"
    using tr_new_handler(3) [OF assms(1)] assms(2) by simp
  obtain t h where t: "link_session new now ms (tr_new new n, vs_new new) = Some (t, h)"
    "tr_incoming_queue t = stamp (tr_new new n) (map message_frame ms)"
    using link_session_delivers [OF assms(1) tr_new_handler(1) [OF assms(1)] vs_new_inv [OF assms(1)]
        vs_new_empty(1) [OF assms(1)] cap, of ms now] assms(3) tr_new_handler(2) [OF assms(1)]
    by (auto simp: message_frame_def split_def)
  have "map (\<lambda>f. (f_type f, frame_data f, f_use_crc f)) (map message_frame ms) = ms"
    unfolding map_map using assms(3)
    by (intro map_idI) (auto simp: message_frame_def unat_of_nat)
  then show ?thesis
    using t by (simp add: stamp_def o_def)
qed

theorem link_delivers_messages_witness:
  "\<exists>t h. link_session (\<lambda>n. replicate n 0) 0 [(0x01, [0x4D, 0xFF], True), (0x09, [], False)]
       (tr_new (\<lambda>n. replicate n 0) 256, vs_new (\<lambda>n. replicate n 0)) = Some (t, h)
     \<and> map (\<lambda>tf. frame_data (tf_frame tf)) (tr_incoming_queue t) = [[0x4D, 0xFF], []]"
proof -
  let ?ms = "[(0x01, [0x4D, 0xFF], True), (0x09, [], False)] :: (byte \<times> byte list \<times> bool) list"
  have short: "length (wire (new_frame ty d (of_nat (length d)) u)) \<le> 256" if "length d \<le> 2" for ty d u
  proof -
    let ?f = "new_frame ty d (of_nat (length d)) u"
    have n: "unat (of_nat (length d) :: byte) = length d"
      using that by (simp add: unat_of_nat)
    have "length (trailer ?f) \<le> 3" by (simp add: trailer_def)
    moreover have "separators (trailer ?f) \<le> length (trailer ?f)" "separators d \<le> length d"
      "separators (header_bytes (of_nat (length d)) u ty) \<le> 8"
      using separators_le [of "trailer ?f"] separators_le [of d]
        separators_le [of "header_bytes (of_nat (length d)) u ty"] by simp_all
    ultimately show ?thesis
      using that n by (simp add: wire_def wire_header_def wire_payload_def length_stuff)
  qed
  have cond: "\<forall>(ty, d, u) \<in> set ?ms. length d \<le> MAX_DATA_SIZE
      \<and> length (wire (new_frame ty d (of_nat (length d)) u)) \<le> 256"
  proof (intro ballI, clarify, intro conjI)
    fix ty d u assume "(ty, d, u) \<in> set ?ms"
    then have "length d \<le> 2" by auto
    then show "length d \<le> MAX_DATA_SIZE" "length (wire (new_frame ty d (of_nat (length d)) u)) \<le> 256"
      by (auto intro: short simp del: of_nat_numeral)
  qed
  obtain t h where t: "link_session (\<lambda>n. replicate n 0) 0 ?ms
      (tr_new (\<lambda>n. replicate n 0) 256, vs_new (\<lambda>n. replicate n 0)) = Some (t, h)"
    "map (\<lambda>tf. (f_type (tf_frame tf), frame_data (tf_frame tf), f_use_crc (tf_frame tf))) (tr_incoming_queue t) = ?ms"
    using link_delivers_messages [OF allocates_replicate [of 0] order_refl cond, of 0] by (elim exE conjE)
  from t(2) have "map (fst \<circ> snd) (map (\<lambda>tf. (f_type (tf_frame tf), frame_data (tf_frame tf), f_use_crc (tf_frame tf)))
      (tr_incoming_queue t)) = map (fst \<circ> snd) ?ms" by (rule arg_cong)
  then show ?thesis using t(1) by (auto simp: o_def)
qed

section \<open>Overflow, timeout and timestamps\<close>

text \<open>\<open>read_data\<close> on a virtual stream returns the number of bytes taken, the smaller
  of what is available and the capacity of the buffer. If they fit they are appended in
  stream order and the parsing state stays; if not, exactly as many of the oldest bytes as
  are missing are dropped first, and a frame being collected is abandoned so that the search
  starts again at the oldest byte kept.\<close>

lemma read_data_result:
  fixes dir :: stream_direction
  assumes "vs_inv h" "handler t ph"
  defines "avail \<equiv> cb_list (vs_rx dir h)"
    and "count \<equiv> min (length (cb_list (vs_rx dir h))) (cb_capacity (tr_buffer t))"
    and "space \<equiv> cb_get_space (tr_buffer t)"
  shows "\<exists>t' h'. tr_read_data (get_stream_reference dir) t h = (count, t', h')
    \<and> cb_list (vs_rx dir h') = drop count avail
    \<and> cb_list (tr_buffer t') = drop (count - space) (cb_list (tr_buffer t)) @ take count avail
    \<and> (count \<le> space \<longrightarrow> handler t' ph \<and> unread t' = unread t @ take count avail)
    \<and> (space < count \<longrightarrow> phase_found ph \<longrightarrow> handler t' (Search []) \<and> unread t' = cb_list (tr_buffer t'))"
proof (cases "count \<le> space")
  case True
  note c = True [unfolded count_def space_def]
  obtain t' h' where t: "tr_read_data (get_stream_reference dir) t h = (count, t', h')" "handler t' ph"
    "unread t' = unread t @ take count avail" "cb_list (vs_rx dir h') = drop count avail"
    using virtual.read_data_appends [OF assms(1,2) c] unfolding count_def avail_def by blast
  then show ?thesis
    using assms(2) True handler_stored [of t ph] handler_stored [of t' ph] by simp
next
  case False
  then have over: "space < count" by (simp only: not_le)
  note c = over [unfolded count_def space_def]
  obtain t' h' where t: "tr_read_data (get_stream_reference dir) t h = (count, t', h')"
    "cb_list (vs_rx dir h') = drop count avail"
    "cb_list (tr_buffer t') = drop (count - space) (cb_list (tr_buffer t)) @ take count avail"
    "handler t' (if phase_found ph then Search [] else Search (take (tr_pos t) (cb_list (tr_buffer t'))))"
    using virtual.read_data_overflow [OF assms(1,2) c] unfolding count_def avail_def space_def by blast
  then show ?thesis
    using over False handler_stored [of t' "Search []"] by (cases "phase_found ph") auto
qed

lemma read_data_result_example:
  "\<exists>t' h'. tr_read_data (get_stream_reference DIRECTION_B) (loaded [0xFF])
      (vs_write_array DIRECTION_A [1, 2] (vs_new (\<lambda>n. replicate n 0))) = (2, t', h')
    \<and> cb_list (tr_buffer t') = [0xFF, 1, 2]"
proof -
  have new: "allocates (\<lambda>n. replicate n (0::byte))" by (rule allocates_replicate)
  let ?h = "vs_write_array DIRECTION_A [1, 2] (vs_new (\<lambda>n. replicate n (0::byte)))"
  have tx: "vs_tx DIRECTION_A h' = vs_rx DIRECTION_B h'" for h'
    using vs_crossed [of DIRECTION_A h'] by (simp add: other_end_def)
  have "vs_inv ?h" "cb_list (vs_tx DIRECTION_A ?h) = [1, 2]"
    using virtual.write_state [OF vs_new_inv [OF new], where dir = DIRECTION_A and bs = "[1, 2]"]
      virtual.write_written [OF vs_new_inv [OF new], where dir = DIRECTION_A and bs = "[1, 2]"]
      vs_new_empty [OF new, of DIRECTION_A]
    by (simp_all add: get_stream_reference_def)
  then have h: "vs_inv ?h" "cb_list (vs_rx DIRECTION_B ?h) = [1, 2]" by (simp_all add: tx)
  have l: "handler (loaded [0xFF]) (Search [])" "unread (loaded [0xFF]) = [0xFF]"
    by (rule loaded_handler; simp)+
  then have L: "cb_list (tr_buffer (loaded [0xFF])) = [0xFF]"
    using handler_stored [OF l(1)] by simp
  then have sz: "cb_get_size (tr_buffer (loaded [0xFF])) = 1"
    by (simp flip: length_cb_list)
  have cap: "CIRCULAR_BUFFER_MINIMUM_SIZE \<le> cb_capacity (tr_buffer (loaded [0xFF]))"
    using representsD(1) [OF l(1)] by (rule cb_wfD(6))
  show ?thesis
    using read_data_result [OF h(1) l(1), of DIRECTION_B] h(2) L sz cap
    by (auto simp: cb_get_space_def CIRCULAR_BUFFER_MINIMUM_SIZE_def numeral_2_eq_2)
qed

text \<open>The frame timeout of 300 ms never fires: its guard asks for a status beyond
  \<open>FRAME_EMPTY\<close>, the last enumerator, so \<open>process_data\<close> does the same at any time; and as no
  operation assigns \<^verbatim>\<open>frame_start_\<close>, every frame received since construction carries
  the epoch of the clock as its timestamp.\<close>

lemma timeout_never_fires:
  "process_data now t = process_data now' t
   \<and> (allocates new \<longrightarrow> no_overflow (max CIRCULAR_BUFFER_MINIMUM_SIZE n) (Search []) cs \<longrightarrow>
      (\<exists>t' s. chunk_session now cs (tr_new new n, ts_new new) = Some (t', s)
        \<and> (\<forall>tf \<in> set (tr_incoming_queue t'). tf_timestamp tf = 0)))"
proof -
  have "process_data now t = process_data now' t"
    by (simp add: process_data_def frame_timeout_never)
  then show ?thesis
    using fresh_session [of new n cs now] by auto
qed

lemma timeout_never_fires_example:
  "\<exists>t' s. chunk_session 1000 [wire sample_frame] (tr_new (\<lambda>n. replicate n 0) 0, ts_new (\<lambda>n. replicate n 0)) = Some (t', s)
     \<and> (\<forall>tf \<in> set (tr_incoming_queue t'). tf_timestamp tf = 0)"
proof -
  have fits: "no_overflow (max CIRCULAR_BUFFER_MINIMUM_SIZE 0) (Search []) [wire sample_frame]"
    by (simp add: sample_wire CIRCULAR_BUFFER_MINIMUM_SIZE_def)
  show ?thesis
    using timeout_never_fires [of 1000 "loaded []" 0 "\<lambda>n. replicate n 0" 0 "[wire sample_frame]"]
      fits allocates_replicate [of 0] by blast
qed

end
