(* ===== verification/Protocol_Invariant.thy ===== *)
theory Protocol_Invariant
  imports Haier_Protocol Transport_Properties
begin

text \<open>
  The invariant of the protocol handler, what the calls made by a handler can change, and
  when \<open>loop\<close> is defined: under the contract of the stream, with handlers that pass usable
  messages, it touches no empty queue and returns, unless it sends a message that expects no answer and the memory of
  the popped queue element is not kept. A parameter \<open>k\<close> says whether there can be such messages.
\<close>

section \<open>Invariant\<close>

definition item_ok :: "bool \<Rightarrow> outgoing_item \<Rightarrow> bool" where
  "item_ok k i \<longleftrightarrow> msg_ok (oi_message i) \<and> (oi_no_answer i \<longrightarrow> k) \<and> 0 \<le> oi_number_of_retries i \<and> oi_number_of_retries i \<le> 10"

definition item_fresh :: "bool \<Rightarrow> outgoing_item \<Rightarrow> bool" where
  "item_fresh k i \<longleftrightarrow> item_ok k i \<and> 1 \<le> oi_number_of_retries i
     \<and> (oi_no_answer i \<longrightarrow> oi_number_of_retries i = 1)"

text \<open>Only the item at the front can have used up attempts.\<close>

definition queue_ok :: "bool \<Rightarrow> outgoing_item list \<Rightarrow> bool" where
  "queue_ok k q \<longleftrightarrow> (case q of [] \<Rightarrow> True | i # is \<Rightarrow> item_ok k i \<and> (oi_no_answer i \<longrightarrow> oi_number_of_retries i \<le> 1)
     \<and> (\<forall>j \<in> set is. item_fresh k j))"

definition core_ok :: "bool \<Rightarrow> 'h protocol \<Rightarrow> bool" where
  "core_ok k p \<longleftrightarrow> transport_ok (pr_transport p) \<and> queue_ok k (pr_outgoing_messages p)
     \<and> (pr_state p = WAITING_FOR_ANSWER \<longrightarrow> pr_outgoing_messages p \<noteq> [])"

definition protocol_ok :: "bool \<Rightarrow> 'h protocol \<Rightarrow> bool" where
  "protocol_ok k p \<longleftrightarrow> core_ok k p \<and> \<not> pr_processing_message p"

fun call_ok :: "bool \<Rightarrow> 'h api_call \<Rightarrow> bool" where
  "call_ok k (Send_Message m crc n i) = msg_ok m"
| "call_ok k (Send_Message_Without_Answer m crc) = (msg_ok m \<and> k)"
| "call_ok k (Send_Answer m) = msg_ok m"
| "call_ok k (Send_Answer_Crc m crc) = msg_ok m"
| "call_ok k _ = True"

text \<open>Handlers keep the invariant \<open>I\<close> of the application and pass usable messages only.\<close>

definition keeps :: "bool \<Rightarrow> ('app \<Rightarrow> bool) \<Rightarrow> ('app \<Rightarrow> 'app \<times> 'h api_call list \<times> handler_error) \<Rightarrow> bool" where
  "keeps k I h \<longleftrightarrow> (\<forall>a. I a \<longrightarrow> I (fst (h a)) \<and> (\<forall>c \<in> set (fst (snd (h a))). call_ok k c))"

definition handlers_ok :: "bool \<Rightarrow> ('app \<Rightarrow> bool) \<Rightarrow> ('s, 'h, 'app) platform \<Rightarrow> bool" where
  "handlers_ok k I pf \<longleftrightarrow> (\<forall>h ty d. keeps k I (pf_message pf h ty d))
     \<and> (\<forall>h rq ty d. keeps k I (pf_answer pf h rq ty d)) \<and> (\<forall>h rq. keeps k I (pf_timeout pf h rq))"

lemma default_handlers_keep:
  "keeps k I (default_message_handler ty d)" "keeps k I (default_answer_handler rq ty d)"
  "keeps k I (default_timeout_handler rq)"
  by (simp_all add: keeps_def default_message_handler_def default_answer_handler_def default_timeout_handler_def)

lemma fresh_ok: "item_fresh k i \<Longrightarrow> item_ok k i"
  by (simp add: item_fresh_def)

lemma queue_ok_append: "queue_ok k q \<Longrightarrow> \<forall>i \<in> set new. item_fresh k i \<Longrightarrow> queue_ok k (q @ new)"
  by (cases q; cases new) (auto simp: queue_ok_def item_fresh_def)

lemma queue_ok_tl: "queue_ok k (i # is) \<Longrightarrow> queue_ok k is"
  by (cases "is") (auto simp: queue_ok_def item_fresh_def)

lemma on_protocol_sel [simp]:
  "w_protocol (on_protocol g w) = g (w_protocol w)" "w_stream (on_protocol g w) = w_stream w"
  "w_tick (on_protocol g w) = w_tick w" "w_app (on_protocol g w) = w_app w"
  by (simp_all add: on_protocol_def)

lemma msg_ok_default: "msg_ok (msg_new ty sub None 0)"
  by (rule msg_new_ok) simp

section \<open>What calls from a handler change\<close>

definition callback :: "bool \<Rightarrow> ('s, 'h, 'app) world \<Rightarrow> ('s, 'h, 'app) world \<Rightarrow> bool" where
  "callback k w w' \<longleftrightarrow>
     (let p = w_protocol w; p' = w_protocol w'
      in pr_transport p' = pr_transport p \<and> pr_state p' = pr_state p
         \<and> pr_processing_message p' = pr_processing_message p
         \<and> pr_incoming_message_crc_status p' = pr_incoming_message_crc_status p
         \<and> pr_last_message_type p' = pr_last_message_type p
         \<and> pr_answer_time_point p' = pr_answer_time_point p
         \<and> pr_retry_time_point p' = pr_retry_time_point p
         \<and> w_tick w \<le> w_tick w'
         \<and> (\<exists>new. pr_outgoing_messages p' = pr_outgoing_messages p @ new \<and> (\<forall>i \<in> set new. item_fresh k i)))"

lemma callback_refl: "callback k w w"
  by (simp add: callback_def)

lemma callback_trans: "callback k u v \<Longrightarrow> callback k v w \<Longrightarrow> callback k u w"
  by (auto simp: callback_def Let_def)

lemma callback_app [simp]: "callback k (w\<lparr>w_app := a\<rparr>) w' = callback k w w'"
  by (simp add: callback_def)

lemma send_message_callback:
  fixes k :: bool
  assumes "msg_ok m"
  shows "\<exists>w'. send_message m crc n i w = Some w' \<and> callback k w w' \<and> w_stream w' = w_stream w
    \<and> w_tick w' = w_tick w \<and> w_app w' = w_app w"
    and "k \<Longrightarrow> \<exists>w'. send_message_without_answer m crc w = Some w' \<and> callback k w w' \<and> w_stream w' = w_stream w
    \<and> w_tick w' = w_tick w \<and> w_app w' = w_app w"
proof -
  obtain c where c: "msg_copy m = Some c" "msg_ok c" using msg_copy_correct [OF assms] by blast
  obtain d where d: "msg_copy c = Some d" "msg_ok d" using msg_copy_correct [OF c(2)] by blast
  show "\<exists>w'. send_message m crc n i w = Some w' \<and> callback k w w' \<and> w_stream w' = w_stream w
    \<and> w_tick w' = w_tick w \<and> w_app w' = w_app w"
    using c d by (simp add: send_message_def callback_def item_fresh_def item_ok_def)
  show "\<exists>w'. send_message_without_answer m crc w = Some w' \<and> callback k w w' \<and> w_stream w' = w_stream w
    \<and> w_tick w' = w_tick w \<and> w_app w' = w_app w" if k
    using that c d by (simp add: send_message_without_answer_def callback_def item_fresh_def item_ok_def)
qed

text \<open>Writing a message hands its payload to the transport layer and always ends with the
  cooldown restarted at the clock reading taken after the send, whether it succeeded or not.\<close>

definition sent_frame :: "('s, 'h, 'app) platform \<Rightarrow> haier_message \<Rightarrow> bool \<Rightarrow> 's \<Rightarrow> byte \<times> 's" where
  "sent_frame pf m crc s = tr_send_data (pf_ops pf) (pf_new pf) (m_frame_type m) (msg_payload m)
     (length (msg_payload m)) crc s"

definition after_write :: "('s, 'h, 'app) platform \<Rightarrow> 's \<Rightarrow> ('s, 'h, 'app) world \<Rightarrow> ('s, 'h, 'app) world" where
  "after_write pf s w = w\<lparr>w_stream := s, w_tick := w_tick w + 1,
     w_protocol := (w_protocol w)\<lparr>pr_cooldown_time_point :=
       pf_clock pf (w_tick w) + pr_cooldown_interval (w_protocol w)\<rparr>\<rparr>"

lemma after_write_sel [simp]:
  "w_stream (after_write pf s w) = s" "w_tick (after_write pf s w) = w_tick w + 1"
  "w_app (after_write pf s w) = w_app w"
  "w_protocol (after_write pf s w) = (w_protocol w)\<lparr>pr_cooldown_time_point :=
     pf_clock pf (w_tick w) + pr_cooldown_interval (w_protocol w)\<rparr>"
  by (simp_all add: after_write_def)

lemma write_message_eq:
  assumes "allocates (pf_new pf)" "msg_ok m"
  shows "write_message pf m crc w = Some (0 < fst (sent_frame pf m crc (w_stream w)),
    after_write pf (snd (sent_frame pf m crc (w_stream w))) w)"
proof -
  have fill: "msg_fill_buffer m (pf_new pf (msg_get_buffer_size m)) (msg_get_buffer_size m)
      = Some (msg_get_buffer_size m, msg_payload m)"
    using msg_fill_buffer_correct [OF assms(2), of "msg_get_buffer_size m" "pf_new pf (msg_get_buffer_size m)"]
      assms(1) by simp
  have len: "length (msg_payload m) = msg_get_buffer_size m"
    by (rule length_msg_payload [OF assms(2)])
  show ?thesis
  proof (cases "msg_get_buffer_size m = 0")
    case True
    then have "msg_payload m = []" using len by simp
    then show ?thesis
      unfolding write_message_def Let_def sent_frame_def
      using True by (simp add: split_def read_clock_def on_protocol_def after_write_def)
  next
    case False
    then show ?thesis
      unfolding write_message_def Let_def sent_frame_def fill len
      by (simp add: split_def read_clock_def on_protocol_def after_write_def)
  qed
qed

text \<open>A message that expects no answer is transmitted now: the queue element is popped before its counter is decremented.\<close>

definition pops_unanswered :: "('s, 'h, 'app) platform \<Rightarrow> millis \<Rightarrow> ('s, 'h, 'app) world \<Rightarrow> bool" where
  "pops_unanswered pf now w \<longleftrightarrow> (case pr_outgoing_messages (w_protocol w) of
      [] \<Rightarrow> False
    | i # _ \<Rightarrow> oi_no_answer i \<and> pr_cooldown_time_point (w_protocol w) \<le> now \<and> pr_retry_time_point (w_protocol w) \<le> now
        \<and> 0 < oi_number_of_retries i \<and> 0 < fst (sent_frame pf (oi_message i) (oi_use_crc i) (w_stream w)))"

text \<open>The call of the loop does so in a world as \<open>dispatch\<close> finds it, and the memory is not kept.\<close>

definition dispatch_undefined :: "('s, 'h, 'app) platform \<Rightarrow> millis \<Rightarrow> ('s, 'h, 'app) world \<Rightarrow> bool" where
  "dispatch_undefined pf now w \<longleftrightarrow> \<not> pf_popped_kept pf \<and> pr_state (w_protocol w) = IDLE
     \<and> (case idle_receive pf w of None \<Rightarrow> False | Some w1 \<Rightarrow> pops_unanswered pf now w1)"

definition loop_undefined :: "('s, 'h, 'app) platform \<Rightarrow> ('s, 'h, 'app) world \<Rightarrow> bool" where
  "loop_undefined pf w \<longleftrightarrow>
     (let (_, t1, s1) = tr_read_data (pf_ops pf) (pr_transport (w_protocol w)) (w_stream w)
      in case process_data (pf_clock pf (w_tick w)) t1 of
           None \<Rightarrow> False
         | Some t2 \<Rightarrow> dispatch_undefined pf (pf_clock pf (w_tick w))
             (w\<lparr>w_stream := s1, w_protocol := (w_protocol w)\<lparr>pr_transport := t2\<rparr>, w_tick := w_tick w + 1\<rparr>))"

lemma pops_unanswered_never: "protocol_ok False (w_protocol w) \<Longrightarrow> \<not> pops_unanswered pf now w"
  by (auto simp: pops_unanswered_def protocol_ok_def core_ok_def queue_ok_def item_ok_def split: list.splits)

text \<open>An idle handler drops all frames but the last and hands that one to the message handler.\<close>

definition accepted :: "frame \<Rightarrow> ('s, 'h, 'app) world \<Rightarrow> ('s, 'h, 'app) world" where
  "accepted f w = on_protocol (\<lambda>p. p\<lparr>pr_transport := (pr_transport p)\<lparr>tr_incoming_queue := []\<rparr>,
     pr_incoming_message_crc_status := f_use_crc f, pr_processing_message := True, pr_answer_sent := False\<rparr>) w"

lemma idle_receive_empty:
  "tr_incoming_queue (pr_transport (w_protocol w)) = [] \<Longrightarrow> idle_receive pf w = Some w"
  by (simp add: idle_receive_def tr_available_def on_protocol_def)

lemma idle_receive_frame:
  assumes "tr_incoming_queue (pr_transport (w_protocol w)) \<noteq> []"
  defines "f \<equiv> tf_frame (last (tr_incoming_queue (pr_transport (w_protocol w))))"
  shows "idle_receive pf w = do {
    (hres, w2) \<leftarrow> call_message_handler pf (f_type f) (frame_data f) (accepted f w);
    Some (on_protocol (\<lambda>p. p\<lparr>pr_processing_message := False\<rparr>) w2)}"
proof -
  let ?t = "pr_transport (w_protocol w)"
  obtain q tf where q: "tr_incoming_queue ?t = q @ [tf]"
    using assms(1) by (cases "tr_incoming_queue ?t" rule: rev_cases) auto
  have drop: "(if tr_available ?t > 1 then tr_drop (tr_available ?t - 1) ?t else ?t)
      = ?t\<lparr>tr_incoming_queue := [tf]\<rparr>"
    using q by (auto simp: tr_available_def tr_drop_eq)
  have one: "(if tr_available ?t > 1 then 1 else tr_available ?t) = 1"
    using q by (auto simp: tr_available_def)
  show ?thesis
    unfolding idle_receive_def Let_def drop one
    using q by (simp add: tr_pop_def f_def accepted_def on_protocol_def)
qed

context byte_stream
begin

lemma send_data_sinv: "sinv s \<Longrightarrow> sinv (snd (tr_send_data ops new ty d n u s))"
  by (simp add: tr_send_data_def Let_def write_state)

lemma send_data_pending: "sinv s \<Longrightarrow> pending (snd (tr_send_data ops new ty d n u s)) = pending s"
  by (simp add: tr_send_data_def Let_def write_state)

lemma sent_frame_sinv:
  "pf_ops pf = ops \<Longrightarrow> sinv s \<Longrightarrow> sinv (snd (sent_frame pf m crc s))"
  by (simp add: sent_frame_def send_data_sinv)

lemma exec_call_total:
  assumes "pf_ops pf = ops" "allocates (pf_new pf)" "call_ok k c" "sinv (w_stream w)"
  shows "\<exists>w'. exec_call pf c w = Some w' \<and> callback k w w' \<and> sinv (w_stream w') \<and> w_app w' = w_app w"
proof -
  have answer: "\<exists>w'. send_answer_crc pf m crc w = Some w' \<and> callback k w w' \<and> sinv (w_stream w') \<and> w_app w' = w_app w" if "msg_ok m" for m crc
    using write_message_eq [of pf m crc w] that assms sent_frame_sinv [OF assms(1,4), of m crc]
    by (simp add: send_answer_crc_def callback_def)
  show ?thesis
  proof (cases c)
    case (Send_Message m crc n i)
    then show ?thesis using send_message_callback(1) [where k = k and m = m and crc = crc and n = n and i = i and w = w] assms(3,4) by auto
  next
    case (Send_Message_Without_Answer m crc)
    then show ?thesis using send_message_callback(2) [where k = k and m = m and crc = crc and w = w] assms(3,4) by auto
  next
    case (Send_Answer m)
    then show ?thesis using answer assms(3) by (simp add: send_answer_def)
  next
    case (Send_Answer_Crc m crc)
    then show ?thesis using answer assms(3) by simp
  qed (use assms(4) in \<open>simp_all add: callback_def no_answer_def pr_set_answer_timeout_def
      pr_set_cooldown_interval_def pr_set_message_handler_def pr_remove_message_handler_def
      pr_set_answer_handler_def pr_remove_answer_handler_def pr_set_timeout_handler_def
      pr_remove_timeout_handler_def pr_set_default_message_handler_def
      pr_set_default_answer_handler_def pr_set_default_timeout_handler_def\<close>)
qed

lemma exec_calls_total:
  assumes "pf_ops pf = ops" "allocates (pf_new pf)"
  shows "\<forall>c \<in> set cs. call_ok k c \<Longrightarrow> sinv (w_stream w) \<Longrightarrow>
    \<exists>w'. exec_calls pf cs w = Some w' \<and> callback k w w' \<and> sinv (w_stream w') \<and> w_app w' = w_app w"
proof (induction cs arbitrary: w)
  case Nil
  then show ?case by (simp add: callback_refl)
next
  case (Cons c cs)
  obtain w1 where w1: "exec_call pf c w = Some w1" "callback k w w1" "sinv (w_stream w1)" "w_app w1 = w_app w"
    using exec_call_total [OF assms, where k = k and c = c and w = w] Cons.prems by auto
  obtain w2 where "exec_calls pf cs w1 = Some w2" "callback k w1 w2" "sinv (w_stream w2)" "w_app w2 = w_app w1"
    using Cons.IH [OF _ w1(3)] Cons.prems(1) by auto
  then show ?case using w1 callback_trans by auto
qed

lemma run_handler_total:
  assumes "pf_ops pf = ops" "allocates (pf_new pf)" "sinv (w_stream w)" "I (w_app w)" "keeps k I h"
  shows "\<exists>e w'. run_handler pf h w = Some (e, w') \<and> callback k w w' \<and> sinv (w_stream w') \<and> I (w_app w')"
proof -
  have "\<forall>c \<in> set (fst (snd (h (w_app w)))). call_ok k c" "I (fst (h (w_app w)))"
    using assms(4,5) by (simp_all add: keeps_def)
  from exec_calls_total [OF assms(1,2) this(1), of "w\<lparr>w_app := fst (h (w_app w))\<rparr>"] this(2)
  show ?thesis using assms(3) by (auto simp: run_handler_def split_def Let_def callback_def)
qed

lemma call_handlers_total:
  assumes "pf_ops pf = ops" "allocates (pf_new pf)" "handlers_ok k I pf" "sinv (w_stream w)" "I (w_app w)"
  shows "\<exists>e w'. call_message_handler pf ty d w = Some (e, w') \<and> callback k w w' \<and> sinv (w_stream w') \<and> I (w_app w')"
    and "\<exists>e w'. call_answer_handler pf rq ty d w = Some (e, w') \<and> callback k w w' \<and> sinv (w_stream w') \<and> I (w_app w')"
    and "\<exists>e w'. call_timeout_handler pf rq w = Some (e, w') \<and> callback k w w' \<and> sinv (w_stream w') \<and> I (w_app w')"
  unfolding call_message_handler_def call_answer_handler_def call_timeout_handler_def Let_def
  using run_handler_total [where I = I, OF assms(1,2,4,5)] assms(3)
  by (auto simp: handlers_ok_def default_handlers_keep split: option.split)

lemma callback_core: "callback k w w' \<Longrightarrow> core_ok k (w_protocol w) \<Longrightarrow> core_ok k (w_protocol w')"
  by (auto simp: callback_def core_ok_def Let_def queue_ok_append)

section \<open>The steps of the loop\<close>

lemma transport_ok_pop: "transport_ok t \<Longrightarrow> transport_ok (snd (tr_pop t))" "transport_ok t \<Longrightarrow> transport_ok (tr_drop n t)"
  by (auto simp: transport_ok_def tr_pop_eq tr_drop_eq)

lemma idle_receive_total:
  assumes pf: "pf_ops pf = ops" "allocates (pf_new pf)" "handlers_ok k I pf"
    and w: "sinv (w_stream w)" "I (w_app w)" "protocol_ok k (w_protocol w)" "pr_state (w_protocol w) = IDLE"
  shows "\<exists>w'. idle_receive pf w = Some w' \<and> sinv (w_stream w') \<and> I (w_app w') \<and> protocol_ok k (w_protocol w')
    \<and> pr_state (w_protocol w') = IDLE"
proof (cases "tr_incoming_queue (pr_transport (w_protocol w)) = []")
  case True
  then show ?thesis
    using w idle_receive_empty by blast
next
  case False
  let ?f = "tf_frame (last (tr_incoming_queue (pr_transport (w_protocol w))))"
  have core: "core_ok k (w_protocol (accepted ?f w))" "pr_state (w_protocol (accepted ?f w)) = IDLE"
    "sinv (w_stream (accepted ?f w))" "I (w_app (accepted ?f w))"
    using w by (simp_all add: accepted_def core_ok_def protocol_ok_def transport_ok_def)
  obtain e w2 where call: "call_message_handler pf (f_type ?f) (frame_data ?f) (accepted ?f w) = Some (e, w2)"
    "callback k (accepted ?f w) w2" "sinv (w_stream w2)" "I (w_app w2)"
    using call_handlers_total(1) [OF pf core(3,4)] by blast
  have "core_ok k (w_protocol w2)" "pr_state (w_protocol w2) = IDLE"
    using callback_core [OF call(2) core(1)] call(2) core(2) by (simp_all add: callback_def Let_def)
  then show ?thesis
    using call(1,3,4) idle_receive_frame [OF False, of pf] by (simp add: protocol_ok_def core_ok_def)
qed

lemma idle_send_total:
  assumes pf: "pf_ops pf = ops" "allocates (pf_new pf)"
    and w: "sinv (w_stream w)" "I (w_app w)" "protocol_ok k (w_protocol w)" "pr_state (w_protocol w) = IDLE"
  shows "if \<not> pf_popped_kept pf \<and> pops_unanswered pf now w then idle_send pf now w = None
    else \<exists>w'. idle_send pf now w = Some w' \<and> sinv (w_stream w') \<and> I (w_app w') \<and> protocol_ok k (w_protocol w')"
proof (cases "pr_outgoing_messages (w_protocol w)")
  case Nil
  then show ?thesis using w by (simp add: idle_send_def pops_unanswered_def)
next
  case (Cons msg rest)
  then have q: "item_ok k msg" "queue_ok k rest" "queue_ok k (msg # rest)" "transport_ok (pr_transport (w_protocol w))"
    using w(3) queue_ok_tl [of k msg rest] by (simp_all add: protocol_ok_def core_ok_def queue_ok_def)
  have m: "msg_ok (oi_message msg)" using q(1) by (simp add: item_ok_def)
  have dec: "queue_ok k (msg\<lparr>oi_number_of_retries := oi_number_of_retries msg - 1\<rparr> # rest)"
    if "oi_number_of_retries msg > 0"
    using q(3) that by (auto simp: queue_ok_def item_ok_def)
  show ?thesis
    using Cons w q dec sent_frame_sinv [OF pf(1) w(1), of "oi_message msg" "oi_use_crc msg"]
    by (simp add: idle_send_def Let_def write_message_eq [OF pf(2) m] protocol_ok_def core_ok_def pops_unanswered_def)
qed

lemma waiting_timeout_total:
  assumes pf: "pf_ops pf = ops" "allocates (pf_new pf)" "handlers_ok k I pf"
    and w: "sinv (w_stream w)" "I (w_app w)" "protocol_ok k (w_protocol w)" "pr_state (w_protocol w) = WAITING_FOR_ANSWER"
  shows "\<exists>w'. waiting_timeout pf now w = Some w' \<and> sinv (w_stream w') \<and> I (w_app w') \<and> protocol_ok k (w_protocol w')
    \<and> pr_state (w_protocol w') = IDLE"
proof -
  obtain msg rest where q: "pr_outgoing_messages (w_protocol w) = msg # rest"
    using w(3,4) by (cases "pr_outgoing_messages (w_protocol w)") (auto simp: protocol_ok_def core_ok_def)
  have ok: "transport_ok (pr_transport (w_protocol w))" "queue_ok k (msg # rest)" "\<not> pr_processing_message (w_protocol w)"
    using w(3) q by (simp_all add: protocol_ok_def core_ok_def)
  show ?thesis
  proof (cases "oi_number_of_retries msg = 0")
    case False
    then show ?thesis
      using q ok w(1,2) by (simp add: waiting_timeout_def protocol_ok_def core_ok_def)
  next
    case True
    define w1 where "w1 = w\<lparr>w_protocol := (w_protocol w)\<lparr>pr_outgoing_messages := rest, pr_retry_time_point := now\<rparr>\<rparr>"
    have s1: "sinv (w_stream w1)" "I (w_app w1)" using w(1,2) by (simp_all add: w1_def)
    obtain e w2 where call: "call_timeout_handler pf (pr_last_message_type (w_protocol w)) w1 = Some (e, w2)"
      "callback k w1 w2" "sinv (w_stream w2)" "I (w_app w2)"
      using call_handlers_total(3) [OF pf s1] by blast
    have "waiting_timeout pf now w = Some (on_protocol (\<lambda>p. p\<lparr>pr_state := IDLE\<rparr>) w2)"
      unfolding waiting_timeout_def using q True call(1) by (simp add: pop_outgoing_def w1_def)
    moreover have "transport_ok (pr_transport (w_protocol w2))" "queue_ok k (pr_outgoing_messages (w_protocol w2))"
      "\<not> pr_processing_message (w_protocol w2)"
      using call(2) ok queue_ok_tl [OF ok(2)] by (auto simp: callback_def Let_def w1_def queue_ok_append)
    ultimately show ?thesis
      using call(3,4) by (simp add: protocol_ok_def core_ok_def)
  qed
qed

lemma waiting_answer_total:
  assumes pf: "pf_ops pf = ops" "allocates (pf_new pf)" "handlers_ok k I pf"
    and w: "sinv (w_stream w)" "I (w_app w)" "protocol_ok k (w_protocol w)" "pr_state (w_protocol w) = WAITING_FOR_ANSWER"
    and av: "tr_available (pr_transport (w_protocol w)) > 0"
  shows "\<exists>w'. waiting_answer pf now w = Some w' \<and> sinv (w_stream w') \<and> I (w_app w') \<and> protocol_ok k (w_protocol w')
    \<and> pr_state (w_protocol w') = IDLE"
proof -
  have ok: "transport_ok (pr_transport (w_protocol w))" "core_ok k (w_protocol w)" "\<not> pr_processing_message (w_protocol w)"
    using w(3) by (simp_all add: protocol_ok_def core_ok_def)
  obtain tf t1 where pop: "tr_pop (pr_transport (w_protocol w)) = (Some tf, t1)"
    using av by (simp add: tr_pop_eq tr_available_def)
  then have t1: "transport_ok t1"
    using transport_ok_pop(1) [OF ok(1)] by simp
  define w0 where "w0 = on_protocol (\<lambda>p. p\<lparr>pr_transport := t1\<rparr>) w"
  have core: "core_ok k (w_protocol w0)" "sinv (w_stream w0)" "I (w_app w0)"
    using t1 ok(2) w(1,2) by (simp_all add: w0_def core_ok_def)
  obtain e w1 where call: "call_answer_handler pf (pr_last_message_type (w_protocol w)) (f_type (tf_frame tf))
      (frame_data (tf_frame tf)) w0 = Some (e, w1)" "callback k w0 w1" "sinv (w_stream w1)" "I (w_app w1)"
    using call_handlers_total(2) [OF pf core(2,3)] by blast
  have c1: "core_ok k (w_protocol w1)" "pr_state (w_protocol w1) = WAITING_FOR_ANSWER" "\<not> pr_processing_message (w_protocol w1)"
    using callback_core [OF call(2) core(1)] call(2) w(4) ok(3) by (simp_all add: callback_def Let_def w0_def)
  then obtain msg rest where q: "pr_outgoing_messages (w_protocol w1) = msg # rest" "queue_ok k (msg # rest)"
    by (cases "pr_outgoing_messages (w_protocol w1)") (auto simp: core_ok_def)
  have "waiting_answer pf now w = Some (w1\<lparr>w_protocol := (w_protocol w1)\<lparr>pr_outgoing_messages := rest,
      pr_retry_time_point := now, pr_state := IDLE\<rparr>\<rparr>)"
    unfolding waiting_answer_def using pop call(1) q(1) by (simp add: pop_outgoing_def w0_def)
  then show ?thesis
    using c1 q(2) queue_ok_tl [OF q(2)] call(3,4) by (simp add: protocol_ok_def core_ok_def)
qed

lemma dispatch_total:
  assumes pf: "pf_ops pf = ops" "allocates (pf_new pf)" "handlers_ok k I pf"
    and w: "sinv (w_stream w)" "I (w_app w)" "protocol_ok k (w_protocol w)"
  shows "if dispatch_undefined pf now w then dispatch pf now w = None
    else \<exists>w'. dispatch pf now w = Some w' \<and> sinv (w_stream w') \<and> I (w_app w') \<and> protocol_ok k (w_protocol w')"
proof (cases "pr_state (w_protocol w)")
  case IDLE
  obtain w1 where w1: "idle_receive pf w = Some w1" "sinv (w_stream w1)" "I (w_app w1)" "protocol_ok k (w_protocol w1)"
    "pr_state (w_protocol w1) = IDLE"
    using idle_receive_total [OF assms IDLE] by blast
  then show ?thesis
    using IDLE idle_send_total [where I = I, OF pf(1,2) w1(2,3,4,5), of now] by (simp add: dispatch_def dispatch_undefined_def)
next
  case WAITING_FOR_ANSWER
  then show ?thesis
    using waiting_timeout_total [OF assms WAITING_FOR_ANSWER, of now]
      waiting_answer_total [OF assms WAITING_FOR_ANSWER, of now] w
    by (auto simp: dispatch_def dispatch_undefined_def)
qed

text \<open>The world after reading and processing, as \<open>dispatch\<close> finds it.\<close>

lemma loop_polled:
  assumes "pf_ops pf = ops" "sinv (w_stream w)" "I (w_app w)" "protocol_ok k (w_protocol w)"
  obtains w1 where "loop pf w = dispatch pf (pf_clock pf (w_tick w)) w1"
    "loop_undefined pf w = dispatch_undefined pf (pf_clock pf (w_tick w)) w1"
    "sinv (w_stream w1)" "I (w_app w1)" "protocol_ok k (w_protocol w1)"
proof -
  let ?r = "tr_read_data ops (pr_transport (w_protocol w)) (w_stream w)"
  have t: "transport_ok (pr_transport (w_protocol w))"
    using assms(4) by (simp add: protocol_ok_def core_ok_def)
  have rd: "transport_ok (fst (snd ?r))" "sinv (snd (snd ?r))"
    using read_data_ok [OF assms(2) t] by simp_all
  then obtain t2 where t2: "process_data (pf_clock pf (w_tick w)) (fst (snd ?r)) = Some t2" "transport_ok t2"
    using process_data_decodes unfolding transport_ok_def settled_def by blast
  define w1 where "w1 = w\<lparr>w_stream := snd (snd ?r), w_protocol := (w_protocol w)\<lparr>pr_transport := t2\<rparr>,
    w_tick := w_tick w + 1\<rparr>"
  have "loop pf w = dispatch pf (pf_clock pf (w_tick w)) w1"
    "loop_undefined pf w = dispatch_undefined pf (pf_clock pf (w_tick w)) w1"
    using t2(1) assms(1) by (simp_all add: loop_def loop_undefined_def split_def read_clock_def w1_def)
  then show ?thesis
    using that rd(2) t2(2) assms(3,4) by (simp add: w1_def protocol_ok_def core_ok_def)
qed

lemma loop_cases:
  assumes pf: "pf_ops pf = ops" "allocates (pf_new pf)" "handlers_ok k I pf"
    and w: "sinv (w_stream w)" "I (w_app w)" "protocol_ok k (w_protocol w)"
  shows "if loop_undefined pf w then loop pf w = None
    else \<exists>w'. loop pf w = Some w' \<and> sinv (w_stream w') \<and> I (w_app w') \<and> protocol_ok k (w_protocol w')"
proof -
  obtain w1 where "loop pf w = dispatch pf (pf_clock pf (w_tick w)) w1"
    "loop_undefined pf w = dispatch_undefined pf (pf_clock pf (w_tick w)) w1"
    "sinv (w_stream w1)" "I (w_app w1)" "protocol_ok k (w_protocol w1)"
    by (rule loop_polled [where I = I, OF pf(1) w])
  then show ?thesis using dispatch_total [OF pf, of w1 "pf_clock pf (w_tick w)"] by simp
qed

text \<open>The call is defined when popped elements are kept, and when no message without answer is queued or sent by a handler.\<close>

lemma loop_defined:
  assumes pf: "pf_ops pf = ops" "allocates (pf_new pf)" "handlers_ok k I pf"
    and w: "sinv (w_stream w)" "I (w_app w)" "protocol_ok k (w_protocol w)"
    and k: "k \<longrightarrow> pf_popped_kept pf"
  shows "\<not> loop_undefined pf w"
proof
  assume u: "loop_undefined pf w"
  obtain w1 where w1: "loop_undefined pf w = dispatch_undefined pf (pf_clock pf (w_tick w)) w1"
    "sinv (w_stream w1)" "I (w_app w1)" "protocol_ok k (w_protocol w1)"
    by (rule loop_polled [where I = I, OF pf(1) w])
  then have idle: "pr_state (w_protocol w1) = IDLE" "\<not> k" using u k by (auto simp: dispatch_undefined_def)
  then obtain w2 where "idle_receive pf w1 = Some w2" "protocol_ok k (w_protocol w2)"
    using idle_receive_total [OF pf w1(2-4)] by blast
  then show False
    using u w1(1) idle(2) pops_unanswered_never [of w2 pf "pf_clock pf (w_tick w)"] by (simp add: dispatch_undefined_def)
qed

lemma loop_total:
  assumes "pf_ops pf = ops" "allocates (pf_new pf)" "handlers_ok k I pf"
    and "sinv (w_stream w)" "I (w_app w)" "protocol_ok k (w_protocol w)" "k \<longrightarrow> pf_popped_kept pf"
  shows "\<exists>w'. loop pf w = Some w' \<and> sinv (w_stream w') \<and> I (w_app w') \<and> protocol_ok k (w_protocol w')"
  using loop_cases [OF assms(1-6)] loop_defined [OF assms] by simp

end

end
