(* ===== verification/Protocol_Properties.thy ===== *)
theory Protocol_Properties
  imports Protocol_Invariant
begin

text \<open>
  The properties of the protocol handler: totality and invariant of the loop, the life of a
  request without an answer and of one that cannot be sent, the cooldown, the handling of
  incoming frames in both states, and a whole request and answer between two handlers on
  the two ends of a virtual stream.
\<close>

section \<open>A handler with nothing coming in\<close>

definition quiet :: "stream_direction \<Rightarrow> (virtual_stream_holder, 'h, 'app) world \<Rightarrow> bool" where
  "quiet dir w \<longleftrightarrow> settled (pr_transport (w_protocol w)) (Search [])
     \<and> tr_incoming_queue (pr_transport (w_protocol w)) = []
     \<and> vs_inv (w_stream w) \<and> cb_list (vs_rx dir (w_stream w)) = []"

text \<open>The world after reading and processing, before the state is dispatched.\<close>

definition ticked :: "transport \<Rightarrow> 's \<Rightarrow> ('s, 'h, 'app) world \<Rightarrow> ('s, 'h, 'app) world" where
  "ticked t s w = w\<lparr>w_stream := s, w_protocol := (w_protocol w)\<lparr>pr_transport := t\<rparr>, w_tick := w_tick w + 1\<rparr>"

lemma ticked_sel [simp]:
  "w_stream (ticked t s w) = s" "w_tick (ticked t s w) = w_tick w + 1" "w_app (ticked t s w) = w_app w"
  "w_protocol (ticked t s w) = (w_protocol w)\<lparr>pr_transport := t\<rparr>"
  by (simp_all add: ticked_def)

lemma loop_eq:
  assumes "tr_read_data (pf_ops pf) (pr_transport (w_protocol w)) (w_stream w) = (n, t1, s1)"
    and "process_data (pf_clock pf (w_tick w)) t1 = Some t2"
  shows "loop pf w = dispatch pf (pf_clock pf (w_tick w)) (ticked t2 s1 w)"
  using assms by (simp add: loop_def read_clock_def ticked_def)

lemma quiet_loop:
  assumes pf: "pf_ops pf = get_stream_reference dir" and q: "quiet dir w"
  shows "\<exists>t s. loop pf w = dispatch pf (pf_clock pf (w_tick w)) (ticked t s w)
    \<and> quiet dir (ticked t s w) \<and> cb_list (vs_tx dir s) = cb_list (vs_tx dir (w_stream w))"
proof -
  let ?t = "pr_transport (w_protocol w)"
  have h: "handler ?t (Search [])" "unread ?t = []" and s: "vs_inv (w_stream w)" "cb_list (vs_rx dir (w_stream w)) = []"
    and q0: "tr_incoming_queue ?t = []"
    using q by (simp_all add: quiet_def settled_def)
  obtain t1 s1 where rd: "tr_read_data (get_stream_reference dir) ?t (w_stream w) = (0, t1, s1)"
    "handler t1 (Search [])" "unread t1 = []" "tr_incoming_queue t1 = []" "vs_inv s1"
    "cb_list (vs_rx dir s1) = []" "cb_list (vs_tx dir s1) = cb_list (vs_tx dir (w_stream w))"
    using virtual.read_data_appends [OF s(1) h(1), of dir] q0 unfolding s(2) h(2) by auto
  obtain t2 where pd: "process_data (pf_clock pf (w_tick w)) t1 = Some t2" "settled t2 (Search [])"
    "tr_incoming_queue t2 = []"
    using process_data_decodes [OF rd(2), of "pf_clock pf (w_tick w)"] rd(3,4) by auto
  have "loop pf w = dispatch pf (pf_clock pf (w_tick w)) (ticked t2 s1 w)"
    using loop_eq [of pf w 0 t1 s1 t2] rd(1) pd(1) pf by simp
  moreover have "quiet dir (ticked t2 s1 w)"
    using rd pd by (simp add: quiet_def)
  ultimately show ?thesis using rd(7) by blast
qed

section \<open>What a send reports and writes\<close>

definition item_frame :: "outgoing_item \<Rightarrow> frame" where
  "item_frame i = new_frame (m_frame_type (oi_message i)) (msg_payload (oi_message i))
     (of_nat (length (msg_payload (oi_message i)))) (oi_use_crc i)"

lemma sent_frame_refused:
  "MAX_DATA_SIZE < length (msg_payload m) \<Longrightarrow> sent_frame pf m crc s = (0, s)"
  by (simp add: sent_frame_def tr_send_data_def)

lemma sent_frame_written:
  fixes crc :: bool
  assumes "pf_ops pf = get_stream_reference dir" "allocates (pf_new pf)" "vs_inv s"
    and "length (msg_payload m) \<le> MAX_DATA_SIZE"
  defines "f \<equiv> new_frame (m_frame_type m) (msg_payload m) (of_nat (length (msg_payload m))) crc"
  assumes "length (wire f) < 256" "length (wire f) \<le> cb_get_space (vs_tx dir s)"
  shows "0 < fst (sent_frame pf m crc s)"
    "cb_list (vs_tx dir (snd (sent_frame pf m crc s))) = cb_list (vs_tx dir s) @ wire f"
    "vs_inv (snd (sent_frame pf m crc s))"
    "cb_list (vs_rx dir (snd (sent_frame pf m crc s))) = cb_list (vs_rx dir s)"
    "cb_get_space (vs_tx dir (snd (sent_frame pf m crc s))) = cb_get_space (vs_tx dir s) - length (wire f)"
proof -
  have w: "length (wire f) \<le> 256" using assms(6) by simp
  note c = virtual.send_data_correct [OF assms(3,2,4) refl, of "m_frame_type m" crc dir, folded f_def, OF w assms(7)]
  have fst: "fst (sent_frame pf m crc s) = of_nat (length (wire f))"
    using c assms(1) by (simp add: sent_frame_def)
  have "0 < length (wire f)" by (simp add: wire_def wire_header_def)
  then have "unat (fst (sent_frame pf m crc s)) \<noteq> 0"
    using assms(6) unfolding fst by (simp add: unat_of_nat)
  then show "0 < fst (sent_frame pf m crc s)"
    by (auto simp: word_gt_0)
  show tx: "cb_list (vs_tx dir (snd (sent_frame pf m crc s))) = cb_list (vs_tx dir s) @ wire f"
    and inv: "vs_inv (snd (sent_frame pf m crc s))"
    and "cb_list (vs_rx dir (snd (sent_frame pf m crc s))) = cb_list (vs_rx dir s)"
    using c assms(1) by (simp_all add: sent_frame_def)
  have "cb_get_size (vs_tx dir (snd (sent_frame pf m crc s))) = cb_get_size (vs_tx dir s) + length (wire f)"
    unfolding length_cb_list [symmetric] tx by simp
  then show "cb_get_space (vs_tx dir (snd (sent_frame pf m crc s))) = cb_get_space (vs_tx dir s) - length (wire f)"
    using inv assms(3) by (simp add: cb_get_space_def)
qed

section \<open>The life of a request nobody answers\<close>

fun loops :: "nat \<Rightarrow> ('s, 'h, 'app) platform \<Rightarrow> ('s, 'h, 'app) world \<Rightarrow> ('s, 'h, 'app) world option" where
  "loops 0 pf w = Some w"
| "loops (Suc n) pf w = do { w1 \<leftarrow> loop pf w; loops n pf w1 }"

text \<open>Successive clock readings lie more than \<open>gap\<close> apart, so every interval has passed at
  the next call.\<close>

definition slow_clock :: "millis \<Rightarrow> ('s, 'h, 'app) platform \<Rightarrow> bool" where
  "slow_clock gap pf \<longleftrightarrow> 0 \<le> gap \<and> (\<forall>i. pf_clock pf i + gap < pf_clock pf (Suc i))"

definition pending_request ::
    "stream_direction \<Rightarrow> ('s, 'h, 'app) platform \<Rightarrow> outgoing_item \<Rightarrow> outgoing_item list \<Rightarrow> 'h option \<Rightarrow> millis \<Rightarrow> nat
       \<Rightarrow> (virtual_stream_holder, 'h, 'app) world \<Rightarrow> bool" where
  "pending_request dir pf item rest h gap r w \<longleftrightarrow>
     (let p = w_protocol w; ty = m_frame_type (oi_message item); now = pf_clock pf (w_tick w)
      in quiet dir w \<and> pr_outgoing_messages p = item\<lparr>oi_number_of_retries := int r\<rparr> # rest
         \<and> find_handler (pr_timeout_handlers_map p) ty (pr_default_timeout_handler p) = h
         \<and> pr_answer_timeout_interval p \<le> gap \<and> pr_cooldown_interval p \<le> gap
         \<and> oi_retry_interval item \<le> gap
         \<and> pr_cooldown_time_point p \<le> now \<and> pr_retry_time_point p \<le> now
         \<and> (pr_state p = WAITING_FOR_ANSWER \<longrightarrow> pr_answer_time_point p < now \<and> pr_last_message_type p = ty))"

text \<open>What the handling of one request leaves alone.\<close>

definition same_timing :: "'h protocol \<Rightarrow> 'h protocol \<Rightarrow> bool" where
  "same_timing p p' \<longleftrightarrow> pr_timeout_handlers_map p' = pr_timeout_handlers_map p
     \<and> pr_default_timeout_handler p' = pr_default_timeout_handler p
     \<and> pr_answer_timeout_interval p' = pr_answer_timeout_interval p \<and> pr_cooldown_interval p' = pr_cooldown_interval p"

lemma same_timing_trans: "same_timing p q \<Longrightarrow> same_timing q r \<Longrightarrow> same_timing p r"
  by (simp add: same_timing_def)

text \<open>What a timeout does to the application: the handler of the type, or the default one.\<close>

definition timeout_effect :: "('s, 'h, 'app) platform \<Rightarrow> 'h option \<Rightarrow> byte \<Rightarrow> 'app \<Rightarrow> 'app" where
  "timeout_effect pf h ty a = (case h of None \<Rightarrow> a | Some k \<Rightarrow> fst (pf_timeout pf k ty a))"

definition silent_timeout :: "('s, 'h, 'app) platform \<Rightarrow> 'h option \<Rightarrow> byte \<Rightarrow> bool" where
  "silent_timeout pf h ty \<longleftrightarrow> (\<forall>k a. h = Some k \<longrightarrow> fst (snd (pf_timeout pf k ty a)) = [])"

text \<open>After a request has left the queue: idle, the rest is queued, every interval is over.\<close>

definition idle_queue ::
    "stream_direction \<Rightarrow> ('s, 'h, 'app) platform \<Rightarrow> millis \<Rightarrow> outgoing_item list
       \<Rightarrow> (virtual_stream_holder, 'h, 'app) world \<Rightarrow> bool" where
  "idle_queue dir pf gap q w \<longleftrightarrow>
     (let p = w_protocol w; now = pf_clock pf (w_tick w)
      in quiet dir w \<and> pr_state p = IDLE \<and> pr_outgoing_messages p = q
         \<and> pr_answer_timeout_interval p \<le> gap \<and> pr_cooldown_interval p \<le> gap
         \<and> pr_cooldown_time_point p \<le> now \<and> pr_retry_time_point p \<le> now)"

lemma pending_request_send:
  assumes pf: "pf_ops pf = get_stream_reference dir" "allocates (pf_new pf)" "slow_clock gap pf"
    and item: "msg_ok (oi_message item)" "\<not> oi_no_answer item"
      "length (msg_payload (oi_message item)) \<le> MAX_DATA_SIZE" "length (wire (item_frame item)) < 256"
    and w: "pending_request dir pf item rest h gap (Suc r) w" "pr_state (w_protocol w) = IDLE"
      "length (wire (item_frame item)) \<le> cb_get_space (vs_tx dir (w_stream w))"
  shows "\<exists>w'. loop pf w = Some w' \<and> pending_request dir pf item rest h gap r w'
    \<and> pr_state (w_protocol w') = WAITING_FOR_ANSWER \<and> w_app w' = w_app w \<and> same_timing (w_protocol w) (w_protocol w')
    \<and> cb_list (vs_tx dir (w_stream w')) = cb_list (vs_tx dir (w_stream w)) @ wire (item_frame item)"
proof -
  have q: "quiet dir w" using w(1) by (simp add: pending_request_def Let_def)
  obtain t s where l: "loop pf w = dispatch pf (pf_clock pf (w_tick w)) (ticked t s w)" "quiet dir (ticked t s w)"
    "cb_list (vs_tx dir s) = cb_list (vs_tx dir (w_stream w))"
    using quiet_loop [OF pf(1) q] by blast
  have inv: "vs_inv s" "vs_inv (w_stream w)" using l(2) q by (simp_all add: quiet_def)
  have "cb_get_size (vs_tx dir s) = cb_get_size (vs_tx dir (w_stream w))"
    unfolding length_cb_list [symmetric] l(3) ..
  then have space: "length (wire (item_frame item)) \<le> cb_get_space (vs_tx dir s)"
    using w(3) inv by (simp add: cb_get_space_def)
  note sent = sent_frame_written [OF pf(1,2) inv(1) item(3), of "oi_use_crc item", folded item_frame_def, OF item(4) space]
  have recv: "idle_receive pf (ticked t s w) = Some (ticked t s w)"
    using l(2) by (intro idle_receive_empty) (simp add: quiet_def)
  define i where "i = w_tick w"
  have clk: "pf_clock pf i + gap < pf_clock pf (Suc i)" "pf_clock pf (Suc i) + gap < pf_clock pf (Suc (Suc i))" "0 \<le> gap"
    using pf(3) by (simp_all add: slow_clock_def)
  have "idle_send pf (pf_clock pf i) (ticked t s w) = Some (on_protocol (\<lambda>p. p\<lparr>
      pr_last_message_type := m_frame_type (oi_message item), pr_state := WAITING_FOR_ANSWER,
      pr_answer_time_point := pf_clock pf i + pr_answer_timeout_interval p,
      pr_retry_time_point := pf_clock pf i + oi_retry_interval item,
      pr_outgoing_messages := item\<lparr>oi_number_of_retries := int r\<rparr> # rest\<rparr>)
      (after_write pf (snd (sent_frame pf (oi_message item) (oi_use_crc item) s)) (ticked t s w)))"
    using w(1) sent(1) item(2)
    by (simp add: idle_send_def Let_def pending_request_def i_def write_message_eq [OF pf(2) item(1)])
  then have "loop pf w = Some (on_protocol (\<lambda>p. p\<lparr>
      pr_last_message_type := m_frame_type (oi_message item), pr_state := WAITING_FOR_ANSWER,
      pr_answer_time_point := pf_clock pf i + pr_answer_timeout_interval p,
      pr_retry_time_point := pf_clock pf i + oi_retry_interval item,
      pr_outgoing_messages := item\<lparr>oi_number_of_retries := int r\<rparr> # rest\<rparr>)
      (after_write pf (snd (sent_frame pf (oi_message item) (oi_use_crc item) s)) (ticked t s w)))"
    using l(1) w(2) recv by (simp add: dispatch_def i_def)
  then show ?thesis
    using w(1) l(2,3) sent clk by (simp add: pending_request_def quiet_def Let_def i_def same_timing_def)
qed

lemma pending_request_retry:
  assumes pf: "pf_ops pf = get_stream_reference dir" "slow_clock gap pf"
    and w: "pending_request dir pf item rest h gap (Suc r) w" "pr_state (w_protocol w) = WAITING_FOR_ANSWER"
  shows "\<exists>w'. loop pf w = Some w' \<and> pending_request dir pf item rest h gap (Suc r) w'
    \<and> pr_state (w_protocol w') = IDLE \<and> w_app w' = w_app w \<and> same_timing (w_protocol w) (w_protocol w')
    \<and> cb_list (vs_tx dir (w_stream w')) = cb_list (vs_tx dir (w_stream w))"
proof -
  have q: "quiet dir w" using w(1) by (simp add: pending_request_def Let_def)
  obtain t s where l: "loop pf w = dispatch pf (pf_clock pf (w_tick w)) (ticked t s w)" "quiet dir (ticked t s w)"
    "cb_list (vs_tx dir s) = cb_list (vs_tx dir (w_stream w))"
    using quiet_loop [OF pf(1) q] by blast
  have clk: "pf_clock pf (w_tick w) + gap < pf_clock pf (Suc (w_tick w))" "0 \<le> gap"
    using pf(2) by (simp_all add: slow_clock_def)
  have "loop pf w = Some (on_protocol (\<lambda>p. p\<lparr>pr_state := IDLE\<rparr>) (ticked t s w))"
    using l(1) w by (simp add: dispatch_def waiting_timeout_def pending_request_def Let_def)
  then show ?thesis
    using w(1) l(2,3) clk by (simp add: pending_request_def quiet_def Let_def same_timing_def)
qed

lemma pending_request_give_up:
  assumes pf: "pf_ops pf = get_stream_reference dir" "slow_clock gap pf" "silent_timeout pf h (m_frame_type (oi_message item))"
    and w: "pending_request dir pf item rest h gap 0 w" "pr_state (w_protocol w) = WAITING_FOR_ANSWER"
  shows "\<exists>w'. loop pf w = Some w' \<and> idle_queue dir pf gap rest w'
    \<and> w_app w' = timeout_effect pf h (m_frame_type (oi_message item)) (w_app w) \<and> same_timing (w_protocol w) (w_protocol w')
    \<and> cb_list (vs_tx dir (w_stream w')) = cb_list (vs_tx dir (w_stream w))"
proof -
  let ?ty = "m_frame_type (oi_message item)"
  have q: "quiet dir w" using w(1) by (simp add: pending_request_def Let_def)
  obtain t s where l: "loop pf w = dispatch pf (pf_clock pf (w_tick w)) (ticked t s w)" "quiet dir (ticked t s w)"
    "cb_list (vs_tx dir s) = cb_list (vs_tx dir (w_stream w))"
    using quiet_loop [OF pf(1) q] by blast
  have clk: "pf_clock pf (w_tick w) + gap < pf_clock pf (Suc (w_tick w))" "0 \<le> gap"
    using pf(2) by (simp_all add: slow_clock_def)
  have calls: "\<forall>k a. h = Some k \<longrightarrow> fst (snd (pf_timeout pf k ?ty a)) = []"
    using pf(3) by (simp add: silent_timeout_def)
  have "loop pf w = Some ((ticked t s w)\<lparr>w_app := timeout_effect pf h ?ty (w_app w), w_protocol := (w_protocol (ticked t s w))
      \<lparr>pr_outgoing_messages := rest, pr_retry_time_point := pf_clock pf (w_tick w), pr_state := IDLE\<rparr>\<rparr>)"
    using l(1) w calls
    by (cases h) (simp_all add: dispatch_def waiting_timeout_def pending_request_def Let_def pop_outgoing_def
        call_timeout_handler_def run_handler_def default_timeout_handler_def timeout_effect_def split_beta on_protocol_def)
  then show ?thesis
    using w(1) l(2,3) clk by (simp add: idle_queue_def pending_request_def quiet_def Let_def same_timing_def)
qed

lemma request_lifecycle:
  assumes pf: "pf_ops pf = get_stream_reference dir" "allocates (pf_new pf)" "slow_clock gap pf"
      "silent_timeout pf h (m_frame_type (oi_message item))"
    and item: "msg_ok (oi_message item)" "\<not> oi_no_answer item"
      "length (msg_payload (oi_message item)) \<le> MAX_DATA_SIZE" "length (wire (item_frame item)) < 256"
  shows "pending_request dir pf item rest h gap (Suc r) w \<Longrightarrow> pr_state (w_protocol w) = IDLE \<Longrightarrow>
    Suc r * length (wire (item_frame item)) \<le> cb_get_space (vs_tx dir (w_stream w)) \<Longrightarrow>
    \<exists>w'. loops (2 * Suc r) pf w = Some w' \<and> idle_queue dir pf gap rest w'
      \<and> w_app w' = timeout_effect pf h (m_frame_type (oi_message item)) (w_app w) \<and> same_timing (w_protocol w) (w_protocol w')
      \<and> cb_list (vs_tx dir (w_stream w')) = cb_list (vs_tx dir (w_stream w)) @ concat (replicate (Suc r) (wire (item_frame item)))"
proof (induction r arbitrary: w)
  case 0
  obtain w1 where w1: "loop pf w = Some w1" "pending_request dir pf item rest h gap 0 w1"
    "pr_state (w_protocol w1) = WAITING_FOR_ANSWER" "w_app w1 = w_app w" "same_timing (w_protocol w) (w_protocol w1)"
    "cb_list (vs_tx dir (w_stream w1)) = cb_list (vs_tx dir (w_stream w)) @ wire (item_frame item)"
    using pending_request_send [OF pf(1-3) item, of rest h 0 w] "0.prems" by auto
  obtain w2 where w2: "loop pf w1 = Some w2" "idle_queue dir pf gap rest w2"
    "w_app w2 = timeout_effect pf h (m_frame_type (oi_message item)) (w_app w1)" "same_timing (w_protocol w1) (w_protocol w2)"
    "cb_list (vs_tx dir (w_stream w2)) = cb_list (vs_tx dir (w_stream w1))"
    using pending_request_give_up [OF pf(1,3,4) w1(2,3)] by auto
  show ?case
    using w1 w2 same_timing_trans [OF w1(5) w2(4)] by (auto simp: numeral_2_eq_2)
next
  case (Suc r)
  obtain w1 where w1: "loop pf w = Some w1" "pending_request dir pf item rest h gap (Suc r) w1"
    "pr_state (w_protocol w1) = WAITING_FOR_ANSWER" "w_app w1 = w_app w" "same_timing (w_protocol w) (w_protocol w1)"
    "cb_list (vs_tx dir (w_stream w1)) = cb_list (vs_tx dir (w_stream w)) @ wire (item_frame item)"
    using pending_request_send [OF pf(1-3) item Suc.prems(1,2)] Suc.prems(3) by auto
  obtain w2 where w2: "loop pf w1 = Some w2" "pending_request dir pf item rest h gap (Suc r) w2"
    "pr_state (w_protocol w2) = IDLE" "w_app w2 = w_app w1" "same_timing (w_protocol w1) (w_protocol w2)"
    "cb_list (vs_tx dir (w_stream w2)) = cb_list (vs_tx dir (w_stream w1))"
    using pending_request_retry [OF pf(1,3) w1(2,3)] by auto
  have "vs_inv (w_stream w2)" "vs_inv (w_stream w)"
    using w2(2) Suc.prems(1) by (simp_all add: pending_request_def quiet_def Let_def)
  moreover have "cb_get_size (vs_tx dir (w_stream w2)) = cb_get_size (vs_tx dir (w_stream w)) + length (wire (item_frame item))"
    unfolding length_cb_list [symmetric] w2(6) w1(6) by simp
  ultimately have "Suc r * length (wire (item_frame item)) \<le> cb_get_space (vs_tx dir (w_stream w2))"
    using Suc.prems(3) by (simp add: cb_get_space_def)
  from Suc.IH [OF w2(2,3) this] show ?case
    using w1 w2 same_timing_trans [OF same_timing_trans [OF w1(5) w2(5)]] by (auto simp: numeral_2_eq_2)
qed

lemma send_message_eq:
  assumes "msg_ok m"
  obtains c where "msg_ok c" "msg_payload c = msg_payload m" "m_frame_type c = m_frame_type m"
    "send_message m crc n i w = Some (on_protocol (\<lambda>p. p\<lparr>pr_outgoing_messages := pr_outgoing_messages p @
       [\<lparr>oi_message = c, oi_use_crc = crc, oi_no_answer = False,
         oi_number_of_retries = int (min (unat n) MAX_PACKET_RETRIES) + 1, oi_retry_interval = i\<rparr>]\<rparr>) w)"
proof -
  obtain c where c: "msg_copy m = Some c" "msg_ok c" "msg_payload c = msg_payload m" "m_frame_type c = m_frame_type m"
    using msg_copy_correct [OF assms] by blast
  obtain d where d: "msg_copy c = Some d" "msg_ok d" "msg_payload d = msg_payload c" "m_frame_type d = m_frame_type c"
    using msg_copy_correct [OF c(2)] by blast
  show ?thesis
    by (rule that [of d]) (use c d in \<open>simp_all add: send_message_def\<close>)
qed

text \<open>A handler that has nothing to do and is free to send: quiet, idle, nothing queued, and
  every interval is at most \<open>gap\<close> and over.\<close>

definition ready :: "stream_direction \<Rightarrow> ('s, 'h, 'app) platform \<Rightarrow> millis \<Rightarrow> (virtual_stream_holder, 'h, 'app) world \<Rightarrow> bool" where
  "ready dir pf gap w \<longleftrightarrow>
     (let p = w_protocol w; now = pf_clock pf (w_tick w)
      in quiet dir w \<and> pr_state p = IDLE \<and> pr_outgoing_messages p = []
         \<and> pr_answer_timeout_interval p \<le> gap \<and> pr_cooldown_interval p \<le> gap
         \<and> pr_cooldown_time_point p \<le> now \<and> pr_retry_time_point p \<le> now)"

lemma pending_request_intro:
  assumes "ready dir pf gap w" "msg_ok m" "i \<le> gap"
  obtains c w1 where "send_message m crc n i w = Some w1" "msg_ok c" "msg_payload c = msg_payload m"
    "m_frame_type c = m_frame_type m" "pr_state (w_protocol w1) = IDLE" "w_stream w1 = w_stream w" "w_app w1 = w_app w"
    "pending_request dir pf \<lparr>oi_message = c, oi_use_crc = crc, oi_no_answer = False,
       oi_number_of_retries = 0, oi_retry_interval = i\<rparr> []
       (find_handler (pr_timeout_handlers_map (w_protocol w)) (m_frame_type m) (pr_default_timeout_handler (w_protocol w)))
       gap (Suc (min (unat n) MAX_PACKET_RETRIES)) w1"
proof -
  obtain c where c: "msg_ok c" "msg_payload c = msg_payload m" "m_frame_type c = m_frame_type m"
    "send_message m crc n i w = Some (on_protocol (\<lambda>p. p\<lparr>pr_outgoing_messages := pr_outgoing_messages p @
       [\<lparr>oi_message = c, oi_use_crc = crc, oi_no_answer = False,
         oi_number_of_retries = int (min (unat n) MAX_PACKET_RETRIES) + 1, oi_retry_interval = i\<rparr>]\<rparr>) w)"
    using send_message_eq [OF assms(2)] by blast
  show ?thesis
    by (rule that [OF c(4,1,2,3)])
      (use assms c in \<open>simp_all add: ready_def pending_request_def Let_def quiet_def algebra_simps\<close>)
qed

lemma send_message_without_answer_eq:
  assumes "msg_ok m"
  obtains c where "msg_ok c" "msg_payload c = msg_payload m" "m_frame_type c = m_frame_type m"
    "send_message_without_answer m crc w = Some (on_protocol (\<lambda>p. p\<lparr>pr_outgoing_messages := pr_outgoing_messages p @
       [\<lparr>oi_message = c, oi_use_crc = crc, oi_no_answer = True, oi_number_of_retries = 1, oi_retry_interval = 0\<rparr>]\<rparr>) w)"
proof -
  obtain c where c: "msg_copy m = Some c" "msg_ok c" "msg_payload c = msg_payload m" "m_frame_type c = m_frame_type m"
    using msg_copy_correct [OF assms] by blast
  obtain d where d: "msg_copy c = Some d" "msg_ok d" "msg_payload d = msg_payload c" "m_frame_type d = m_frame_type c"
    using msg_copy_correct [OF c(2)] by blast
  show ?thesis
    by (rule that [of d]) (use c d in \<open>simp_all add: send_message_without_answer_def\<close>)
qed

text \<open>Claim C7. A request nobody answers: sent with \<open>n\<close> repeats from a handler that is ready, on
  a clock whose readings are further apart than every interval, it is transmitted exactly
  \<open>min n 9 + 1\<close> times, whole, over twice as many calls of the loop; then it leaves the queue,
  the timeout handler of its type runs exactly once, and the handler is idle again.\<close>

theorem unanswered_request:
  fixes crc :: bool and n :: byte
  assumes pf: "pf_ops pf = get_stream_reference dir" "allocates (pf_new pf)" "slow_clock gap pf"
    and w: "ready dir pf gap w" "interval \<le> gap"
      "find_handler (pr_timeout_handlers_map (w_protocol w)) (m_frame_type m) (pr_default_timeout_handler (w_protocol w)) = Some h"
    and h: "\<And>a. pf_timeout pf h (m_frame_type m) a = (g a, [], e a)"
    and m: "msg_ok m" "length (msg_payload m) \<le> MAX_DATA_SIZE"
  defines "f \<equiv> new_frame (m_frame_type m) (msg_payload m) (of_nat (length (msg_payload m))) crc"
    and "k \<equiv> min (unat n) MAX_PACKET_RETRIES + 1"
  assumes sz: "length (wire f) < 256" "k * length (wire f) \<le> cb_get_space (vs_tx dir (w_stream w))"
  shows "\<exists>w1 w'. send_message m crc n interval w = Some w1 \<and> loops (2 * k) pf w1 = Some w'
    \<and> cb_list (vs_tx dir (w_stream w')) = cb_list (vs_tx dir (w_stream w)) @ concat (replicate k (wire f))
    \<and> pr_outgoing_messages (w_protocol w') = [] \<and> w_app w' = g (w_app w)
    \<and> \<not> pr_is_waiting_for_answer (w_protocol w')"
proof -
  obtain c w1 where c: "send_message m crc n interval w = Some w1" "msg_ok c" "msg_payload c = msg_payload m"
    "m_frame_type c = m_frame_type m" "pr_state (w_protocol w1) = IDLE" "w_stream w1 = w_stream w" "w_app w1 = w_app w"
    "pending_request dir pf \<lparr>oi_message = c, oi_use_crc = crc, oi_no_answer = False,
       oi_number_of_retries = 0, oi_retry_interval = interval\<rparr> [] (Some h) gap (Suc (min (unat n) MAX_PACKET_RETRIES)) w1"
    using pending_request_intro [OF w(1) m(1) w(2), of crc n] w(3) by metis
  let ?i = "\<lparr>oi_message = c, oi_use_crc = crc, oi_no_answer = False, oi_number_of_retries = 0, oi_retry_interval = interval\<rparr>"
  have f: "item_frame ?i = f" using c by (simp add: item_frame_def f_def)
  show ?thesis
    using request_lifecycle [OF pf, of "Some h" ?i "[]" "min (unat n) MAX_PACKET_RETRIES" w1] h c m sz f
    by (auto simp: k_def pr_is_waiting_for_answer_def silent_timeout_def timeout_effect_def idle_queue_def Let_def)
qed

definition quiet_platform :: "(virtual_stream_holder, unit, nat) platform" where
  "quiet_platform =
     \<lparr>pf_ops = get_stream_reference DIRECTION_A, pf_new = \<lambda>n. replicate n 0,
      pf_clock = \<lambda>i. 1000 * (int i + 1), pf_message = \<lambda>_ _ _ a. (a, [], HANDLER_OK),
      pf_answer = \<lambda>_ _ _ _ a. (a, [], HANDLER_OK), pf_timeout = \<lambda>_ _ a. (a + 1, [], HANDLER_OK), pf_popped_kept = True\<rparr>"

definition quiet_world :: "(virtual_stream_holder, unit, nat) world" where
  "quiet_world =
     \<lparr>w_protocol = (pr_new_sized (\<lambda>n. replicate n 0) 256)\<lparr>pr_default_timeout_handler := Some ()\<rparr>,
      w_stream = vs_new (\<lambda>n. replicate n 0), w_tick = 0, w_app = 0\<rparr>"

lemma quiet_platform_simps:
  "pf_ops quiet_platform = get_stream_reference DIRECTION_A" "allocates (pf_new quiet_platform)"
  "slow_clock 500 quiet_platform" "pf_timeout quiet_platform h ty a = (a + 1, [], HANDLER_OK)"
  "handlers_ok k (\<lambda>_. True) quiet_platform" "pf_popped_kept quiet_platform"
  by (simp_all add: quiet_platform_def allocates_replicate slow_clock_def handlers_ok_def keeps_def)

lemma quiet_world_ready: "ready DIRECTION_A quiet_platform 500 quiet_world"
  using tr_new_handler [OF allocates_replicate, of 0 256] vs_new_inv [OF allocates_replicate [of 0]]
    vs_new_empty [OF allocates_replicate [of 0]]
  by (simp add: ready_def quiet_def quiet_world_def quiet_platform_def pr_new_sized_def Let_def)

lemma length_wire_le:
  "unat n = length d \<Longrightarrow> length (wire (new_frame ty d n u)) \<le> 24 + 2 * length d"
proof -
  let ?f = "new_frame ty d n u"
  assume n: "unat n = length d"
  have "length (trailer ?f) \<le> 3" by (simp add: trailer_def)
  moreover have "separators (trailer ?f) \<le> length (trailer ?f)" "separators d \<le> length d"
    "separators (header_bytes n u ty) \<le> 8"
    using separators_le [of "trailer ?f"] separators_le [of d] separators_le [of "header_bytes n u ty"] by simp_all
  ultimately show ?thesis
    using n by (simp add: wire_def wire_header_def wire_payload_def length_stuff)
qed

theorem unanswered_request_witness:
  "\<exists>w1 w'. send_message (msg_of_type GET_DEVICE_VERSION) True 12 0 quiet_world = Some w1
     \<and> loops 20 quiet_platform w1 = Some w' \<and> pr_outgoing_messages (w_protocol w') = [] \<and> w_app w' = 1"
proof -
  let ?m = "msg_of_type GET_DEVICE_VERSION"
  have m: "msg_ok ?m" "msg_payload ?m = []"
    by (simp_all add: msg_of_type_def msg_ok_default msg_payload_def)
  have "length (wire (new_frame GET_DEVICE_VERSION [] 0 True)) \<le> 24"
    using length_wire_le [of 0 "[]"] by simp
  then show ?thesis
    using unanswered_request [OF quiet_platform_simps(1-3) quiet_world_ready, of 0 ?m "()" "\<lambda>a. a + 1" "\<lambda>_. HANDLER_OK" True 12]
      m quiet_platform_simps(4) vs_new_empty(3) [OF allocates_replicate [of 0]]
    by (auto simp: quiet_world_def pr_new_sized_def find_handler_def msg_of_type_def)
qed

section \<open>A request that cannot be sent\<close>

lemma pending_request_refused:
  assumes pf: "pf_ops pf = get_stream_reference dir" "allocates (pf_new pf)" "slow_clock gap pf"
    and item: "msg_ok (oi_message item)" "MAX_DATA_SIZE < length (msg_payload (oi_message item))"
    and w: "pending_request dir pf item rest h gap (Suc r) w" "pr_state (w_protocol w) = IDLE"
  shows "\<exists>w'. loop pf w = Some w' \<and> pending_request dir pf item rest h gap r w'
    \<and> pr_state (w_protocol w') = IDLE \<and> w_app w' = w_app w \<and> same_timing (w_protocol w) (w_protocol w')
    \<and> cb_list (vs_tx dir (w_stream w')) = cb_list (vs_tx dir (w_stream w))"
proof -
  have q: "quiet dir w" using w(1) by (simp add: pending_request_def Let_def)
  obtain t s where l: "loop pf w = dispatch pf (pf_clock pf (w_tick w)) (ticked t s w)" "quiet dir (ticked t s w)"
    "cb_list (vs_tx dir s) = cb_list (vs_tx dir (w_stream w))"
    using quiet_loop [OF pf(1) q] by blast
  have recv: "idle_receive pf (ticked t s w) = Some (ticked t s w)"
    using l(2) by (intro idle_receive_empty) (simp add: quiet_def)
  define i where "i = w_tick w"
  have clk: "pf_clock pf i + gap < pf_clock pf (Suc i)" "pf_clock pf (Suc i) + gap < pf_clock pf (Suc (Suc i))" "0 \<le> gap"
    using pf(3) by (simp_all add: slow_clock_def)
  have "loop pf w = Some (on_protocol (\<lambda>p. p\<lparr>pr_outgoing_messages := item\<lparr>oi_number_of_retries := int r\<rparr> # rest\<rparr>)
      (after_write pf s (ticked t s w)))"
    using l(1) w recv
    by (simp add: dispatch_def idle_send_def Let_def pending_request_def write_message_eq [OF pf(2) item(1)]
        sent_frame_refused [OF item(2)])
  then show ?thesis
    using w l(2,3) clk by (simp add: pending_request_def quiet_def Let_def i_def same_timing_def)
qed

lemma pending_request_drop:
  assumes pf: "pf_ops pf = get_stream_reference dir" "slow_clock gap pf"
    and w: "pending_request dir pf item rest h gap 0 w" "pr_state (w_protocol w) = IDLE"
  shows "\<exists>w'. loop pf w = Some w' \<and> idle_queue dir pf gap rest w' \<and> w_app w' = w_app w
    \<and> same_timing (w_protocol w) (w_protocol w') \<and> cb_list (vs_tx dir (w_stream w')) = cb_list (vs_tx dir (w_stream w))"
proof -
  have q: "quiet dir w" using w(1) by (simp add: pending_request_def Let_def)
  obtain t s where l: "loop pf w = dispatch pf (pf_clock pf (w_tick w)) (ticked t s w)" "quiet dir (ticked t s w)"
    "cb_list (vs_tx dir s) = cb_list (vs_tx dir (w_stream w))"
    using quiet_loop [OF pf(1) q] by blast
  have recv: "idle_receive pf (ticked t s w) = Some (ticked t s w)"
    using l(2) by (intro idle_receive_empty) (simp add: quiet_def)
  have clk: "pf_clock pf (w_tick w) + gap < pf_clock pf (Suc (w_tick w))" "0 \<le> gap"
    using pf(2) by (simp_all add: slow_clock_def)
  show ?thesis
    using l w recv clk
    by (simp add: dispatch_def idle_send_def Let_def pending_request_def idle_queue_def quiet_def same_timing_def)
qed

lemma refused_lifecycle:
  assumes pf: "pf_ops pf = get_stream_reference dir" "allocates (pf_new pf)" "slow_clock gap pf"
    and item: "msg_ok (oi_message item)" "MAX_DATA_SIZE < length (msg_payload (oi_message item))"
  shows "pending_request dir pf item rest h gap r w \<Longrightarrow> pr_state (w_protocol w) = IDLE \<Longrightarrow>
    \<exists>w'. loops (Suc r) pf w = Some w' \<and> idle_queue dir pf gap rest w' \<and> w_app w' = w_app w
      \<and> same_timing (w_protocol w) (w_protocol w') \<and> cb_list (vs_tx dir (w_stream w')) = cb_list (vs_tx dir (w_stream w))"
proof (induction r arbitrary: w)
  case 0
  then show ?case using pending_request_drop [OF pf(1,3) 0] by auto
next
  case (Suc r)
  obtain w1 where w1: "loop pf w = Some w1" "pending_request dir pf item rest h gap r w1" "pr_state (w_protocol w1) = IDLE"
    "w_app w1 = w_app w" "same_timing (w_protocol w) (w_protocol w1)" "cb_list (vs_tx dir (w_stream w1)) = cb_list (vs_tx dir (w_stream w))"
    using pending_request_refused [OF pf item Suc.prems] by auto
  then show ?case using Suc.IH [OF w1(2,3)] same_timing_trans [OF w1(5)] by auto
qed

text \<open>A request whose subcommand and data together exceed 233 bytes is never sent and
  nobody is told: with \<open>n\<close> repeats it is refused \<open>min n 9 + 1\<close> times and leaves the queue at
  the next call of the loop; nothing is written to the stream, and neither the answer
  handler nor the timeout handler runs.\<close>

lemma oversized_request_vanishes:
  assumes pf: "pf_ops pf = get_stream_reference dir" "allocates (pf_new pf)" "slow_clock gap pf"
    and w: "ready dir pf gap w" "interval \<le> gap"
    and m: "msg_ok m" "MAX_DATA_SIZE < length (msg_payload m)"
  shows "\<exists>w1 w'. send_message m crc n interval w = Some w1 \<and> loops (min (unat n) MAX_PACKET_RETRIES + 2) pf w1 = Some w'
    \<and> pr_outgoing_messages (w_protocol w') = [] \<and> w_app w' = w_app w
    \<and> cb_list (vs_tx dir (w_stream w')) = cb_list (vs_tx dir (w_stream w))
    \<and> \<not> pr_is_waiting_for_answer (w_protocol w')"
proof -
  let ?h = "find_handler (pr_timeout_handlers_map (w_protocol w)) (m_frame_type m) (pr_default_timeout_handler (w_protocol w))"
  obtain c w1 where c: "send_message m crc n interval w = Some w1" "msg_ok c" "msg_payload c = msg_payload m"
    "m_frame_type c = m_frame_type m" "pr_state (w_protocol w1) = IDLE" "w_stream w1 = w_stream w" "w_app w1 = w_app w"
    "pending_request dir pf \<lparr>oi_message = c, oi_use_crc = crc, oi_no_answer = False,
       oi_number_of_retries = 0, oi_retry_interval = interval\<rparr> [] ?h gap (Suc (min (unat n) MAX_PACKET_RETRIES)) w1"
    using pending_request_intro [OF w(1) m(1) w(2), of crc n] by metis
  let ?i = "\<lparr>oi_message = c, oi_use_crc = crc, oi_no_answer = False, oi_number_of_retries = 0, oi_retry_interval = interval\<rparr>"
  show ?thesis
    using refused_lifecycle [OF pf, of ?i "[]" ?h "Suc (min (unat n) MAX_PACKET_RETRIES)" w1] c m
    by (auto simp: pr_is_waiting_for_answer_def idle_queue_def Let_def)
qed

lemma oversized_request_vanishes_example:
  "\<exists>w1 w'. send_message (msg_of_data CONTROL (Some (replicate 234 7)) 234) True 0 0 quiet_world = Some w1
     \<and> loops 2 quiet_platform w1 = Some w' \<and> pr_outgoing_messages (w_protocol w') = [] \<and> w_app w' = 0"
proof -
  let ?m = "msg_of_data CONTROL (Some (replicate 234 7)) 234"
  have "msg_ok ?m" "length (msg_payload ?m) = 234"
    by (simp_all add: msg_of_data_def msg_new_ok msg_payload_def)
  then show ?thesis
    using oversized_request_vanishes [OF quiet_platform_simps(1-3) quiet_world_ready, of 0 ?m True 0]
    by (auto simp: quiet_world_def numeral_2_eq_2)
qed

section \<open>A message that expects no answer\<close>

lemma no_answer_send:
  assumes pf: "pf_ops pf = get_stream_reference dir" "allocates (pf_new pf)" "slow_clock gap pf"
    and item: "msg_ok (oi_message i)" "oi_no_answer i" "0 < oi_number_of_retries i"
      "length (msg_payload (oi_message i)) \<le> MAX_DATA_SIZE" "length (wire (item_frame i)) < 256"
    and w: "idle_queue dir pf gap (i # q) w" "length (wire (item_frame i)) \<le> cb_get_space (vs_tx dir (w_stream w))"
  shows "if pf_popped_kept pf
    then \<exists>w'. loop pf w = Some w' \<and> idle_queue dir pf gap q w' \<and> w_app w' = w_app w \<and> same_timing (w_protocol w) (w_protocol w')
      \<and> cb_list (vs_tx dir (w_stream w')) = cb_list (vs_tx dir (w_stream w)) @ wire (item_frame i)
    else loop pf w = None"
proof -
  have q: "quiet dir w" using w(1) by (simp add: idle_queue_def Let_def)
  obtain t s where l: "loop pf w = dispatch pf (pf_clock pf (w_tick w)) (ticked t s w)" "quiet dir (ticked t s w)"
    "cb_list (vs_tx dir s) = cb_list (vs_tx dir (w_stream w))"
    using quiet_loop [OF pf(1) q] by blast
  have inv: "vs_inv s" "vs_inv (w_stream w)" using l(2) q by (simp_all add: quiet_def)
  have "cb_get_size (vs_tx dir s) = cb_get_size (vs_tx dir (w_stream w))"
    unfolding length_cb_list [symmetric] l(3) ..
  then have space: "length (wire (item_frame i)) \<le> cb_get_space (vs_tx dir s)"
    using w(2) inv by (simp add: cb_get_space_def)
  note sent = sent_frame_written [OF pf(1,2) inv(1) item(4), of "oi_use_crc i", folded item_frame_def, OF item(5) space]
  have recv: "idle_receive pf (ticked t s w) = Some (ticked t s w)"
    using l(2) by (intro idle_receive_empty) (simp add: quiet_def)
  define j where "j = w_tick w"
  have clk: "pf_clock pf j + gap < pf_clock pf (Suc j)" "pf_clock pf (Suc j) + gap < pf_clock pf (Suc (Suc j))" "0 \<le> gap"
    using pf(3) by (simp_all add: slow_clock_def)
  have "loop pf w = (if pf_popped_kept pf
      then Some (on_protocol (\<lambda>p. p\<lparr>pr_last_message_type := m_frame_type (oi_message i),
        pr_outgoing_messages := q, pr_retry_time_point := pf_clock pf j\<rparr>)
        (after_write pf (snd (sent_frame pf (oi_message i) (oi_use_crc i) s)) (ticked t s w)))
      else None)"
    using l(1) w(1) sent(1) item(2,3) recv
    by (simp add: dispatch_def idle_send_def Let_def idle_queue_def j_def write_message_eq [OF pf(2) item(1)])
  then show ?thesis
    using w(1) l(2,3) sent clk by (simp add: idle_queue_def quiet_def Let_def j_def same_timing_def)
qed

definition sample_item :: outgoing_item where
  "sample_item = \<lparr>oi_message = msg_of_type CONTROL, oi_use_crc = False, oi_no_answer = False,
     oi_number_of_retries = 1, oi_retry_interval = 250\<rparr>"

lemma sample_item_ok:
  "msg_ok (oi_message sample_item)" "0 < oi_number_of_retries sample_item" "\<not> oi_no_answer sample_item"
  "queue_ok k [sample_item]" "msg_payload (oi_message sample_item) = []" "length (wire (item_frame sample_item)) \<le> 24"
  using length_wire_le [of 0 "[]" CONTROL False]
  by (simp_all add: sample_item_def msg_of_type_def msg_ok_default queue_ok_def item_ok_def msg_payload_def item_frame_def)

text \<open>The same as a message without answer in the queue of an idle handler.\<close>

definition unanswered_world :: "(virtual_stream_holder, unit, nat) world" where
  "unanswered_world = on_protocol (\<lambda>p. p\<lparr>pr_outgoing_messages := [sample_item\<lparr>oi_no_answer := True\<rparr>]\<rparr>) quiet_world"

lemma quiet_tx_space: "cb_get_space (vs_tx DIRECTION_A (w_stream quiet_world)) = 4096"
  using vs_new_empty(3) [OF allocates_replicate [of 0], of DIRECTION_A] by (simp add: quiet_world_def)

lemma unanswered_world_undefined:
  "loop (quiet_platform\<lparr>pf_popped_kept := False\<rparr>) unanswered_world = None"
proof -
  let ?pf = "quiet_platform\<lparr>pf_popped_kept := False\<rparr>" and ?i = "sample_item\<lparr>oi_no_answer := True\<rparr>"
  have pf: "pf_ops ?pf = get_stream_reference DIRECTION_A" "allocates (pf_new ?pf)" "slow_clock 500 ?pf" "\<not> pf_popped_kept ?pf"
    using quiet_platform_simps(1-3) by (simp_all add: slow_clock_def)
  have i: "msg_ok (oi_message ?i)" "oi_no_answer ?i" "0 < oi_number_of_retries ?i" "length (msg_payload (oi_message ?i)) \<le> MAX_DATA_SIZE"
    "item_frame ?i = item_frame sample_item"
    using sample_item_ok by (simp_all add: item_frame_def)
  have w: "idle_queue DIRECTION_A ?pf 500 [?i] unanswered_world" "w_stream unanswered_world = w_stream quiet_world"
    using quiet_world_ready by (simp_all add: ready_def idle_queue_def quiet_def Let_def unanswered_world_def)
  show ?thesis
    using no_answer_send [OF pf(1-3) i(1-4) _ w(1)] sample_item_ok(6) quiet_tx_space pf(4) unfolding i(5) w(2) by simp
qed

section \<open>Totality\<close>

text \<open>Claim C16. When the loop returns, for any stream that keeps the contract \<open>byte_stream\<close>, any handlers that make calls with usable
  messages, and any messages in the queue. It is undefined in exactly one case: it transmits a message that expects no answer and the memory
  of popped queue elements is not kept. In all others it returns and keeps the invariant of the protocol handler: the
  transport invariant, a queue whose items are usable messages with 0 to 10 attempts left
  (only the front one may have used some), no message being processed between calls, and
  a message at the front whenever an answer is awaited, so that no empty queue is accessed; and an
  invariant of the application that the handlers keep. When all queued messages expect an answer and the handlers send no others, this stays
  so and the loop always returns. The invariant holds after construction.\<close>

theorem loop_returns:
  assumes "byte_stream (pf_ops pf) sinv pending room written" "allocates (pf_new pf)" "handlers_ok True I pf"
    and "sinv (w_stream w)" "I (w_app w)" "protocol_ok True (w_protocol w)"
  shows "protocol_ok False (pr_new_sized (pf_new pf) size0)
    \<and> (if loop_undefined pf w then loop pf w = None
       else \<exists>w'. loop pf w = Some w' \<and> protocol_ok True (w_protocol w') \<and> sinv (w_stream w') \<and> I (w_app w'))
    \<and> (pf_popped_kept pf \<longrightarrow> \<not> loop_undefined pf w)
    \<and> (protocol_ok False (w_protocol w) \<and> handlers_ok False I pf \<longrightarrow>
         (\<exists>w'. loop pf w = Some w' \<and> protocol_ok False (w_protocol w') \<and> sinv (w_stream w') \<and> I (w_app w')))"
proof (intro conjI impI)
  note total = byte_stream.loop_total [OF assms(1) refl assms(2)]
  show "protocol_ok False (pr_new_sized (pf_new pf) size0)"
    using tr_new_handler(1) [OF assms(2), of size0]
    by (auto simp: protocol_ok_def core_ok_def pr_new_sized_def transport_ok_def settled_def queue_ok_def)
  show "if loop_undefined pf w then loop pf w = None
    else \<exists>w'. loop pf w = Some w' \<and> protocol_ok True (w_protocol w') \<and> sinv (w_stream w') \<and> I (w_app w')"
    using byte_stream.loop_cases [OF assms(1) refl assms(2-6)] by (auto split: if_splits)
  show "\<not> loop_undefined pf w" if "pf_popped_kept pf"
    using byte_stream.loop_defined [OF assms(1) refl assms(2-6)] that by simp
  show "\<exists>w'. loop pf w = Some w' \<and> protocol_ok False (w_protocol w') \<and> sinv (w_stream w') \<and> I (w_app w')"
    if "protocol_ok False (w_protocol w) \<and> handlers_ok False I pf"
    using total [of False I w] that assms(4,5) by auto
qed

theorem loop_returns_witness:
  "(\<exists>w'. loop quiet_platform quiet_world = Some w' \<and> protocol_ok False (w_protocol w'))
   \<and> (\<exists>w'. loop quiet_platform unanswered_world = Some w')
   \<and> loop_undefined (quiet_platform\<lparr>pf_popped_kept := False\<rparr>) unanswered_world"
proof -
  have ok: "protocol_ok False (w_protocol quiet_world)" "protocol_ok True (w_protocol quiet_world)" "protocol_ok True (w_protocol unanswered_world)"
    using tr_new_handler(1) [OF allocates_replicate, of 0 256] sample_item_ok(1)
    by (auto simp: quiet_world_def pr_new_sized_def protocol_ok_def core_ok_def transport_ok_def settled_def queue_ok_def
        unanswered_world_def item_ok_def sample_item_def)
  have inv: "vs_inv (w_stream quiet_world)" "vs_inv (w_stream unanswered_world)"
    by (simp_all add: quiet_world_def unanswered_world_def vs_new_inv allocates_replicate)
  let ?pf = "quiet_platform\<lparr>pf_popped_kept := False\<rparr>"
  have pf: "allocates (pf_new ?pf)" "handlers_ok True (\<lambda>_. True) ?pf" "pf_ops ?pf = pf_ops quiet_platform"
    using quiet_platform_simps(2) quiet_platform_simps(5) [of True] by (simp_all add: handlers_ok_def)
  note vs = virtual.byte_stream_axioms [of DIRECTION_A, folded quiet_platform_simps(1)]
  have "loop_undefined ?pf unanswered_world"
    using loop_returns [where ?size0.0 = 0, OF vs [folded pf(3)] pf(1,2) inv(2) TrueI ok(3)] unanswered_world_undefined by (auto split: if_splits)
  moreover have "\<exists>w'. loop quiet_platform unanswered_world = Some w'"
    using loop_returns [where ?size0.0 = 0, OF vs quiet_platform_simps(2) quiet_platform_simps(5) inv(2) TrueI ok(3)] quiet_platform_simps(6) by auto
  moreover have "\<exists>w'. loop quiet_platform quiet_world = Some w' \<and> protocol_ok False (w_protocol w')"
    using loop_returns [where ?size0.0 = 0, OF vs quiet_platform_simps(2) quiet_platform_simps(5) inv(1) TrueI ok(2)] ok(1) quiet_platform_simps(5) [of False] by blast
  ultimately show ?thesis by blast
qed

section \<open>Pace\<close>

lemma idle_send_attempt:
  assumes "allocates (pf_new pf)" "queue_ok True (pr_outgoing_messages (w_protocol w))"
    and "idle_send pf now w = Some w'" "w_tick w' \<noteq> w_tick w"
  shows "pr_cooldown_time_point (w_protocol w) \<le> now \<and> pr_retry_time_point (w_protocol w) \<le> now
    \<and> pr_cooldown_time_point (w_protocol w') = pf_clock pf (w_tick w) + pr_cooldown_interval (w_protocol w)
    \<and> w_tick w' = w_tick w + 1
    \<and> (pr_state (w_protocol w) = IDLE \<and> pr_state (w_protocol w') = WAITING_FOR_ANSWER \<longrightarrow>
         pr_retry_time_point (w_protocol w') = now + oi_retry_interval (hd (pr_outgoing_messages (w_protocol w'))))"
proof (cases "pr_outgoing_messages (w_protocol w)")
  case Nil
  then show ?thesis using assms(3,4) by (simp add: idle_send_def)
next
  case (Cons msg rest)
  then have "msg_ok (oi_message msg)"
    using assms(2) by (simp add: queue_ok_def item_ok_def)
  then show ?thesis
    using Cons assms(3,4)
    by (auto simp: idle_send_def Let_def write_message_eq [OF assms(1)] split: if_splits)
qed

text \<open>Claim C24. Pace of transmissions: the handler transmits from its queue only when the
  cooldown and the retry interval are over, and every transmission, successful or not,
  restarts the cooldown at the clock reading taken after it; so between the end of one
  transmission and the start of the next one from the queue at least the cooldown interval
  passes, whatever happened in between that left the cooldown point alone. When the first transmission was a request, the
  second one also waits for the retry interval of that request, unless something in between has set the retry point, as
  an answer or giving up does.\<close>

theorem cooldown_separates_transmissions:
  assumes "allocates (pf_new pf)" "queue_ok True (pr_outgoing_messages (w_protocol w))"
    and "idle_send pf now w = Some w'" "w_tick w' \<noteq> w_tick w"
    and "queue_ok True (pr_outgoing_messages (w_protocol v))"
      "pr_cooldown_time_point (w_protocol v) = pr_cooldown_time_point (w_protocol w')"
    and "idle_send pf later v = Some v'" "w_tick v' \<noteq> w_tick v"
  shows "pr_cooldown_time_point (w_protocol w) \<le> now \<and> pr_retry_time_point (w_protocol w) \<le> now
    \<and> pf_clock pf (w_tick w) + pr_cooldown_interval (w_protocol w) \<le> later
    \<and> (pr_state (w_protocol w) = IDLE \<and> pr_state (w_protocol w') = WAITING_FOR_ANSWER
         \<and> pr_retry_time_point (w_protocol v) = pr_retry_time_point (w_protocol w') \<longrightarrow>
         now + oi_retry_interval (hd (pr_outgoing_messages (w_protocol w'))) \<le> later)"
  using idle_send_attempt [OF assms(1-4)] idle_send_attempt [OF assms(1,5,7,8)] assms(6) by auto

lemma idle_send_request:
  assumes "pf_ops pf = get_stream_reference dir" "allocates (pf_new pf)"
    and "pr_outgoing_messages (w_protocol w) = msg # rest" "msg_ok (oi_message msg)" "0 < oi_number_of_retries msg" "\<not> oi_no_answer msg"
    and "pr_cooldown_time_point (w_protocol w) \<le> now" "pr_retry_time_point (w_protocol w) \<le> now"
    and "vs_inv (w_stream w)" "length (msg_payload (oi_message msg)) \<le> MAX_DATA_SIZE" "length (wire (item_frame msg)) < 256"
      "length (wire (item_frame msg)) \<le> cb_get_space (vs_tx dir (w_stream w))"
  shows "\<exists>w'. idle_send pf now w = Some w' \<and> w_tick w' = w_tick w + 1 \<and> pr_state (w_protocol w') = WAITING_FOR_ANSWER
    \<and> oi_retry_interval (hd (pr_outgoing_messages (w_protocol w'))) = oi_retry_interval msg
    \<and> vs_inv (w_stream w') \<and> cb_get_space (vs_tx dir (w_stream w')) = cb_get_space (vs_tx dir (w_stream w)) - length (wire (item_frame msg))"
  using assms sent_frame_written [OF assms(1,2,9,10), of "oi_use_crc msg", folded item_frame_def, OF assms(11,12)]
  by (simp add: idle_send_def Let_def write_message_eq)

theorem cooldown_separates_transmissions_witness:
  "\<exists>w w'. idle_send quiet_platform 1000 w = Some w' \<and> w_tick w' = w_tick w + 1
     \<and> pf_clock quiet_platform (w_tick w) + pr_cooldown_interval (w_protocol w) \<le> 1400
     \<and> 1000 + oi_retry_interval (hd (pr_outgoing_messages (w_protocol w'))) \<le> 1400"
proof -
  define w where "w = on_protocol (\<lambda>p. p\<lparr>pr_outgoing_messages := [sample_item]\<rparr>) quiet_world"
  have w: "pr_outgoing_messages (w_protocol w) = [sample_item]" "pr_cooldown_time_point (w_protocol w) = 0"
    "pr_retry_time_point (w_protocol w) = 0" "pr_cooldown_interval (w_protocol w) = 400" "w_tick w = 0"
    "pr_state (w_protocol w) = IDLE" "vs_inv (w_stream w)" "cb_get_space (vs_tx DIRECTION_A (w_stream w)) = 4096"
    using quiet_tx_space by (simp_all add: w_def quiet_world_def pr_new_sized_def vs_new_inv allocates_replicate)
  note i = sample_item_ok
  have sz: "length (msg_payload (oi_message sample_item)) \<le> MAX_DATA_SIZE" "length (wire (item_frame sample_item)) < 256"
    using i(5,6) by simp_all
  obtain w' where w': "idle_send quiet_platform 1000 w = Some w'" "w_tick w' = w_tick w + 1" "pr_state (w_protocol w') = WAITING_FOR_ANSWER"
    "oi_retry_interval (hd (pr_outgoing_messages (w_protocol w'))) = 250"
    "vs_inv (w_stream w')" "length (wire (item_frame sample_item)) \<le> cb_get_space (vs_tx DIRECTION_A (w_stream w'))"
    using idle_send_request [OF quiet_platform_simps(1,2) w(1) i(1-3) _ _ w(7) sz, where now = 1000] w(2,3,8) i(6)
    by (auto simp: sample_item_def)
  have q: "queue_ok True (pr_outgoing_messages (w_protocol w))" using i(4) w(1) by simp
  have c: "pr_cooldown_time_point (w_protocol w') = 1400" "pr_retry_time_point (w_protocol w') = 1250"
    using idle_send_attempt [OF quiet_platform_simps(2) q w'(1)] w'(2-4) w(4,5,6)
    by (simp_all add: quiet_platform_def)
  define v where "v = on_protocol (\<lambda>p. p\<lparr>pr_outgoing_messages := [sample_item]\<rparr>) w'"
  have v: "pr_outgoing_messages (w_protocol v) = [sample_item]" "pr_retry_time_point (w_protocol v) = pr_retry_time_point (w_protocol w')"
    "pr_cooldown_time_point (w_protocol v) = pr_cooldown_time_point (w_protocol w')" "w_stream v = w_stream w'"
    by (simp_all add: v_def)
  obtain v' where v': "idle_send quiet_platform 1400 v = Some v'" "w_tick v' = w_tick v + 1"
    using idle_send_request [OF quiet_platform_simps(1,2) v(1) i(1-3) _ _ _ sz, where now = 1400] v(2-4) c w'(5,6) by auto
  have "pf_clock quiet_platform (w_tick w) + pr_cooldown_interval (w_protocol w) \<le> 1400
      \<and> 1000 + oi_retry_interval (hd (pr_outgoing_messages (w_protocol w'))) \<le> 1400"
    using cooldown_separates_transmissions [OF quiet_platform_simps(2) q w'(1) _ _ v(3) v'(1)] w'(2,3) v'(2) v(1,2) w(6) i(4)
    by simp
  then show ?thesis using w'(1,2) by blast
qed

section \<open>Incoming frames\<close>

text \<open>What runs for a frame: the message handler registered for its type, the default one, or the built-in
  one.\<close>

definition message_run ::
    "('s, 'h, 'app) platform \<Rightarrow> 'h protocol \<Rightarrow> byte \<Rightarrow> byte list \<Rightarrow> 'app \<Rightarrow> 'app \<times> 'h api_call list \<times> handler_error" where
  "message_run pf p ty data = (case find_handler (pr_message_handlers_map p) ty (pr_default_message_handler p) of
     Some h \<Rightarrow> pf_message pf h ty data | None \<Rightarrow> default_message_handler ty data)"

lemma call_message_handler_eq:
  "call_message_handler pf ty data w = run_handler pf (message_run pf (w_protocol w) ty data) w"
  by (simp add: call_message_handler_def message_run_def Let_def split: option.split)

lemma message_run_cong:
  "pr_message_handlers_map p' = pr_message_handlers_map p \<Longrightarrow> pr_default_message_handler p' = pr_default_message_handler p
    \<Longrightarrow> message_run pf p' = message_run pf p"
  by (intro ext) (simp add: message_run_def)

lemma message_run_accepted [simp]: "message_run pf (w_protocol (accepted f w)) = message_run pf (w_protocol w)"
  by (rule message_run_cong) (simp_all add: accepted_def)

lemma dispatch_message:
  assumes "pr_state (w_protocol w) = IDLE"
    and "tr_incoming_queue (pr_transport (w_protocol w)) = older @ [tf]"
    and "message_run pf (w_protocol w) (f_type (tf_frame tf)) (frame_data (tf_frame tf)) (w_app w) = (app', calls, err)"
  shows "dispatch pf now w = do {
      w2 \<leftarrow> exec_calls pf calls ((accepted (tf_frame tf) w)\<lparr>w_app := app'\<rparr>);
      idle_send pf now (on_protocol (\<lambda>p. p\<lparr>pr_processing_message := False\<rparr>) w2) }"
proof -
  have ne: "tr_incoming_queue (pr_transport (w_protocol w)) \<noteq> []" and last: "last (tr_incoming_queue (pr_transport (w_protocol w))) = tf"
    using assms(2) by simp_all
  have app: "w_app (accepted (tf_frame tf) w) = w_app w" by (simp add: accepted_def)
  have "dispatch pf now w = do {
      w1 \<leftarrow> do {
        (hres, w2) \<leftarrow> call_message_handler pf (f_type (tf_frame tf)) (frame_data (tf_frame tf)) (accepted (tf_frame tf) w);
        Some (on_protocol (\<lambda>p. p\<lparr>pr_processing_message := False\<rparr>) w2) };
      idle_send pf now w1 }"
    using idle_receive_frame [OF ne, of pf] assms(1) last by (simp add: dispatch_def)
  also have "call_message_handler pf (f_type (tf_frame tf)) (frame_data (tf_frame tf)) (accepted (tf_frame tf) w)
      = do { w2 \<leftarrow> exec_calls pf calls ((accepted (tf_frame tf) w)\<lparr>w_app := app'\<rparr>); Some (err, w2) }"
    using assms(3) app by (simp add: call_message_handler_eq run_handler_def)
  finally show ?thesis
    by (cases "exec_calls pf calls ((accepted (tf_frame tf) w)\<lparr>w_app := app'\<rparr>)") simp_all
qed

lemma dispatch_newest:
  assumes "pr_state (w_protocol w) = IDLE"
    and "tr_incoming_queue (pr_transport (w_protocol w)) = older @ [tf]"
    and "find_handler (pr_message_handlers_map (w_protocol w)) (f_type (tf_frame tf))
           (pr_default_message_handler (w_protocol w)) = Some h"
    and "pf_message pf h (f_type (tf_frame tf)) (frame_data (tf_frame tf)) (w_app w) = (app', calls, err)"
  shows "dispatch pf now w = do {
      w2 \<leftarrow> exec_calls pf calls ((accepted (tf_frame tf) w)\<lparr>w_app := app'\<rparr>);
      idle_send pf now (on_protocol (\<lambda>p. p\<lparr>pr_processing_message := False\<rparr>) w2) }
    \<and> tr_incoming_queue (pr_transport (w_protocol (accepted (tf_frame tf) w))) = []"
  using dispatch_message [OF assms(1,2), of pf app' calls err now] assms(3,4) by (simp add: message_run_def accepted_def)

text \<open>Idle: of all the frames received since the last call only the newest is handed
  to the message handler registered for its type (or the default one), with its type and
  exactly its data; the others are dropped. The handler's calls are executed before the
  queue of outgoing messages is looked at.\<close>

lemma idle_dispatches_newest_frame:
  assumes "pr_state (w_protocol w) = IDLE"
    and "tr_incoming_queue (pr_transport (w_protocol w)) = older @ [tf]"
    and "find_handler (pr_message_handlers_map (w_protocol w)) (f_type (tf_frame tf))
           (pr_default_message_handler (w_protocol w)) = Some h"
    and "pf_message pf h (f_type (tf_frame tf)) (frame_data (tf_frame tf)) (w_app w) = (app', calls, err)"
  shows "dispatch pf now w = do {
      w2 \<leftarrow> exec_calls pf calls ((accepted (tf_frame tf) w)\<lparr>w_app := app'\<rparr>);
      idle_send pf now (on_protocol (\<lambda>p. p\<lparr>pr_processing_message := False\<rparr>) w2) }
    \<and> tr_incoming_queue (pr_transport (w_protocol (accepted (tf_frame tf) w))) = []"
  by (rule dispatch_newest [OF assms])

definition with_frames :: "frame list \<Rightarrow> (virtual_stream_holder, unit, nat) world" where
  "with_frames fs = on_protocol (\<lambda>p. p\<lparr>pr_default_message_handler := Some (), pr_default_answer_handler := Some (),
     pr_transport := (pr_transport p)\<lparr>tr_incoming_queue := map (\<lambda>f. \<lparr>tf_frame = f, tf_timestamp = 0\<rparr>) fs\<rparr>\<rparr>) quiet_world"

lemma idle_dispatches_newest_frame_example:
  "\<exists>w'. dispatch quiet_platform 1000 (with_frames [new_frame 1 [] 0 True, new_frame 9 [7] 1 True]) = Some w'
     \<and> tr_incoming_queue (pr_transport (w_protocol w')) = []"
proof -
  let ?w = "with_frames [new_frame 1 [] 0 True, new_frame 9 [7] 1 True]"
  have "pr_state (w_protocol ?w) = IDLE"
    "tr_incoming_queue (pr_transport (w_protocol ?w)) = [\<lparr>tf_frame = new_frame 1 [] 0 True, tf_timestamp = 0\<rparr>]
       @ [\<lparr>tf_frame = new_frame 9 [7] 1 True, tf_timestamp = 0\<rparr>]"
    "find_handler (pr_message_handlers_map (w_protocol ?w)) 9 (pr_default_message_handler (w_protocol ?w)) = Some ()"
    by (simp_all add: with_frames_def quiet_world_def pr_new_sized_def find_handler_def)
  from idle_dispatches_newest_frame [OF this(1,2), of "()" quiet_platform "w_app ?w" "[]" HANDLER_OK 1000] this(3)
  show ?thesis
    by (simp add: quiet_platform_def idle_send_def accepted_def with_frames_def quiet_world_def pr_new_sized_def)
qed

lemma dispatch_answer:
  assumes "pr_state (w_protocol w) = WAITING_FOR_ANSWER" "now \<le> pr_answer_time_point (w_protocol w)"
    and "tr_incoming_queue (pr_transport (w_protocol w)) = tf # later"
    and "pr_outgoing_messages (w_protocol w) = msg # rest"
    and "find_handler (pr_answer_handlers_map (w_protocol w)) (pr_last_message_type (w_protocol w))
           (pr_default_answer_handler (w_protocol w)) = Some h"
    and "pf_answer pf h (pr_last_message_type (w_protocol w)) (f_type (tf_frame tf)) (frame_data (tf_frame tf)) (w_app w)
           = (app', [], err)"
  shows "\<exists>w'. dispatch pf now w = Some w' \<and> w_stream w' = w_stream w \<and> w_tick w' = w_tick w \<and> w_app w' = app'
    \<and> w_protocol w' = (w_protocol w)\<lparr>pr_transport := (pr_transport (w_protocol w))\<lparr>tr_incoming_queue := later\<rparr>,
         pr_outgoing_messages := rest, pr_retry_time_point := now, pr_state := IDLE\<rparr>"
  using assms
  by (simp add: dispatch_def tr_available_def waiting_answer_def tr_pop_def call_answer_handler_def
      run_handler_def pop_outgoing_def Let_def)

text \<open>Waiting: the first frame in the queue ends the exchange whatever its type is.
  The answer handler registered for the type of the request (not of the frame) runs with
  both types and the data, the request leaves the queue and the handler is idle, even when
  the handler reports an error; frames behind it stay for the idle state.\<close>

lemma any_frame_completes_request:
  assumes "pr_state (w_protocol w) = WAITING_FOR_ANSWER" "now \<le> pr_answer_time_point (w_protocol w)"
    and "tr_incoming_queue (pr_transport (w_protocol w)) = tf # later"
    and "pr_outgoing_messages (w_protocol w) = msg # rest"
    and "find_handler (pr_answer_handlers_map (w_protocol w)) (pr_last_message_type (w_protocol w))
           (pr_default_answer_handler (w_protocol w)) = Some h"
    and "pf_answer pf h (pr_last_message_type (w_protocol w)) (f_type (tf_frame tf)) (frame_data (tf_frame tf)) (w_app w)
           = (app', [], err)"
  shows "\<exists>w'. dispatch pf now w = Some w' \<and> pr_outgoing_messages (w_protocol w') = rest
    \<and> pr_state (w_protocol w') = IDLE \<and> w_app w' = app'
    \<and> tr_incoming_queue (pr_transport (w_protocol w')) = later \<and> pr_retry_time_point (w_protocol w') = now"
  using dispatch_answer [OF assms] by auto

lemma any_frame_completes_request_example:
  "\<exists>w'. dispatch quiet_platform 1000 (on_protocol (\<lambda>p. p\<lparr>pr_state := WAITING_FOR_ANSWER,
        pr_answer_time_point := 1100, pr_outgoing_messages := [sample_item]\<rparr>) (with_frames [new_frame 3 [] 0 False])) = Some w'
     \<and> pr_outgoing_messages (w_protocol w') = [] \<and> pr_state (w_protocol w') = IDLE"
proof -
  let ?w = "on_protocol (\<lambda>p. p\<lparr>pr_state := WAITING_FOR_ANSWER, pr_answer_time_point := 1100,
    pr_outgoing_messages := [sample_item]\<rparr>) (with_frames [new_frame 3 [] 0 False])"
  show ?thesis
    using any_frame_completes_request [of ?w 1000 "\<lparr>tf_frame = new_frame 3 [] 0 False, tf_timestamp = 0\<rparr>" "[]"
        sample_item "[]" "()" quiet_platform "w_app ?w" HANDLER_OK]
    by (auto simp: with_frames_def quiet_world_def pr_new_sized_def find_handler_def quiet_platform_def)
qed

end
