(* ===== verification/Protocol_Exchange.thy ===== *)
theory Protocol_Exchange
  imports Protocol_Properties
begin

text \<open>
  Two protocol handlers on the two ends of a virtual stream: a request, the call of the
  message handler on the other side, its answer, and the call of the answer handler.
\<close>

text \<open>Whole frames waiting in the stream are read and decoded in one call of the loop.\<close>

lemma received_frames:
  assumes pf: "pf_ops pf = get_stream_reference dir"
    and t: "settled (pr_transport (w_protocol w)) (Search [])" "tr_incoming_queue (pr_transport (w_protocol w)) = []"
    and s: "vs_inv (w_stream w)" "cb_list (vs_rx dir (w_stream w)) = concat (map wire fs)"
    and fs: "\<forall>f \<in> set fs. frame_ok f" "length (concat (map wire fs)) \<le> cb_capacity (tr_buffer (pr_transport (w_protocol w)))"
  obtains t1 t' s' where "tr_read_data (pf_ops pf) (pr_transport (w_protocol w)) (w_stream w) = (length (concat (map wire fs)), t1, s')"
    "handler t1 (Search [])" "unread t1 = concat (map wire fs)" "process_data (pf_clock pf (w_tick w)) t1 = Some t'"
    "settled t' (Search [])" "map tf_frame (tr_incoming_queue t') = fs"
    "cb_capacity (tr_buffer t') = cb_capacity (tr_buffer (pr_transport (w_protocol w)))"
    "vs_inv s'" "cb_list (vs_rx dir s') = []" "cb_list (vs_tx dir s') = cb_list (vs_tx dir (w_stream w))"
proof -
  let ?t = "pr_transport (w_protocol w)" and ?bs = "concat (map wire fs)"
  have h: "handler ?t (Search [])" "unread ?t = []" "cb_get_size (tr_buffer ?t) = 0"
    using t(1) settled_stored [OF t(1)] by (auto simp: settled_def simp flip: length_cb_list)
  have count: "min (length ?bs) (cb_capacity (tr_buffer ?t)) = length ?bs"
    using fs(2) by simp
  obtain t1 s1 where rd: "tr_read_data (get_stream_reference dir) ?t (w_stream w) = (length ?bs, t1, s1)"
    "handler t1 (Search [])" "unread t1 = ?bs" "tr_incoming_queue t1 = []" "vs_inv s1"
    "cb_list (vs_rx dir s1) = []" "cb_list (vs_tx dir s1) = cb_list (vs_tx dir (w_stream w))"
    "cb_capacity (tr_buffer t1) = cb_capacity (tr_buffer ?t)"
    using virtual.read_data_appends [OF s(1) h(1), of dir] t(2) h(3) fs(2) unfolding s(2) h(2) count
    by (auto simp: cb_get_space_def)
  obtain t2 where pd: "process_data (pf_clock pf (w_tick w)) t1 = Some t2" "settled t2 (Search [])"
    "tr_incoming_queue t2 = stamp t1 fs" "cb_capacity (tr_buffer t2) = cb_capacity (tr_buffer t1)"
    using process_data_decodes [OF rd(2), of "pf_clock pf (w_tick w)"] rd(3,4) decode_wires [OF fs(1)] by auto
  have "map tf_frame (stamp t1 fs) = fs"
    by (simp add: stamp_def o_def)
  then show ?thesis
    using that [of t1 s1 t2] rd pd pf by simp
qed

lemma receive_loop:
  assumes pf: "pf_ops pf = get_stream_reference dir"
    and t: "settled (pr_transport (w_protocol w)) (Search [])" "tr_incoming_queue (pr_transport (w_protocol w)) = []"
    and s: "vs_inv (w_stream w)" "cb_list (vs_rx dir (w_stream w)) = concat (map wire fs)"
    and fs: "\<forall>f \<in> set fs. frame_ok f" "length (concat (map wire fs)) \<le> cb_capacity (tr_buffer (pr_transport (w_protocol w)))"
  shows "\<exists>t' s'. loop pf w = dispatch pf (pf_clock pf (w_tick w)) (ticked t' s' w)
    \<and> settled t' (Search []) \<and> map tf_frame (tr_incoming_queue t') = fs
    \<and> cb_capacity (tr_buffer t') = cb_capacity (tr_buffer (pr_transport (w_protocol w)))
    \<and> vs_inv s' \<and> cb_list (vs_rx dir s') = [] \<and> cb_list (vs_tx dir s') = cb_list (vs_tx dir (w_stream w))"
proof (rule received_frames [OF assms])
  fix t1 t' s'
  assume rd: "tr_read_data (pf_ops pf) (pr_transport (w_protocol w)) (w_stream w) = (length (concat (map wire fs)), t1, s')"
    "process_data (pf_clock pf (w_tick w)) t1 = Some t'"
    and rest: "settled t' (Search [])" "map tf_frame (tr_incoming_queue t') = fs"
    "cb_capacity (tr_buffer t') = cb_capacity (tr_buffer (pr_transport (w_protocol w)))"
    "vs_inv s'" "cb_list (vs_rx dir s') = []" "cb_list (vs_tx dir s') = cb_list (vs_tx dir (w_stream w))"
  show ?thesis
    by (rule exI [of _ t'], rule exI [of _ s']) (simp add: loop_eq [OF rd] rest)
qed

text \<open>The handlers registered, the intervals and the size of the receive buffer are the same.\<close>

definition same_setup :: "'h protocol \<Rightarrow> 'h protocol \<Rightarrow> bool" where
  "same_setup p p' \<longleftrightarrow>
     pr_message_handlers_map p' = pr_message_handlers_map p \<and> pr_answer_handlers_map p' = pr_answer_handlers_map p
     \<and> pr_timeout_handlers_map p' = pr_timeout_handlers_map p
     \<and> pr_default_message_handler p' = pr_default_message_handler p
     \<and> pr_default_answer_handler p' = pr_default_answer_handler p
     \<and> pr_default_timeout_handler p' = pr_default_timeout_handler p
     \<and> pr_answer_timeout_interval p' = pr_answer_timeout_interval p
     \<and> pr_cooldown_interval p' = pr_cooldown_interval p
     \<and> cb_capacity (tr_buffer (pr_transport p')) = cb_capacity (tr_buffer (pr_transport p))"

text \<open>A handler with nothing to do: settled, idle, nothing received and nothing to send.\<close>

definition at_rest :: "'h protocol \<Rightarrow> bool" where
  "at_rest p \<longleftrightarrow> settled (pr_transport p) (Search []) \<and> tr_incoming_queue (pr_transport p) = []
     \<and> pr_state p = IDLE \<and> pr_outgoing_messages p = []"

lemma settled_queue [simp]: "settled (t\<lparr>tr_incoming_queue := q\<rparr>) ph = settled t ph"
  by (simp add: settled_def)

text \<open>An idle handler with a request that is due transmits it and waits.\<close>

lemma send_loop_cases:
  assumes pf: "pf_ops pf = get_stream_reference dir" "allocates (pf_new pf)"
    and w: "quiet dir w" "pr_state (w_protocol w) = IDLE" "pr_outgoing_messages (w_protocol w) = [item]"
      "pr_cooldown_time_point (w_protocol w) \<le> pf_clock pf (w_tick w)"
      "pr_retry_time_point (w_protocol w) \<le> pf_clock pf (w_tick w)"
    and item: "msg_ok (oi_message item)" "0 < oi_number_of_retries item"
      "length (msg_payload (oi_message item)) \<le> MAX_DATA_SIZE" "length (wire (item_frame item)) < 256"
    and tx: "cb_list (vs_tx dir (w_stream w)) = []"
  shows "if oi_no_answer item \<and> \<not> pf_popped_kept pf then loop pf w = None else \<exists>w'. loop pf w = Some w'
    \<and> (if oi_no_answer item
       then pr_state (w_protocol w') = IDLE \<and> pr_outgoing_messages (w_protocol w') = []
         \<and> pr_retry_time_point (w_protocol w') = pf_clock pf (w_tick w)
       else pr_state (w_protocol w') = WAITING_FOR_ANSWER
         \<and> pr_outgoing_messages (w_protocol w') = [item\<lparr>oi_number_of_retries := oi_number_of_retries item - 1\<rparr>]
         \<and> pr_answer_time_point (w_protocol w') = pf_clock pf (w_tick w) + pr_answer_timeout_interval (w_protocol w)
         \<and> pr_retry_time_point (w_protocol w') = pf_clock pf (w_tick w) + oi_retry_interval item)
    \<and> pr_last_message_type (w_protocol w') = m_frame_type (oi_message item)
    \<and> settled (pr_transport (w_protocol w')) (Search []) \<and> tr_incoming_queue (pr_transport (w_protocol w')) = []
    \<and> cb_capacity (tr_buffer (pr_transport (w_protocol w'))) = cb_capacity (tr_buffer (pr_transport (w_protocol w)))
    \<and> pr_answer_handlers_map (w_protocol w') = pr_answer_handlers_map (w_protocol w)
    \<and> pr_default_answer_handler (w_protocol w') = pr_default_answer_handler (w_protocol w)
    \<and> w_app w' = w_app w \<and> w_tick w' = w_tick w + 2 \<and> vs_inv (w_stream w')
    \<and> cb_list (vs_tx dir (w_stream w')) = wire (item_frame item) \<and> cb_list (vs_rx dir (w_stream w')) = []
    \<and> same_setup (w_protocol w) (w_protocol w')
    \<and> pr_cooldown_time_point (w_protocol w') = pf_clock pf (w_tick w + 1) + pr_cooldown_interval (w_protocol w)"
proof -
  have q: "settled (pr_transport (w_protocol w)) (Search [])" "tr_incoming_queue (pr_transport (w_protocol w)) = []"
    "vs_inv (w_stream w)" "cb_list (vs_rx dir (w_stream w)) = []"
    using w(1) by (simp_all add: quiet_def)
  obtain t s where l: "loop pf w = dispatch pf (pf_clock pf (w_tick w)) (ticked t s w)"
    "settled t (Search [])" "tr_incoming_queue t = []"
    "cb_capacity (tr_buffer t) = cb_capacity (tr_buffer (pr_transport (w_protocol w)))"
    "vs_inv s" "cb_list (vs_rx dir s) = []" "cb_list (vs_tx dir s) = []"
    using receive_loop [OF pf(1) q(1,2,3), of "[]"] q(4) tx by auto
  have "cb_get_space (vs_tx dir s) = BUFFER_SIZE"
    using l(5,7) by (simp add: cb_get_space_def flip: length_cb_list)
  then have space: "length (wire (item_frame item)) \<le> cb_get_space (vs_tx dir s)"
    using item(4) by simp
  note sent = sent_frame_written [OF pf(1,2) l(5) item(3), of "oi_use_crc item", folded item_frame_def, OF item(4) space]
  have recv: "idle_receive pf (ticked t s w) = Some (ticked t s w)"
    using l(3) by (intro idle_receive_empty) simp
  have "loop pf w = (if oi_no_answer item \<and> \<not> pf_popped_kept pf then None else Some (on_protocol (\<lambda>p. if oi_no_answer item
      then p\<lparr>pr_last_message_type := m_frame_type (oi_message item), pr_outgoing_messages := [],
          pr_retry_time_point := pf_clock pf (w_tick w)\<rparr>
      else p\<lparr>pr_last_message_type := m_frame_type (oi_message item), pr_state := WAITING_FOR_ANSWER,
          pr_answer_time_point := pf_clock pf (w_tick w) + pr_answer_timeout_interval p,
          pr_retry_time_point := pf_clock pf (w_tick w) + oi_retry_interval item,
          pr_outgoing_messages := [item\<lparr>oi_number_of_retries := oi_number_of_retries item - 1\<rparr>]\<rparr>)
      (after_write pf (snd (sent_frame pf (oi_message item) (oi_use_crc item) s)) (ticked t s w))))"
    using l(1) w sent(1) item(2) recv
    by (cases "oi_no_answer item") (simp_all add: dispatch_def idle_send_def Let_def write_message_eq [OF pf(2) item(1)])
  then show ?thesis
    using l w(2) sent by (cases "oi_no_answer item") (simp_all add: same_setup_def)
qed

lemma send_loop:
  assumes pf: "pf_ops pf = get_stream_reference dir" "allocates (pf_new pf)"
    and w: "quiet dir w" "pr_state (w_protocol w) = IDLE" "pr_outgoing_messages (w_protocol w) = [item]"
      "pr_cooldown_time_point (w_protocol w) \<le> pf_clock pf (w_tick w)"
      "pr_retry_time_point (w_protocol w) \<le> pf_clock pf (w_tick w)"
    and item: "msg_ok (oi_message item)" "0 < oi_number_of_retries item"
      "length (msg_payload (oi_message item)) \<le> MAX_DATA_SIZE" "length (wire (item_frame item)) < 256"
    and tx: "cb_list (vs_tx dir (w_stream w)) = []"
    and kept: "oi_no_answer item \<longrightarrow> pf_popped_kept pf"
  shows "\<exists>w'. loop pf w = Some w'
    \<and> (if oi_no_answer item
       then pr_state (w_protocol w') = IDLE \<and> pr_outgoing_messages (w_protocol w') = []
         \<and> pr_retry_time_point (w_protocol w') = pf_clock pf (w_tick w)
       else pr_state (w_protocol w') = WAITING_FOR_ANSWER
         \<and> pr_outgoing_messages (w_protocol w') = [item\<lparr>oi_number_of_retries := oi_number_of_retries item - 1\<rparr>]
         \<and> pr_answer_time_point (w_protocol w') = pf_clock pf (w_tick w) + pr_answer_timeout_interval (w_protocol w)
         \<and> pr_retry_time_point (w_protocol w') = pf_clock pf (w_tick w) + oi_retry_interval item)
    \<and> pr_last_message_type (w_protocol w') = m_frame_type (oi_message item)
    \<and> settled (pr_transport (w_protocol w')) (Search []) \<and> tr_incoming_queue (pr_transport (w_protocol w')) = []
    \<and> cb_capacity (tr_buffer (pr_transport (w_protocol w'))) = cb_capacity (tr_buffer (pr_transport (w_protocol w)))
    \<and> pr_answer_handlers_map (w_protocol w') = pr_answer_handlers_map (w_protocol w)
    \<and> pr_default_answer_handler (w_protocol w') = pr_default_answer_handler (w_protocol w)
    \<and> w_app w' = w_app w \<and> w_tick w' = w_tick w + 2 \<and> vs_inv (w_stream w')
    \<and> cb_list (vs_tx dir (w_stream w')) = wire (item_frame item) \<and> cb_list (vs_rx dir (w_stream w')) = []
    \<and> same_setup (w_protocol w) (w_protocol w')
    \<and> pr_cooldown_time_point (w_protocol w') = pf_clock pf (w_tick w + 1) + pr_cooldown_interval (w_protocol w)"
proof -
  have "\<not> (oi_no_answer item \<and> \<not> pf_popped_kept pf)" using kept by blast
  then show ?thesis using send_loop_cases [OF assms(1-12)] by (simp only: if_False)
qed

text \<open>The calls of a message handler that answers with one message: \<open>u\<close> is the CRC flag of the
  answer, the one of the request unless the handler gives it.\<close>

definition answers :: "bool \<Rightarrow> 'h api_call list \<Rightarrow> haier_message \<Rightarrow> bool \<Rightarrow> bool" where
  "answers crc calls a u \<longleftrightarrow> calls = [Send_Answer a] \<and> u = crc \<or> calls = [Send_Answer_Crc a u]"

lemma idle_send_waits:
  "pr_outgoing_messages (w_protocol w) = [] \<or> now < pr_cooldown_time_point (w_protocol w) \<Longrightarrow> idle_send pf now w = Some w"
  by (auto simp: idle_send_def Let_def split: list.split)

text \<open>An idle handler receives a frame, its message handler answers with one message, and the answer
  goes out. The answer restarts the cooldown, so nothing else is sent in the same call of the loop.\<close>

lemma answer_loop_queue:
  assumes pf: "pf_ops pf = get_stream_reference dir" "allocates (pf_new pf)"
    and v: "settled (pr_transport (w_protocol v)) (Search [])" "tr_incoming_queue (pr_transport (w_protocol v)) = []"
      "pr_state (w_protocol v) = IDLE"
      "pr_outgoing_messages (w_protocol v) = [] \<or> pf_clock pf (w_tick v) < pf_clock pf (w_tick v + 1) + pr_cooldown_interval (w_protocol v)"
    and s: "vs_inv (w_stream v)" "cb_list (vs_rx dir (w_stream v)) = wire f" "cb_list (vs_tx dir (w_stream v)) = []"
    and f: "frame_ok f" "length (wire f) \<le> cb_capacity (tr_buffer (pr_transport (w_protocol v)))"
    and h: "find_handler (pr_message_handlers_map (w_protocol v)) (f_type f) (pr_default_message_handler (w_protocol v)) = Some h"
      "pf_message pf h (f_type f) (frame_data f) (w_app v) = (app', calls, err)" "answers (f_use_crc f) calls a u"
    and a: "msg_ok a" "length (msg_payload a) \<le> MAX_DATA_SIZE"
  defines "g \<equiv> new_frame (m_frame_type a) (msg_payload a) (of_nat (length (msg_payload a))) u"
  assumes g: "length (wire g) < 256"
  shows "\<exists>v'. loop pf v = Some v' \<and> w_app v' = app' \<and> vs_inv (w_stream v')
    \<and> cb_list (vs_tx dir (w_stream v')) = wire g \<and> cb_list (vs_rx dir (w_stream v')) = []
    \<and> pr_answer_sent (w_protocol v') \<and> same_setup (w_protocol v) (w_protocol v')
    \<and> settled (pr_transport (w_protocol v')) (Search []) \<and> tr_incoming_queue (pr_transport (w_protocol v')) = []
    \<and> pr_state (w_protocol v') = IDLE \<and> pr_outgoing_messages (w_protocol v') = pr_outgoing_messages (w_protocol v)
    \<and> w_tick v' = w_tick v + 2
    \<and> pr_cooldown_time_point (w_protocol v') = pf_clock pf (w_tick v + 1) + pr_cooldown_interval (w_protocol v)"
proof -
  obtain t s where l: "loop pf v = dispatch pf (pf_clock pf (w_tick v)) (ticked t s v)"
    "map tf_frame (tr_incoming_queue t) = [f]"
    "vs_inv s" "cb_list (vs_rx dir s) = []" "cb_list (vs_tx dir s) = []"
    "settled t (Search [])" "cb_capacity (tr_buffer t) = cb_capacity (tr_buffer (pr_transport (w_protocol v)))"
    using receive_loop [OF pf(1) v(1,2) s(1), of "[f]"] s(2,3) f by auto
  obtain tf where tf: "tr_incoming_queue t = [] @ [tf]" "tf_frame tf = f"
    using l(2) by auto
  have "cb_get_space (vs_tx dir s) = BUFFER_SIZE"
    using l(3,5) by (simp add: cb_get_space_def flip: length_cb_list)
  then have space: "length (wire g) \<le> cb_get_space (vs_tx dir s)" using g by simp
  note sent = sent_frame_written [OF pf(1,2) l(3) a(2), of u, folded g_def, OF g space]
  define w0 where "w0 = accepted f (ticked t s v)"
  have w0: "w_stream w0 = s" "pr_processing_message (w_protocol w0)"
    "pr_incoming_message_crc_status (w_protocol w0) = f_use_crc f" "pr_outgoing_messages (w_protocol w0) = pr_outgoing_messages (w_protocol v)"
    by (simp_all add: w0_def accepted_def)
  define w2 where "w2 = on_protocol (\<lambda>p. p\<lparr>pr_answer_sent := True\<rparr>)
     (after_write pf (snd (sent_frame pf a u s)) (w0\<lparr>w_app := app'\<rparr>))"
  have "exec_calls pf calls (w0\<lparr>w_app := app'\<rparr>) = Some w2"
    using w0 sent(1) h(3) unfolding answers_def
    by (elim disjE conjE) (simp_all add: send_answer_def send_answer_crc_def write_message_eq [OF pf(2) a(1)] w2_def)
  moreover have "dispatch pf (pf_clock pf (w_tick v)) (ticked t s v) = do {
      w2 \<leftarrow> exec_calls pf calls (w0\<lparr>w_app := app'\<rparr>);
      idle_send pf (pf_clock pf (w_tick v)) (on_protocol (\<lambda>p. p\<lparr>pr_processing_message := False\<rparr>) w2) }"
    using dispatch_newest [of "ticked t s v" "[]" tf h pf app' calls err] v(3) tf h
    by (simp add: w0_def)
  ultimately have "loop pf v = Some (on_protocol (\<lambda>p. p\<lparr>pr_processing_message := False\<rparr>) w2)"
    using l(1) v(4) idle_send_waits [of "on_protocol (\<lambda>p. p\<lparr>pr_processing_message := False\<rparr>) w2" "pf_clock pf (w_tick v)" pf]
    by (simp add: w2_def w0_def accepted_def)
  moreover have "same_setup (w_protocol v) (w_protocol w2)"
    using l(7) by (simp add: same_setup_def w2_def w0_def accepted_def)
  ultimately show ?thesis
    using sent l v(3) by (simp add: w2_def w0_def accepted_def same_setup_def)
qed

lemma answer_loop:
  assumes pf: "pf_ops pf = get_stream_reference dir" "allocates (pf_new pf)"
    and v: "settled (pr_transport (w_protocol v)) (Search [])" "tr_incoming_queue (pr_transport (w_protocol v)) = []"
      "pr_state (w_protocol v) = IDLE" "pr_outgoing_messages (w_protocol v) = []"
    and s: "vs_inv (w_stream v)" "cb_list (vs_rx dir (w_stream v)) = wire f" "cb_list (vs_tx dir (w_stream v)) = []"
    and f: "frame_ok f" "length (wire f) \<le> cb_capacity (tr_buffer (pr_transport (w_protocol v)))"
    and h: "find_handler (pr_message_handlers_map (w_protocol v)) (f_type f) (pr_default_message_handler (w_protocol v)) = Some h"
      "pf_message pf h (f_type f) (frame_data f) (w_app v) = (app', calls, err)" "answers (f_use_crc f) calls a u"
    and a: "msg_ok a" "length (msg_payload a) \<le> MAX_DATA_SIZE"
  defines "g \<equiv> new_frame (m_frame_type a) (msg_payload a) (of_nat (length (msg_payload a))) u"
  assumes g: "length (wire g) < 256"
  shows "\<exists>v'. loop pf v = Some v' \<and> w_app v' = app' \<and> vs_inv (w_stream v')
    \<and> cb_list (vs_tx dir (w_stream v')) = wire g \<and> cb_list (vs_rx dir (w_stream v')) = []
    \<and> pr_answer_sent (w_protocol v') \<and> at_rest (w_protocol v') \<and> same_setup (w_protocol v) (w_protocol v')"
  using answer_loop_queue [OF pf v(1-3) disjI1 [OF v(4)] s f h a g [unfolded g_def]] v(4)
  unfolding g_def by (auto simp: at_rest_def)

text \<open>A frame that comes to a resting handler and is not to be answered.\<close>

lemma message_loop:
  assumes pf: "pf_ops pf = get_stream_reference dir"
    and v: "at_rest (w_protocol v)"
    and s: "vs_inv (w_stream v)" "cb_list (vs_rx dir (w_stream v)) = wire f"
    and f: "frame_ok f" "length (wire f) \<le> cb_capacity (tr_buffer (pr_transport (w_protocol v)))"
    and h: "message_run pf (w_protocol v) (f_type f) (frame_data f) (w_app v) = (app', calls, err)" "calls = [] \<or> calls = [No_Answer]"
  shows "\<exists>v'. loop pf v = Some v' \<and> w_app v' = app' \<and> at_rest (w_protocol v') \<and> same_setup (w_protocol v) (w_protocol v')
    \<and> vs_inv (w_stream v') \<and> cb_list (vs_tx dir (w_stream v')) = cb_list (vs_tx dir (w_stream v)) \<and> cb_list (vs_rx dir (w_stream v')) = []
    \<and> w_tick v' = Suc (w_tick v) \<and> pr_answer_sent (w_protocol v') = (calls = [No_Answer])
    \<and> pr_cooldown_time_point (w_protocol v') = pr_cooldown_time_point (w_protocol v)
    \<and> pr_retry_time_point (w_protocol v') = pr_retry_time_point (w_protocol v)"
proof -
  have rest: "settled (pr_transport (w_protocol v)) (Search [])" "tr_incoming_queue (pr_transport (w_protocol v)) = []"
    "pr_state (w_protocol v) = IDLE" "pr_outgoing_messages (w_protocol v) = []"
    using v by (simp_all add: at_rest_def)
  obtain t s' where l: "loop pf v = dispatch pf (pf_clock pf (w_tick v)) (ticked t s' v)"
    "map tf_frame (tr_incoming_queue t) = [f]" "vs_inv s'" "cb_list (vs_rx dir s') = []"
    "cb_list (vs_tx dir s') = cb_list (vs_tx dir (w_stream v))"
    "settled t (Search [])" "cb_capacity (tr_buffer t) = cb_capacity (tr_buffer (pr_transport (w_protocol v)))"
    using receive_loop [OF pf rest(1,2) s(1), of "[f]"] s(2) f by auto
  obtain tf where tf: "tr_incoming_queue t = [] @ [tf]" "tf_frame tf = f"
    using l(2) by auto
  define w0 where "w0 = (accepted f (ticked t s' v))\<lparr>w_app := app'\<rparr>"
  define w2 where "w2 = (if calls = [] then w0 else on_protocol (\<lambda>p. p\<lparr>pr_answer_sent := True\<rparr>) w0)"
  have "exec_calls pf calls w0 = Some w2"
    using h(2) by (auto simp: w2_def w0_def no_answer_def accepted_def)
  moreover have "message_run pf (w_protocol (ticked t s' v)) = message_run pf (w_protocol v)"
    by (rule message_run_cong) simp_all
  ultimately have "dispatch pf (pf_clock pf (w_tick v)) (ticked t s' v)
      = idle_send pf (pf_clock pf (w_tick v)) (on_protocol (\<lambda>p. p\<lparr>pr_processing_message := False\<rparr>) w2)"
    using dispatch_message [of "ticked t s' v" "[]" tf pf app' calls err] rest(3) tf h(1) by (simp add: w0_def)
  also have "\<dots> = Some (on_protocol (\<lambda>p. p\<lparr>pr_processing_message := False\<rparr>) w2)"
    using rest(4) by (intro idle_send_waits) (simp add: w2_def w0_def accepted_def)
  finally show ?thesis
    using l rest h(2) by (auto simp: w2_def w0_def accepted_def at_rest_def same_setup_def)
qed

definition exchange ::
    "(virtual_stream_holder, 'h, 'a) platform \<Rightarrow> (virtual_stream_holder, 'k, 'b) platform
      \<Rightarrow> (virtual_stream_holder, 'h, 'a) world \<Rightarrow> (virtual_stream_holder, 'k, 'b) world
      \<Rightarrow> ((virtual_stream_holder, 'h, 'a) world \<times> (virtual_stream_holder, 'k, 'b) world) option" where
  "exchange pfA pfB w v =
     do {
       w1 \<leftarrow> loop pfA w;
       v1 \<leftarrow> loop pfB (v\<lparr>w_stream := w_stream w1\<rparr>);
       w2 \<leftarrow> loop pfA (w1\<lparr>w_stream := w_stream v1\<rparr>);
       Some (w2, v1)
     }"

lemma vs_crossed_back: "vs_tx (other_end dir) h = vs_rx dir h"
  by (cases dir) (simp_all add: other_end_def vs_rx_def vs_tx_def)

text \<open>The frame of a message that fits.\<close>

definition message_frame :: "haier_message \<Rightarrow> bool \<Rightarrow> frame" where
  "message_frame m u = new_frame (m_frame_type m) (msg_payload m) (of_nat (length (msg_payload m))) u"

lemma message_frame_ok:
  assumes "length (msg_payload m) \<le> MAX_DATA_SIZE"
  shows "frame_ok (message_frame m u)" "f_type (message_frame m u) = m_frame_type m" "f_use_crc (message_frame m u) = u"
    "frame_data (message_frame m u) = msg_payload m" "item_frame item = message_frame (oi_message item) (oi_use_crc item)"
proof -
  have "unat (of_nat (length (msg_payload m)) :: byte) = length (msg_payload m)"
    using assms by (simp add: unat_of_nat)
  then show "frame_ok (message_frame m u)" "f_type (message_frame m u) = m_frame_type m" "f_use_crc (message_frame m u) = u"
    "frame_data (message_frame m u) = msg_payload m" "item_frame item = message_frame (oi_message item) (oi_use_crc item)"
    using assms by (simp_all add: message_frame_def item_frame_def new_frame_ok)
qed

text \<open>The first half: a message goes out, with or without waiting for an answer, and the other side answers it.\<close>

lemma send_and_serve:
  assumes A: "pf_ops pfA = get_stream_reference dir" "allocates (pf_new pfA)"
    and B: "pf_ops pfB = get_stream_reference (other_end dir)" "allocates (pf_new pfB)"
    and w: "quiet dir w" "pr_state (w_protocol w) = IDLE" "pr_outgoing_messages (w_protocol w) = [item]"
      "pr_cooldown_time_point (w_protocol w) \<le> pf_clock pfA (w_tick w)"
      "pr_retry_time_point (w_protocol w) \<le> pf_clock pfA (w_tick w)"
      "cb_list (vs_tx dir (w_stream w)) = []"
    and item: "msg_ok (oi_message item)" "0 < oi_number_of_retries item"
      "length (msg_payload (oi_message item)) \<le> MAX_DATA_SIZE"
      "length (wire (item_frame item)) < 256"
      "length (wire (item_frame item)) \<le> cb_capacity (tr_buffer (pr_transport (w_protocol v)))"
    and v: "settled (pr_transport (w_protocol v)) (Search [])" "tr_incoming_queue (pr_transport (w_protocol v)) = []"
      "pr_state (w_protocol v) = IDLE" "pr_outgoing_messages (w_protocol v) = []"
      "find_handler (pr_message_handlers_map (w_protocol v)) (m_frame_type (oi_message item))
         (pr_default_message_handler (w_protocol v)) = Some h"
      "pf_message pfB h (m_frame_type (oi_message item)) (msg_payload (oi_message item)) (w_app v) = (b', calls, err)"
      "answers (oi_use_crc item) calls a u"
    and a: "msg_ok a" "length (msg_payload a) \<le> MAX_DATA_SIZE" "length (wire (message_frame a u)) < 256"
    and kept: "oi_no_answer item \<longrightarrow> pf_popped_kept pfA"
  shows "\<exists>w1 v1. loop pfA w = Some w1 \<and> loop pfB (v\<lparr>w_stream := w_stream w1\<rparr>) = Some v1
    \<and> (if oi_no_answer item
       then pr_state (w_protocol w1) = IDLE \<and> pr_outgoing_messages (w_protocol w1) = []
         \<and> pr_retry_time_point (w_protocol w1) = pf_clock pfA (w_tick w)
       else pr_state (w_protocol w1) = WAITING_FOR_ANSWER \<and> (\<exists>i. pr_outgoing_messages (w_protocol w1) = [i])
         \<and> pr_answer_time_point (w_protocol w1) = pf_clock pfA (w_tick w) + pr_answer_timeout_interval (w_protocol w))
    \<and> pr_last_message_type (w_protocol w1) = m_frame_type (oi_message item)
    \<and> settled (pr_transport (w_protocol w1)) (Search []) \<and> tr_incoming_queue (pr_transport (w_protocol w1)) = []
    \<and> w_app w1 = w_app w \<and> w_tick w1 = w_tick w + 2 \<and> same_setup (w_protocol w) (w_protocol w1)
    \<and> pr_cooldown_time_point (w_protocol w1) = pf_clock pfA (w_tick w + 1) + pr_cooldown_interval (w_protocol w)
    \<and> w_app v1 = b' \<and> at_rest (w_protocol v1) \<and> same_setup (w_protocol v) (w_protocol v1)
    \<and> vs_inv (w_stream v1) \<and> cb_list (vs_rx dir (w_stream v1)) = wire (message_frame a u) \<and> cb_list (vs_tx dir (w_stream v1)) = []"
proof -
  let ?f = "item_frame item"
  note f = message_frame_ok(1-4) [OF item(3), of "oi_use_crc item", folded message_frame_ok(5) [OF item(3), of item]]
  obtain w1 where w1: "loop pfA w = Some w1"
    "if oi_no_answer item
       then pr_state (w_protocol w1) = IDLE \<and> pr_outgoing_messages (w_protocol w1) = []
         \<and> pr_retry_time_point (w_protocol w1) = pf_clock pfA (w_tick w)
       else pr_state (w_protocol w1) = WAITING_FOR_ANSWER \<and> (\<exists>i. pr_outgoing_messages (w_protocol w1) = [i])
         \<and> pr_answer_time_point (w_protocol w1) = pf_clock pfA (w_tick w) + pr_answer_timeout_interval (w_protocol w)"
    "pr_last_message_type (w_protocol w1) = m_frame_type (oi_message item)"
    "settled (pr_transport (w_protocol w1)) (Search [])" "tr_incoming_queue (pr_transport (w_protocol w1)) = []"
    "w_app w1 = w_app w" "w_tick w1 = w_tick w + 2" "vs_inv (w_stream w1)"
    "cb_list (vs_tx dir (w_stream w1)) = wire ?f" "cb_list (vs_rx dir (w_stream w1)) = []"
    "same_setup (w_protocol w) (w_protocol w1)"
    "pr_cooldown_time_point (w_protocol w1) = pf_clock pfA (w_tick w + 1) + pr_cooldown_interval (w_protocol w)"
    using send_loop [OF A w(1-5) item(1-4) w(6) kept] by (auto split: if_splits)
  define v0 where "v0 = v\<lparr>w_stream := w_stream w1\<rparr>"
  have v0: "w_protocol v0 = w_protocol v" "w_app v0 = w_app v" "w_stream v0 = w_stream w1"
    by (simp_all add: v0_def)
  obtain v1 where v1: "loop pfB v0 = Some v1" "w_app v1 = b'" "vs_inv (w_stream v1)"
    "cb_list (vs_tx (other_end dir) (w_stream v1)) = wire (message_frame a u)" "cb_list (vs_rx (other_end dir) (w_stream v1)) = []"
    "at_rest (w_protocol v1)" "same_setup (w_protocol v) (w_protocol v1)"
    using answer_loop [OF B, of v0 ?f h b' calls err a u] v v0 w1(8-10) f item(5) a vs_crossed vs_crossed_back
    unfolding message_frame_def by auto
  show ?thesis
    using w1 v1 [unfolded v0_def vs_crossed vs_crossed_back] by blast
qed

lemma exchange_answered:
  assumes A: "pf_ops pfA = get_stream_reference dir" "allocates (pf_new pfA)"
    and B: "pf_ops pfB = get_stream_reference (other_end dir)" "allocates (pf_new pfB)"
    and w: "quiet dir w" "pr_state (w_protocol w) = IDLE" "pr_outgoing_messages (w_protocol w) = [item]"
      "pr_cooldown_time_point (w_protocol w) \<le> pf_clock pfA (w_tick w)"
      "pr_retry_time_point (w_protocol w) \<le> pf_clock pfA (w_tick w)"
      "cb_list (vs_tx dir (w_stream w)) = []"
    and item: "msg_ok (oi_message item)" "\<not> oi_no_answer item" "0 < oi_number_of_retries item"
      "length (msg_payload (oi_message item)) \<le> MAX_DATA_SIZE"
      "length (wire (item_frame item)) < 256"
      "length (wire (item_frame item)) \<le> cb_capacity (tr_buffer (pr_transport (w_protocol v)))"
    and v: "settled (pr_transport (w_protocol v)) (Search [])" "tr_incoming_queue (pr_transport (w_protocol v)) = []"
      "pr_state (w_protocol v) = IDLE" "pr_outgoing_messages (w_protocol v) = []"
      "find_handler (pr_message_handlers_map (w_protocol v)) (m_frame_type (oi_message item))
         (pr_default_message_handler (w_protocol v)) = Some h"
      "pf_message pfB h (m_frame_type (oi_message item)) (msg_payload (oi_message item)) (w_app v) = (b', calls, err)"
      "answers (oi_use_crc item) calls a u"
    and a: "msg_ok a" "length (msg_payload a) \<le> MAX_DATA_SIZE"
      "length (wire (new_frame (m_frame_type a) (msg_payload a) (of_nat (length (msg_payload a))) u)) < 256"
      "length (wire (new_frame (m_frame_type a) (msg_payload a) (of_nat (length (msg_payload a))) u))
         \<le> cb_capacity (tr_buffer (pr_transport (w_protocol w)))"
    and k: "find_handler (pr_answer_handlers_map (w_protocol w)) (m_frame_type (oi_message item))
         (pr_default_answer_handler (w_protocol w)) = Some k"
      "pf_answer pfA k (m_frame_type (oi_message item)) (m_frame_type a) (msg_payload a) (w_app w) = (a', [], err')"
      "pf_clock pfA (w_tick w + 2) \<le> pf_clock pfA (w_tick w) + pr_answer_timeout_interval (w_protocol w)"
  shows "\<exists>w2 v1. exchange pfA pfB w v = Some (w2, v1) \<and> w_app v1 = b' \<and> w_app w2 = a'
    \<and> at_rest (w_protocol w2) \<and> same_setup (w_protocol w) (w_protocol w2)
    \<and> at_rest (w_protocol v1) \<and> same_setup (w_protocol v) (w_protocol v1)
    \<and> vs_inv (w_stream w2) \<and> cb_list (vs_rx dir (w_stream w2)) = [] \<and> cb_list (vs_tx dir (w_stream w2)) = []
    \<and> w_tick w2 = w_tick w + 3 \<and> pr_retry_time_point (w_protocol w2) = pf_clock pfA (w_tick w + 2)
    \<and> pr_cooldown_time_point (w_protocol w2) = pf_clock pfA (w_tick w + 1) + pr_cooldown_interval (w_protocol w)"
proof -
  define g where "g = message_frame a u"
  note gk = message_frame_ok(1,2,4) [OF a(2), of u, folded g_def]
  obtain w1 v1 i where w1: "loop pfA w = Some w1" "loop pfB (v\<lparr>w_stream := w_stream w1\<rparr>) = Some v1"
    "pr_state (w_protocol w1) = WAITING_FOR_ANSWER" "pr_outgoing_messages (w_protocol w1) = [i]"
    "pr_answer_time_point (w_protocol w1) = pf_clock pfA (w_tick w) + pr_answer_timeout_interval (w_protocol w)"
    "pr_last_message_type (w_protocol w1) = m_frame_type (oi_message item)"
    "settled (pr_transport (w_protocol w1)) (Search [])" "tr_incoming_queue (pr_transport (w_protocol w1)) = []"
    "w_app w1 = w_app w" "w_tick w1 = w_tick w + 2" "same_setup (w_protocol w) (w_protocol w1)"
    "pr_cooldown_time_point (w_protocol w1) = pf_clock pfA (w_tick w + 1) + pr_cooldown_interval (w_protocol w)"
    and v1: "w_app v1 = b'" "at_rest (w_protocol v1)" "same_setup (w_protocol v) (w_protocol v1)"
    "vs_inv (w_stream v1)" "cb_list (vs_rx dir (w_stream v1)) = wire g" "cb_list (vs_tx dir (w_stream v1)) = []"
    using send_and_serve [OF A B w item(1,3-6) v a(1,2), folded g_def] a(3) item(2) by (auto simp: g_def message_frame_def)
  define w1' where "w1' = w1\<lparr>w_stream := w_stream v1\<rparr>"
  have w1': "w_protocol w1' = w_protocol w1" "w_app w1' = w_app w1" "w_stream w1' = w_stream v1" "w_tick w1' = w_tick w + 2"
    using w1(10) by (simp_all add: w1'_def)
  have cap: "length (wire g) \<le> cb_capacity (tr_buffer (pr_transport (w_protocol w1)))"
    using a(4) w1(11) by (simp add: g_def message_frame_def same_setup_def)
  obtain t s where l: "loop pfA w1' = dispatch pfA (pf_clock pfA (w_tick w1')) (ticked t s w1')"
    "map tf_frame (tr_incoming_queue t) = [g]" "settled t (Search [])"
    "cb_capacity (tr_buffer t) = cb_capacity (tr_buffer (pr_transport (w_protocol w1)))"
    "vs_inv s" "cb_list (vs_rx dir s) = []" "cb_list (vs_tx dir s) = []"
    using receive_loop [OF A(1), of w1' "[g]"] w1(7,8) w1' v1(4-6) gk(1) cap by auto
  obtain tf where tf: "tr_incoming_queue t = [tf]" "tf_frame tf = g" using l(2) by auto
  have k1: "find_handler (pr_answer_handlers_map (w_protocol w1)) (pr_last_message_type (w_protocol w1)) (pr_default_answer_handler (w_protocol w1)) = Some k"
    using k(1) w1(6,11) by (simp add: same_setup_def)
  obtain w2 where w2: "dispatch pfA (pf_clock pfA (w_tick w1')) (ticked t s w1') = Some w2" "w_app w2 = a'"
    "w_stream w2 = s" "w_tick w2 = w_tick w + 3"
    "w_protocol w2 = (w_protocol w1)\<lparr>pr_transport := t\<lparr>tr_incoming_queue := []\<rparr>, pr_outgoing_messages := [],
       pr_retry_time_point := pf_clock pfA (w_tick w + 2), pr_state := IDLE\<rparr>"
    using dispatch_answer [of "ticked t s w1'" "pf_clock pfA (w_tick w1')" tf "[]" i "[]" k pfA a' err']
      w1(3-6,9) w1' tf gk k(2,3) k1 by auto
  then have "exchange pfA pfB w v = Some (w2, v1)"
    using w1(1,2) l(1) by (simp add: exchange_def w1'_def [symmetric])
  moreover have "at_rest (w_protocol w2)" "same_setup (w_protocol w) (w_protocol w2)"
    "pr_retry_time_point (w_protocol w2) = pf_clock pfA (w_tick w + 2)"
    "pr_cooldown_time_point (w_protocol w2) = pf_clock pfA (w_tick w + 1) + pr_cooldown_interval (w_protocol w)"
    using w2(5) l(3,4) w1(11,12) by (simp_all add: at_rest_def same_setup_def)
  ultimately show ?thesis
    using w2(2-4) v1(1-3) l(5-7) by blast
qed


definition fast_platform :: "stream_direction \<Rightarrow> (virtual_stream_holder, unit, nat) platform" where
  "fast_platform dir =
     \<lparr>pf_ops = get_stream_reference dir, pf_new = \<lambda>n. replicate n 0, pf_clock = int,
      pf_message = \<lambda>_ _ d a. (a + length d, [Send_Answer (msg_new CONFIRM NO_SUBCOMMAND (Some d) (length d))], HANDLER_OK),
      pf_answer = \<lambda>_ _ _ d a. (a + length d, [], HANDLER_OK), pf_timeout = \<lambda>_ _ a. (a, [], HANDLER_OK), pf_popped_kept = False\<rparr>"

definition echo_world :: "outgoing_item list \<Rightarrow> (virtual_stream_holder, unit, nat) world" where
  "echo_world q = on_protocol (\<lambda>p. p\<lparr>pr_default_message_handler := Some (), pr_default_answer_handler := Some (),
     pr_outgoing_messages := q\<rparr>) quiet_world"


end
