(* ===== verification/Protocol_Queue.thy ===== *)
theory Protocol_Queue
  imports Protocol_Exchange
begin

text \<open>
  Liveness of the queue of outgoing messages: with a peer that never says anything, every queue
  is worked off in a number of calls of the loop that is known in advance, and with a peer that
  never stops asking, it is not worked off at all.
\<close>

section \<open>What one queued message costs and does\<close>

text \<open>The payload does not fit a frame.\<close>

definition oversized :: "outgoing_item \<Rightarrow> bool" where
  "oversized i \<longleftrightarrow> MAX_DATA_SIZE < length (msg_payload (oi_message i))"

definition item_loops :: "outgoing_item \<Rightarrow> nat" where
  "item_loops i =
     (if oversized i then nat (oi_number_of_retries i) + 1
      else if oi_no_answer i then 1 else 2 * nat (oi_number_of_retries i))"

definition item_bytes :: "outgoing_item \<Rightarrow> byte list" where
  "item_bytes i =
     (if oversized i then []
      else if oi_no_answer i then wire (item_frame i)
      else concat (replicate (nat (oi_number_of_retries i)) (wire (item_frame i))))"

definition timeout_handler :: "'h protocol \<Rightarrow> outgoing_item \<Rightarrow> 'h option" where
  "timeout_handler p i =
     find_handler (pr_timeout_handlers_map p) (m_frame_type (oi_message i)) (pr_default_timeout_handler p)"

definition item_effect :: "('s, 'h, 'app) platform \<Rightarrow> 'h protocol \<Rightarrow> outgoing_item \<Rightarrow> 'app \<Rightarrow> 'app" where
  "item_effect pf p i a =
     (if oversized i \<or> oi_no_answer i then a else timeout_effect pf (timeout_handler p i) (m_frame_type (oi_message i)) a)"

definition item_plain :: "('s, 'h, 'app) platform \<Rightarrow> millis \<Rightarrow> 'h protocol \<Rightarrow> outgoing_item \<Rightarrow> bool" where
  "item_plain pf gap p i \<longleftrightarrow> item_fresh True i \<and> oi_retry_interval i \<le> gap \<and> (oversized i \<or> length (wire (item_frame i)) < 256)
     \<and> silent_timeout pf (timeout_handler p i) (m_frame_type (oi_message i))"

lemma same_timing_plain:
  assumes "same_timing p p'"
  shows "item_plain pf gap p' i = item_plain pf gap p i" "item_effect pf p' i = item_effect pf p i"
proof -
  have "timeout_handler p' i = timeout_handler p i"
    using assms by (simp add: same_timing_def timeout_handler_def)
  then show "item_plain pf gap p' i = item_plain pf gap p i" "item_effect pf p' i = item_effect pf p i"
    by (simp_all add: item_plain_def item_effect_def fun_eq_iff)
qed

lemma item_frame_retries [simp]: "item_frame (i\<lparr>oi_number_of_retries := r\<rparr>) = item_frame i"
  by (simp add: item_frame_def)

lemma loops_add: "loops (m + n) pf w = do { w1 \<leftarrow> loops m pf w; loops n pf w1 }"
  by (induction m arbitrary: w) (auto split: bind_splits)

lemma loops_chain: "loops m pf w = Some w1 \<Longrightarrow> loops n pf w1 = Some w2 \<Longrightarrow> loops (m + n) pf w = Some w2"
  by (simp add: loops_add)

text \<open>The head of an idle queue as a pending request.\<close>

lemma idle_queue_head:
  assumes "idle_queue dir pf gap (i # q) w" "oi_number_of_retries i = int r" "oi_retry_interval i \<le> gap"
  shows "pending_request dir pf i q (timeout_handler (w_protocol w) i) gap r w" "pr_state (w_protocol w) = IDLE"
proof -
  have "i\<lparr>oi_number_of_retries := int r\<rparr> = i" using assms(2) by simp
  then show "pending_request dir pf i q (timeout_handler (w_protocol w) i) gap r w" "pr_state (w_protocol w) = IDLE"
    using assms by (simp_all add: idle_queue_def pending_request_def timeout_handler_def Let_def)
qed

text \<open>Sending the message pops an element that is written to afterwards.\<close>

definition item_unanswered :: "outgoing_item \<Rightarrow> bool" where
  "item_unanswered i \<longleftrightarrow> oi_no_answer i \<and> \<not> oversized i"

text \<open>The head of the queue is dealt with.\<close>

lemma queue_head_done:
  assumes pf: "pf_ops pf = get_stream_reference dir" "allocates (pf_new pf)" "slow_clock gap pf"
    and w: "idle_queue dir pf gap (i # q) w" "item_plain pf gap (w_protocol w) i"
      "length (item_bytes i) \<le> cb_get_space (vs_tx dir (w_stream w))"
    and k: "item_unanswered i \<Longrightarrow> pf_popped_kept pf"
  shows "\<exists>w'. loops (item_loops i) pf w = Some w' \<and> idle_queue dir pf gap q w' \<and> same_timing (w_protocol w) (w_protocol w')
    \<and> w_app w' = item_effect pf (w_protocol w) i (w_app w)
    \<and> cb_list (vs_tx dir (w_stream w')) = cb_list (vs_tx dir (w_stream w)) @ item_bytes i"
proof -
  have i: "msg_ok (oi_message i)" "0 < oi_number_of_retries i" "oi_retry_interval i \<le> gap"
    "silent_timeout pf (timeout_handler (w_protocol w) i) (m_frame_type (oi_message i))"
    "\<not> oversized i \<Longrightarrow> length (wire (item_frame i)) < 256" "\<not> oversized i \<Longrightarrow> length (msg_payload (oi_message i)) \<le> MAX_DATA_SIZE"
    using w(2) by (auto simp: item_plain_def item_fresh_def item_ok_def oversized_def)
  define r where "r = nat (oi_number_of_retries i) - 1"
  have r: "oi_number_of_retries i = int (Suc r)" "nat (oi_number_of_retries i) = Suc r" using i(2) by (simp_all add: r_def)
  note head = idle_queue_head [OF w(1) r(1) i(3)]
  consider "oversized i" | "\<not> oversized i" "oi_no_answer i" | "\<not> oversized i" "\<not> oi_no_answer i" by blast
  then show ?thesis
  proof cases
    case 1
    then have "MAX_DATA_SIZE < length (msg_payload (oi_message i))" by (simp add: oversized_def)
    from refused_lifecycle [OF pf i(1) this head] show ?thesis
      using 1 r(2) by (auto simp: item_loops_def item_bytes_def item_effect_def)
  next
    case 2
    then show ?thesis
      using no_answer_send [OF pf i(1) 2(2) i(2) i(6) i(5) w(1)] w(3) k
      by (auto simp: item_loops_def item_bytes_def item_effect_def item_unanswered_def)
  next
    case 3
    have "Suc r * length (wire (item_frame i)) \<le> cb_get_space (vs_tx dir (w_stream w))"
      using w(3) 3 by (simp add: item_bytes_def r(2) length_concat sum_list_replicate)
    from request_lifecycle [OF pf i(4,1) 3(2) i(6) [OF 3(1)] i(5) [OF 3(1)] head this] show ?thesis
      using 3 r(2) by (auto simp: item_loops_def item_bytes_def item_effect_def)
  qed
qed

section \<open>Properties\<close>

text \<open>The loops needed for a queue whose elements can all be dealt with, and what happens at one that cannot.\<close>

lemma item_bytes_space:
  assumes "quiet dir w" "quiet dir w'" "cb_list (vs_tx dir (w_stream w')) = cb_list (vs_tx dir (w_stream w)) @ bs"
    "length (bs @ extra) \<le> cb_get_space (vs_tx dir (w_stream w))"
  shows "length extra \<le> cb_get_space (vs_tx dir (w_stream w'))"
proof -
  have "cb_get_size (vs_tx dir (w_stream w')) = cb_get_size (vs_tx dir (w_stream w)) + length bs"
    unfolding length_cb_list [symmetric] assms(3) by simp
  then show ?thesis using assms(1,2,4) by (simp add: quiet_def cb_get_space_def)
qed

lemma queue_works_off:
  assumes pf: "pf_ops pf = get_stream_reference dir" "allocates (pf_new pf)" "slow_clock gap pf"
  shows "idle_queue dir pf gap q w \<Longrightarrow> \<forall>i \<in> set q. item_plain pf gap (w_protocol w) i \<Longrightarrow>
    length (concat (map item_bytes q)) \<le> cb_get_space (vs_tx dir (w_stream w)) \<Longrightarrow>
    if pf_popped_kept pf \<or> (\<forall>i \<in> set q. \<not> item_unanswered i)
    then \<exists>w'. loops (sum_list (map item_loops q)) pf w = Some w' \<and> idle_queue dir pf gap [] w'
      \<and> w_app w' = fold (item_effect pf (w_protocol w)) q (w_app w)
      \<and> cb_list (vs_tx dir (w_stream w')) = cb_list (vs_tx dir (w_stream w)) @ concat (map item_bytes q)
    else loops (sum_list (map item_loops q)) pf w = None"
proof (induction q arbitrary: w)
  case Nil
  then show ?case by simp
next
  case (Cons i q)
  have i: "item_plain pf gap (w_protocol w) i" "length (item_bytes i) \<le> cb_get_space (vs_tx dir (w_stream w))"
    using Cons.prems(2,3) by simp_all
  show ?case
  proof (cases "item_unanswered i \<and> \<not> pf_popped_kept pf")
    case True
    then have "loop pf w = None"
      using no_answer_send [OF pf _ _ _ _ _ Cons.prems(1)] i
      by (auto simp: item_unanswered_def item_plain_def item_fresh_def item_ok_def oversized_def item_bytes_def)
    then show ?thesis using True by (auto simp: item_unanswered_def item_loops_def)
  next
    case False
    then obtain w1 where w1: "loops (item_loops i) pf w = Some w1" "idle_queue dir pf gap q w1" "same_timing (w_protocol w) (w_protocol w1)"
      "w_app w1 = item_effect pf (w_protocol w) i (w_app w)"
      "cb_list (vs_tx dir (w_stream w1)) = cb_list (vs_tx dir (w_stream w)) @ item_bytes i"
      using queue_head_done [OF pf Cons.prems(1) i] by blast
    have "length (concat (map item_bytes q)) \<le> cb_get_space (vs_tx dir (w_stream w1))"
      by (rule item_bytes_space [OF _ _ w1(5)]) (use Cons.prems(1,3) w1(2) in \<open>simp_all add: idle_queue_def Let_def\<close>)
    moreover have "\<forall>j \<in> set q. item_plain pf gap (w_protocol w1) j"
      using Cons.prems(2) by (simp add: same_timing_plain(1) [OF w1(3)])
    moreover have "fold (item_effect pf (w_protocol w1)) q a = fold (item_effect pf (w_protocol w)) q a" for a
      by (rule fold_cong) (simp_all add: same_timing_plain(2) [OF w1(3)])
    ultimately show ?thesis
      using Cons.IH [OF w1(2)] False w1(1,4,5) by (auto simp: loops_add split: if_splits)
  qed
qed

text \<open>Claim C12. A silent peer cannot block the queue: from an idle handler with a queue of fresh messages whose layouts have less than 256 bytes and
  whose transmissions all fit into the stream, on a clock whose readings are further apart than every interval and with timeout
  handlers that make no calls, the queue is empty after a number of calls of the loop that depends
  on the messages only. In order of the queue, a request is transmitted as often as it has
  attempts and then its timeout handler runs once, a message that expects no answer is transmitted
  once, and one that is too long for a frame is dropped without any effect. This is so for every queue of requests; with a message that expects no
  answer and fits a frame it is so where the memory of popped queue elements is kept, and is undefined behaviour, reached within
  the same number of calls, where it is not.\<close>

theorem queue_drains:
  assumes pf: "pf_ops pf = get_stream_reference dir" "allocates (pf_new pf)" "slow_clock gap pf"
    and w: "idle_queue dir pf gap q w" "\<forall>i \<in> set q. item_plain pf gap (w_protocol w) i"
      "length (concat (map item_bytes q)) \<le> cb_get_space (vs_tx dir (w_stream w))"
  shows "if pf_popped_kept pf \<or> (\<forall>i \<in> set q. \<not> item_unanswered i)
    then \<exists>w'. loops (sum_list (map item_loops q)) pf w = Some w'
      \<and> pr_outgoing_messages (w_protocol w') = [] \<and> \<not> pr_is_waiting_for_answer (w_protocol w')
      \<and> w_app w' = fold (item_effect pf (w_protocol w)) q (w_app w)
      \<and> cb_list (vs_tx dir (w_stream w')) = cb_list (vs_tx dir (w_stream w)) @ concat (map item_bytes q)
    else loops (sum_list (map item_loops q)) pf w = None"
  using queue_works_off [OF pf w] by (auto simp: idle_queue_def pr_is_waiting_for_answer_def Let_def split: if_splits)

text \<open>A request with two attempts, a message without answer and a message that is too long.\<close>

definition mixed_queue :: "outgoing_item list" where
  "mixed_queue =
     [\<lparr>oi_message = msg_of_type GET_DEVICE_VERSION, oi_use_crc = True, oi_no_answer = False, oi_number_of_retries = 2, oi_retry_interval = 0\<rparr>,
      \<lparr>oi_message = msg_of_type WAKE_UP, oi_use_crc = False, oi_no_answer = True, oi_number_of_retries = 1, oi_retry_interval = 0\<rparr>,
      \<lparr>oi_message = msg_of_data CONTROL (Some (replicate 234 7)) 234, oi_use_crc = True, oi_no_answer = False,
       oi_number_of_retries = 1, oi_retry_interval = 0\<rparr>]"

theorem queue_drains_witness:
  "\<exists>w'. loops 7 quiet_platform (on_protocol (\<lambda>p. p\<lparr>pr_outgoing_messages := mixed_queue\<rparr>) quiet_world) = Some w'
     \<and> pr_outgoing_messages (w_protocol w') = [] \<and> w_app w' = 1
     \<and> loops 7 (quiet_platform\<lparr>pf_popped_kept := False\<rparr>) (on_protocol (\<lambda>p. p\<lparr>pr_outgoing_messages := mixed_queue\<rparr>) quiet_world) = None"
proof -
  let ?w = "on_protocol (\<lambda>p. p\<lparr>pr_outgoing_messages := mixed_queue\<rparr>) quiet_world"
  have m: "msg_ok (msg_of_type ty)" "msg_payload (msg_of_type ty) = []"
    "msg_ok (msg_of_data CONTROL (Some (replicate 234 7)) 234)"
    "length (msg_payload (msg_of_data CONTROL (Some (replicate 234 7)) 234)) = 234" "m_frame_type (msg_of_type ty) = ty" for ty
    by (simp_all add: msg_of_type_def msg_ok_default msg_payload_def msg_of_data_def msg_new_ok)
  have l: "length (wire (new_frame ty [] 0 u)) \<le> 24" for ty u
    using length_wire_le [of 0 "[]" ty u] by simp
  have o: "map oversized mixed_queue = [False, False, True]"
    by (simp add: mixed_queue_def oversized_def m MAX_DATA_SIZE_def)
  let ?pf = "quiet_platform\<lparr>pf_popped_kept := False\<rparr>"
  have pf: "pf_ops ?pf = get_stream_reference DIRECTION_A" "allocates (pf_new ?pf)" "slow_clock 500 ?pf" "\<not> pf_popped_kept ?pf"
    "pf_timeout ?pf = pf_timeout quiet_platform"
    using quiet_platform_simps(1-3) by (simp_all add: slow_clock_def)
  have w: "idle_queue DIRECTION_A quiet_platform 500 mixed_queue ?w" "idle_queue DIRECTION_A ?pf 500 mixed_queue ?w"
    using quiet_world_ready by (simp_all add: ready_def idle_queue_def quiet_def Let_def)
  have "\<forall>i \<in> set mixed_queue. item_plain quiet_platform 500 (w_protocol ?w) i \<and> item_plain ?pf 500 (w_protocol ?w) i"
    using o l by (auto simp: mixed_queue_def item_plain_def item_fresh_def item_ok_def m silent_timeout_def pf(5) quiet_platform_simps(4) item_frame_def
        order_le_less_trans [OF l])
  moreover have "length (concat (map item_bytes mixed_queue)) \<le> 4096"
    using o l [of GET_DEVICE_VERSION True] l [of WAKE_UP False]
    by (simp add: mixed_queue_def item_bytes_def item_frame_def m numeral_2_eq_2)
  moreover have "sum_list (map item_loops mixed_queue) = 7" "fold (item_effect quiet_platform (w_protocol ?w)) mixed_queue 0 = 1"
    using o by (simp_all add: mixed_queue_def item_loops_def item_effect_def timeout_effect_def timeout_handler_def find_handler_def
        quiet_world_def pr_new_sized_def quiet_platform_simps(4))
  moreover have "w_app ?w = 0" "w_stream ?w = w_stream quiet_world" by (simp_all add: quiet_world_def)
  moreover have "\<exists>i \<in> set mixed_queue. item_unanswered i"
    using o by (simp add: mixed_queue_def item_unanswered_def)
  ultimately show ?thesis
    using queue_drains [OF quiet_platform_simps(1-3) w(1)] queue_drains [OF pf(1-3) w(2)] quiet_platform_simps(6) pf(4)
      quiet_tx_space by (auto split: if_splits)
qed

section \<open>A peer that keeps asking\<close>

text \<open>Calls of the loop between which the peer takes what was written and may leave a request: the
  stream each call finds, and what each call wrote.\<close>

fun fed_loops ::
    "stream_direction \<Rightarrow> (virtual_stream_holder, 'h, 'app) platform \<Rightarrow> virtual_stream_holder list
      \<Rightarrow> (virtual_stream_holder, 'h, 'app) world \<Rightarrow> ((virtual_stream_holder, 'h, 'app) world \<times> byte list list) option" where
  "fed_loops dir pf [] w = Some (w, [])"
| "fed_loops dir pf (s # ss) w =
     do {
       w1 \<leftarrow> loop pf (w\<lparr>w_stream := s\<rparr>);
       (w2, out) \<leftarrow> fed_loops dir pf ss w1;
       Some (w2, cb_list (vs_tx dir (w_stream w1)) # out)
     }"

text \<open>The peer asks again before the cooldown of the last answer is over: \<open>tick\<close> is the next
  clock reading, \<open>deadline\<close> the end of the cooldown.\<close>

fun keeps_asking :: "(nat \<Rightarrow> millis) \<Rightarrow> millis \<Rightarrow> frame \<Rightarrow> stream_direction \<Rightarrow> nat \<Rightarrow> millis \<Rightarrow> virtual_stream_holder list \<Rightarrow> bool" where
  "keeps_asking clock cooldown f dir tick deadline [] = True"
| "keeps_asking clock cooldown f dir tick deadline (s # ss) =
     (vs_inv s \<and> cb_list (vs_tx dir s) = []
      \<and> (if cb_list (vs_rx dir s) = [] then clock tick < deadline \<and> keeps_asking clock cooldown f dir (tick + 1) deadline ss
         else cb_list (vs_rx dir s) = wire f \<and> clock tick \<le> clock (tick + 1)
              \<and> keeps_asking clock cooldown f dir (tick + 2) (clock (tick + 1) + cooldown) ss))"

text \<open>An idle handler with anything in its queue and nothing received.\<close>

definition listening :: "'h protocol \<Rightarrow> bool" where
  "listening p \<longleftrightarrow> settled (pr_transport p) (Search []) \<and> tr_incoming_queue (pr_transport p) = [] \<and> pr_state p = IDLE"

lemma waiting_loop:
  assumes pf: "pf_ops pf = get_stream_reference dir"
    and v: "listening (w_protocol v)" "vs_inv (w_stream v)" "cb_list (vs_rx dir (w_stream v)) = []"
      "pf_clock pf (w_tick v) < pr_cooldown_time_point (w_protocol v)"
  shows "\<exists>v'. loop pf v = Some v' \<and> listening (w_protocol v') \<and> same_setup (w_protocol v) (w_protocol v')
    \<and> pr_outgoing_messages (w_protocol v') = pr_outgoing_messages (w_protocol v) \<and> w_tick v' = w_tick v + 1
    \<and> pr_cooldown_time_point (w_protocol v') = pr_cooldown_time_point (w_protocol v)
    \<and> cb_list (vs_tx dir (w_stream v')) = cb_list (vs_tx dir (w_stream v))"
proof -
  obtain t s where l: "loop pf v = dispatch pf (pf_clock pf (w_tick v)) (ticked t s v)" "settled t (Search [])"
    "tr_incoming_queue t = []" "cb_capacity (tr_buffer t) = cb_capacity (tr_buffer (pr_transport (w_protocol v)))"
    "cb_list (vs_tx dir s) = cb_list (vs_tx dir (w_stream v))"
    using receive_loop [OF pf, of v "[]"] v by (auto simp: listening_def)
  have "idle_receive pf (ticked t s v) = Some (ticked t s v)"
    using l(3) by (intro idle_receive_empty) simp
  moreover have "idle_send pf (pf_clock pf (w_tick v)) (ticked t s v) = Some (ticked t s v)"
    using v(4) by (intro idle_send_waits) simp
  ultimately have "loop pf v = Some (ticked t s v)"
    using l(1) v(1) by (simp add: dispatch_def listening_def)
  then show ?thesis
    using l v(1) by (simp add: listening_def same_setup_def)
qed

text \<open>Claim C18. A busy peer starves the queue: answering restarts the cooldown that outgoing
  messages wait for. If the peer sends requests the handler answers, each before the cooldown of
  the last answer is over, then over any number of calls of the loop every request is answered
  and nothing else is ever sent: the queue stays as it is, and no retry is counted.\<close>

theorem answers_starve_requests:
  assumes pf: "pf_ops pf = get_stream_reference dir" "allocates (pf_new pf)"
    and w: "listening (w_protocol w)" "0 < pr_cooldown_interval (w_protocol w)"
      "keeps_asking (pf_clock pf) (pr_cooldown_interval (w_protocol w)) f dir (w_tick w) (pr_cooldown_time_point (w_protocol w)) ss"
    and f: "frame_ok f" "length (wire f) \<le> cb_capacity (tr_buffer (pr_transport (w_protocol w)))"
    and h: "find_handler (pr_message_handlers_map (w_protocol w)) (f_type f) (pr_default_message_handler (w_protocol w)) = Some h"
      "\<And>a. \<exists>a' err. pf_message pf h (f_type f) (frame_data f) a = (a', [Send_Answer m], err)"
    and m: "msg_ok m" "length (msg_payload m) \<le> MAX_DATA_SIZE"
  defines "g \<equiv> new_frame (m_frame_type m) (msg_payload m) (of_nat (length (msg_payload m))) (f_use_crc f)"
  assumes g: "length (wire g) < 256"
  shows "\<exists>w'. fed_loops dir pf ss w = Some (w', map (\<lambda>s. if cb_list (vs_rx dir s) = [] then [] else wire g) ss)
    \<and> pr_outgoing_messages (w_protocol w') = pr_outgoing_messages (w_protocol w)"
  using w f(2) h(1)
proof (induction ss arbitrary: w)
  case (Cons s ss)
  let ?v = "w\<lparr>w_stream := s\<rparr>"
  have s: "vs_inv s" "cb_list (vs_tx dir s) = []" using Cons.prems(3) by simp_all
  show ?case
  proof (cases "cb_list (vs_rx dir s) = []")
    case True
    obtain v' where v': "loop pf ?v = Some v'" "listening (w_protocol v')" "same_setup (w_protocol w) (w_protocol v')"
      "pr_outgoing_messages (w_protocol v') = pr_outgoing_messages (w_protocol w)" "w_tick v' = w_tick w + 1"
      "pr_cooldown_time_point (w_protocol v') = pr_cooldown_time_point (w_protocol w)" "cb_list (vs_tx dir (w_stream v')) = []"
      using waiting_loop [OF pf(1), of ?v] Cons.prems(1,3) s True by auto
    then show ?thesis
      using Cons.IH [OF v'(2)] Cons.prems(2-5) True by (auto simp: same_setup_def)
  next
    case False
    then have rx: "cb_list (vs_rx dir s) = wire f" "pf_clock pf (w_tick w) \<le> pf_clock pf (w_tick w + 1)"
      "keeps_asking (pf_clock pf) (pr_cooldown_interval (w_protocol w)) f dir (w_tick w + 2)
         (pf_clock pf (w_tick w + 1) + pr_cooldown_interval (w_protocol w)) ss"
      using Cons.prems(3) by simp_all
    obtain a' err where run: "pf_message pf h (f_type f) (frame_data f) (w_app ?v) = (a', [Send_Answer m], err)"
      using h(2) by blast
    have v: "settled (pr_transport (w_protocol ?v)) (Search [])" "tr_incoming_queue (pr_transport (w_protocol ?v)) = []"
      "pr_state (w_protocol ?v) = IDLE" using Cons.prems(1) by (simp_all add: listening_def)
    obtain v' where v': "loop pf ?v = Some v'" "same_setup (w_protocol w) (w_protocol v')" "listening (w_protocol v')"
      "pr_outgoing_messages (w_protocol v') = pr_outgoing_messages (w_protocol w)" "w_tick v' = w_tick w + 2"
      "pr_cooldown_time_point (w_protocol v') = pf_clock pf (w_tick w + 1) + pr_cooldown_interval (w_protocol w)"
      "cb_list (vs_tx dir (w_stream v')) = wire g"
      using answer_loop_queue [OF pf v, of f h a' "[Send_Answer m]" err m "f_use_crc f"] Cons.prems(2,4,5) rx s f(1) m g run
      by (auto simp: listening_def answers_def g_def)
    then show ?thesis
      using Cons.IH [OF v'(3)] Cons.prems(2,4,5) rx(3) False by (auto simp: same_setup_def)
  qed
qed simp

text \<open>A stream in which the bytes \<open>bs\<close> wait.\<close>

definition holding :: "byte list \<Rightarrow> virtual_stream_holder" where
  "holding bs = (let s = vs_new (\<lambda>n. replicate n 0)
     in vs_set_rx DIRECTION_A (snd (cb_push (vs_rx DIRECTION_A s) bs (length bs))) s)"

lemma holding_holds:
  assumes "length bs \<le> 4096"
  shows "vs_inv (holding bs)" "cb_list (vs_rx DIRECTION_A (holding bs)) = bs" "cb_list (vs_tx DIRECTION_A (holding bs)) = []"
  using vs_new_inv [OF allocates_replicate [of 0]] vs_new_empty [OF allocates_replicate [of 0], of DIRECTION_A] assms
  by (simp_all add: holding_def Let_def cb_push_correct cb_get_space_def flip: length_cb_list)

theorem answers_starve_requests_witness:
  "\<exists>w' out. fed_loops DIRECTION_A (fast_platform DIRECTION_A)
       [holding (wire (new_frame 1 [7, 8] 2 True)), holding [], holding (wire (new_frame 1 [7, 8] 2 True))] (echo_world [sample_item]) = Some (w', out)
     \<and> pr_outgoing_messages (w_protocol w') = [sample_item] \<and> map ((=) []) out = [False, True, False]"
proof -
  let ?f = "new_frame 1 [7, 8] 2 True" and ?w = "echo_world [sample_item]"
  let ?m = "msg_new CONFIRM NO_SUBCOMMAND (Some [7, 8]) 2"
  let ?ss = "[holding (wire ?f), holding [], holding (wire ?f)]"
  have short: "length (wire (new_frame ty [7, 8] 2 u)) \<le> 28" for ty u
    using length_wire_le [of 2 "[7, 8]" ty u] by simp
  have ne: "wire g \<noteq> []" for g by (simp add: wire_def wire_header_def)
  note st = holding_holds [of "wire ?f"] holding_holds [of "[]"]
  have f: "frame_ok ?f" "f_type ?f = 1" "f_use_crc ?f = True" "frame_data ?f = [7, 8]"
    by (simp_all add: new_frame_ok MAX_DATA_SIZE_def)
  have m: "msg_ok ?m" "m_frame_type ?m = CONFIRM" "msg_payload ?m = [7, 8]"
    by (simp_all add: msg_new_ok msg_payload_def)
  have w: "listening (w_protocol ?w)" "pr_cooldown_interval (w_protocol ?w) = 400" "w_tick ?w = 0"
    "pr_outgoing_messages (w_protocol ?w) = [sample_item]"
    "find_handler (pr_message_handlers_map (w_protocol ?w)) 1 (pr_default_message_handler (w_protocol ?w)) = Some ()"
    "28 \<le> cb_capacity (tr_buffer (pr_transport (w_protocol ?w)))"
    using tr_new_handler [OF allocates_replicate [of 0], of 256]
    by (simp_all add: listening_def echo_world_def quiet_world_def pr_new_sized_def find_handler_def CIRCULAR_BUFFER_MINIMUM_SIZE_def)
  have clock: "pf_clock (fast_platform DIRECTION_A) i = int i" for i by (simp add: fast_platform_def)
  have asks: "keeps_asking (pf_clock (fast_platform DIRECTION_A)) (pr_cooldown_interval (w_protocol ?w)) ?f DIRECTION_A (w_tick ?w)
      (pr_cooldown_time_point (w_protocol ?w)) ?ss"
    using st short [of 1 True] ne by (simp add: w clock)
  have run: "\<exists>a' err. pf_message (fast_platform DIRECTION_A) () (f_type ?f) (frame_data ?f) a = (a', [Send_Answer ?m], err)" for a
    unfolding f by (simp add: fast_platform_def numeral_2_eq_2)
  have "\<exists>w'. fed_loops DIRECTION_A (fast_platform DIRECTION_A) ?ss ?w
      = Some (w', map (\<lambda>s. if cb_list (vs_rx DIRECTION_A s) = [] then [] else wire (new_frame (m_frame_type ?m) (msg_payload ?m)
          (of_nat (length (msg_payload ?m))) (f_use_crc ?f))) ?ss)
      \<and> pr_outgoing_messages (w_protocol w') = pr_outgoing_messages (w_protocol ?w)"
    by (rule answers_starve_requests [OF _ _ w(1) _ asks f(1) _ _ run m(1)])
      (use w f m short [of 1 True] short [of CONFIRM True] in \<open>simp_all add: fast_platform_def allocates_replicate MAX_DATA_SIZE_def\<close>)
  then show ?thesis
    using st ne ne [THEN not_sym] short [of 1 True] w(4) by (auto simp del: fed_loops.simps)
qed

end
