(* ===== verification/Handler_Contract.thy ===== *)
theory Handler_Contract
  imports Protocol_Exchange
begin

text \<open>
  What the comment on \<^verbatim>\<open>MessageHandler\<close> in
  \<^verbatim>\<open>include/protocol/haier_protocol.h\<close> expects of a message handler ("Expected that
  function sends answer back"), as the interface \<open>answering_handler\<close>, and what follows for the
  protocol handler that calls it: every request is answered by exactly one frame. The
  servers of the simulators interpret it.
\<close>

text \<open>The contract on one result: the handler refuses and changes nothing, or it accepts with one
  short answer and keeps the invariant.\<close>

definition contract ::
    "('a \<Rightarrow> bool) \<Rightarrow> haier_message \<Rightarrow> 'a \<Rightarrow> 'a \<times> 'h api_call list \<times> handler_error \<Rightarrow> bool" where
  "contract I refusal a r \<longleftrightarrow> (\<exists>a' calls err m u. r = (a', calls, err) \<and> I a'
     \<and> (calls = [Send_Answer m] \<or> calls = [Send_Answer_Crc m u]) \<and> msg_ok m \<and> length (msg_payload m) \<le> 100
     \<and> (err \<noteq> HANDLER_OK \<longrightarrow> a' = a \<and> calls = [Send_Answer refusal]))"

lemma contract_if:
  "(b \<Longrightarrow> contract I refusal a x) \<Longrightarrow> (\<not> b \<Longrightarrow> contract I refusal a y)
    \<Longrightarrow> contract I refusal a (if b then x else y)"
  by simp

lemma contract_refuses:
  "I a \<Longrightarrow> msg_ok refusal \<Longrightarrow> length (msg_payload refusal) \<le> 100
    \<Longrightarrow> contract I refusal a (a, [Send_Answer refusal], err)"
  by (auto simp: contract_def)

lemma contract_sends:
  "I a' \<Longrightarrow> msg_ok m \<Longrightarrow> length (msg_payload m) \<le> 100
    \<Longrightarrow> contract I refusal a (a', [Send_Answer m], HANDLER_OK)"
  by (auto simp: contract_def)

lemma length_msg_payload_new: "length (msg_payload (msg_new ty sub (Some d) n)) \<le> 2 + n"
  by (auto simp: msg_payload_def)

lemma contract_answers:
  assumes "I a'" "n \<le> length d" "n \<le> 98"
  shows "contract I refusal a (a', [Send_Answer (msg_new ty sub (Some d) n)], HANDLER_OK)"
    "contract I refusal a (a', [Send_Answer_Crc (msg_of_data ty (Some d) n) u], HANDLER_OK)"
    "contract I refusal a (a', [Send_Answer (msg_of_data ty (Some d) n)], HANDLER_OK)"
  using assms length_msg_payload_new [of ty sub d n] length_msg_payload_new [of ty NO_SUBCOMMAND d n]
  by (auto simp: contract_def msg_of_data_def msg_new_ok)

text \<open>The wire form of a short answer.\<close>

lemma short_wire:
  "length (msg_payload m) \<le> 100 \<Longrightarrow>
     length (wire (new_frame (m_frame_type m) (msg_payload m) (of_nat (length (msg_payload m))) u)) \<le> 224"
  using length_wire_le [of "of_nat (length (msg_payload m))" "msg_payload m" "m_frame_type m" u]
  by (simp add: unat_of_nat)

locale answering_handler =
  fixes h :: "byte \<Rightarrow> byte list \<Rightarrow> 'a \<Rightarrow> 'a \<times> 'h api_call list \<times> handler_error"
    and I :: "'a \<Rightarrow> bool" and refusal :: haier_message
  assumes keeps_inv: "I a \<Longrightarrow> I (fst (h ty d a))"
    and one_answer: "I a \<Longrightarrow> \<exists>m u. (fst (snd (h ty d a)) = [Send_Answer m] \<or> fst (snd (h ty d a)) = [Send_Answer_Crc m u])
      \<and> msg_ok m \<and> length (msg_payload m) \<le> 100"
    and refused: "I a \<Longrightarrow> snd (snd (h ty d a)) \<noteq> HANDLER_OK \<Longrightarrow>
      fst (h ty d a) = a \<and> fst (snd (h ty d a)) = [Send_Answer refusal]"
begin

lemma keeps: "keeps k I (h ty d)"
proof (unfold keeps_def, intro allI impI)
  fix a assume a: "I a"
  show "I (fst (h ty d a)) \<and> (\<forall>c \<in> set (fst (snd (h ty d a))). call_ok k c)"
    using keeps_inv [OF a, of ty d] one_answer [OF a, of ty d] by auto
qed

lemma answered:
  assumes "I a"
  obtains a' calls err m u where "h ty d a = (a', calls, err)" "I a'" "answers crc calls m u"
    "msg_ok m" "length (msg_payload m) \<le> 100"
proof -
  obtain a' calls err where r: "h ty d a = (a', calls, err)" by (cases "h ty d a") auto
  obtain m u where m: "calls = [Send_Answer m] \<or> calls = [Send_Answer_Crc m u]" "msg_ok m" "length (msg_payload m) \<le> 100"
    using one_answer [OF assms, of ty d] r by auto
  have "answers crc calls m (if calls = [Send_Answer m] then crc else u)"
    using m(1) by (auto simp: answers_def)
  then show thesis
    using that r m keeps_inv [OF assms, of ty d] by auto
qed

text \<open>An idle handler that receives a frame of a type it has such a message handler for answers it
  in the same call of the loop with one frame, and the application keeps its invariant.\<close>

lemma answers_frame:
  assumes pf: "pf_ops pf = get_stream_reference dir" "allocates (pf_new pf)"
    and v: "settled (pr_transport (w_protocol v)) (Search [])" "tr_incoming_queue (pr_transport (w_protocol v)) = []"
      "pr_state (w_protocol v) = IDLE" "pr_outgoing_messages (w_protocol v) = []"
    and s: "vs_inv (w_stream v)" "cb_list (vs_rx dir (w_stream v)) = wire f" "cb_list (vs_tx dir (w_stream v)) = []"
    and f: "frame_ok f" "length (wire f) \<le> cb_capacity (tr_buffer (pr_transport (w_protocol v)))"
    and k: "find_handler (pr_message_handlers_map (w_protocol v)) (f_type f) (pr_default_message_handler (w_protocol v)) = Some k"
      "pf_message pf k (f_type f) (frame_data f) = h (f_type f) (frame_data f)"
    and a: "I (w_app v)"
  shows "\<exists>v' m u. loop pf v = Some v' \<and> w_app v' = fst (h (f_type f) (frame_data f) (w_app v)) \<and> I (w_app v')
    \<and> cb_list (vs_tx dir (w_stream v')) = wire (new_frame (m_frame_type m) (msg_payload m) (of_nat (length (msg_payload m))) u)
    \<and> answers (f_use_crc f) (fst (snd (h (f_type f) (frame_data f) (w_app v)))) m u \<and> pr_answer_sent (w_protocol v')"
proof -
  obtain a' calls err m u where r: "h (f_type f) (frame_data f) (w_app v) = (a', calls, err)" "I a'"
    "answers (f_use_crc f) calls m u" "msg_ok m" "length (msg_payload m) \<le> 100"
    using answered [OF a] by blast
  have short: "length (msg_payload m) \<le> MAX_DATA_SIZE" using r(5) by (simp add: MAX_DATA_SIZE_def)
  have w: "length (wire (new_frame (m_frame_type m) (msg_payload m) (of_nat (length (msg_payload m))) u)) < 256"
    using short_wire [OF r(5), of u] by simp
  have run: "pf_message pf k (f_type f) (frame_data f) (w_app v) = (a', calls, err)"
    using k(2) r(1) by simp
  show ?thesis
    using answer_loop [OF pf v s f k(1) run r(3,4) short w] r(1,2,3) by auto
qed

end

lemma answering_handlerI:
  assumes "\<And>ty d a. I a \<Longrightarrow> contract I refusal a (h ty d a)"
  shows "answering_handler h I refusal"
proof
  fix a ty d
  assume "I a"
  then have c: "contract I refusal a (h ty d a)" by (rule assms)
  show "I (fst (h ty d a))"
    using c by (auto simp: contract_def)
  show "\<exists>m u. (fst (snd (h ty d a)) = [Send_Answer m] \<or> fst (snd (h ty d a)) = [Send_Answer_Crc m u])
      \<and> msg_ok m \<and> length (msg_payload m) \<le> 100"
    using c by (auto simp: contract_def)
  assume "snd (snd (h ty d a)) \<noteq> HANDLER_OK"
  then show "fst (h ty d a) = a \<and> fst (snd (h ty d a)) = [Send_Answer refusal]"
    using c by (auto simp: contract_def)
qed

end
