(* ===== verification/Protocol_Session.thy ===== *)
theory Protocol_Session
  imports Handler_Contract
begin

text \<open>
  Sessions of a client and a server on the two ends of a virtual stream, as the tests of
  \<^verbatim>\<open>test/hon_test\<close> and \<^verbatim>\<open>test/smartair2_test\<close> run them: one request after the other, each
  followed by two calls of the loop on both sides. A server that keeps the handler contract makes such a
  session the same as calling its handlers directly.
\<close>

section \<open>Running a session\<close>

text \<open>\<^verbatim>\<open>CLIENT_SERVER_LOOP\<close>: both handlers work on the same stream.\<close>

definition CLIENT_SERVER_LOOP ::
    "(virtual_stream_holder, 'h, 'a) platform \<Rightarrow> (virtual_stream_holder, 'k, 'b) platform
      \<Rightarrow> (virtual_stream_holder, 'h, 'a) world \<times> (virtual_stream_holder, 'k, 'b) world
      \<Rightarrow> ((virtual_stream_holder, 'h, 'a) world \<times> (virtual_stream_holder, 'k, 'b) world) option" where
  "CLIENT_SERVER_LOOP client server = (\<lambda>(w, v).
     do {
       w1 \<leftarrow> loop client w;
       v1 \<leftarrow> loop server (v\<lparr>w_stream := w_stream w1\<rparr>);
       w2 \<leftarrow> loop client (w1\<lparr>w_stream := w_stream v1\<rparr>);
       v2 \<leftarrow> loop server (v1\<lparr>w_stream := w_stream w2\<rparr>);
       Some (w2\<lparr>w_stream := w_stream v2\<rparr>, v2)
     })"

text \<open>The requests of a session with their CRC flags, sent without repeats.\<close>

fun session ::
    "(virtual_stream_holder, 'h, 'a) platform \<Rightarrow> (virtual_stream_holder, 'k, 'b) platform \<Rightarrow> (haier_message \<times> bool) list
      \<Rightarrow> (virtual_stream_holder, 'h, 'a) world \<times> (virtual_stream_holder, 'k, 'b) world
      \<Rightarrow> ((virtual_stream_holder, 'h, 'a) world \<times> (virtual_stream_holder, 'k, 'b) world) option" where
  "session client server [] s = Some s"
| "session client server ((m, crc) # ms) (w, v) =
     do {
       w1 \<leftarrow> send_message m crc 0 0 w;
       s \<leftarrow> CLIENT_SERVER_LOOP client server (w1, v);
       session client server ms s
     }"

section \<open>Direct calls\<close>

definition answer_of :: "'h api_call list \<Rightarrow> haier_message option" where
  "answer_of calls = (case calls of [Send_Answer a] \<Rightarrow> Some a | [Send_Answer_Crc a u] \<Rightarrow> Some a | _ \<Rightarrow> None)"

lemma answer_of_answers: "answers crc calls a u \<Longrightarrow> answer_of calls = Some a"
  by (auto simp: answers_def answer_of_def)

text \<open>The same requests without any protocol in between: the server's handler, then the client's
  answer handler with the types and the data.\<close>

fun direct_calls ::
    "(byte \<Rightarrow> byte list \<Rightarrow> 'b \<Rightarrow> 'b \<times> 'h api_call list \<times> handler_error)
      \<Rightarrow> (byte \<Rightarrow> byte \<Rightarrow> byte list \<Rightarrow> 'a \<Rightarrow> 'a) \<Rightarrow> haier_message list \<Rightarrow> 'a \<times> 'b \<Rightarrow> ('a \<times> 'b) option" where
  "direct_calls serve accept [] s = Some s"
| "direct_calls serve accept (m # ms) (a, b) =
     (case serve (m_frame_type m) (msg_payload m) b of
        (b', calls, err) \<Rightarrow>
          (case answer_of calls of
             None \<Rightarrow> None
           | Some r \<Rightarrow> direct_calls serve accept ms (accept (m_frame_type m) (m_frame_type r) (msg_payload r) a, b')))"

lemma direct_calls_state:
  "direct_calls serve accept ms (a, b) = Some (a', b') \<Longrightarrow> b' = fold (\<lambda>m b. fst (serve (m_frame_type m) (msg_payload m) b)) ms b"
  by (induction ms arbitrary: a b) (auto split: prod.splits option.splits)

section \<open>Between two requests\<close>

text \<open>Both handlers are at rest, nothing is on the way, and the receive buffers are as large as those of
  the default constructor at least.\<close>

definition connected ::
    "stream_direction \<Rightarrow> (virtual_stream_holder, 'h, 'a) world \<times> (virtual_stream_holder, 'k, 'b) world \<Rightarrow> bool" where
  "connected dir = (\<lambda>(w, v).
     at_rest (w_protocol w) \<and> at_rest (w_protocol v)
     \<and> vs_inv (w_stream w) \<and> cb_list (vs_rx dir (w_stream w)) = [] \<and> cb_list (vs_tx dir (w_stream w)) = []
     \<and> 224 \<le> cb_capacity (tr_buffer (pr_transport (w_protocol w)))
     \<and> 224 \<le> cb_capacity (tr_buffer (pr_transport (w_protocol v))))"

lemma registration_at_rest [simp]:
  "at_rest (pr_set_message_handler ty k p) = at_rest p" "pr_transport (pr_set_message_handler ty k p) = pr_transport p"
  "at_rest (pr_set_default_answer_handler k p) = at_rest p" "pr_transport (pr_set_default_answer_handler k p) = pr_transport p"
  by (simp_all add: at_rest_def pr_set_message_handler_def pr_set_default_answer_handler_def)

lemma pr_new_at_rest:
  assumes "allocates new"
  shows "at_rest (pr_new new)" "224 \<le> cb_capacity (tr_buffer (pr_transport (pr_new new)))"
  using tr_new_handler [OF assms, of "unat MAX_FRAME_SIZE + 10"] by (simp_all add: at_rest_def pr_new_def pr_new_sized_def)

text \<open>The client reads the clock three times per request: the pauses are long enough for the cooldown
  and the answers come in time.\<close>

definition paced :: "(nat \<Rightarrow> millis) \<Rightarrow> millis \<Rightarrow> millis \<Rightarrow> bool" where
  "paced clock timeout cooldown \<longleftrightarrow>
     (\<forall>i. clock (3 * i) \<le> clock (3 * Suc i)
        \<and> clock (3 * i + 2) \<le> clock (3 * i) + timeout \<and> clock (3 * i + 2) \<le> clock (3 * Suc i)
        \<and> clock (3 * i + 1) + cooldown \<le> clock (3 * Suc i))"

definition due :: "(virtual_stream_holder, 'h, 'a) platform \<Rightarrow> (virtual_stream_holder, 'h, 'a) world \<Rightarrow> bool" where
  "due pf w \<longleftrightarrow> (\<exists>i. w_tick w = 3 * i) \<and> pr_cooldown_time_point (w_protocol w) \<le> pf_clock pf (w_tick w)
     \<and> pr_retry_time_point (w_protocol w) \<le> pf_clock pf (w_tick w)
     \<and> paced (pf_clock pf) (pr_answer_timeout_interval (w_protocol w)) (pr_cooldown_interval (w_protocol w))"

definition free :: "(virtual_stream_holder, 'h, 'a) platform \<Rightarrow> (virtual_stream_holder, 'h, 'a) world \<Rightarrow> bool" where
  "free pf w \<longleftrightarrow> pr_cooldown_time_point (w_protocol w) \<le> pf_clock pf (w_tick w) \<and> pr_retry_time_point (w_protocol w) \<le> pf_clock pf (w_tick w)"

lemma due_free: "due pf w \<Longrightarrow> free pf w"
  by (simp add: due_def free_def)

lemma dueI:
  "w_tick w = 3 * i \<Longrightarrow> pr_cooldown_time_point (w_protocol w) \<le> pf_clock pf (3 * i)
    \<Longrightarrow> pr_retry_time_point (w_protocol w) \<le> pf_clock pf (3 * i)
    \<Longrightarrow> paced (pf_clock pf) (pr_answer_timeout_interval (w_protocol w)) (pr_cooldown_interval (w_protocol w)) \<Longrightarrow> due pf w"
  by (auto simp: due_def)

lemma same_setup_trans: "same_setup p q \<Longrightarrow> same_setup q r \<Longrightarrow> same_setup p r"
  by (simp add: same_setup_def)

lemma same_setup_refl: "same_setup p p"
  by (simp add: same_setup_def)

text \<open>A call of the loop with nothing to do.\<close>

lemma rest_loop:
  assumes pf: "pf_ops pf = get_stream_reference dir"
    and v: "at_rest (w_protocol v)" "vs_inv (w_stream v)" "cb_list (vs_rx dir (w_stream v)) = []"
  shows "\<exists>v'. loop pf v = Some v' \<and> at_rest (w_protocol v') \<and> same_setup (w_protocol v) (w_protocol v') \<and> w_app v' = w_app v
    \<and> vs_inv (w_stream v') \<and> cb_list (vs_rx dir (w_stream v')) = [] \<and> cb_list (vs_tx dir (w_stream v')) = cb_list (vs_tx dir (w_stream v))
    \<and> w_tick v' = Suc (w_tick v) \<and> pr_cooldown_time_point (w_protocol v') = pr_cooldown_time_point (w_protocol v)
    \<and> pr_retry_time_point (w_protocol v') = pr_retry_time_point (w_protocol v)"
proof -
  obtain t s where l: "loop pf v = dispatch pf (pf_clock pf (w_tick v)) (ticked t s v)" "settled t (Search [])"
    "tr_incoming_queue t = []" "cb_capacity (tr_buffer t) = cb_capacity (tr_buffer (pr_transport (w_protocol v)))"
    "vs_inv s" "cb_list (vs_rx dir s) = []" "cb_list (vs_tx dir s) = cb_list (vs_tx dir (w_stream v))"
    using receive_loop [OF pf, of v "[]"] v by (auto simp: at_rest_def)
  have "idle_receive pf (ticked t s v) = Some (ticked t s v)"
    using l(3) by (intro idle_receive_empty) simp
  then have "loop pf v = Some (ticked t s v)"
    using l(1) v(1) by (simp add: dispatch_def at_rest_def idle_send_def)
  then show ?thesis
    using l v(1) by (simp add: at_rest_def same_setup_def)
qed

section \<open>One request\<close>

text \<open>Which handlers serve a request: on the server one that runs \<open>serve\<close>, on the client an answer
  handler that runs \<open>accept\<close> and makes no calls.\<close>

definition served ::
    "(virtual_stream_holder, 'k, 'b) platform \<Rightarrow> 'k protocol
      \<Rightarrow> (byte \<Rightarrow> byte list \<Rightarrow> 'b \<Rightarrow> 'b \<times> 'k api_call list \<times> handler_error) \<Rightarrow> byte \<Rightarrow> bool" where
  "served pf p serve ty \<longleftrightarrow>
     (\<exists>k. find_handler (pr_message_handlers_map p) ty (pr_default_message_handler p) = Some k \<and> pf_message pf k ty = serve ty)"

definition accepts ::
    "(virtual_stream_holder, 'h, 'a) platform \<Rightarrow> 'h protocol \<Rightarrow> (byte \<Rightarrow> byte \<Rightarrow> byte list \<Rightarrow> 'a \<Rightarrow> 'a) \<Rightarrow> byte \<Rightarrow> bool" where
  "accepts pf p accept ty \<longleftrightarrow>
     (\<exists>k. find_handler (pr_answer_handlers_map p) ty (pr_default_answer_handler p) = Some k
        \<and> (\<forall>rty d a. \<exists>err. pf_answer pf k ty rty d a = (accept ty rty d a, [], err)))"

lemma same_setup_served: "same_setup p q \<Longrightarrow> served pf q serve ty = served pf p serve ty"
  "same_setup p' q' \<Longrightarrow> accepts pf' q' accept ty = accepts pf' p' accept ty"
  by (simp_all add: same_setup_def served_def accepts_def)

lemma paced_step: "paced clock t c \<Longrightarrow> clock (3 * i + 2) \<le> clock (3 * i) + t"
  "paced clock t c \<Longrightarrow> clock (3 * i + 2) \<le> clock (3 * Suc i)" "paced clock t c \<Longrightarrow> clock (3 * i + 1) + c \<le> clock (3 * Suc i)"
  "paced clock t c \<Longrightarrow> clock (3 * i) \<le> clock (3 * Suc i)"
  by (simp_all add: paced_def)

text \<open>A message enters the queue of a client that is due, with or without waiting for its answer.\<close>

definition enqueue_message ::
    "bool \<Rightarrow> haier_message \<Rightarrow> bool \<Rightarrow> byte \<Rightarrow> millis \<Rightarrow> (virtual_stream_holder, 'h, 'a) world
      \<Rightarrow> (virtual_stream_holder, 'h, 'a) world option" where
  "enqueue_message answered m crc n i w = (if answered then send_message m crc n i w else send_message_without_answer m crc w)"

lemma enqueued:
  assumes s: "connected dir (w, v)" "free pf w" and m: "msg_ok m" "length (msg_payload m) \<le> 100"
  obtains w1 it where "enqueue_message answered m crc n i w = Some w1" "w_app w1 = w_app w" "w_tick w1 = w_tick w" "same_setup (w_protocol w) (w_protocol w1)"
    "quiet dir w1" "pr_state (w_protocol w1) = IDLE" "pr_outgoing_messages (w_protocol w1) = [it]"
    "pr_cooldown_time_point (w_protocol w1) \<le> pf_clock pf (w_tick w1)" "pr_retry_time_point (w_protocol w1) \<le> pf_clock pf (w_tick w1)"
    "cb_list (vs_tx dir (w_stream w1)) = []"
    "msg_ok (oi_message it)" "0 < oi_number_of_retries it" "length (msg_payload (oi_message it)) \<le> MAX_DATA_SIZE"
    "length (wire (item_frame it)) < 256" "length (wire (item_frame it)) \<le> cb_capacity (tr_buffer (pr_transport (w_protocol v)))"
    "oi_no_answer it = (\<not> answered)" "oi_use_crc it = crc"
    "m_frame_type (oi_message it) = m_frame_type m" "msg_payload (oi_message it) = msg_payload m"
    "answered \<Longrightarrow> oi_number_of_retries it = int (min (unat n) MAX_PACKET_RETRIES) + 1" "answered \<Longrightarrow> oi_retry_interval it = i" "w_stream w1 = w_stream w"
proof -
  obtain it where it: "enqueue_message answered m crc n i w = Some (on_protocol (\<lambda>p. p\<lparr>pr_outgoing_messages := pr_outgoing_messages p @ [it]\<rparr>) w)"
    "msg_ok (oi_message it)" "0 < oi_number_of_retries it" "oi_no_answer it = (\<not> answered)" "oi_use_crc it = crc"
    "m_frame_type (oi_message it) = m_frame_type m" "msg_payload (oi_message it) = msg_payload m"
    "answered \<Longrightarrow> oi_number_of_retries it = int (min (unat n) MAX_PACKET_RETRIES) + 1" "answered \<Longrightarrow> oi_retry_interval it = i"
  proof (cases answered)
    case True
    obtain c where c: "msg_ok c" "msg_payload c = msg_payload m" "m_frame_type c = m_frame_type m"
      "send_message m crc n i w = Some (on_protocol (\<lambda>p. p\<lparr>pr_outgoing_messages := pr_outgoing_messages p @
         [\<lparr>oi_message = c, oi_use_crc = crc, oi_no_answer = False,
           oi_number_of_retries = int (min (unat n) MAX_PACKET_RETRIES) + 1, oi_retry_interval = i\<rparr>]\<rparr>) w)"
      using send_message_eq [OF m(1)] by blast
    have "enqueue_message answered m crc n i w = send_message m crc n i w" using True by (simp add: enqueue_message_def)
    from that [OF this [unfolded c(4)]] show ?thesis using c True by simp
  next
    case False
    obtain c where c: "msg_ok c" "msg_payload c = msg_payload m" "m_frame_type c = m_frame_type m"
      "send_message_without_answer m crc w = Some (on_protocol (\<lambda>p. p\<lparr>pr_outgoing_messages := pr_outgoing_messages p @
         [\<lparr>oi_message = c, oi_use_crc = crc, oi_no_answer = True, oi_number_of_retries = 1, oi_retry_interval = 0\<rparr>]\<rparr>) w)"
      using send_message_without_answer_eq [OF m(1)] by blast
    have "enqueue_message answered m crc n i w = send_message_without_answer m crc w" using False by (simp add: enqueue_message_def)
    from that [OF this [unfolded c(4)]] show ?thesis using c False by simp
  qed
  have "length (wire (item_frame it)) \<le> 224"
    using short_wire [of "oi_message it" crc] it m(2) by (simp add: item_frame_def)
  then have short: "length (wire (item_frame it)) < 256" "length (wire (item_frame it)) \<le> cb_capacity (tr_buffer (pr_transport (w_protocol v)))"
    using s(1) by (simp_all add: connected_def)
  show ?thesis
    by (rule that [OF it(1)])
      (use it(2-9) m(2) s short in \<open>simp_all add: connected_def at_rest_def quiet_def free_def same_setup_def MAX_DATA_SIZE_def\<close>)
qed

text \<open>The client is due again after a round of three readings of the clock.\<close>

lemma due_again:
  assumes "due client w" "same_setup (w_protocol w) (w_protocol w')" "w_tick w' = w_tick w + 3"
    and "pr_retry_time_point (w_protocol w') \<in> {pf_clock client (w_tick w), pf_clock client (w_tick w + 2)}"
    and "pr_cooldown_time_point (w_protocol w') = pf_clock client (w_tick w + 1) + pr_cooldown_interval (w_protocol w)"
  shows "due client w'"
proof -
  obtain i where i: "w_tick w = 3 * i" "paced (pf_clock client) (pr_answer_timeout_interval (w_protocol w)) (pr_cooldown_interval (w_protocol w))"
    using assms(1) by (auto simp: due_def)
  have "w_tick w' = 3 * Suc i" using assms(3) i(1) by simp
  moreover have "pr_retry_time_point (w_protocol w') \<le> pf_clock client (3 * Suc i)"
    using assms(4) paced_step(2,4) [OF i(2), of i] unfolding i(1) by auto
  moreover have "pr_cooldown_time_point (w_protocol w') \<le> pf_clock client (3 * Suc i)"
    using paced_step(3) [OF i(2), of i] unfolding assms(5) i(1) .
  ultimately show ?thesis
    using i(2) assms(2) by (intro dueI [of _ "Suc i"]) (simp_all add: same_setup_def)
qed

text \<open>After the three loops of an exchange the server's last call has nothing to do.\<close>

lemma round_ends:
  assumes B: "pf_ops server = get_stream_reference (other_end dir)"
    and x: "exchange client server w1 v = Some (w2, v1)" "at_rest (w_protocol w2)" "same_setup (w_protocol w) (w_protocol w2)"
      "at_rest (w_protocol v1)" "same_setup (w_protocol v) (w_protocol v1)" "vs_inv (w_stream w2)"
      "cb_list (vs_rx dir (w_stream w2)) = []" "cb_list (vs_tx dir (w_stream w2)) = []"
    and s: "connected dir (w, v)"
  shows "\<exists>w' v'. CLIENT_SERVER_LOOP client server (w1, v) = Some (w', v') \<and> w_app v' = w_app v1 \<and> w_app w' = w_app w2
    \<and> connected dir (w', v') \<and> w_protocol w' = w_protocol w2 \<and> w_tick w' = w_tick w2 \<and> same_setup (w_protocol v) (w_protocol v')"
proof -
  define v1' where "v1' = v1\<lparr>w_stream := w_stream w2\<rparr>"
  obtain v2 where v2: "loop server v1' = Some v2" "at_rest (w_protocol v2)" "same_setup (w_protocol v1) (w_protocol v2)" "w_app v2 = w_app v1"
    "vs_inv (w_stream v2)" "cb_list (vs_rx (other_end dir) (w_stream v2)) = []" "cb_list (vs_tx (other_end dir) (w_stream v2)) = []"
    using rest_loop [OF B, of v1'] x(4,6-8) by (auto simp: v1'_def vs_crossed vs_crossed_back)
  have "CLIENT_SERVER_LOOP client server (w1, v) = Some (w2\<lparr>w_stream := w_stream v2\<rparr>, v2)"
    using x(1) v2(1) by (auto simp: CLIENT_SERVER_LOOP_def exchange_def v1'_def bind_eq_Some_conv)
  moreover have vv: "same_setup (w_protocol v) (w_protocol v2)" using same_setup_trans x(5) v2(3) by blast
  moreover have "connected dir (w2\<lparr>w_stream := w_stream v2\<rparr>, v2)"
    using x(2,3) v2 s vv by (simp add: connected_def same_setup_def vs_crossed vs_crossed_back)
  ultimately show ?thesis using v2(4) by (intro exI [of _ "w2\<lparr>w_stream := w_stream v2\<rparr>"] exI [of _ v2]) simp
qed

text \<open>A request that is answered, whatever the application states: sent with some repeats when the client is free, with the
  answer in time.\<close>

lemma answered_round:
  assumes A: "pf_ops client = get_stream_reference dir" "allocates (pf_new client)"
    and B: "pf_ops server = get_stream_reference (other_end dir)" "allocates (pf_new server)"
    and s: "connected dir (w, v)" "free client w"
    and m: "msg_ok m" "length (msg_payload m) \<le> 100"
    and j: "find_handler (pr_message_handlers_map (w_protocol v)) (m_frame_type m) (pr_default_message_handler (w_protocol v)) = Some j"
      "pf_message server j (m_frame_type m) (msg_payload m) (w_app v) = (b', calls, err)" "answers crc calls r u"
    and r: "msg_ok r" "length (msg_payload r) \<le> 100"
    and l: "find_handler (pr_answer_handlers_map (w_protocol w)) (m_frame_type m) (pr_default_answer_handler (w_protocol w)) = Some l"
      "pf_answer client l (m_frame_type m) (m_frame_type r) (msg_payload r) (w_app w) = (a', [], err')"
    and time: "pf_clock client (w_tick w + 2) \<le> pf_clock client (w_tick w) + pr_answer_timeout_interval (w_protocol w)"
  shows "\<exists>w1 w' v'. send_message m crc n i w = Some w1 \<and> CLIENT_SERVER_LOOP client server (w1, v) = Some (w', v')
    \<and> w_app v' = b' \<and> w_app w' = a' \<and> connected dir (w', v')
    \<and> same_setup (w_protocol w) (w_protocol w') \<and> same_setup (w_protocol v) (w_protocol v') \<and> w_tick w' = w_tick w + 3
    \<and> pr_retry_time_point (w_protocol w') = pf_clock client (w_tick w + 2)
    \<and> pr_cooldown_time_point (w_protocol w') = pf_clock client (w_tick w + 1) + pr_cooldown_interval (w_protocol w)"
proof -
  obtain w1 it where w1: "enqueue_message True m crc n i w = Some w1" "w_app w1 = w_app w" "w_tick w1 = w_tick w"
    "same_setup (w_protocol w) (w_protocol w1)"
    "quiet dir w1" "pr_state (w_protocol w1) = IDLE" "pr_outgoing_messages (w_protocol w1) = [it]"
    "pr_cooldown_time_point (w_protocol w1) \<le> pf_clock client (w_tick w1)" "pr_retry_time_point (w_protocol w1) \<le> pf_clock client (w_tick w1)"
    "cb_list (vs_tx dir (w_stream w1)) = []"
    and it: "msg_ok (oi_message it)" "0 < oi_number_of_retries it" "length (msg_payload (oi_message it)) \<le> MAX_DATA_SIZE"
    "length (wire (item_frame it)) < 256" "length (wire (item_frame it)) \<le> cb_capacity (tr_buffer (pr_transport (w_protocol v)))"
    "oi_no_answer it = (\<not> True)" "oi_use_crc it = crc"
    "m_frame_type (oi_message it) = m_frame_type m" "msg_payload (oi_message it) = msg_payload m"
    by (rule enqueued [OF s m, of True crc n i])
  have srv: "settled (pr_transport (w_protocol v)) (Search [])" "tr_incoming_queue (pr_transport (w_protocol v)) = []"
    "pr_state (w_protocol v) = IDLE" "pr_outgoing_messages (w_protocol v) = []"
    "find_handler (pr_message_handlers_map (w_protocol v)) (m_frame_type (oi_message it)) (pr_default_message_handler (w_protocol v)) = Some j"
    "pf_message server j (m_frame_type (oi_message it)) (msg_payload (oi_message it)) (w_app v) = (b', calls, err)"
    "answers (oi_use_crc it) calls r u"
    using s(1) j it(7-9) by (simp_all add: connected_def at_rest_def)
  have ans: "length (msg_payload r) \<le> MAX_DATA_SIZE"
    "length (wire (new_frame (m_frame_type r) (msg_payload r) (of_nat (length (msg_payload r))) u)) < 256"
    "length (wire (new_frame (m_frame_type r) (msg_payload r) (of_nat (length (msg_payload r))) u))
       \<le> cb_capacity (tr_buffer (pr_transport (w_protocol w1)))"
    using r(2) short_wire [OF r(2), of u] s(1) w1(4) by (simp_all add: MAX_DATA_SIZE_def same_setup_def connected_def)
  have cl: "find_handler (pr_answer_handlers_map (w_protocol w1)) (m_frame_type (oi_message it)) (pr_default_answer_handler (w_protocol w1)) = Some l"
    "pf_answer client l (m_frame_type (oi_message it)) (m_frame_type r) (msg_payload r) (w_app w1) = (a', [], err')"
    using l w1(2,4) it(8) by (simp_all add: same_setup_def)
  have time1: "pf_clock client (w_tick w1 + 2) \<le> pf_clock client (w_tick w1) + pr_answer_timeout_interval (w_protocol w1)"
    using time w1(3,4) by (simp add: same_setup_def)
  have it6: "\<not> oi_no_answer it" using it(6) by simp
  obtain w2 v1 where x: "exchange client server w1 v = Some (w2, v1)" "w_app v1 = b'"
    "w_app w2 = a'" "at_rest (w_protocol w2)" "same_setup (w_protocol w1) (w_protocol w2)"
    "at_rest (w_protocol v1)" "same_setup (w_protocol v) (w_protocol v1)" "vs_inv (w_stream w2)"
    "cb_list (vs_rx dir (w_stream w2)) = []" "cb_list (vs_tx dir (w_stream w2)) = []" "w_tick w2 = w_tick w + 3"
    "pr_retry_time_point (w_protocol w2) = pf_clock client (w_tick w + 2)"
    "pr_cooldown_time_point (w_protocol w2) = pf_clock client (w_tick w + 1) + pr_cooldown_interval (w_protocol w)"
    using exchange_answered [OF A B w1(5-10) it(1) it6 it(2-5) srv r(1) ans cl time1] w1(3,4) by (auto simp: same_setup_def)
  have ww: "same_setup (w_protocol w) (w_protocol w2)" using same_setup_trans w1(4) x(5) .
  obtain w' v' where "CLIENT_SERVER_LOOP client server (w1, v) = Some (w', v')" "w_app v' = w_app v1" "w_app w' = w_app w2"
    "connected dir (w', v')" "w_protocol w' = w_protocol w2" "w_tick w' = w_tick w2" "same_setup (w_protocol v) (w_protocol v')"
    using round_ends [OF B(1) x(1,4) ww x(6-10) s(1)] by blast
  then show ?thesis
    using w1(1) x(2,3,11-13) ww by (intro exI [of _ w1] exI [of _ w'] exI [of _ v']) (simp add: enqueue_message_def)
qed

text \<open>A request that is not waited for: the answer comes as a message of its own. The calls of the loops in between are
  given for what they log.\<close>

lemma noticed_round:
  assumes A: "pf_ops client = get_stream_reference dir" "allocates (pf_new client)"
    and B: "pf_ops server = get_stream_reference (other_end dir)" "allocates (pf_new server)"
    and s: "connected dir (w, v)" "free client w"
    and m: "msg_ok m" "length (msg_payload m) \<le> 100"
    and j: "find_handler (pr_message_handlers_map (w_protocol v)) (m_frame_type m) (pr_default_message_handler (w_protocol v)) = Some j"
      "pf_message server j (m_frame_type m) (msg_payload m) (w_app v) = (b', calls, err)" "answers crc calls r u"
    and r: "msg_ok r" "length (msg_payload r) \<le> 100"
    and k: "find_handler (pr_message_handlers_map (w_protocol w)) (m_frame_type r) (pr_default_message_handler (w_protocol w)) = Some k"
      "pf_message client k (m_frame_type r) (msg_payload r) (w_app w) = (a', calls', err')" "calls' = [] \<or> calls' = [No_Answer]"
    and kept: "pf_popped_kept client"
  obtains w1 w2 v1 w3 w' v' where "send_message_without_answer m crc w = Some w1"
    "loop client w1 = Some w2" "loop server (v\<lparr>w_stream := w_stream w2\<rparr>) = Some v1" "loop client (w2\<lparr>w_stream := w_stream v1\<rparr>) = Some w3"
    "CLIENT_SERVER_LOOP client server (w1, v) = Some (w', v')" "w_app v' = b'" "w_app w' = a'" "pr_answer_sent (w_protocol w') = (calls' = [No_Answer])"
    "connected dir (w', v')" "same_setup (w_protocol w) (w_protocol w')" "same_setup (w_protocol v) (w_protocol v')" "w_tick w' = w_tick w + 3"
    "pr_retry_time_point (w_protocol w') = pf_clock client (w_tick w)"
    "pr_cooldown_time_point (w_protocol w') = pf_clock client (w_tick w + 1) + pr_cooldown_interval (w_protocol w)"
    "at_rest (w_protocol w2)" "w_app w2 = w_app w" "same_setup (w_protocol w) (w_protocol w2)"
    "vs_inv (w_stream v1)" "cb_list (vs_rx dir (w_stream v1)) = wire (message_frame r u)" "at_rest (w_protocol v1)"
    "vs_inv (w_stream w3)" "cb_list (vs_tx dir (w_stream w3)) = []"
proof -
  obtain w1 it where w1: "enqueue_message False m crc 0 0 w = Some w1" "w_app w1 = w_app w" "w_tick w1 = w_tick w"
    "same_setup (w_protocol w) (w_protocol w1)"
    "quiet dir w1" "pr_state (w_protocol w1) = IDLE" "pr_outgoing_messages (w_protocol w1) = [it]"
    "pr_cooldown_time_point (w_protocol w1) \<le> pf_clock client (w_tick w1)" "pr_retry_time_point (w_protocol w1) \<le> pf_clock client (w_tick w1)"
    "cb_list (vs_tx dir (w_stream w1)) = []"
    and it: "msg_ok (oi_message it)" "0 < oi_number_of_retries it" "length (msg_payload (oi_message it)) \<le> MAX_DATA_SIZE"
    "length (wire (item_frame it)) < 256" "length (wire (item_frame it)) \<le> cb_capacity (tr_buffer (pr_transport (w_protocol v)))"
    "oi_no_answer it = (\<not> False)" "oi_use_crc it = crc"
    "m_frame_type (oi_message it) = m_frame_type m" "msg_payload (oi_message it) = msg_payload m"
    by (rule enqueued [OF s(1) s(2) m, of False crc 0 0])
  have srv: "settled (pr_transport (w_protocol v)) (Search [])" "tr_incoming_queue (pr_transport (w_protocol v)) = []"
    "pr_state (w_protocol v) = IDLE" "pr_outgoing_messages (w_protocol v) = []"
    "find_handler (pr_message_handlers_map (w_protocol v)) (m_frame_type (oi_message it)) (pr_default_message_handler (w_protocol v)) = Some j"
    "pf_message server j (m_frame_type (oi_message it)) (msg_payload (oi_message it)) (w_app v) = (b', calls, err)"
    "answers (oi_use_crc it) calls r u"
    using s(1) j it(7-9) by (simp_all add: connected_def at_rest_def)
  have ans: "length (msg_payload r) \<le> MAX_DATA_SIZE" "length (wire (message_frame r u)) \<le> 224"
    using r(2) short_wire [OF r(2), of u] by (simp_all add: MAX_DATA_SIZE_def message_frame_def)
  note f = message_frame_ok(1,2,4) [OF ans(1), of u]
  have sh: "length (wire (message_frame r u)) < 256" using ans(2) by simp
  obtain w2 v1 where x: "loop client w1 = Some w2" "loop server (v\<lparr>w_stream := w_stream w2\<rparr>) = Some v1"
    "at_rest (w_protocol w2)" "pr_retry_time_point (w_protocol w2) = pf_clock client (w_tick w)"
    "w_app w2 = w_app w" "w_tick w2 = w_tick w + 2" "same_setup (w_protocol w) (w_protocol w2)"
    "pr_cooldown_time_point (w_protocol w2) = pf_clock client (w_tick w + 1) + pr_cooldown_interval (w_protocol w)"
    "w_app v1 = b'" "at_rest (w_protocol v1)" "same_setup (w_protocol v) (w_protocol v1)"
    "vs_inv (w_stream v1)" "cb_list (vs_rx dir (w_stream v1)) = wire (message_frame r u)" "cb_list (vs_tx dir (w_stream v1)) = []"
    using send_and_serve [OF A B w1(5-10) it(1-5) srv r(1) ans(1) sh] it(6) w1(2-4) kept
    by (auto simp: at_rest_def same_setup_def)
  define w2' where "w2' = w2\<lparr>w_stream := w_stream v1\<rparr>"
  have w2': "at_rest (w_protocol w2')" "vs_inv (w_stream w2')" "cb_list (vs_rx dir (w_stream w2')) = wire (message_frame r u)"
    "length (wire (message_frame r u)) \<le> cb_capacity (tr_buffer (pr_transport (w_protocol w2')))"
    "message_run client (w_protocol w2') (f_type (message_frame r u)) (frame_data (message_frame r u)) (w_app w2') = (a', calls', err')"
    using x(3,5,7,12,13) ans(2) s(1) k(1,2) f by (simp_all add: w2'_def same_setup_def connected_def message_run_def)
  obtain w3 where w3: "loop client w2' = Some w3" "w_app w3 = a'" "at_rest (w_protocol w3)" "same_setup (w_protocol w2) (w_protocol w3)"
    "vs_inv (w_stream w3)" "cb_list (vs_tx dir (w_stream w3)) = []" "cb_list (vs_rx dir (w_stream w3)) = []"
    "w_tick w3 = w_tick w + 3" "pr_answer_sent (w_protocol w3) = (calls' = [No_Answer])"
    "pr_cooldown_time_point (w_protocol w3) = pr_cooldown_time_point (w_protocol w2)"
    "pr_retry_time_point (w_protocol w3) = pr_retry_time_point (w_protocol w2)"
    using message_loop [OF A(1) w2'(1-3) f(1) w2'(4,5) k(3)] x(6,14) by (auto simp: w2'_def)
  have e: "exchange client server w1 v = Some (w3, v1)"
    using x(1,2) w3(1) by (simp add: exchange_def w2'_def)
  have ww: "same_setup (w_protocol w) (w_protocol w3)" using same_setup_trans x(7) w3(4) .
  obtain w' v' where "CLIENT_SERVER_LOOP client server (w1, v) = Some (w', v')" "w_app v' = w_app v1" "w_app w' = w_app w3"
    "connected dir (w', v')" "w_protocol w' = w_protocol w3" "w_tick w' = w_tick w3" "same_setup (w_protocol v) (w_protocol v')"
    using round_ends [OF B(1) e w3(3) ww x(10,11) w3(5,7,6) s(1)] by blast
  then show ?thesis
    using that [of w1 w2 v1 w3 w' v'] w1(1) x w3 ww by (simp add: enqueue_message_def w2'_def)
qed

text \<open>Where the memory of popped elements is not kept, sending it is undefined.\<close>

lemma notice_undefined:
  assumes A: "pf_ops client = get_stream_reference dir" "allocates (pf_new client)" "\<not> pf_popped_kept client"
    and s: "connected dir (w, v)" "free client w" and m: "msg_ok m" "length (msg_payload m) \<le> 100"
  shows "\<exists>w1. send_message_without_answer m crc w = Some w1 \<and> loop client w1 = None"
proof -
  obtain w1 it where w1: "enqueue_message False m crc 0 0 w = Some w1"
    "quiet dir w1" "pr_state (w_protocol w1) = IDLE" "pr_outgoing_messages (w_protocol w1) = [it]"
    "pr_cooldown_time_point (w_protocol w1) \<le> pf_clock client (w_tick w1)" "pr_retry_time_point (w_protocol w1) \<le> pf_clock client (w_tick w1)"
    "cb_list (vs_tx dir (w_stream w1)) = []"
    and it: "msg_ok (oi_message it)" "0 < oi_number_of_retries it" "length (msg_payload (oi_message it)) \<le> MAX_DATA_SIZE"
    "length (wire (item_frame it)) < 256" "oi_no_answer it = (\<not> False)"
    by (rule enqueued [OF s m, of False crc 0 0])
  then show ?thesis
    using send_loop_cases [OF A(1,2) w1(2-6) it(1-4) w1(7)] A(3) by (simp add: enqueue_message_def)
qed

context answering_handler
begin

lemma request_round:
  assumes A: "pf_ops client = get_stream_reference dir" "allocates (pf_new client)"
    and B: "pf_ops server = get_stream_reference (other_end dir)" "allocates (pf_new server)"
    and s: "connected dir (w, v)" "due client w" "I (w_app v)"
    and m: "msg_ok m" "length (msg_payload m) \<le> 100"
    and k: "served server (w_protocol v) h (m_frame_type m)" "accepts client (w_protocol w) accept (m_frame_type m)"
  shows "\<exists>w1 w' v' r. send_message m crc n i w = Some w1 \<and> CLIENT_SERVER_LOOP client server (w1, v) = Some (w', v')
    \<and> answer_of (fst (snd (h (m_frame_type m) (msg_payload m) (w_app v)))) = Some r
    \<and> w_app v' = fst (h (m_frame_type m) (msg_payload m) (w_app v)) \<and> I (w_app v')
    \<and> w_app w' = accept (m_frame_type m) (m_frame_type r) (msg_payload r) (w_app w)
    \<and> connected dir (w', v') \<and> due client w' \<and> same_setup (w_protocol w) (w_protocol w') \<and> same_setup (w_protocol v) (w_protocol v')"
proof -
  let ?ty = "m_frame_type m" and ?d = "msg_payload m"
  obtain j where j: "find_handler (pr_message_handlers_map (w_protocol v)) ?ty (pr_default_message_handler (w_protocol v)) = Some j"
    "pf_message server j ?ty = h ?ty" using k(1) by (auto simp: served_def)
  obtain l where l: "find_handler (pr_answer_handlers_map (w_protocol w)) ?ty (pr_default_answer_handler (w_protocol w)) = Some l"
    "\<And>rty d a. \<exists>err. pf_answer client l ?ty rty d a = (accept ?ty rty d a, [], err)" using k(2) by (auto simp: accepts_def)
  obtain b' calls err r u where h: "h ?ty ?d (w_app v) = (b', calls, err)" "I b'" "answers crc calls r u"
    "msg_ok r" "length (msg_payload r) \<le> 100" using answered [OF s(3)] by blast
  obtain err' where l2: "pf_answer client l ?ty (m_frame_type r) (msg_payload r) (w_app w)
      = (accept ?ty (m_frame_type r) (msg_payload r) (w_app w), [], err')" using l(2) by blast
  have run: "pf_message server j ?ty ?d (w_app v) = (b', calls, err)" using h(1) j(2) by simp
  have time: "pf_clock client (w_tick w + 2) \<le> pf_clock client (w_tick w) + pr_answer_timeout_interval (w_protocol w)"
    using s(2) paced_step(1) by (auto simp: due_def)
  obtain w1 w' v' where x: "send_message m crc n i w = Some w1" "CLIENT_SERVER_LOOP client server (w1, v) = Some (w', v')"
    "w_app v' = b'" "w_app w' = accept ?ty (m_frame_type r) (msg_payload r) (w_app w)" "connected dir (w', v')"
    "same_setup (w_protocol w) (w_protocol w')" "same_setup (w_protocol v) (w_protocol v')" "w_tick w' = w_tick w + 3"
    "pr_retry_time_point (w_protocol w') = pf_clock client (w_tick w + 2)"
    "pr_cooldown_time_point (w_protocol w') = pf_clock client (w_tick w + 1) + pr_cooldown_interval (w_protocol w)"
    using answered_round [OF A B s(1) due_free [OF s(2)] m j(1) run h(3-5) l(1) l2 time] by blast
  then show ?thesis
    using h(1,2) answer_of_answers [OF h(3)] due_again [OF s(2) x(6,8) _ x(10)] by auto
qed

lemma session_direct:
  assumes A: "pf_ops client = get_stream_reference dir" "allocates (pf_new client)"
    and B: "pf_ops server = get_stream_reference (other_end dir)" "allocates (pf_new server)"
    and s: "connected dir (w, v)" "due client w" "I (w_app v)"
    and ms: "\<forall>(m, crc) \<in> set ms. msg_ok m \<and> length (msg_payload m) \<le> 100
      \<and> served server (w_protocol v) h (m_frame_type m) \<and> accepts client (w_protocol w) accept (m_frame_type m)"
  shows "\<exists>w' v'. session client server ms (w, v) = Some (w', v')
    \<and> direct_calls h accept (map fst ms) (w_app w, w_app v) = Some (w_app w', w_app v')
    \<and> connected dir (w', v') \<and> due client w' \<and> I (w_app v')
    \<and> same_setup (w_protocol w) (w_protocol w') \<and> same_setup (w_protocol v) (w_protocol v')"
  using s ms
proof (induction ms arbitrary: w v)
  case (Cons mc ms)
  obtain m crc where mc: "mc = (m, crc)" by (cases mc)
  obtain w1 w' v' r where r: "send_message m crc 0 0 w = Some w1" "CLIENT_SERVER_LOOP client server (w1, v) = Some (w', v')"
    "answer_of (fst (snd (h (m_frame_type m) (msg_payload m) (w_app v)))) = Some r"
    "w_app v' = fst (h (m_frame_type m) (msg_payload m) (w_app v))" "I (w_app v')"
    "w_app w' = accept (m_frame_type m) (m_frame_type r) (msg_payload r) (w_app w)"
    "connected dir (w', v')" "due client w'" "same_setup (w_protocol w) (w_protocol w')" "same_setup (w_protocol v) (w_protocol v')"
    using request_round [OF A B Cons.prems(1-3), of m accept crc 0 0] Cons.prems(4) by (auto simp: mc)
  have "\<forall>(m, crc) \<in> set ms. msg_ok m \<and> length (msg_payload m) \<le> 100
      \<and> served server (w_protocol v') h (m_frame_type m) \<and> accepts client (w_protocol w') accept (m_frame_type m)"
    using Cons.prems(4) r(9,10) by (auto simp: same_setup_served)
  from Cons.IH [OF r(7,8,5) this] show ?case
    using r(1-4,6) same_setup_trans [OF r(9)] same_setup_trans [OF r(10)] by (auto simp: mc split_beta)
qed (simp add: same_setup_refl)

end

end
