(* ===== verification/Bit_Fields.thy ===== *)
theory Bit_Fields
  imports HP_Prelude
begin

text \<open>
  Structures with bit-fields as the bytes they occupy. A layout gives every field the byte,
  the lowest bit and the number of bits, the way the compilers the program is built with lay
  out \<^verbatim>\<open>uint8_t\<close> bit-fields (from the least significant bit up, no field
  across two bytes). The interface \<open>field_family\<close> is what the handlers rely on: writing one
  field does not change the others.
\<close>

section \<open>One field\<close>

type_synonym bit_field = "nat \<times> nat \<times> nat" \<comment> \<open>byte, lowest bit, width\<close>

fun bf_get :: "bit_field \<Rightarrow> byte list \<Rightarrow> byte" where
  "bf_get (i, s, w) m = take_bit w (drop_bit s (m ! i))"

text \<open>The value is truncated to the width of the field.\<close>

fun bf_put :: "bit_field \<Rightarrow> byte \<Rightarrow> byte list \<Rightarrow> byte list" where
  "bf_put (i, s, w) v m =
     m[i := (m ! i AND NOT (push_bit s (mask w))) OR push_bit s (take_bit w v)]"

fun bf_inside :: "nat \<Rightarrow> bit_field \<Rightarrow> bool" where
  "bf_inside n (i, s, w) \<longleftrightarrow> i < n \<and> s + w \<le> 8"

fun bf_disjoint :: "bit_field \<Rightarrow> bit_field \<Rightarrow> bool" where
  "bf_disjoint (i, s, w) (j, t, u) \<longleftrightarrow> i \<noteq> j \<or> s + w \<le> t \<or> t + u \<le> s"

lemma length_bf_put [simp]: "length (bf_put f v m) = length m"
  by (cases f) simp

lemma bf_get_put:
  assumes "bf_inside (length m) f"
  shows "bf_get f (bf_put f v m) = take_bit (snd (snd f)) v"
proof -
  obtain i s w where f: "f = (i, s, w)" by (cases f)
  have "take_bit w (drop_bit s ((x AND NOT (push_bit s (mask w))) OR push_bit s (take_bit w v))) = take_bit w v"
    if "s + w \<le> 8" for x :: byte
    using that by (intro bit_word_eqI) (auto simp: bit_simps)
  then show ?thesis
    using assms by (simp add: f)
qed

lemma bf_get_put_other:
  assumes "bf_inside (length m) f" "bf_inside (length m) g" "bf_disjoint f g"
  shows "bf_get g (bf_put f v m) = bf_get g m"
proof -
  obtain i s w where f: "f = (i, s, w)" by (cases f)
  obtain j t u where g: "g = (j, t, u)" by (cases g)
  show ?thesis
  proof (cases "i = j")
    case True
    have "take_bit u (drop_bit t ((x AND NOT (push_bit s (mask w))) OR push_bit s (take_bit w v))) = take_bit u (drop_bit t x)"
      if "s + w \<le> t \<or> t + u \<le> s" "s + w \<le> 8" for x :: byte
      using that by (intro bit_word_eqI) (auto simp: bit_simps dest: bit_imp_le_length)
    then show ?thesis
      using assms True by (simp add: f g)
  next
    case False
    then show ?thesis by (simp add: f g)
  qed
qed

lemma bf_put_get:
  assumes "bf_inside (length m) f"
  shows "bf_put f (bf_get f m) m = m"
proof -
  obtain i s w where f: "f = (i, s, w)" by (cases f)
  have "(x AND NOT (push_bit s (mask w))) OR push_bit s (take_bit w (take_bit w (drop_bit s x))) = x" for x :: byte
    by (intro bit_word_eqI) (auto simp: bit_simps)
  then show ?thesis
    using assms by (simp add: f)
qed

text \<open>Fields given in the order they have in memory are disjoint.\<close>

fun bf_before :: "bit_field \<Rightarrow> bit_field \<Rightarrow> bool" where
  "bf_before (i, s, w) (j, t, u) \<longleftrightarrow> i < j \<or> i = j \<and> s + w \<le> t"

lemma bf_before_disjoint: "bf_before x y \<Longrightarrow> bf_disjoint x y" "bf_before x y \<Longrightarrow> bf_disjoint y x"
  by (cases x; cases y; auto)+

lemma sorted_layout_disjoint:
  "sorted_wrt bf_before (map layout fs) \<Longrightarrow> f \<in> set fs \<Longrightarrow> g \<in> set fs \<Longrightarrow> f \<noteq> g \<Longrightarrow>
     bf_disjoint (layout f) (layout g)"
  by (induction fs) (auto dest: bf_before_disjoint)

section \<open>A family of fields\<close>

text \<open>A sequence of assignments.\<close>

definition puts :: "('f \<Rightarrow> byte \<Rightarrow> 'm \<Rightarrow> 'm) \<Rightarrow> ('f \<times> byte) list \<Rightarrow> 'm \<Rightarrow> 'm" where
  "puts put as m = fold (\<lambda>(f, v). put f v) as m"

lemma puts_simps [simp]: "puts put [] m = m" "puts put ((f, v) # as) m = puts put as (put f v m)"
  by (simp_all add: puts_def)

locale field_family =
  fixes valid :: "'m \<Rightarrow> bool" and get :: "'f \<Rightarrow> 'm \<Rightarrow> byte" and put :: "'f \<Rightarrow> byte \<Rightarrow> 'm \<Rightarrow> 'm"
    and width :: "'f \<Rightarrow> nat"
  assumes put_valid: "valid m \<Longrightarrow> valid (put f v m)"
    and get_put: "valid m \<Longrightarrow> get f (put f v m) = take_bit (width f) v"
    and get_put_other: "valid m \<Longrightarrow> f \<noteq> g \<Longrightarrow> get g (put f v m) = get g m"
    and put_get: "valid m \<Longrightarrow> put f (get f m) m = m"
begin

lemma puts_valid: "valid m \<Longrightarrow> valid (puts put as m)"
proof (induction as arbitrary: m)
  case (Cons a as)
  then show ?case by (cases a) (simp add: put_valid)
qed simp

text \<open>Every field ends with the last value assigned to it.\<close>

lemma get_puts:
  "valid m \<Longrightarrow> get f (puts put as m) =
     (case map_of (rev as) f of None \<Rightarrow> get f m | Some v \<Rightarrow> take_bit (width f) v)"
proof (induction as arbitrary: m)
  case (Cons a as)
  obtain g v where a: "a = (g, v)" by (cases a)
  then show ?case
    using Cons put_valid [of m g v]
    by (cases "g = f") (auto simp: map_add_def get_put get_put_other split: option.split)
qed simp

text \<open>An assignment that is skipped when the field has the value already makes no difference.\<close>

lemma put_if_different: "valid m \<Longrightarrow> (if get f m \<noteq> v then put f v m else m) = put f v m"
  using put_get [of m f] by auto

end

end
