(* ===== verification/Hon_Packet.thy ===== *)
theory Hon_Packet
  imports Bit_Fields
begin

text \<open>
  The data of the hOn protocol in \<^verbatim>\<open>tools/utils/hon_packet.h\<close> and
  \<^verbatim>\<open>tools/utils/hon_server.h\<close>: enumerations, the layout of the control, sensor
  and big-data parts of the status, and the offsets of these parts in
  \<^verbatim>\<open>HvacFullStatus\<close>. A status is the list of its 46 bytes, because the code sends it,
  copies it and writes it bytewise as well as field by field.
\<close>

section \<open>Enumerations\<close>

datatype vertical_swing_mode =
  VerticalSwingMode_HEALTH_UP | VerticalSwingMode_MAX_UP | VerticalSwingMode_HEALTH_DOWN
  | VerticalSwingMode_UP | VerticalSwingMode_CENTER | VerticalSwingMode_DOWN
  | VerticalSwingMode_AUTO

primrec vertical_swing_mode_code :: "vertical_swing_mode \<Rightarrow> byte" where
  "vertical_swing_mode_code VerticalSwingMode_HEALTH_UP = 0x01"
| "vertical_swing_mode_code VerticalSwingMode_MAX_UP = 0x02"
| "vertical_swing_mode_code VerticalSwingMode_HEALTH_DOWN = 0x03"
| "vertical_swing_mode_code VerticalSwingMode_UP = 0x04"
| "vertical_swing_mode_code VerticalSwingMode_CENTER = 0x06"
| "vertical_swing_mode_code VerticalSwingMode_DOWN = 0x08"
| "vertical_swing_mode_code VerticalSwingMode_AUTO = 0x0C"

datatype horizontal_swing_mode =
  HorizontalSwingMode_CENTER | HorizontalSwingMode_MAX_LEFT | HorizontalSwingMode_LEFT
  | HorizontalSwingMode_RIGHT | HorizontalSwingMode_MAX_RIGHT | HorizontalSwingMode_AUTO

primrec horizontal_swing_mode_code :: "horizontal_swing_mode \<Rightarrow> byte" where
  "horizontal_swing_mode_code HorizontalSwingMode_CENTER = 0x00"
| "horizontal_swing_mode_code HorizontalSwingMode_MAX_LEFT = 0x03"
| "horizontal_swing_mode_code HorizontalSwingMode_LEFT = 0x04"
| "horizontal_swing_mode_code HorizontalSwingMode_RIGHT = 0x05"
| "horizontal_swing_mode_code HorizontalSwingMode_MAX_RIGHT = 0x06"
| "horizontal_swing_mode_code HorizontalSwingMode_AUTO = 0x07"

datatype conditioning_mode =
  ConditioningMode_AUTO | ConditioningMode_COOL | ConditioningMode_DRY
  | ConditioningMode_HEALTHY_DRY | ConditioningMode_HEAT | ConditioningMode_ENERGY_SAVING
  | ConditioningMode_FAN

primrec conditioning_mode_code :: "conditioning_mode \<Rightarrow> byte" where
  "conditioning_mode_code ConditioningMode_AUTO = 0x00"
| "conditioning_mode_code ConditioningMode_COOL = 0x01"
| "conditioning_mode_code ConditioningMode_DRY = 0x02"
| "conditioning_mode_code ConditioningMode_HEALTHY_DRY = 0x03"
| "conditioning_mode_code ConditioningMode_HEAT = 0x04"
| "conditioning_mode_code ConditioningMode_ENERGY_SAVING = 0x05"
| "conditioning_mode_code ConditioningMode_FAN = 0x06"

datatype data_parameters =
  DataParameters_AC_POWER | DataParameters_SET_POINT | DataParameters_AC_MODE
  | DataParameters_FAN_MODE | DataParameters_USE_FAHRENHEIT | DataParameters_TEN_DEGREE
  | DataParameters_HEALTH_MODE | DataParameters_BEEPER_STATUS | DataParameters_LOCK_REMOTE
  | DataParameters_QUIET_MODE | DataParameters_FAST_MODE

primrec data_parameters_code :: "data_parameters \<Rightarrow> byte" where
  "data_parameters_code DataParameters_AC_POWER = 0x01"
| "data_parameters_code DataParameters_SET_POINT = 0x02"
| "data_parameters_code DataParameters_AC_MODE = 0x04"
| "data_parameters_code DataParameters_FAN_MODE = 0x05"
| "data_parameters_code DataParameters_USE_FAHRENHEIT = 0x07"
| "data_parameters_code DataParameters_TEN_DEGREE = 0x0A"
| "data_parameters_code DataParameters_HEALTH_MODE = 0x0B"
| "data_parameters_code DataParameters_BEEPER_STATUS = 0x16"
| "data_parameters_code DataParameters_LOCK_REMOTE = 0x17"
| "data_parameters_code DataParameters_QUIET_MODE = 0x19"
| "data_parameters_code DataParameters_FAST_MODE = 0x1A"

datatype special_mode =
  SpecialMode_NONE | SpecialMode_ELDERLY | SpecialMode_CHILDREN
  | SpecialMode_PREGNANT

primrec special_mode_code :: "special_mode \<Rightarrow> byte" where
  "special_mode_code SpecialMode_NONE = 0x00"
| "special_mode_code SpecialMode_ELDERLY = 0x01"
| "special_mode_code SpecialMode_CHILDREN = 0x02"
| "special_mode_code SpecialMode_PREGNANT = 0x03"

datatype fan_mode =
  FanMode_FAN_HIGH | FanMode_FAN_MID | FanMode_FAN_LOW
  | FanMode_FAN_AUTO

primrec fan_mode_code :: "fan_mode \<Rightarrow> byte" where
  "fan_mode_code FanMode_FAN_HIGH = 0x01"
| "fan_mode_code FanMode_FAN_MID = 0x02"
| "fan_mode_code FanMode_FAN_LOW = 0x03"
| "fan_mode_code FanMode_FAN_AUTO = 0x05"

text \<open>\<^verbatim>\<open>SubcommandsControl\<close>.\<close>

abbreviation (input) GET_PARAMETERS :: u16 where "GET_PARAMETERS \<equiv> 0x4C01"
abbreviation (input) GET_USER_DATA :: u16 where "GET_USER_DATA \<equiv> 0x4D01"
abbreviation (input) GET_BIG_DATA :: u16 where "GET_BIG_DATA \<equiv> 0x4DFE"
abbreviation (input) SET_PARAMETERS :: u16 where "SET_PARAMETERS \<equiv> 0x5C01"
abbreviation (input) SET_SINGLE_PARAMETER :: u16 where "SET_SINGLE_PARAMETER \<equiv> 0x5D00"
abbreviation (input) SET_GROUP_PARAMETERS :: u16 where "SET_GROUP_PARAMETERS \<equiv> 0x6001"

section \<open>Layout\<close>

text \<open>\<^verbatim>\<open>HaierPacketControl\<close>, 10 bytes.\<close>

datatype control_field =
    Set_Point | Vertical_Swing_Mode | Fan_Mode | Special_Mode
  | Ac_Mode | Ten_Degree | Display_Status | Half_Degree
  | Intelligence_Status | Pmv_Status | Use_Fahrenheit | Steri_Clean
  | Ac_Power | Health_Mode | Electric_Heating_Status | Fast_Mode
  | Quiet_Mode | Sleep_Mode | Lock_Remote | Beeper_Status
  | Target_Humidity | Horizontal_Swing_Mode | Human_Sensing_Status | Change_Filter
  | Fresh_Air_Status | Humidification_Status | Pm2p5_Cleaning_Status | Ch2o_Cleaning_Status
  | Self_Cleaning_Status | Light_Status | Energy_Saving_Status | Cleaning_Time_Status

primrec control_layout :: "control_field \<Rightarrow> bit_field" where
  "control_layout Set_Point = (0, 0, 8)"
| "control_layout Vertical_Swing_Mode = (1, 0, 4)"
| "control_layout Fan_Mode = (2, 0, 3)"
| "control_layout Special_Mode = (2, 3, 2)"
| "control_layout Ac_Mode = (2, 5, 3)"
| "control_layout Ten_Degree = (4, 0, 1)"
| "control_layout Display_Status = (4, 1, 1)"
| "control_layout Half_Degree = (4, 2, 1)"
| "control_layout Intelligence_Status = (4, 3, 1)"
| "control_layout Pmv_Status = (4, 4, 1)"
| "control_layout Use_Fahrenheit = (4, 5, 1)"
| "control_layout Steri_Clean = (4, 7, 1)"
| "control_layout Ac_Power = (5, 0, 1)"
| "control_layout Health_Mode = (5, 1, 1)"
| "control_layout Electric_Heating_Status = (5, 2, 1)"
| "control_layout Fast_Mode = (5, 3, 1)"
| "control_layout Quiet_Mode = (5, 4, 1)"
| "control_layout Sleep_Mode = (5, 5, 1)"
| "control_layout Lock_Remote = (5, 6, 1)"
| "control_layout Beeper_Status = (5, 7, 1)"
| "control_layout Target_Humidity = (6, 0, 8)"
| "control_layout Horizontal_Swing_Mode = (7, 0, 3)"
| "control_layout Human_Sensing_Status = (7, 6, 2)"
| "control_layout Change_Filter = (8, 0, 1)"
| "control_layout Fresh_Air_Status = (9, 0, 1)"
| "control_layout Humidification_Status = (9, 1, 1)"
| "control_layout Pm2p5_Cleaning_Status = (9, 2, 1)"
| "control_layout Ch2o_Cleaning_Status = (9, 3, 1)"
| "control_layout Self_Cleaning_Status = (9, 4, 1)"
| "control_layout Light_Status = (9, 5, 1)"
| "control_layout Energy_Saving_Status = (9, 6, 1)"
| "control_layout Cleaning_Time_Status = (9, 7, 1)"

text \<open>The single-byte members of \<^verbatim>\<open>HaierPacketSensors\<close>, 18 bytes; the six
  \<^verbatim>\<open>uint16_t\<close> members begin at offset 6.\<close>

datatype sensor_field =
    Room_Temperature | Room_Humidity | Outdoor_Temperature | Pm2p5_Level
  | Air_Quality | Human_Sensing | Ac_Type | Error_Status
  | Operation_Source | Operation_Mode_Hk | Err_Confirmation

primrec sensor_layout :: "sensor_field \<Rightarrow> bit_field" where
  "sensor_layout Room_Temperature = (0, 0, 8)"
| "sensor_layout Room_Humidity = (1, 0, 8)"
| "sensor_layout Outdoor_Temperature = (2, 0, 8)"
| "sensor_layout Pm2p5_Level = (3, 0, 2)"
| "sensor_layout Air_Quality = (3, 2, 2)"
| "sensor_layout Human_Sensing = (3, 4, 2)"
| "sensor_layout Ac_Type = (3, 7, 1)"
| "sensor_layout Error_Status = (4, 0, 8)"
| "sensor_layout Operation_Source = (5, 0, 2)"
| "sensor_layout Operation_Mode_Hk = (5, 2, 2)"
| "sensor_layout Err_Confirmation = (5, 7, 1)"

text \<open>The single-byte members of \<^verbatim>\<open>HaierPacketBigData\<close>, 14 bytes.\<close>

datatype big_data_field =
    Indoor_Coil_Temperature | Outdoor_Out_Air_Temperature | Outdoor_Coil_Temperature | Outdoor_In_Air_Temperature
  | Outdoor_Defrost_Temperature | Compressor_Frequency | Outdoor_Fan_Status | Defrost_Status
  | Compressor_Status | Indoor_Fan_Status | Four_Way_Valve_Status | Indoor_Electric_Heating_Status

primrec big_data_layout :: "big_data_field \<Rightarrow> bit_field" where
  "big_data_layout Indoor_Coil_Temperature = (2, 0, 8)"
| "big_data_layout Outdoor_Out_Air_Temperature = (3, 0, 8)"
| "big_data_layout Outdoor_Coil_Temperature = (4, 0, 8)"
| "big_data_layout Outdoor_In_Air_Temperature = (5, 0, 8)"
| "big_data_layout Outdoor_Defrost_Temperature = (6, 0, 8)"
| "big_data_layout Compressor_Frequency = (7, 0, 8)"
| "big_data_layout Outdoor_Fan_Status = (10, 0, 2)"
| "big_data_layout Defrost_Status = (10, 2, 2)"
| "big_data_layout Compressor_Status = (11, 0, 2)"
| "big_data_layout Indoor_Fan_Status = (11, 2, 2)"
| "big_data_layout Four_Way_Valve_Status = (11, 4, 2)"
| "big_data_layout Indoor_Electric_Heating_Status = (11, 6, 2)"

text \<open>\<^verbatim>\<open>HvacFullStatus\<close>: the parts one behind the other, with four spare bytes before
  the big data.\<close>

abbreviation CONTROL_SIZE :: nat where "CONTROL_SIZE \<equiv> 10" \<comment> \<open>\<^verbatim>\<open>sizeof(HaierPacketControl)\<close>\<close>
abbreviation SENSORS_SIZE :: nat where "SENSORS_SIZE \<equiv> 18"
abbreviation SENSORS_SPARE_SIZE :: nat where "SENSORS_SPARE_SIZE \<equiv> 4"

definition USER_DATA_SIZE :: nat where
  "USER_DATA_SIZE = CONTROL_SIZE + SENSORS_SIZE + SENSORS_SPARE_SIZE"

definition BIG_DATA_SIZE :: nat where
  "BIG_DATA_SIZE = USER_DATA_SIZE + 14"

datatype hvac_field = Control control_field | Sensor sensor_field | Big_Data big_data_field

fun shifted :: "nat \<Rightarrow> bit_field \<Rightarrow> bit_field" where
  "shifted n (i, s, w) = (n + i, s, w)"

fun hvac_layout :: "hvac_field \<Rightarrow> bit_field" where
  "hvac_layout (Control f) = control_layout f"
| "hvac_layout (Sensor f) = shifted CONTROL_SIZE (sensor_layout f)"
| "hvac_layout (Big_Data f) = shifted USER_DATA_SIZE (big_data_layout f)"

definition hvac_get :: "hvac_field \<Rightarrow> byte list \<Rightarrow> byte" where
  "hvac_get f m = bf_get (hvac_layout f) m"

definition hvac_put :: "hvac_field \<Rightarrow> byte \<Rightarrow> byte list \<Rightarrow> byte list" where
  "hvac_put f v m = bf_put (hvac_layout f) v m"

text \<open>A \<^verbatim>\<open>uint16_t\<close> member, least significant byte first.\<close>

definition put_u16 :: "nat \<Rightarrow> u16 \<Rightarrow> byte list \<Rightarrow> byte list" where
  "put_u16 off v m = m[off := ucast v, off + 1 := ucast (drop_bit 8 v)]"

section \<open>Alarms\<close>

definition HON_ALARM_MESSAGES :: "string list" where
  "HON_ALARM_MESSAGES =
    [''Outdoor module failure'',
     ''Outdoor defrost sensor failure'',
     ''Outdoor compressor exhaust sensor failure'',
     ''Outdoor EEPROM abnormality'',
     ''Indoor coil sensor failure'',
     ''Indoor-outdoor communication failure'',
     ''Power supply overvoltage protection'',
     ''Communication failure between panel and indoor unit'',
     ''Outdoor compressor overheat protection'',
     ''Outdoor environmental sensor abnormality'',
     ''Full water protection'',
     ''Indoor EEPROM failure'',
     ''Outdoor out air sensor failure'',
     ''CBD and module communication failure'',
     ''Indoor DC fan failure'',
     ''Outdoor DC fan failure'',
     ''Door switch failure'',
     ''Dust filter needs cleaning reminder'',
     ''Water shortage protection'',
     ''Humidity sensor failure'',
     ''Indoor temperature sensor failure'',
     ''Manipulator limit failure'',
     ''Indoor PM2.5 sensor failure'',
     ''Outdoor PM2.5 sensor failure'',
     ''Indoor heating overload/high load alarm'',
     ''Outdoor AC current protection'',
     ''Outdoor compressor operation abnormality'',
     ''Outdoor DC current protection'',
     ''Outdoor no-load failure'',
     ''CT current abnormality'',
     ''Indoor cooling freeze protection'',
     ''High and low pressure protection'',
     ''Compressor out air temperature is too high'',
     ''Outdoor evaporator sensor failure'',
     ''Outdoor cooling overload'',
     ''Water pump drainage failure'',
     ''Three-phase power supply failure'',
     ''Four-way valve failure'',
     ''External alarm/scraper flow switch failure'',
     ''Temperature cutoff protection alarm'',
     ''Different mode operation failure'',
     ''Electronic expansion valve failure'',
     ''Dual heat source sensor Tw failure'',
     ''Communication failure with the wired controller'',
     ''Indoor unit address duplication failure'',
     ''50Hz zero crossing failure'',
     ''Outdoor unit failure'',
     ''Formaldehyde sensor failure'',
     ''VOC sensor failure'',
     ''CO2 sensor failure'',
     ''Firewall failure'']"

definition HON_ALARM_COUNT :: nat where
  "HON_ALARM_COUNT = length HON_ALARM_MESSAGES"

lemma HON_ALARM_COUNT_eq: "HON_ALARM_COUNT = 51"
  by (simp add: HON_ALARM_COUNT_def HON_ALARM_MESSAGES_def)

section \<open>The fields are independent\<close>

lemma hvac_size: "USER_DATA_SIZE = 32" "BIG_DATA_SIZE = 46"
  by (simp_all add: USER_DATA_SIZE_def BIG_DATA_SIZE_def)

definition hvac_width :: "hvac_field \<Rightarrow> nat" where
  "hvac_width f = snd (snd (hvac_layout f))"

lemma hvac_inside: "bf_inside BIG_DATA_SIZE (hvac_layout f)"
proof (cases f)
  case (Control x)
  then show ?thesis by (cases x) (simp_all add: hvac_size)
next
  case (Sensor x)
  then show ?thesis by (cases x) (simp_all add: hvac_size)
next
  case (Big_Data x)
  then show ?thesis by (cases x) (simp_all add: hvac_size)
qed

definition hvac_fields :: "hvac_field list" where
  "hvac_fields =
    [Control Set_Point, Control Vertical_Swing_Mode, Control Fan_Mode, Control Special_Mode,
     Control Ac_Mode, Control Ten_Degree, Control Display_Status, Control Half_Degree,
     Control Intelligence_Status, Control Pmv_Status, Control Use_Fahrenheit, Control Steri_Clean,
     Control Ac_Power, Control Health_Mode, Control Electric_Heating_Status, Control Fast_Mode,
     Control Quiet_Mode, Control Sleep_Mode, Control Lock_Remote, Control Beeper_Status,
     Control Target_Humidity, Control Horizontal_Swing_Mode, Control Human_Sensing_Status, Control Change_Filter,
     Control Fresh_Air_Status, Control Humidification_Status, Control Pm2p5_Cleaning_Status, Control Ch2o_Cleaning_Status,
     Control Self_Cleaning_Status, Control Light_Status, Control Energy_Saving_Status, Control Cleaning_Time_Status,
     Sensor Room_Temperature, Sensor Room_Humidity, Sensor Outdoor_Temperature, Sensor Pm2p5_Level,
     Sensor Air_Quality, Sensor Human_Sensing, Sensor Ac_Type, Sensor Error_Status,
     Sensor Operation_Source, Sensor Operation_Mode_Hk, Sensor Err_Confirmation,
     Big_Data Indoor_Coil_Temperature, Big_Data Outdoor_Out_Air_Temperature, Big_Data Outdoor_Coil_Temperature, Big_Data Outdoor_In_Air_Temperature,
     Big_Data Outdoor_Defrost_Temperature, Big_Data Compressor_Frequency, Big_Data Outdoor_Fan_Status, Big_Data Defrost_Status,
     Big_Data Compressor_Status, Big_Data Indoor_Fan_Status, Big_Data Four_Way_Valve_Status, Big_Data Indoor_Electric_Heating_Status]"

lemma hvac_fields_complete: "f \<in> set hvac_fields"
proof (cases f)
  case (Control x)
  then show ?thesis by (cases x) (simp_all add: hvac_fields_def)
next
  case (Sensor x)
  then show ?thesis by (cases x) (simp_all add: hvac_fields_def)
next
  case (Big_Data x)
  then show ?thesis by (cases x) (simp_all add: hvac_fields_def)
qed

text \<open>In the order of the list every field ends before the next one begins.\<close>

lemma hvac_fields_sorted: "sorted_wrt bf_before (map hvac_layout hvac_fields)"
  unfolding hvac_fields_def USER_DATA_SIZE_def by code_simp

lemma hvac_disjoint: "f \<noteq> g \<Longrightarrow> bf_disjoint (hvac_layout f) (hvac_layout g)"
  by (rule sorted_layout_disjoint [OF hvac_fields_sorted hvac_fields_complete hvac_fields_complete])

lemma length_hvac_put [simp]: "length (hvac_put f v m) = length m"
  by (simp add: hvac_put_def)

interpretation hvac: field_family "\<lambda>m. length m = BIG_DATA_SIZE" hvac_get hvac_put hvac_width
  by unfold_locales
    (simp_all add: hvac_get_def hvac_put_def hvac_width_def bf_get_put bf_get_put_other bf_put_get hvac_inside hvac_disjoint)

section \<open>The answer to a version request\<close>

text \<open>The members of \<^verbatim>\<open>DeviceVersionAnswer\<close>, read from the bytes of a message as a pointer to the structure
  would; all members are bytes, so there is no padding.\<close>

record device_version_answer =
  dva_protocol_version :: "byte list"
  dva_software_version :: "byte list"
  dva_encryption :: "byte list"
  dva_hardware_version :: "byte list"
  dva_device_name :: "byte list"
  dva_functions :: "byte list"

definition read_device_version_answer :: "byte list \<Rightarrow> device_version_answer" where
  "read_device_version_answer bs =
     \<lparr>dva_protocol_version = take 8 bs, dva_software_version = take 8 (drop 8 bs), dva_encryption = take 3 (drop 16 bs),
      dva_hardware_version = take 8 (drop 19 bs), dva_device_name = take 8 (drop 28 bs), dva_functions = take 2 (drop 36 bs)\<rparr>"

definition UINT16_BE :: "byte list \<Rightarrow> u16" where
  "UINT16_BE x = push_bit 8 (ucast (x ! 0)) + ucast (x ! 1)"

text \<open>It reads the two bytes a subcommand is sent as.\<close>

lemma UINT16_BE_subcommand:
  fixes s :: u16
  shows "UINT16_BE ([ucast (drop_bit 8 s), ucast (s AND 0xFF)] @ d) = s"
proof -
  have low: "s AND 0xFF = take_bit 8 s" by (simp add: take_bit_eq_mask mask_eq_exp_minus_1)
  have "push_bit 8 (ucast (ucast (drop_bit 8 s) :: byte)) = push_bit 8 (drop_bit 8 s)"
    by (rule bit_word_eqI) (auto simp: bit_simps)
  moreover have "ucast (ucast (s AND 0xFF) :: byte) = take_bit 8 s"
    unfolding low by (rule bit_word_eqI) (auto simp: bit_simps)
  moreover have "push_bit 8 (drop_bit 8 s) + take_bit 8 s = s"
    by (metis add.commute bits_ident)
  ultimately show ?thesis by (simp add: UINT16_BE_def)
qed

end
