(* ===== verification/Hon_Server.thy ===== *)
theory Hon_Server
  imports Hon_Packet Haier_Protocol
begin

text \<open>
  The appliance side of the hOn protocol, \<^verbatim>\<open>tools/utils/hon_server.cpp\<close>: its global
  state as the record \<open>hon_state\<close> and its message and answer handlers. A handler takes the
  frame type and the data and returns the new state, the calls it makes to the protocol
  handler in order, and its error code. The record is extensible: the simulator adds its
  own variables to it. What the handlers log is in \<open>Hon_Test_Log\<close>.
\<close>

section \<open>State\<close>

record hon_state =
  hs_ac_status :: "byte list"
  hs_first_run :: bool
  hs_config_mode :: bool
  hs_alarm_status_buf :: "byte list"
  hs_communication_status :: byte
  hs_last_alarm_message :: millis
  hs_alarm_paused :: bool
  hs_alarm_stopped :: bool

abbreviation ALARM_BUF_SIZE :: nat where "ALARM_BUF_SIZE \<equiv> 8"
abbreviation SHORT_ALARM_REPORT_INTERVAL_MS :: int where "SHORT_ALARM_REPORT_INTERVAL_MS \<equiv> 300"
abbreviation LONG_ALARM_REPORT_INTERVAL_MS :: int where "LONG_ALARM_REPORT_INTERVAL_MS \<equiv> 5000"

text \<open>The initial values of the globals.\<close>

definition hon_globals :: hon_state where
  "hon_globals =
     \<lparr>hs_ac_status = replicate BIG_DATA_SIZE 0, hs_first_run = True, hs_config_mode = False,
      hs_alarm_status_buf = replicate ALARM_BUF_SIZE 0, hs_communication_status = 0xFF,
      hs_last_alarm_message = 0, hs_alarm_paused = False, hs_alarm_stopped = False\<rparr>"

definition INVALID_MSG :: haier_message where
  "INVALID_MSG = msg_of_data INVALID (Some [0x00, 0x00]) 2"

definition CONFIRM_MSG :: haier_message where
  "CONFIRM_MSG = msg_of_type CONFIRM"

definition has_active_alarms :: "('z hon_state_scheme) \<Rightarrow> bool" where
  "has_active_alarms s = list_ex (\<lambda>i. hs_alarm_status_buf s ! i \<noteq> 0) [0..<ALARM_BUF_SIZE]"

text \<open>The assignments of \<^verbatim>\<open>init_ac_state\<close> in their order. The big-data temperatures
  are computed from the sensor fields set before them.\<close>

definition init_control :: "(hvac_field \<times> byte) list" where
  "init_control = map (\<lambda>(f, v). (Control f, v))
    [(Set_Point, 25 - 16), (Vertical_Swing_Mode, vertical_swing_mode_code VerticalSwingMode_AUTO),
     (Fan_Mode, fan_mode_code FanMode_FAN_AUTO), (Special_Mode, special_mode_code SpecialMode_NONE),
     (Ac_Mode, conditioning_mode_code ConditioningMode_AUTO), (Ten_Degree, 0), (Display_Status, 1), (Half_Degree, 0),
     (Intelligence_Status, 0), (Pmv_Status, 0), (Use_Fahrenheit, 0), (Ac_Power, 0), (Health_Mode, 0),
     (Electric_Heating_Status, 0), (Fast_Mode, 0), (Quiet_Mode, 0), (Sleep_Mode, 0), (Lock_Remote, 0),
     (Beeper_Status, 0), (Target_Humidity, 0),
     (Horizontal_Swing_Mode, horizontal_swing_mode_code HorizontalSwingMode_AUTO), (Human_Sensing_Status, 0),
     (Change_Filter, 0), (Fresh_Air_Status, 0), (Humidification_Status, 0), (Pm2p5_Cleaning_Status, 0),
     (Ch2o_Cleaning_Status, 0), (Self_Cleaning_Status, 0), (Light_Status, 1), (Energy_Saving_Status, 0),
     (Cleaning_Time_Status, 0)]"

definition init_sensors :: "(hvac_field \<times> byte) list" where
  "init_sensors = map (\<lambda>(f, v). (Sensor f, v))
    [(Room_Temperature, 18 * 2), (Room_Humidity, 0), (Outdoor_Temperature, 10 + 64), (Pm2p5_Level, 0),
     (Air_Quality, 0), (Human_Sensing, 0), (Ac_Type, 0), (Error_Status, 0), (Operation_Source, 3),
     (Operation_Mode_Hk, 0), (Err_Confirmation, 0)]"

definition init_big_data :: "byte list \<Rightarrow> (hvac_field \<times> byte) list" where
  "init_big_data m = map (\<lambda>(f, v). (Big_Data f, v))
    [(Indoor_Coil_Temperature, hvac_get (Sensor Room_Temperature) m + 40),
     (Outdoor_Out_Air_Temperature, hvac_get (Sensor Outdoor_Temperature) m),
     (Outdoor_Coil_Temperature, hvac_get (Sensor Outdoor_Temperature) m),
     (Outdoor_In_Air_Temperature, hvac_get (Sensor Outdoor_Temperature) m),
     (Outdoor_Defrost_Temperature, hvac_get (Sensor Outdoor_Temperature) m), (Compressor_Frequency, 0)]"

definition init_status :: "byte list" where
  "init_status =
     (let m = puts hvac_put (init_control @ init_sensors) (replicate BIG_DATA_SIZE 0);
          m = fold (\<lambda>off. put_u16 (CONTROL_SIZE + off) 0) [6, 8, 10, 12, 14, 16] m;
          m = m[USER_DATA_SIZE := 0, USER_DATA_SIZE := 0];
          m = puts hvac_put (init_big_data m) m;
          m = m[USER_DATA_SIZE + 8 := 0, USER_DATA_SIZE + 9 := 0];
          m = puts hvac_put (map (\<lambda>f. (Big_Data f, 0)) [Outdoor_Fan_Status, Defrost_Status, Compressor_Status,
                Indoor_Fan_Status, Four_Way_Valve_Status, Indoor_Electric_Heating_Status]) m
      in m[USER_DATA_SIZE + 12 := 0, USER_DATA_SIZE + 13 := 0])"

definition init_ac_state :: "millis \<Rightarrow> ('z hon_state_scheme) \<Rightarrow> ('z hon_state_scheme)" where
  "init_ac_state now s = s\<lparr>hs_ac_status := init_status, hs_last_alarm_message := now,
     hs_alarm_paused := False, hs_alarm_stopped := True\<rparr>"

text \<open>The reference returned is that of \<open>hs_ac_status\<close>.\<close>

definition get_ac_state_ref :: "millis \<Rightarrow> ('z hon_state_scheme) \<Rightarrow> ('z hon_state_scheme)" where
  "get_ac_state_ref now s =
     (if hs_first_run s then init_ac_state now (s\<lparr>hs_first_run := False\<rparr>) else s)"

definition is_in_configuration_mode :: "('z hon_state_scheme) \<Rightarrow> bool" where
  "is_in_configuration_mode s = hs_config_mode s"

section \<open>Alarms\<close>

text \<open>\<^verbatim>\<open>process_alarms\<close> is called between two calls of the loop. The elapsed time is
  compared as an unsigned 64-bit value.\<close>

definition process_alarms ::
    "('s, 'h, 'z hon_state_scheme) platform \<Rightarrow> ('s, 'h, 'z hon_state_scheme) world
       \<Rightarrow> ('s, 'h, 'z hon_state_scheme) world option" where
  "process_alarms pf w =
     (let s = w_app w; p = w_protocol w
      in if \<not> hs_alarm_stopped s \<and> \<not> pr_is_waiting_for_answer p \<and> pr_get_outgoing_queue_size p = 0
         then let (now, w1) = read_clock pf w;
                  elapsed = (now - hs_last_alarm_message s) mod 2 ^ 64
              in if hs_alarm_paused s \<and> elapsed > LONG_ALARM_REPORT_INTERVAL_MS
                   \<or> \<not> hs_alarm_paused s \<and> elapsed > SHORT_ALARM_REPORT_INTERVAL_MS
                 then do {
                   w2 \<leftarrow> send_message
                     (msg_new ALARM_STATUS 0x0F5A (Some (hs_alarm_status_buf s)) ALARM_BUF_SIZE) True 0 0
                     (w1\<lparr>w_app := s\<lparr>hs_alarm_paused := False\<rparr>\<rparr>);
                   Some (w2\<lparr>w_app := (w_app w2)\<lparr>hs_last_alarm_message := now\<rparr>\<rparr>)
                 }
                 else Some w1
         else Some w)"

definition start_alarm :: "byte \<Rightarrow> ('z hon_state_scheme) \<Rightarrow> bool \<times> ('z hon_state_scheme)" where
  "start_alarm alarm_id s =
     (if unat alarm_id \<ge> HON_ALARM_COUNT then (False, s)
      else let i = ALARM_BUF_SIZE - 1 - unat (alarm_id div 8); buf = hs_alarm_status_buf s
           in (True, s\<lparr>hs_alarm_paused := False, hs_alarm_stopped := False,
                 hs_alarm_status_buf := buf[i := buf ! i OR push_bit (unat (alarm_id mod 8)) 1]\<rparr>))"

text \<open>\<^verbatim>\<open>memset\<close> clears \<^verbatim>\<open>sizeof(ALARM_BUF_SIZE)\<close> bytes, the
  size of a \<^verbatim>\<open>size_t\<close> on the platform.\<close>

definition reset_alarms :: "nat \<Rightarrow> ('z hon_state_scheme) \<Rightarrow> ('z hon_state_scheme)" where
  "reset_alarms size_of_size_t s =
     s\<lparr>hs_alarm_status_buf := replicate size_of_size_t 0 @ drop size_of_size_t (hs_alarm_status_buf s),
       hs_alarm_paused := False\<rparr>"

section \<open>Message handlers\<close>

type_synonym ('a, 'h) message_handler = "byte \<Rightarrow> byte list \<Rightarrow> 'a \<Rightarrow> 'a \<times> 'h api_call list \<times> handler_error"

definition device_version_info_buf :: "byte list" where
  "device_version_info_buf =
     [0x45, 0x2B, 0x2B, 0x32, 0x2E, 0x31, 0x38, 0x00, \<comment> \<open>protocol version, E++2.18\<close>
      0x31, 0x37, 0x30, 0x36, 0x32, 0x36, 0x30, 0x30, \<comment> \<open>software version, 17062600\<close>
      0xF1, 0x00, 0x00,
      0x31, 0x37, 0x30, 0x35, 0x32, 0x36, 0x30, 0x30, \<comment> \<open>hardware version, 17052600\<close>
      0x01,
      0x55, 0x2D, 0x41, 0x43, 0x00, 0x00, 0x00, 0x00, \<comment> \<open>device name, U-AC\<close>
      0x00, 0x04, 0x5B]"

text \<open>As the structure of the packet header reads it, the functions are the bytes 36 and 37; the comments of the server
  count a reserved byte before them and the last byte to them.\<close>

lemma device_version_info:
  "read_device_version_answer device_version_info_buf =
     \<lparr>dva_protocol_version = [0x45, 0x2B, 0x2B, 0x32, 0x2E, 0x31, 0x38, 0x00],
      dva_software_version = [0x31, 0x37, 0x30, 0x36, 0x32, 0x36, 0x30, 0x30], dva_encryption = [0xF1, 0x00, 0x00],
      dva_hardware_version = [0x31, 0x37, 0x30, 0x35, 0x32, 0x36, 0x30, 0x30],
      dva_device_name = [0x55, 0x2D, 0x41, 0x43, 0x00, 0x00, 0x00, 0x00], dva_functions = [0x00, 0x04]\<rparr>"
  "length device_version_info_buf = 39"
  by (simp_all add: read_device_version_answer_def device_version_info_buf_def)

definition device_id_buf :: "byte list" where
  "device_id_buf =
     [0x20, 0x20, 0x62, 0x84, 0x20, 0xD2, 0x85, 0x34, 0x02, 0x12, 0x71, 0xFB, 0xE0, 0xF4, 0x0D, 0x00,
      0x00, 0x00, 0x82, 0x0C, 0xC8, 0x1B, 0xF1, 0x3C, 0x46, 0xAB, 0x92, 0x5B, 0xCE, 0x95, 0x77, 0xC0,
      0x04]"

definition management_information_buf :: "byte list" where
  "management_information_buf = [0x00, 0x00, 0x00, 0x00, 0x00, 0x00]"

definition get_device_version_handler :: "('z hon_state_scheme, 'h) message_handler" where
  "get_device_version_handler ty buffer s =
     (if ty = GET_DEVICE_VERSION
      then if length buffer = 0 \<or> length buffer = 2
           then (s, [Send_Answer_Crc (msg_of_data GET_DEVICE_VERSION_RESPONSE (Some device_version_info_buf)
                       (length device_version_info_buf)) True], HANDLER_OK)
           else (s, [Send_Answer INVALID_MSG], WRONG_MESSAGE_STRUCTURE)
      else (s, [Send_Answer INVALID_MSG], UNSUPPORTED_MESSAGE))"

definition get_device_id_handler :: "('z hon_state_scheme, 'h) message_handler" where
  "get_device_id_handler ty buffer s =
     (if ty = GET_DEVICE_ID
      then if length buffer = 0
           then (s, [Send_Answer_Crc (msg_of_data GET_DEVICE_ID_RESPONSE (Some device_id_buf)
                       (length device_id_buf)) True], HANDLER_OK)
           else (s, [Send_Answer INVALID_MSG], UNSUPPORTED_SUBCOMMAND)
      else (s, [Send_Answer INVALID_MSG], UNSUPPORTED_MESSAGE))"

text \<open>The macro \<^verbatim>\<open>SET_IF_DIFFERENT\<close>: the field, an integer, is compared with the
  16-bit value, which is truncated to the width of the field when it is stored.\<close>

definition set_if_different :: "u16 \<Rightarrow> control_field \<Rightarrow> ('z hon_state_scheme) \<Rightarrow> ('z hon_state_scheme)" where
  "set_if_different val f s =
     (if ucast (hvac_get (Control f) (hs_ac_status s)) \<noteq> val
      then s\<lparr>hs_ac_status := hvac_put (Control f) (ucast val) (hs_ac_status s)\<rparr> else s)"

definition process_single_parameter ::
    "byte \<Rightarrow> u16 \<Rightarrow> ('z hon_state_scheme) \<Rightarrow> ('z hon_state_scheme) \<times> 'h api_call list \<times> handler_error" where
  "process_single_parameter parameter val s =
     (let flag = (\<lambda>f. if val \<le> 1 then (set_if_different val f s, HANDLER_OK) else (s, UNSUPPORTED_MESSAGE));
          (s', result) =
            (if parameter = data_parameters_code DataParameters_AC_POWER then flag Ac_Power
             else if parameter = data_parameters_code DataParameters_SET_POINT
             then if parameter \<ge> 0 \<and> parameter \<le> 14 then (set_if_different val Set_Point s, HANDLER_OK)
                  else (s, UNSUPPORTED_MESSAGE)
             else if parameter = data_parameters_code DataParameters_AC_MODE
             then if parameter \<ge> 0 \<and> parameter \<le> 6 then (set_if_different val Ac_Mode s, HANDLER_OK)
                  else (s, UNSUPPORTED_MESSAGE)
             else if parameter = data_parameters_code DataParameters_FAN_MODE
             then if parameter \<ge> 1 \<and> parameter \<le> 3 \<or> parameter = 5 then (set_if_different val Fan_Mode s, HANDLER_OK)
                  else (s, UNSUPPORTED_MESSAGE)
             else if parameter = data_parameters_code DataParameters_USE_FAHRENHEIT then flag Use_Fahrenheit
             else if parameter = data_parameters_code DataParameters_TEN_DEGREE then flag Ten_Degree
             else if parameter = data_parameters_code DataParameters_HEALTH_MODE then flag Health_Mode
             else if parameter = data_parameters_code DataParameters_BEEPER_STATUS then flag Beeper_Status
             else if parameter = data_parameters_code DataParameters_LOCK_REMOTE then flag Lock_Remote
             else if parameter = data_parameters_code DataParameters_QUIET_MODE then flag Quiet_Mode
             else if parameter = data_parameters_code DataParameters_FAST_MODE then flag Fast_Mode
             else (s, UNSUPPORTED_SUBCOMMAND))
      in if result = HANDLER_OK
         then (s', [Send_Answer (msg_new STATUS 0x6D01 (Some (hs_ac_status s')) USER_DATA_SIZE)], result)
         else (s', [Send_Answer INVALID_MSG], result))"

text \<open>The loop that copies the control bytes that differ.\<close>

definition copy_control :: "byte list \<Rightarrow> byte list \<Rightarrow> byte list" where
  "copy_control buffer m =
     fold (\<lambda>i m. if m ! i \<noteq> buffer ! (2 + i) then m[i := buffer ! (2 + i)] else m) [0..<CONTROL_SIZE] m"

definition status_request_handler :: "('z hon_state_scheme, 'h) message_handler" where
  "status_request_handler ty buffer s =
     (if ty = CONTROL
      then if length buffer < 2 then (s, [Send_Answer INVALID_MSG], WRONG_MESSAGE_STRUCTURE)
           else let subcommand = push_bit 8 (ucast (buffer ! 0)) OR ucast (buffer ! 1) :: u16
                in if subcommand = GET_USER_DATA
                   then if length buffer \<noteq> 2 then (s, [Send_Answer INVALID_MSG], WRONG_MESSAGE_STRUCTURE)
                        else (s, [Send_Answer (msg_new STATUS 0x6D01 (Some (hs_ac_status s)) USER_DATA_SIZE)], HANDLER_OK)
                   else if subcommand = GET_BIG_DATA
                   then if length buffer \<noteq> 2 then (s, [Send_Answer INVALID_MSG], WRONG_MESSAGE_STRUCTURE)
                        else (s, [Send_Answer (msg_new STATUS 0x7D01 (Some (hs_ac_status s)) BIG_DATA_SIZE)], HANDLER_OK)
                   else if subcommand = SET_GROUP_PARAMETERS
                   then if length buffer - 2 \<noteq> CONTROL_SIZE then (s, [Send_Answer INVALID_MSG], WRONG_MESSAGE_STRUCTURE)
                        else let s' = s\<lparr>hs_ac_status := copy_control buffer (hs_ac_status s)\<rparr>
                             in (s', [Send_Answer (msg_new STATUS 0x6D5F (Some (hs_ac_status s')) USER_DATA_SIZE)], HANDLER_OK)
                   else if subcommand AND 0xFF00 = SET_SINGLE_PARAMETER
                   then if length buffer \<noteq> 4 then (s, [Send_Answer INVALID_MSG], WRONG_MESSAGE_STRUCTURE)
                        else process_single_parameter (buffer ! 1)
                               (push_bit 8 (ucast (buffer ! 2)) + ucast (buffer ! 3)) s
                   else (s, [Send_Answer INVALID_MSG], UNSUPPORTED_SUBCOMMAND)
      else (s, [Send_Answer INVALID_MSG], UNSUPPORTED_MESSAGE))"

definition alarm_status_handler :: "('z hon_state_scheme, 'h) message_handler" where
  "alarm_status_handler ty buffer s =
     (if ty = GET_ALARM_STATUS
      then if length buffer = 0
           then (s, [Send_Answer (msg_new GET_ALARM_STATUS_RESPONSE 0x0F5A (Some (hs_alarm_status_buf s)) ALARM_BUF_SIZE)],
                 HANDLER_OK)
           else (s, [Send_Answer INVALID_MSG], WRONG_MESSAGE_STRUCTURE)
      else (s, [Send_Answer INVALID_MSG], UNSUPPORTED_MESSAGE))"

definition get_management_information_handler :: "('z hon_state_scheme, 'h) message_handler" where
  "get_management_information_handler ty buffer s =
     (if ty = GET_MANAGEMENT_INFORMATION
      then if length buffer = 0
           then (s, [Send_Answer (msg_of_data GET_MANAGEMENT_INFORMATION_RESPONSE (Some management_information_buf)
                       (length management_information_buf))], HANDLER_OK)
           else (s, [Send_Answer INVALID_MSG], UNSUPPORTED_SUBCOMMAND)
      else (s, [Send_Answer INVALID_MSG], UNSUPPORTED_MESSAGE))"

text \<open>The change of the communication status is logged.\<close>

definition report_network_status_handler :: "('z hon_state_scheme, 'h) message_handler" where
  "report_network_status_handler ty buffer s =
     (if ty = REPORT_NETWORK_STATUS
      then if length buffer = 4
           then let st = buffer ! 1;
                    s1 = s\<lparr>hs_config_mode := (st = 3)\<rparr>;
                    s2 = (if \<not> hs_config_mode s1 \<and> hvac_get (Control Set_Point) (hs_ac_status s1) = 0x0E
                          then s1\<lparr>hs_ac_status := hvac_put (Control Set_Point) 0x0D (hs_ac_status s1)\<rparr> else s1);
                    s3 = (if st \<noteq> hs_communication_status s2 then s2\<lparr>hs_communication_status := st\<rparr> else s2)
                in (s3, [Send_Answer CONFIRM_MSG], HANDLER_OK)
           else (s, [Send_Answer INVALID_MSG], WRONG_MESSAGE_STRUCTURE)
      else (s, [Send_Answer INVALID_MSG], UNSUPPORTED_MESSAGE))"

definition stop_alarm_handler :: "('z hon_state_scheme, 'h) message_handler" where
  "stop_alarm_handler ty buffer s =
     (if ty = STOP_FAULT_ALARM
      then if length buffer = 0
           then (s\<lparr>hs_alarm_stopped := True\<rparr>, [Send_Answer CONFIRM_MSG], HANDLER_OK)
           else (s, [Send_Answer INVALID_MSG], WRONG_MESSAGE_STRUCTURE)
      else (s, [Send_Answer INVALID_MSG], UNSUPPORTED_MESSAGE))"

section \<open>The answer handler\<close>

definition alarm_status_report_answer_handler ::
    "byte \<Rightarrow> byte \<Rightarrow> byte list \<Rightarrow> ('z hon_state_scheme) \<Rightarrow> ('z hon_state_scheme) \<times> 'h api_call list \<times> handler_error" where
  "alarm_status_report_answer_handler request_type message_type data s =
     (if request_type = ALARM_STATUS
      then if message_type = CONFIRM
           then if length data = 0
                then (if \<not> has_active_alarms s then s\<lparr>hs_alarm_stopped := True\<rparr> else s\<lparr>hs_alarm_paused := True\<rparr>,
                      [], HANDLER_OK)
                else (s, [], WRONG_MESSAGE_STRUCTURE)
           else (s, [], INVALID_ANSWER)
      else (s, [], UNEXPECTED_MESSAGE))"

end
