(* ===== verification/Hon_Server_Properties.thy ===== *)
theory Hon_Server_Properties
  imports Hon_Server Handler_Contract
begin

text \<open>
  The hOn server as a provider of the handler contract: its invariant, the handlers by name,
  and the properties of single handlers (status, parameters, alarms).
\<close>

section \<open>Invariant\<close>

definition hon_inv :: "('z hon_state_scheme) \<Rightarrow> bool" where
  "hon_inv s \<longleftrightarrow> length (hs_ac_status s) = BIG_DATA_SIZE \<and> length (hs_alarm_status_buf s) = ALARM_BUF_SIZE"

lemma length_puts [simp]: "length (puts hvac_put as m) = length m"
  by (induction as arbitrary: m) auto

lemma length_init_status: "length init_status = BIG_DATA_SIZE"
  by (simp add: init_status_def Let_def put_u16_def)

lemma hon_inv_globals: "hon_inv hon_globals"
  by (simp add: hon_inv_def hon_globals_def)

lemma hon_inv_init: "hon_inv s \<Longrightarrow> hon_inv (get_ac_state_ref now s)"
  by (simp add: hon_inv_def get_ac_state_ref_def init_ac_state_def length_init_status)

lemma ucast_byte: "ucast (ucast (b :: byte) :: u16) = b"
  by (rule bit_word_eqI) (simp add: bit_simps)

lemma set_if_different_eq:
  assumes "hon_inv s"
  shows "set_if_different val f s = s\<lparr>hs_ac_status := hvac_put (Control f) (ucast val) (hs_ac_status s)\<rparr>"
proof -
  have l: "length (hs_ac_status s) = BIG_DATA_SIZE" using assms by (simp add: hon_inv_def)
  show ?thesis
  proof (cases "ucast (hvac_get (Control f) (hs_ac_status s)) = val")
    case True
    then have "ucast val = hvac_get (Control f) (hs_ac_status s)"
      by (auto simp: ucast_byte)
    then show ?thesis
      using hvac.put_get [OF l, of "Control f"] True by (simp add: set_if_different_def)
  qed (simp add: set_if_different_def)
qed

lemma hon_inv_set: "hon_inv s \<Longrightarrow> hon_inv (set_if_different val f s)"
  by (simp add: set_if_different_eq) (simp add: hon_inv_def)

lemma copy_control_eq:
  assumes "length m = BIG_DATA_SIZE" "length buffer = 2 + CONTROL_SIZE"
  shows "copy_control buffer m = drop 2 buffer @ drop CONTROL_SIZE m"
proof -
  have "fold (\<lambda>i m. if m ! i \<noteq> buffer ! (2 + i) then m[i := buffer ! (2 + i)] else m) [0..<k] m
      = take k (drop 2 buffer) @ drop k m" if "k \<le> CONTROL_SIZE" for k
    using that
  proof (induction k)
    case (Suc k)
    have k: "k < length m" "k < length (drop 2 buffer)" using Suc.prems assms by (simp_all add: hvac_size)
    have t: "take (Suc k) (drop 2 buffer) = take k (drop 2 buffer) @ [buffer ! (2 + k)]"
      using k(2) by (simp add: take_Suc_conv_app_nth)
    have d: "drop k m = m ! k # drop (Suc k) m"
      using k(1) by (simp add: Cons_nth_drop_Suc)
    have l: "length (take k (drop 2 buffer)) = k" using k(2) by simp
    have "(take k (drop 2 buffer) @ drop k m)[k := buffer ! (2 + k)] = take (Suc k) (drop 2 buffer) @ drop (Suc k) m"
      unfolding t d using l by (simp add: list_update_append)
    moreover have "(take k (drop 2 buffer) @ drop k m) ! k = m ! k"
      unfolding d using l by (simp add: nth_append)
    moreover have "take (Suc k) (drop 2 buffer) @ drop (Suc k) m = take k (drop 2 buffer) @ drop k m"
      if "m ! k = buffer ! (2 + k)"
      unfolding t d that by simp
    ultimately show ?case
      using Suc by auto
  qed simp
  then show ?thesis
    using assms(2) by (simp add: copy_control_def)
qed

section \<open>The handlers by name\<close>

datatype hon_message_handler =
    Get_Device_Version | Get_Device_Id | Status_Request | Alarm_Status | Get_Management_Information
  | Report_Network_Status | Stop_Alarm

primrec hon_message :: "hon_message_handler \<Rightarrow> ('z hon_state_scheme, 'h) message_handler" where
  "hon_message Get_Device_Version = get_device_version_handler"
| "hon_message Get_Device_Id = get_device_id_handler"
| "hon_message Status_Request = status_request_handler"
| "hon_message Alarm_Status = alarm_status_handler"
| "hon_message Get_Management_Information = get_management_information_handler"
| "hon_message Report_Network_Status = report_network_status_handler"
| "hon_message Stop_Alarm = stop_alarm_handler"

abbreviation honours :: "('z hon_state_scheme) \<Rightarrow> ('z hon_state_scheme) \<times> 'h api_call list \<times> handler_error \<Rightarrow> bool" where
  "honours \<equiv> contract hon_inv INVALID_MSG"

lemma INVALID_MSG_ok: "msg_ok INVALID_MSG" "msg_payload INVALID_MSG = [0, 0]" "m_frame_type INVALID_MSG = INVALID"
  and CONFIRM_MSG_ok: "msg_ok CONFIRM_MSG" "msg_payload CONFIRM_MSG = []" "m_frame_type CONFIRM_MSG = CONFIRM"
  by (simp_all add: INVALID_MSG_def CONFIRM_MSG_def msg_of_data_def msg_of_type_def msg_new_ok msg_payload_def)

lemma hon_refuses: "hon_inv s \<Longrightarrow> honours s (s, [Send_Answer INVALID_MSG], err)"
  by (rule contract_refuses) (simp_all add: INVALID_MSG_ok)

lemma hon_confirms: "hon_inv s' \<Longrightarrow> honours s (s', [Send_Answer CONFIRM_MSG], HANDLER_OK)"
  by (rule contract_sends) (simp_all add: CONFIRM_MSG_ok)

text \<open>Which control field a parameter sets. Only flags check their value.\<close>

definition parameter_fields :: "(byte \<times> control_field) list" where
  "parameter_fields = map (\<lambda>(p, f). (data_parameters_code p, f))
     [(DataParameters_AC_POWER, Ac_Power), (DataParameters_SET_POINT, Set_Point), (DataParameters_AC_MODE, Ac_Mode),
      (DataParameters_FAN_MODE, Fan_Mode), (DataParameters_USE_FAHRENHEIT, Use_Fahrenheit),
      (DataParameters_TEN_DEGREE, Ten_Degree), (DataParameters_HEALTH_MODE, Health_Mode),
      (DataParameters_BEEPER_STATUS, Beeper_Status), (DataParameters_LOCK_REMOTE, Lock_Remote),
      (DataParameters_QUIET_MODE, Quiet_Mode), (DataParameters_FAST_MODE, Fast_Mode)]"

definition parameter_result ::
    "byte \<Rightarrow> u16 \<Rightarrow> ('z hon_state_scheme) \<Rightarrow> ('z hon_state_scheme) \<times> 'h api_call list \<times> handler_error" where
  "parameter_result parameter val s =
     (case map_of parameter_fields parameter of
        None \<Rightarrow> (s, [Send_Answer INVALID_MSG], UNSUPPORTED_SUBCOMMAND)
      | Some f \<Rightarrow>
          if hvac_width (Control f) = 1 \<and> 1 < val then (s, [Send_Answer INVALID_MSG], UNSUPPORTED_MESSAGE)
          else let m = hvac_put (Control f) (ucast val) (hs_ac_status s)
               in (s\<lparr>hs_ac_status := m\<rparr>, [Send_Answer (msg_new STATUS 0x6D01 (Some m) USER_DATA_SIZE)], HANDLER_OK))"

lemma process_single_parameter_eq:
  assumes "hon_inv s"
  shows "process_single_parameter parameter val s = parameter_result parameter val s"
  unfolding process_single_parameter_def parameter_result_def parameter_fields_def Let_def
  by (simp add: set_if_different_eq [OF assms] hvac_width_def not_le [symmetric])

lemma process_single_parameter_contract:
  assumes "hon_inv s"
  shows "honours s (process_single_parameter parameter val s)"
proof -
  have "hon_inv (s\<lparr>hs_ac_status := hvac_put (Control f) v (hs_ac_status s)\<rparr>)" for f v
    using assms by (simp add: hon_inv_def)
  then show ?thesis
    using assms by (auto simp: process_single_parameter_eq parameter_result_def Let_def hon_inv_def hvac_size
        intro!: hon_refuses contract_answers(1) split: option.split)
qed

lemma static_answers:
  "length device_version_info_buf \<le> 98" "length device_id_buf \<le> 98" "length management_information_buf \<le> 98"
  by (simp_all add: device_version_info_buf_def device_id_buf_def management_information_buf_def)

lemma status_request_contract:
  assumes "hon_inv s"
  shows "honours s (status_request_handler ty buffer s)"
proof -
  have l: "BIG_DATA_SIZE \<le> length (hs_ac_status s)" "USER_DATA_SIZE \<le> length (hs_ac_status s)"
    and n: "BIG_DATA_SIZE \<le> 98" "USER_DATA_SIZE \<le> 98"
    using assms by (simp_all add: hon_inv_def hvac_size)
  have group: "hon_inv (s\<lparr>hs_ac_status := copy_control buffer (hs_ac_status s)\<rparr>)"
    "USER_DATA_SIZE \<le> length (copy_control buffer (hs_ac_status s))"
    if "\<not> length buffer < 2" "\<not> length buffer - 2 \<noteq> CONTROL_SIZE"
  proof -
    have "length buffer = 2 + CONTROL_SIZE" using that by linarith
    then have "length (copy_control buffer (hs_ac_status s)) = BIG_DATA_SIZE"
      using assms copy_control_eq [of "hs_ac_status s" buffer] by (simp add: hon_inv_def hvac_size)
    then show "hon_inv (s\<lparr>hs_ac_status := copy_control buffer (hs_ac_status s)\<rparr>)"
      "USER_DATA_SIZE \<le> length (copy_control buffer (hs_ac_status s))"
      using assms by (simp_all add: hon_inv_def hvac_size)
  qed
  show ?thesis
    unfolding status_request_handler_def Let_def
    by (intro contract_if hon_refuses [OF assms] process_single_parameter_contract [OF assms]
        contract_answers(1) [where I = hon_inv, OF assms l(1) n(1)] contract_answers(1) [where I = hon_inv, OF assms l(2) n(2)] contract_answers(1) [where I = hon_inv, OF _ _ n(2)])
      (use group in simp_all)
qed

lemma hon_contract:
  assumes "hon_inv s"
  shows "honours s (hon_message k ty buffer s)"
proof (cases k)
  case Status_Request
  then show ?thesis using status_request_contract [OF assms] by simp
next
  case Alarm_Status
  have "ALARM_BUF_SIZE \<le> length (hs_alarm_status_buf s)" using assms by (simp add: hon_inv_def)
  then show ?thesis
    using Alarm_Status assms by (simp add: alarm_status_handler_def hon_refuses contract_answers(1))
next
  case Report_Network_Status
  have "hon_inv (s\<lparr>hs_config_mode := c, hs_ac_status := hvac_put f v (hs_ac_status s), hs_communication_status := st\<rparr>)"
    "hon_inv (s\<lparr>hs_config_mode := c, hs_ac_status := hvac_put f v (hs_ac_status s)\<rparr>)"
    "hon_inv (s\<lparr>hs_config_mode := c, hs_communication_status := st\<rparr>)" "hon_inv (s\<lparr>hs_config_mode := c\<rparr>)"
    for c f v st
    using assms by (simp_all add: hon_inv_def)
  then show ?thesis
    using Report_Network_Status assms
    by (simp add: report_network_status_handler_def Let_def hon_refuses hon_confirms)
next
  case Stop_Alarm
  have "hon_inv (s\<lparr>hs_alarm_stopped := True\<rparr>)" using assms by (simp add: hon_inv_def)
  then show ?thesis
    using Stop_Alarm assms by (simp add: stop_alarm_handler_def hon_refuses hon_confirms)
qed (use assms static_answers in \<open>simp_all add: get_device_version_handler_def get_device_id_handler_def
  get_management_information_handler_def hon_refuses contract_answers\<close>)

interpretation hon: answering_handler "hon_message k :: ('z hon_state_scheme, 'h) message_handler" hon_inv INVALID_MSG
  for k :: hon_message_handler
  by (rule answering_handlerI, rule hon_contract)

section \<open>Alarms\<close>

text \<open>Alarm \<open>i\<close> is bit \<open>i mod 8\<close> of a byte counted from the end.\<close>

definition alarm_active :: "nat \<Rightarrow> ('z hon_state_scheme) \<Rightarrow> bool" where
  "alarm_active i s \<longleftrightarrow> bit (hs_alarm_status_buf s ! (7 - i div 8)) (i mod 8)"

lemma has_active_alarms_eq: "has_active_alarms s \<longleftrightarrow> (\<exists>i < 64. alarm_active i s)"
proof
  assume "has_active_alarms s"
  then obtain j where j: "j < 8" "hs_alarm_status_buf s ! j \<noteq> 0"
    by (auto simp: has_active_alarms_def list_ex_iff)
  obtain n where n: "bit (hs_alarm_status_buf s ! j) n"
    using j(2) bit_eq_iff [of "hs_alarm_status_buf s ! j" 0] by auto
  then have "n < 8" using bit_imp_le_length by fastforce
  moreover have "(8 * (7 - j) + n) div 8 = 7 - j" using \<open>n < 8\<close> by simp
  ultimately have "alarm_active (8 * (7 - j) + n) s" "8 * (7 - j) + n < 64"
    using n j(1) by (auto simp: alarm_active_def)
  then show "\<exists>i < 64. alarm_active i s" by blast
next
  assume "\<exists>i < 64. alarm_active i s"
  then obtain i where i: "i < 64" "bit (hs_alarm_status_buf s ! (7 - i div 8)) (i mod 8)"
    by (auto simp: alarm_active_def)
  then have "hs_alarm_status_buf s ! (7 - i div 8) \<noteq> 0" by auto
  moreover have "7 - i div 8 < 8" by simp
  ultimately show "has_active_alarms s"
    by (auto simp: has_active_alarms_def list_ex_iff intro!: bexI [of _ "7 - i div 8"])
qed

lemma start_alarm_active:
  assumes "hon_inv s" "i < 64" "unat a < HON_ALARM_COUNT"
  shows "alarm_active i (snd (start_alarm a s)) \<longleftrightarrow> alarm_active i s \<or> i = unat a"
proof -
  have a: "unat a div 8 < 8" "unat (a div 8) = unat a div 8" "unat (a mod 8) = unat a mod 8"
    using assms(3) by (simp_all add: HON_ALARM_COUNT_eq unat_div unat_mod)
  have i: "i div 8 < 8" using assms(2) by simp
  have same: "7 - i div 8 = 7 - unat a div 8 \<longleftrightarrow> i div 8 = unat a div 8"
    using a(1) i by linarith
  have eq: "i = unat a \<longleftrightarrow> i div 8 = unat a div 8 \<and> i mod 8 = unat a mod 8"
    by (metis mult_div_mod_eq)
  have l: "length (hs_alarm_status_buf s) = 8"
    using assms(1) by (simp add: hon_inv_def)
  have pb: "bit (push_bit k 1 :: byte) n \<longleftrightarrow> n = k" if "k < 8" for k n
    using that by (auto simp: bit_simps)
  show ?thesis
    using assms(3) l same pb [of "unat a mod 8" "i mod 8"]
    by (cases "i div 8 = unat a div 8")
      (auto simp: start_alarm_def alarm_active_def Let_def a eq bit_or_iff nth_list_update)
qed

lemma reset_alarms_active:
  assumes "hon_inv s" "i < 64" "n \<le> 8"
  shows "alarm_active i (reset_alarms n s) \<longleftrightarrow> alarm_active i s \<and> i div 8 < 8 - n"
proof -
  have "i div 8 < 8" using assms(2) by simp
  then show ?thesis
    using assms(1,3) by (auto simp: alarm_active_def reset_alarms_def hon_inv_def nth_append)
qed

text \<open>A report is due: not stopped, nothing in the outgoing queue, and the interval of the current
  mode has passed since the last one.\<close>

definition report_due :: "millis \<Rightarrow> 'h protocol \<Rightarrow> ('z hon_state_scheme) \<Rightarrow> bool" where
  "report_due now p s \<longleftrightarrow> \<not> hs_alarm_stopped s \<and> pr_state p = IDLE \<and> pr_outgoing_messages p = []
     \<and> (if hs_alarm_paused s then LONG_ALARM_REPORT_INTERVAL_MS else SHORT_ALARM_REPORT_INTERVAL_MS)
         < (now - hs_last_alarm_message s) mod 2 ^ 64"

lemma process_alarms_eq:
  fixes w :: "('s, 'h, 'z hon_state_scheme) world" and pf :: "('s, 'h, 'z hon_state_scheme) platform"
  assumes "hon_inv (w_app w)"
  defines "now \<equiv> pf_clock pf (w_tick w)"
  shows "\<exists>w'. process_alarms pf w = Some w' \<and> w_stream w' = w_stream w \<and> callback k w w' \<and>
    (if report_due now (w_protocol w) (w_app w)
     then w_app w' = (w_app w)\<lparr>hs_alarm_paused := False, hs_last_alarm_message := now\<rparr>
       \<and> (\<exists>m. pr_outgoing_messages (w_protocol w') = [\<lparr>oi_message = m, oi_use_crc = True, oi_no_answer = False,
                oi_number_of_retries = 1, oi_retry_interval = 0\<rparr>]
              \<and> msg_ok m \<and> m_frame_type m = ALARM_STATUS
              \<and> msg_payload m = [0x0F, 0x5A] @ hs_alarm_status_buf (w_app w))
     else w_app w' = w_app w \<and> w_protocol w' = w_protocol w)"
proof -
  let ?s = "w_app w" and ?p = "w_protocol w"
  define m0 where "m0 = msg_new ALARM_STATUS 0x0F5A (Some (hs_alarm_status_buf ?s)) ALARM_BUF_SIZE"
  have m0: "msg_ok m0" "m_frame_type m0 = ALARM_STATUS" "msg_payload m0 = [0x0F, 0x5A] @ hs_alarm_status_buf ?s"
    using assms(1) by (simp_all add: m0_def hon_inv_def msg_new_ok msg_payload_def)
  obtain c where c: "msg_copy m0 = Some c" "msg_ok c" "msg_payload c = msg_payload m0" "m_frame_type c = m_frame_type m0"
    using msg_copy_correct [OF m0(1)] by blast
  obtain d where d: "msg_copy c = Some d" "msg_ok d" "msg_payload d = msg_payload c" "m_frame_type d = m_frame_type c"
    using msg_copy_correct [OF c(2)] by blast
  have idle: "\<not> pr_is_waiting_for_answer ?p \<longleftrightarrow> pr_state ?p = IDLE"
    by (cases "pr_state ?p") (simp_all add: pr_is_waiting_for_answer_def)
  show ?thesis
  proof (cases "report_due now ?p ?s")
    case True
    then show ?thesis
      using c d m0 idle unfolding process_alarms_def Let_def m0_def [symmetric]
      by (auto simp: report_due_def read_clock_def now_def pr_get_outgoing_queue_size_def send_message_def
          on_protocol_def callback_def item_fresh_def item_ok_def split: if_splits)
  next
    case False
    then show ?thesis
      using idle unfolding process_alarms_def Let_def
      by (auto simp: report_due_def read_clock_def now_def pr_get_outgoing_queue_size_def callback_def split: if_splits)
  qed
qed

section \<open>Properties\<close>

text \<open>Claim C4. Every request is answered: an idle protocol handler that runs a message handler of the hOn
  server receives a frame and, in the same call of the loop, transmits exactly one whole
  frame. A request that is refused (wrong type, size, subcommand or value) is answered with
  the invalid message in the CRC mode of the request and changes nothing in the server.\<close>

theorem server_answers_every_request:
  fixes v :: "(virtual_stream_holder, 'h, 'z hon_state_scheme) world"
  assumes pf: "pf_ops pf = get_stream_reference dir" "allocates (pf_new pf)"
    and v: "settled (pr_transport (w_protocol v)) (Search [])" "tr_incoming_queue (pr_transport (w_protocol v)) = []"
      "pr_state (w_protocol v) = IDLE" "pr_outgoing_messages (w_protocol v) = []"
    and s: "vs_inv (w_stream v)" "cb_list (vs_rx dir (w_stream v)) = wire f" "cb_list (vs_tx dir (w_stream v)) = []"
    and f: "frame_ok f" "length (wire f) \<le> cb_capacity (tr_buffer (pr_transport (w_protocol v)))"
    and k: "find_handler (pr_message_handlers_map (w_protocol v)) (f_type f) (pr_default_message_handler (w_protocol v)) = Some k"
      "pf_message pf k = hon_message j" "hon_inv (w_app v)"
  shows "\<exists>v' g. loop pf v = Some v' \<and> cb_list (vs_tx dir (w_stream v')) = wire g \<and> frame_ok g
    \<and> hon_inv (w_app v') \<and> pr_answer_sent (w_protocol v')
    \<and> (snd (snd (hon_message j (f_type f) (frame_data f) (w_app v) :: _ \<times> 'h api_call list \<times> _)) \<noteq> HANDLER_OK \<longrightarrow>
        w_app v' = w_app v \<and> f_type g = INVALID \<and> frame_data g = [0, 0] \<and> f_use_crc g = f_use_crc f)"
proof -
  let ?r = "hon_message j (f_type f) (frame_data f) (w_app v) :: 'z hon_state_scheme \<times> 'h api_call list \<times> handler_error"
  have run: "pf_message pf k (f_type f) (frame_data f) = hon_message j (f_type f) (frame_data f)"
    by (simp add: k(2))
  obtain v' m u where r: "loop pf v = Some v'" "w_app v' = fst ?r" "hon_inv (w_app v')"
    "cb_list (vs_tx dir (w_stream v')) = wire (new_frame (m_frame_type m) (msg_payload m) (of_nat (length (msg_payload m))) u)"
    "answers (f_use_crc f) (fst (snd ?r)) m u" "pr_answer_sent (w_protocol v')"
    using hon.answers_frame [OF pf v s f k(1) run k(3)] by blast
  define g where "g = new_frame (m_frame_type m) (msg_payload m) (of_nat (length (msg_payload m))) u"
  have "honours (w_app v) ?r"
    by (rule hon_contract [OF k(3)])
  then have short: "length (msg_payload m) \<le> 100"
    using r(5) by (auto simp: answers_def contract_def)
  then have nb: "unat (of_nat (length (msg_payload m)) :: byte) = length (msg_payload m)"
    by (simp add: unat_of_nat)
  have g: "frame_ok g" "f_type g = m_frame_type m" "frame_data g = msg_payload m" "f_use_crc g = u"
    unfolding g_def using short nb by (simp_all add: new_frame_ok MAX_DATA_SIZE_def)
  have "w_app v' = w_app v \<and> f_type g = INVALID \<and> frame_data g = [0, 0] \<and> f_use_crc g = f_use_crc f"
    if "snd (snd ?r) \<noteq> HANDLER_OK"
    using hon.refused [OF k(3) that] r(2,5) g by (simp add: answers_def INVALID_MSG_ok)
  then show ?thesis
    using r g unfolding g_def by blast
qed

definition server_platform :: "stream_direction \<Rightarrow> (virtual_stream_holder, hon_message_handler, hon_state) platform" where
  "server_platform dir =
     \<lparr>pf_ops = get_stream_reference dir, pf_new = \<lambda>n. replicate n 0, pf_clock = int, pf_message = hon_message,
      pf_answer = \<lambda>_ _ _ _ a. (a, [], HANDLER_OK), pf_timeout = \<lambda>_ _ a. (a, [], HANDLER_OK), pf_popped_kept = False\<rparr>"

definition server_world :: "byte list \<Rightarrow> (virtual_stream_holder, hon_message_handler, hon_state) world" where
  "server_world bs =
     \<lparr>w_protocol = (pr_new_sized (\<lambda>n. replicate n 0) 256)\<lparr>pr_default_message_handler := Some Status_Request\<rparr>,
      w_stream = (let h = vs_new (\<lambda>n. replicate n 0)
        in vs_set_rx DIRECTION_A (snd (cb_push (vs_rx DIRECTION_A h) bs (length bs))) h),
      w_tick = 0, w_app = hon_globals\<rparr>"

theorem server_answers_every_request_witness:
  "\<exists>v' g. loop (server_platform DIRECTION_A) (server_world (wire (new_frame CONTROL [0x60, 0x02] 2 True))) = Some v'
     \<and> cb_list (vs_tx DIRECTION_A (w_stream v')) = wire g \<and> f_type g = INVALID \<and> w_app v' = hon_globals"
proof -
  let ?f = "new_frame CONTROL [0x60, 0x02] 2 True"
  let ?v = "server_world (wire ?f)"
  have f: "frame_ok ?f" "f_type ?f = CONTROL" "frame_data ?f = [0x60, 0x02]"
    by (simp_all add: new_frame_ok MAX_DATA_SIZE_def)
  have short: "length (wire ?f) \<le> 28"
    using length_wire_le [of 2 "[0x60, 0x02]" CONTROL True] by simp
  have a: "allocates (\<lambda>n. replicate n (0 :: byte))" by (rule allocates_replicate)
  have s: "vs_inv (w_stream ?v)" "cb_list (vs_rx DIRECTION_A (w_stream ?v)) = wire ?f"
    "cb_list (vs_tx DIRECTION_A (w_stream ?v)) = []"
    using vs_new_inv [OF a] vs_new_empty [OF a, of DIRECTION_A] short
    by (simp_all add: server_world_def Let_def cb_push_correct cb_get_space_def flip: length_cb_list)
  have t: "settled (pr_transport (w_protocol ?v)) (Search [])" "tr_incoming_queue (pr_transport (w_protocol ?v)) = []"
    "cb_capacity (tr_buffer (pr_transport (w_protocol ?v))) = 256"
    using tr_new_handler [OF a, of 256] by (simp_all add: server_world_def pr_new_sized_def CIRCULAR_BUFFER_MINIMUM_SIZE_def)
  have p: "pf_ops (server_platform DIRECTION_A) = get_stream_reference DIRECTION_A"
    "allocates (pf_new (server_platform DIRECTION_A))" "pf_message (server_platform DIRECTION_A) Status_Request = hon_message Status_Request"
    by (simp_all add: server_platform_def a)
  have refused: "snd (snd (hon_message Status_Request (f_type ?f) (frame_data ?f) (w_app ?v)
      :: _ \<times> hon_message_handler api_call list \<times> _)) \<noteq> HANDLER_OK"
    by (simp add: f status_request_handler_def)
  have "\<exists>v' g. loop (server_platform DIRECTION_A) ?v = Some v' \<and> cb_list (vs_tx DIRECTION_A (w_stream v')) = wire g \<and> frame_ok g
    \<and> hon_inv (w_app v') \<and> pr_answer_sent (w_protocol v')
    \<and> (snd (snd (hon_message Status_Request (f_type ?f) (frame_data ?f) (w_app ?v) :: _ \<times> hon_message_handler api_call list \<times> _)) \<noteq> HANDLER_OK \<longrightarrow>
        w_app v' = w_app ?v \<and> f_type g = INVALID \<and> frame_data g = [0, 0] \<and> f_use_crc g = f_use_crc ?f)"
    by (rule server_answers_every_request [OF p(1,2) t(1,2) _ _ s f(1) _ _ p(3)])
      (use t(3) short hon_inv_globals in \<open>simp_all add: server_world_def pr_new_sized_def find_handler_def\<close>)
  moreover have "w_app ?v = hon_globals" by (simp add: server_world_def)
  ultimately show ?thesis
    using refused by auto
qed

text \<open>Claim C25. The control part is written whole and read back: a SET_GROUP_PARAMETERS command with the
  10 bytes of the control part is accepted, its answer and the answer to the next
  GET_USER_DATA carry these bytes in front of the unchanged sensor bytes, every control field
  has the value its bits in the command have, and no sensor or big-data field changes.\<close>

theorem set_group_then_read:
  assumes "hon_inv s" "length cs = CONTROL_SIZE"
  shows "\<exists>s' m n. status_request_handler CONTROL ([0x60, 0x01] @ cs) s = (s', [Send_Answer m], HANDLER_OK)
    \<and> m_frame_type m = STATUS
    \<and> msg_payload m = [0x6D, 0x5F] @ cs @ drop CONTROL_SIZE (take USER_DATA_SIZE (hs_ac_status s))
    \<and> status_request_handler CONTROL [0x4D, 0x01] s' = (s', [Send_Answer n], HANDLER_OK)
    \<and> m_frame_type n = STATUS
    \<and> msg_payload n = [0x6D, 0x01] @ cs @ drop CONTROL_SIZE (take USER_DATA_SIZE (hs_ac_status s))
    \<and> (\<forall>f. hvac_get (Control f) (hs_ac_status s') = bf_get (control_layout f) cs)
    \<and> (\<forall>f. hvac_get (Sensor f) (hs_ac_status s') = hvac_get (Sensor f) (hs_ac_status s))
    \<and> (\<forall>f. hvac_get (Big_Data f) (hs_ac_status s') = hvac_get (Big_Data f) (hs_ac_status s))"
proof -
  let ?a = "hs_ac_status s" and ?b = "[0x60, 0x01] @ cs"
  have l: "length ?a = 46" using assms(1) by (simp add: hon_inv_def hvac_size)
  define a' where "a' = cs @ drop CONTROL_SIZE ?a"
  have c: "copy_control ?b ?a = a'"
    using copy_control_eq [of ?a ?b] l assms(2) by (simp add: a'_def hvac_size)
  have t: "take USER_DATA_SIZE a' = cs @ drop CONTROL_SIZE (take USER_DATA_SIZE ?a)"
    using assms(2) by (simp add: a'_def hvac_size drop_take)
  have l': "length a' = 46" using l assms(2) by (simp add: a'_def)
  have sub: "push_bit 8 0x60 OR 0x01 = (0x6001 :: u16)" "push_bit 8 0x4D OR 0x01 = (0x4D01 :: u16)"
    by simp_all
  have "status_request_handler CONTROL ?b s =
      (s\<lparr>hs_ac_status := a'\<rparr>, [Send_Answer (msg_new STATUS 0x6D5F (Some a') USER_DATA_SIZE)], HANDLER_OK)"
    using assms(2) c by (simp add: status_request_handler_def)
  moreover have "status_request_handler CONTROL [0x4D, 0x01] (s\<lparr>hs_ac_status := a'\<rparr>) =
      (s\<lparr>hs_ac_status := a'\<rparr>, [Send_Answer (msg_new STATUS 0x6D01 (Some a') USER_DATA_SIZE)], HANDLER_OK)"
    by (simp add: status_request_handler_def)
  moreover have "msg_payload (msg_new STATUS 0x6D5F (Some a') USER_DATA_SIZE) = [0x6D, 0x5F] @ take USER_DATA_SIZE a'"
    "msg_payload (msg_new STATUS 0x6D01 (Some a') USER_DATA_SIZE) = [0x6D, 0x01] @ take USER_DATA_SIZE a'"
    using l' by (simp_all add: msg_payload_def hvac_size)
  moreover have "hvac_get (Control f) a' = bf_get (control_layout f) cs" for f
    using assms(2) by (cases f) (simp_all add: hvac_get_def a'_def nth_append)
  moreover have "hvac_get (Sensor f) a' = hvac_get (Sensor f) ?a" for f
    using assms(2) l by (cases f) (simp_all add: hvac_get_def a'_def nth_append)
  moreover have "hvac_get (Big_Data f) a' = hvac_get (Big_Data f) ?a" for f
    using assms(2) l by (cases f) (simp_all add: hvac_get_def a'_def nth_append hvac_size)
  ultimately show ?thesis
    unfolding t [symmetric]
    by (intro exI [of _ "s\<lparr>hs_ac_status := a'\<rparr>"] exI [of _ "msg_new STATUS 0x6D5F (Some a') USER_DATA_SIZE"]
        exI [of _ "msg_new STATUS 0x6D01 (Some a') USER_DATA_SIZE"]) simp
qed

theorem set_group_then_read_witness:
  "\<exists>s' m. status_request_handler CONTROL ([0x60, 0x01] @ [9, 0, 5, 0, 0, 1, 0, 0, 0, 0]) (get_ac_state_ref 7 hon_globals)
     = (s', [Send_Answer m :: unit api_call], HANDLER_OK) \<and> hvac_get (Control Ac_Power) (hs_ac_status s') = 1
     \<and> hvac_get (Control Fan_Mode) (hs_ac_status s') = 5"
proof -
  let ?cs = "[9, 0, 5, 0, 0, 1, 0, 0, 0, 0] :: byte list"
  have len: "length ?cs = CONTROL_SIZE" by simp
  have "bf_get (control_layout Ac_Power) ?cs = 1" "bf_get (control_layout Fan_Mode) ?cs = 5"
    by code_simp+
  moreover obtain s' m where "status_request_handler CONTROL ([0x60, 0x01] @ ?cs) (get_ac_state_ref 7 hon_globals)
      = (s', [Send_Answer m :: unit api_call], HANDLER_OK)" "\<forall>f. hvac_get (Control f) (hs_ac_status s') = bf_get (control_layout f) ?cs"
    using set_group_then_read [OF hon_inv_init [OF hon_inv_globals, of 7] len] by (elim exE conjE) (rule that)
  ultimately show ?thesis
    by (intro exI [of _ s'] exI [of _ m]) simp
qed

lemma mult_256_le: "256 * a + b \<le> 1 \<longleftrightarrow> a = 0 \<and> b \<le> (1 :: nat)"
  by arith

text \<open>The value of a parameter: the high byte comes first.\<close>

lemma parameter_value:
  fixes hi lo :: byte
  shows "push_bit 8 (ucast hi) + ucast lo \<le> (1 :: u16) \<longleftrightarrow> hi = 0 \<and> lo \<le> (1 :: byte)"
  "ucast (push_bit 8 (ucast hi) + ucast lo :: u16) = (lo :: byte)"
proof -
  have eq: "push_bit 8 (ucast hi) + ucast lo = (push_bit 8 (ucast hi) OR ucast lo :: u16)"
    by (rule disjunctive_add) (auto simp: bit_simps dest: bit_imp_le_length)
  have b: "unat b < 256" for b :: byte
    by (rule order_less_le_trans [OF unsigned_less]) simp
  have u: "unat (ucast b :: u16) = unat b" for b :: byte
    using b [of b] by (simp add: unsigned_ucast_eq take_bit_nat_eq_self)
  have "unat (push_bit 8 (ucast hi) + ucast lo :: u16) = 256 * unat hi + unat lo"
    using b [of hi] b [of lo] by (simp add: push_bit_eq_mult unat_word_ariths u)
  then show "push_bit 8 (ucast hi) + ucast lo \<le> (1 :: u16) \<longleftrightarrow> hi = 0 \<and> lo \<le> (1 :: byte)"
    using mult_256_le [of "unat hi" "unat lo"] by (simp add: word_le_nat_alt unat_eq_0)
  show "ucast (push_bit 8 (ucast hi) + ucast lo :: u16) = (lo :: byte)"
    unfolding eq by (rule bit_word_eqI) (auto simp: bit_simps)
qed

lemma single_parameter_subcommand:
  "(push_bit 8 0x5D OR ucast (p :: byte) :: u16) AND 0xFF00 = SET_SINGLE_PARAMETER"
  "(push_bit 8 0x5D OR ucast p :: u16) \<noteq> GET_USER_DATA" "(push_bit 8 0x5D OR ucast p :: u16) \<noteq> GET_BIG_DATA"
  "(push_bit 8 0x5D OR ucast p :: u16) \<noteq> SET_GROUP_PARAMETERS"
proof -
  show eq: "(push_bit 8 0x5D OR ucast p :: u16) AND 0xFF00 = SET_SINGLE_PARAMETER"
  proof (rule bit_word_eqI)
    fix n assume "n < LENGTH(16)"
    then have "n \<in> set [0..<16]" by simp
    then show "bit ((push_bit 8 0x5D OR ucast p :: u16) AND 0xFF00) n \<longleftrightarrow> bit (SET_SINGLE_PARAMETER :: u16) n"
      by (auto simp: bit_simps upt_rec dest: bit_imp_le_length)
  qed
  show "(push_bit 8 0x5D OR ucast p :: u16) \<noteq> GET_USER_DATA" "(push_bit 8 0x5D OR ucast p :: u16) \<noteq> GET_BIG_DATA"
    "(push_bit 8 0x5D OR ucast p :: u16) \<noteq> SET_GROUP_PARAMETERS"
    using eq by auto
qed

lemma single_parameter_request:
  assumes "hon_inv s"
  shows "status_request_handler CONTROL [0x5D, p, hi, lo] s = parameter_result p (push_bit 8 (ucast hi) + ucast lo) s"
  using single_parameter_subcommand [of p] process_single_parameter_eq [OF assms, of p "push_bit 8 (ucast hi) + ucast lo"]
  by (simp add: status_request_handler_def Let_def)

text \<open>Claim C28. A SET_SINGLE_PARAMETER command sets one field: for a parameter the server knows, the value
  is stored truncated to the width of its field, the answer carries the new user data, and no
  other field of the status changes. A flag accepts 0 and 1 only. The other fields accept every
  value, because the code compares the parameter and not the value with the allowed range. An
  unknown parameter is refused as an unsupported subcommand.\<close>

theorem single_parameter_effect:
  fixes p hi lo :: byte and s :: "'z hon_state_scheme"
  assumes "hon_inv s"
  defines "r \<equiv> status_request_handler CONTROL [0x5D, p, hi, lo] s"
  shows "case map_of parameter_fields p of
      None \<Rightarrow> r = (s, [Send_Answer INVALID_MSG], UNSUPPORTED_SUBCOMMAND)
    | Some f \<Rightarrow>
        if hvac_width (Control f) = 1 \<and> (hi \<noteq> 0 \<or> 1 < lo) then r = (s, [Send_Answer INVALID_MSG], UNSUPPORTED_MESSAGE)
        else \<exists>a m. r = (s\<lparr>hs_ac_status := a\<rparr>, [Send_Answer m], HANDLER_OK)
               \<and> hvac_get (Control f) a = take_bit (hvac_width (Control f)) lo
               \<and> (\<forall>g. g \<noteq> Control f \<longrightarrow> hvac_get g a = hvac_get g (hs_ac_status s))
               \<and> m_frame_type m = STATUS \<and> msg_payload m = [0x6D, 0x01] @ take USER_DATA_SIZE a"
proof -
  have l: "length (hs_ac_status s) = BIG_DATA_SIZE" using assms(1) by (simp add: hon_inv_def)
  have big: "(1 :: u16) < push_bit 8 (ucast hi) + ucast lo \<longleftrightarrow> hi \<noteq> 0 \<or> 1 < lo"
    using parameter_value(1) [of hi lo] by (metis not_le)
  have payload: "msg_payload (msg_new STATUS 0x6D01 (Some a) USER_DATA_SIZE) = [0x6D, 0x01] @ take USER_DATA_SIZE a"
    if "length a = BIG_DATA_SIZE" for a
    using that by (simp add: msg_payload_def hvac_size)
  show ?thesis
  proof (cases "map_of parameter_fields p")
    case None
    then show ?thesis by (simp add: r_def single_parameter_request [OF assms(1)] parameter_result_def)
  next
    case (Some f)
    define a where "a = hvac_put (Control f) lo (hs_ac_status s)"
    have a: "length a = BIG_DATA_SIZE" "hvac_get (Control f) a = take_bit (hvac_width (Control f)) lo"
      "g \<noteq> Control f \<Longrightarrow> hvac_get g a = hvac_get g (hs_ac_status s)" for g
      using hvac.put_valid [OF l] hvac.get_put [OF l] hvac.get_put_other [OF l, of "Control f" g] by (auto simp: a_def)
    have r: "r = (if hvac_width (Control f) = 1 \<and> (hi \<noteq> 0 \<or> 1 < lo) then (s, [Send_Answer INVALID_MSG], UNSUPPORTED_MESSAGE)
        else (s\<lparr>hs_ac_status := a\<rparr>, [Send_Answer (msg_new STATUS 0x6D01 (Some a) USER_DATA_SIZE)], HANDLER_OK))"
      using Some by (simp add: r_def single_parameter_request [OF assms(1)] parameter_result_def parameter_value(2) big a_def Let_def)
    then show ?thesis
      using Some a payload [OF a(1)] by auto
  qed
qed

theorem single_parameter_effect_witness:
  "\<exists>a m. status_request_handler CONTROL [0x5D, 0x02, 0x12, 0xFE] (get_ac_state_ref 7 hon_globals)
     = ((get_ac_state_ref 7 hon_globals)\<lparr>hs_ac_status := a\<rparr>, [Send_Answer m :: unit api_call], HANDLER_OK)
     \<and> hvac_get (Control Set_Point) a = 0xFE"
proof -
  have "map_of parameter_fields 0x02 = Some Set_Point" "hvac_width (Control Set_Point) = 8"
    by (simp_all add: parameter_fields_def hvac_width_def)
  then show ?thesis
    using single_parameter_effect [OF hon_inv_init [OF hon_inv_globals, of 7], where p = "0x02" and hi = "0x12" and lo = "0xFE"]
    by auto
qed

text \<open>Claim C27. The alarm bytes are a set of alarm numbers: \<open>start_alarm\<close> adds a number below 51 and
  refuses the others, \<open>has_active_alarms\<close> tells whether the set is empty, and
  \<open>reset_alarms\<close> keeps the alarms of the bytes \<^verbatim>\<open>memset\<close> does not reach: with an 8-byte
  \<^verbatim>\<open>size_t\<close> all alarms are cleared, with a 4-byte one the alarms 0 to 31 stay
  active.\<close>

theorem alarms_are_a_set:
  fixes s :: "'z hon_state_scheme"
  assumes "hon_inv s"
  defines "alarms \<equiv> \<lambda>s :: 'z hon_state_scheme. {i. i < 64 \<and> alarm_active i s}"
  shows "alarms (snd (start_alarm a s)) = alarms s \<union> (if unat a < 51 then {unat a} else {})
    \<and> (fst (start_alarm a s) \<longleftrightarrow> unat a < 51) \<and> (has_active_alarms s \<longleftrightarrow> alarms s \<noteq> {})
    \<and> alarms (reset_alarms 8 s) = {} \<and> alarms (reset_alarms 4 s) = alarms s \<inter> {..<32}"
proof -
  have "alarms (snd (start_alarm a s)) = alarms s \<union> (if unat a < 51 then {unat a} else {})"
    using start_alarm_active [OF assms(1), of _ a]
    by (auto simp: alarms_def HON_ALARM_COUNT_eq) (simp_all add: start_alarm_def HON_ALARM_COUNT_eq)
  moreover have "fst (start_alarm a s) \<longleftrightarrow> unat a < 51"
    by (simp add: start_alarm_def HON_ALARM_COUNT_eq Let_def not_le)
  moreover have "has_active_alarms s \<longleftrightarrow> alarms s \<noteq> {}"
    by (auto simp: alarms_def has_active_alarms_eq)
  moreover have "alarms (reset_alarms 8 s) = {}" "alarms (reset_alarms 4 s) = alarms s \<inter> {..<32}"
    using reset_alarms_active [OF assms(1), of _ 8] reset_alarms_active [OF assms(1), of _ 4] by (auto simp: alarms_def)
  ultimately show ?thesis by blast
qed

theorem alarms_are_a_set_witness:
  "alarm_active 17 (snd (start_alarm 17 hon_globals)) \<and> \<not> fst (start_alarm 51 hon_globals)"
  using alarms_are_a_set [OF hon_inv_globals, of 17] alarms_are_a_set [OF hon_inv_globals, of 51]
  by (simp add: set_eq_iff) blast

text \<open>Claim C26. Alarm reports: \<open>process_alarms\<close> does nothing unless reports are not stopped, the handler is
  idle with an empty queue and the interval (300 ms, 5000 ms after a confirmed report) has
  passed. Otherwise it queues exactly one ALARM_STATUS request with the eight alarm bytes, and
  when that is confirmed, the next report is due more than 5000 ms after this one if some alarm
  is active, and never if none is.\<close>

theorem alarm_report_cycle:
  fixes w :: "('s, 'h, 'z hon_state_scheme) world" and pf :: "('s, 'h, 'z hon_state_scheme) platform"
  assumes "hon_inv (w_app w)"
  defines "now \<equiv> pf_clock pf (w_tick w)"
  shows "\<exists>w'. process_alarms pf w = Some w' \<and> w_stream w' = w_stream w \<and>
    (if report_due now (w_protocol w) (w_app w)
     then (\<exists>m. pr_outgoing_messages (w_protocol w') = [\<lparr>oi_message = m, oi_use_crc = True, oi_no_answer = False,
                oi_number_of_retries = 1, oi_retry_interval = 0\<rparr>]
              \<and> m_frame_type m = ALARM_STATUS \<and> msg_payload m = [0x0F, 0x5A] @ hs_alarm_status_buf (w_app w))
       \<and> (\<exists>s'. alarm_status_report_answer_handler ALARM_STATUS CONFIRM [] (w_app w') = (s', [] :: 'h api_call list, HANDLER_OK)
           \<and> (\<forall>t (p :: 'h protocol). report_due t p s' \<longleftrightarrow> pr_state p = IDLE \<and> pr_outgoing_messages p = []
                 \<and> has_active_alarms (w_app w) \<and> 5000 < (t - now) mod 2 ^ 64))
     else w_app w' = w_app w \<and> w_protocol w' = w_protocol w)"
proof -
  obtain w' where w': "process_alarms pf w = Some w'" "w_stream w' = w_stream w"
    "if report_due now (w_protocol w) (w_app w)
     then w_app w' = (w_app w)\<lparr>hs_alarm_paused := False, hs_last_alarm_message := now\<rparr>
       \<and> (\<exists>m. pr_outgoing_messages (w_protocol w') = [\<lparr>oi_message = m, oi_use_crc = True, oi_no_answer = False,
                oi_number_of_retries = 1, oi_retry_interval = 0\<rparr>]
              \<and> msg_ok m \<and> m_frame_type m = ALARM_STATUS
              \<and> msg_payload m = [0x0F, 0x5A] @ hs_alarm_status_buf (w_app w))
     else w_app w' = w_app w \<and> w_protocol w' = w_protocol w"
    using process_alarms_eq [OF assms(1), of pf] unfolding now_def by blast
  have "\<exists>s'. alarm_status_report_answer_handler ALARM_STATUS CONFIRM [] (w_app w') = (s', [] :: 'h api_call list, HANDLER_OK)
      \<and> (\<forall>t (p :: 'h protocol). report_due t p s' \<longleftrightarrow> pr_state p = IDLE \<and> pr_outgoing_messages p = []
                 \<and> has_active_alarms (w_app w) \<and> 5000 < (t - now) mod 2 ^ 64)"
    if due: "report_due now (w_protocol w) (w_app w)"
  proof -
    have a: "w_app w' = (w_app w)\<lparr>hs_alarm_paused := False, hs_last_alarm_message := now\<rparr>"
      using w'(3) due by simp
    have "has_active_alarms (w_app w') \<longleftrightarrow> has_active_alarms (w_app w)"
      by (simp add: a has_active_alarms_def)
    moreover have "\<not> hs_alarm_stopped (w_app w)" using due by (simp add: report_due_def)
    ultimately show ?thesis
      by (cases "has_active_alarms (w_app w)")
        (simp_all add: alarm_status_report_answer_handler_def report_due_def a)
  qed
  then show ?thesis
    using w' by (intro exI [of _ w']) (auto split: if_splits)
qed

theorem alarm_report_cycle_witness:
  "\<exists>w'. process_alarms (server_platform DIRECTION_A) ((server_world [])\<lparr>w_tick := 301\<rparr>) = Some w'
     \<and> length (pr_outgoing_messages (w_protocol w')) = 1"
proof -
  let ?w = "(server_world [])\<lparr>w_tick := 301\<rparr>"
  have "hon_inv (w_app ?w)" by (simp add: server_world_def hon_inv_globals)
  moreover have "report_due (pf_clock (server_platform DIRECTION_A) (w_tick ?w)) (w_protocol ?w) (w_app ?w)"
    by (simp add: report_due_def server_world_def server_platform_def hon_globals_def pr_new_sized_def)
  ultimately show ?thesis
    using alarm_report_cycle [of ?w "server_platform DIRECTION_A"] by auto
qed

end
