(* ===== verification/Hon_Session.thy ===== *)
theory Hon_Session
  imports Protocol_Session Hon_Server_Properties Console_Log
begin

text \<open>
  The test program \<^verbatim>\<open>test/hon_test/main.cpp\<close>: its client with the answer handler and the
  status handler, its server with six handlers of the hOn server, both on a virtual stream, and
  the requests of its tests. The lines the handlers log are the client's state.
\<close>

section \<open>The client\<close>

definition expected_answers :: "(byte \<times> byte) list" where
  "expected_answers =
     [(GET_DEVICE_VERSION, GET_DEVICE_VERSION_RESPONSE),
      (GET_DEVICE_ID, GET_DEVICE_ID_RESPONSE),
      (CONTROL, STATUS),
      (GET_ALARM_STATUS, GET_ALARM_STATUS_RESPONSE),
      (GET_MANAGEMENT_INFORMATION, GET_MANAGEMENT_INFORMATION_RESPONSE),
      (REPORT_NETWORK_STATUS, CONFIRM),
      (UNKNOWN_FRAME_TYPE, UNKNOWN_FRAME_TYPE)]"

text \<open>The search stops at the entry of the type or at the last one; without a last entry it would run
  out of the table.\<close>

fun find_expected :: "byte \<Rightarrow> (byte \<times> byte) list \<Rightarrow> (byte \<times> byte) option" where
  "find_expected ty [] = None"
| "find_expected ty (e # es) =
     (if fst e \<noteq> UNKNOWN_FRAME_TYPE then if ty = fst e then Some e else find_expected ty es else Some e)"

record hon_client =
  hc_log :: "(haier_log_level \<times> string) list"
  hc_do_not_supress_warning :: bool

definition client_log :: "haier_log_level \<Rightarrow> string \<Rightarrow> hon_client \<Rightarrow> hon_client" where
  "client_log level line c = c\<lparr>hc_log := hc_log c @ [(level, line)]\<rparr>"

definition answer_line :: "byte \<Rightarrow> byte \<Rightarrow> string" where
  "answer_line message_type answer_type =
     ''Answer 0x'' @ hex_byte answer_type @ '' received for command 0x'' @ hex_byte message_type"

definition client_answers_handler ::
    "byte \<Rightarrow> byte \<Rightarrow> byte list \<Rightarrow> hon_client \<Rightarrow> hon_client \<times> 'h api_call list \<times> handler_error" where
  "client_answers_handler message_type answer_type buffer c =
     (case find_expected message_type expected_answers of
        None \<Rightarrow> (c, [], UNKNOWN_ERROR)
      | Some e \<Rightarrow>
          if fst e = UNKNOWN_FRAME_TYPE
          then (client_log LEVEL_WARNING (''Unexpected command 0x'' @ hex_byte message_type) c, [], UNEXPECTED_MESSAGE)
          else if snd e \<noteq> answer_type
          then (client_log LEVEL_WARNING (''Unexpected answer 0x'' @ hex_byte answer_type @ '' for command 0x'' @ hex_byte message_type) c,
                [], INVALID_ANSWER)
          else (client_log LEVEL_INFO (answer_line message_type answer_type) c, [], HANDLER_OK))"

text \<open>The handler of a status that comes as a message of its own: the first time it leaves the warning
  about the missing answer to the protocol handler.\<close>

definition get_status_message_handler ::
    "byte \<Rightarrow> byte list \<Rightarrow> hon_client \<Rightarrow> hon_client \<times> 'h api_call list \<times> handler_error" where
  "get_status_message_handler ty buffer c =
     (if ty = STATUS
      then let c = client_log LEVEL_INFO (''Received an answer as a new message, type 0x'' @ hex_byte ty) c
           in if \<not> hc_do_not_supress_warning c then (c, [No_Answer], HANDLER_OK)
              else (c\<lparr>hc_do_not_supress_warning := False\<rparr>, [], HANDLER_OK)
      else default_message_handler ty buffer c)"

lemma find_expected_total: "find_expected ty expected_answers \<noteq> None"
  by (simp add: expected_answers_def)

section \<open>Both sides\<close>

datatype hon_client_handler = Client_Answers | Get_Status_Message

text \<open>\<open>kept\<close>: popped queue elements keep their memory. The server sends no message that expects no answer.\<close>

definition hon_client_platform ::
    "bool \<Rightarrow> byte allocator \<Rightarrow> (nat \<Rightarrow> millis) \<Rightarrow> (virtual_stream_holder, hon_client_handler, hon_client) platform" where
  "hon_client_platform kept new clock =
     \<lparr>pf_ops = get_stream_reference DIRECTION_B, pf_new = new, pf_clock = clock,
      pf_message = (\<lambda>k. case k of Get_Status_Message \<Rightarrow> get_status_message_handler | Client_Answers \<Rightarrow> default_message_handler),
      pf_answer = (\<lambda>k. case k of Client_Answers \<Rightarrow> client_answers_handler | Get_Status_Message \<Rightarrow> default_answer_handler),
      pf_timeout = (\<lambda>k. default_timeout_handler), pf_popped_kept = kept\<rparr>"

definition hon_server_platform ::
    "byte allocator \<Rightarrow> (nat \<Rightarrow> millis) \<Rightarrow> (virtual_stream_holder, hon_message_handler, hon_state) platform" where
  "hon_server_platform new clock =
     \<lparr>pf_ops = get_stream_reference DIRECTION_A, pf_new = new, pf_clock = clock, pf_message = hon_message,
      pf_answer = (\<lambda>k. default_answer_handler), pf_timeout = (\<lambda>k. default_timeout_handler), pf_popped_kept = False\<rparr>"

definition hon_test_handlers :: "(byte \<times> hon_message_handler) list" where
  "hon_test_handlers =
     [(GET_DEVICE_VERSION, Get_Device_Version), (GET_DEVICE_ID, Get_Device_Id), (CONTROL, Status_Request),
      (GET_ALARM_STATUS, Alarm_Status), (GET_MANAGEMENT_INFORMATION, Get_Management_Information),
      (REPORT_NETWORK_STATUS, Report_Network_Status)]"

text \<open>The set-up at the start of \<^verbatim>\<open>main\<close>.\<close>

definition hon_server ::
    "byte allocator \<Rightarrow> millis \<Rightarrow> (virtual_stream_holder, hon_message_handler, hon_state) world" where
  "hon_server new now =
     \<lparr>w_protocol = fold (\<lambda>(ty, k). pr_set_message_handler ty k) hon_test_handlers (pr_new new),
      w_stream = vs_new new, w_tick = 0, w_app = get_ac_state_ref now hon_globals\<rparr>"

definition hon_client ::
    "byte allocator \<Rightarrow> (virtual_stream_holder, hon_client_handler, hon_client) world" where
  "hon_client new =
     \<lparr>w_protocol = pr_set_message_handler STATUS Get_Status_Message (pr_set_default_answer_handler Client_Answers (pr_new new)),
      w_stream = vs_new new, w_tick = 0, w_app = \<lparr>hc_log = [], hc_do_not_supress_warning = True\<rparr>\<rparr>"

section \<open>The server behind the protocol\<close>

text \<open>The handler of a type; types that are not registered do not occur in a session.\<close>

definition hon_test_handler :: "byte \<Rightarrow> hon_message_handler" where
  "hon_test_handler ty = (case map_of hon_test_handlers ty of Some k \<Rightarrow> k | None \<Rightarrow> Stop_Alarm)"

abbreviation hon_serve :: "byte \<Rightarrow> byte list \<Rightarrow> hon_state \<Rightarrow> hon_state \<times> hon_message_handler api_call list \<times> handler_error" where
  "hon_serve ty \<equiv> hon_message (hon_test_handler ty) ty"

abbreviation hon_accept :: "byte \<Rightarrow> byte \<Rightarrow> byte list \<Rightarrow> hon_client \<Rightarrow> hon_client" where
  "hon_accept ty rty d c \<equiv> fst (client_answers_handler ty rty d c :: hon_client \<times> hon_client_handler api_call list \<times> handler_error)"

interpretation hon_test: answering_handler hon_serve hon_inv INVALID_MSG
  by (rule answering_handlerI, rule hon_contract)

lemma hon_server_served:
  assumes "ty \<in> fst ` set hon_test_handlers"
  shows "served (hon_server_platform new clock) (w_protocol (hon_server new now)) hon_serve ty"
proof -
  obtain k where k: "map_of hon_test_handlers ty = Some k"
    using assms by (metis map_of_eq_None_iff not_Some_eq)
  have "pr_message_handlers_map (w_protocol (hon_server new now)) = map_of hon_test_handlers"
    by (simp add: hon_server_def hon_test_handlers_def pr_set_message_handler_def pr_new_def pr_new_sized_def fun_upd_twist)
  then show ?thesis
    using k by (auto simp: served_def find_handler_def hon_server_platform_def hon_test_handler_def)
qed

lemma client_answers_no_calls:
  "\<exists>err. client_answers_handler ty rty d c = (hon_accept ty rty d c, [], err)"
  by (auto simp: client_answers_handler_def split: option.split)

lemma hon_client_accepts:
  "accepts (hon_client_platform kept new clock) (w_protocol (hon_client new)) hon_accept ty"
proof -
  have "find_handler (pr_answer_handlers_map (w_protocol (hon_client new))) ty (pr_default_answer_handler (w_protocol (hon_client new)))
      = Some Client_Answers"
    by (simp add: hon_client_def find_handler_def pr_new_def pr_new_sized_def pr_set_default_answer_handler_def pr_set_message_handler_def)
  then show ?thesis
    using client_answers_no_calls by (auto simp: accepts_def hon_client_platform_def)
qed

lemma hon_test_connected:
  assumes "allocates new"
  shows "connected DIRECTION_B (hon_client new, hon_server new now)" "hon_inv (w_app (hon_server new now))"
proof -
  have "vs_inv (vs_new new)" "cb_list (vs_rx DIRECTION_B (vs_new new)) = []" "cb_list (vs_tx DIRECTION_B (vs_new new)) = []"
    using vs_new_inv [OF assms] vs_new_empty [OF assms] by simp_all
  then show "connected DIRECTION_B (hon_client new, hon_server new now)"
    by (simp add: connected_def hon_client_def hon_server_def hon_test_handlers_def pr_new_at_rest [OF assms])
  show "hon_inv (w_app (hon_server new now))"
    by (simp add: hon_server_def hon_inv_init hon_inv_globals)
qed

lemma hon_client_due:
  "paced clock DEFAULT_ANSWER_TIMEOUT DEFAULT_COOLDOWN_INTERVAL \<Longrightarrow> 0 \<le> clock 0 \<Longrightarrow> due (hon_client_platform kept new clock) (hon_client new)"
  by (rule dueI [of _ 0])
    (simp_all add: hon_client_def hon_client_platform_def pr_new_def pr_new_sized_def pr_set_default_answer_handler_def pr_set_message_handler_def)

section \<open>What the client logs\<close>

text \<open>Every request of a sequence is accepted by the server's handler.\<close>

fun all_accepted :: "haier_message list \<Rightarrow> hon_state \<Rightarrow> bool" where
  "all_accepted [] s = True"
| "all_accepted (m # ms) s =
     (snd (snd (hon_serve (m_frame_type m) (msg_payload m) s)) = HANDLER_OK
      \<and> all_accepted ms (fst (hon_serve (m_frame_type m) (msg_payload m) s)))"

definition expected_line :: "haier_message \<Rightarrow> haier_log_level \<times> string" where
  "expected_line m = (LEVEL_INFO, answer_line (m_frame_type m) (the (map_of expected_answers (m_frame_type m))))"

text \<open>An accepted request of a registered type is answered by the type the client expects.\<close>

definition accepted_with :: "byte \<Rightarrow> 'a \<times> 'h api_call list \<times> handler_error \<Rightarrow> bool" where
  "accepted_with ty r \<longleftrightarrow> (snd (snd r) = HANDLER_OK \<longrightarrow> (\<exists>m. answer_of (fst (snd r)) = Some m \<and> m_frame_type m = ty))"

lemma accepted_with_if: "accepted_with ty x \<Longrightarrow> accepted_with ty y \<Longrightarrow> accepted_with ty (if b then x else y)"
  by simp

lemma accepted_with_result:
  "err \<noteq> HANDLER_OK \<Longrightarrow> accepted_with ty (s, calls, err)"
  "m_frame_type m = ty \<Longrightarrow> accepted_with ty (s, [Send_Answer m], err)"
  "m_frame_type m = ty \<Longrightarrow> accepted_with ty (s, [Send_Answer_Crc m u], err)"
  by (simp_all add: accepted_with_def answer_of_def)

lemma process_single_parameter_shape:
  "\<exists>s' r. process_single_parameter parameter val s = (if r = HANDLER_OK
     then (s', [Send_Answer (msg_new STATUS 0x6D01 (Some (hs_ac_status s')) USER_DATA_SIZE)], r) else (s', [Send_Answer INVALID_MSG], r))"
  unfolding process_single_parameter_def Let_def split_beta by (intro exI) (rule refl)

lemma single_parameter_accepted:
  fixes s :: "'z hon_state_scheme"
  shows "accepted_with STATUS (process_single_parameter parameter val s :: 'z hon_state_scheme \<times> 'h api_call list \<times> handler_error)"
proof -
  obtain s' r where e: "(process_single_parameter parameter val s :: 'z hon_state_scheme \<times> 'h api_call list \<times> handler_error) = (if r = HANDLER_OK
     then (s', [Send_Answer (msg_new STATUS 0x6D01 (Some (hs_ac_status s')) USER_DATA_SIZE)], r) else (s', [Send_Answer INVALID_MSG], r))"
    using process_single_parameter_shape [of parameter val s] by blast
  show ?thesis unfolding e by (cases "r = HANDLER_OK") (simp_all add: accepted_with_result)
qed

lemma hon_accepted_with:
  "accepted_with STATUS (status_request_handler ty d s)"
  "accepted_with GET_DEVICE_VERSION_RESPONSE (get_device_version_handler ty d s)"
  "accepted_with GET_DEVICE_ID_RESPONSE (get_device_id_handler ty d s)"
  "accepted_with GET_ALARM_STATUS_RESPONSE (alarm_status_handler ty d s)"
  "accepted_with GET_MANAGEMENT_INFORMATION_RESPONSE (get_management_information_handler ty d s)"
  "accepted_with CONFIRM (report_network_status_handler ty d s)"
  unfolding status_request_handler_def get_device_version_handler_def get_device_id_handler_def alarm_status_handler_def
    get_management_information_handler_def report_network_status_handler_def Let_def
  by (intro accepted_with_if single_parameter_accepted;
      simp add: accepted_with_result msg_of_data_def CONFIRM_MSG_def msg_of_type_def)+

lemma accepted_answer_type:
  assumes "ty \<in> fst ` set hon_test_handlers" "snd (snd (hon_serve ty d s)) = HANDLER_OK"
  shows "\<exists>r. answer_of (fst (snd (hon_serve ty d s))) = Some r \<and> map_of expected_answers ty = Some (m_frame_type r)
    \<and> find_expected ty expected_answers = Some (ty, m_frame_type r) \<and> ty \<noteq> UNKNOWN_FRAME_TYPE"
proof -
  have "ty \<in> {GET_DEVICE_VERSION, GET_DEVICE_ID, CONTROL, GET_ALARM_STATUS, GET_MANAGEMENT_INFORMATION, REPORT_NETWORK_STATUS}"
    using assms(1) by (simp add: hon_test_handlers_def)
  then have "accepted_with (the (map_of expected_answers ty)) (hon_serve ty d s)"
    "find_expected ty expected_answers = Some (ty, the (map_of expected_answers ty))"
    "map_of expected_answers ty \<noteq> None" "ty \<noteq> UNKNOWN_FRAME_TYPE"
    by (elim insertE; simp add: hon_test_handler_def hon_test_handlers_def expected_answers_def hon_accepted_with)+
  then show ?thesis
    using assms(2) by (auto simp: accepted_with_def)
qed

lemma accepted_log:
  "direct_calls hon_serve hon_accept ms (c, s) = Some (c', s') \<Longrightarrow> all_accepted ms s
    \<Longrightarrow> \<forall>m \<in> set ms. m_frame_type m \<in> fst ` set hon_test_handlers \<Longrightarrow> hc_log c' = hc_log c @ map expected_line ms"
proof (induction ms arbitrary: c s)
  case (Cons m ms)
  let ?r = "hon_serve (m_frame_type m) (msg_payload m) s"
  obtain b' calls err where b: "?r = (b', calls, err)" by (cases ?r) auto
  obtain r where r: "answer_of calls = Some r" "map_of expected_answers (m_frame_type m) = Some (m_frame_type r)"
    "find_expected (m_frame_type m) expected_answers = Some (m_frame_type m, m_frame_type r)" "m_frame_type m \<noteq> UNKNOWN_FRAME_TYPE"
    using accepted_answer_type [of "m_frame_type m" "msg_payload m" s] Cons.prems(2,3) b by auto
  let ?c = "client_log LEVEL_INFO (answer_line (m_frame_type m) (m_frame_type r)) c"
  have "hon_accept (m_frame_type m) (m_frame_type r) (msg_payload r) c = ?c"
    using r(3,4) by (simp add: client_answers_handler_def)
  then have "direct_calls hon_serve hon_accept ms (?c, b') = Some (c', s')"
    using Cons.prems(1) b r(1) by simp
  from Cons.IH [OF this] have "hc_log c' = hc_log ?c @ map expected_line ms"
    using Cons.prems(2,3) b by simp
  then show ?case
    using r(2) by (simp add: client_log_def expected_line_def)
qed simp

text \<open>Between two requests of the test.\<close>

definition hon_running ::
    "bool \<Rightarrow> byte allocator \<Rightarrow> (nat \<Rightarrow> millis) \<Rightarrow> millis \<Rightarrow> (virtual_stream_holder, hon_client_handler, hon_client) world
      \<times> (virtual_stream_holder, hon_message_handler, hon_state) world \<Rightarrow> bool" where
  "hon_running kept new clock now = (\<lambda>(w, v). connected DIRECTION_B (w, v) \<and> due (hon_client_platform kept new clock) w \<and> hon_inv (w_app v)
     \<and> same_setup (w_protocol (hon_client new)) (w_protocol w) \<and> same_setup (w_protocol (hon_server new now)) (w_protocol v))"

lemma hon_test_platforms:
  assumes "allocates new"
  shows "pf_ops (hon_client_platform kept new clock) = get_stream_reference DIRECTION_B" "allocates (pf_new (hon_client_platform kept new clock))"
    "pf_ops (hon_server_platform new clock') = get_stream_reference (other_end DIRECTION_B)"
    "allocates (pf_new (hon_server_platform new clock'))"
  using assms by (simp_all add: hon_client_platform_def hon_server_platform_def other_end_def)

lemma session_run:
  assumes "allocates new" "paced clock DEFAULT_ANSWER_TIMEOUT DEFAULT_COOLDOWN_INTERVAL" "0 \<le> clock 0"
    and "\<forall>(m, crc) \<in> set ms. msg_ok m \<and> length (msg_payload m) \<le> 100 \<and> m_frame_type m \<in> fst ` set hon_test_handlers"
  shows "\<exists>w v. session (hon_client_platform kept new clock) (hon_server_platform new clock') ms (hon_client new, hon_server new now)
      = Some (w, v)
    \<and> direct_calls hon_serve hon_accept (map fst ms) (w_app (hon_client new), w_app (hon_server new now)) = Some (w_app w, w_app v)
    \<and> (all_accepted (map fst ms) (w_app (hon_server new now)) \<longrightarrow> hc_log (w_app w) = map expected_line (map fst ms))
    \<and> hon_running kept new clock now (w, v)"
proof -
  note pf = hon_test_platforms(1,2) [OF assms(1), of kept clock] hon_test_platforms(3,4) [OF assms(1), of clock] hon_test_platforms(3,4) [OF assms(1), of clock']
  have ms: "\<forall>(m, crc) \<in> set ms. msg_ok m \<and> length (msg_payload m) \<le> 100
      \<and> served (hon_server_platform new clock') (w_protocol (hon_server new now)) hon_serve (m_frame_type m)
      \<and> accepts (hon_client_platform kept new clock) (w_protocol (hon_client new)) hon_accept (m_frame_type m)"
    using assms(4) hon_server_served hon_client_accepts by blast
  obtain w v where wv: "session (hon_client_platform kept new clock) (hon_server_platform new clock') ms (hon_client new, hon_server new now)
      = Some (w, v)"
    "direct_calls hon_serve hon_accept (map fst ms) (w_app (hon_client new), w_app (hon_server new now)) = Some (w_app w, w_app v)"
    "hon_running kept new clock now (w, v)"
    unfolding hon_running_def prod.case using hon_test.session_direct [OF pf(1,2,5,6) hon_test_connected(1) [OF assms(1)] hon_client_due [OF assms(2,3)]
        hon_test_connected(2) [OF assms(1)] ms] by blast
  have "hc_log (w_app w) = map expected_line (map fst ms)" if "all_accepted (map fst ms) (w_app (hon_server new now))"
    using accepted_log [OF wv(2) that] assms(4) by (fastforce simp: hon_client_def)
  then show ?thesis using wv by blast
qed

section \<open>Test 8\<close>

text \<open>A status request whose answer is not waited for.\<close>

definition test8_request :: haier_message where
  "test8_request = msg_of_subcommand CONTROL GET_USER_DATA"

definition new_message_line :: "haier_log_level \<times> string" where
  "new_message_line = (LEVEL_INFO, ''Received an answer as a new message, type 0x'' @ hex_byte STATUS)"

section \<open>Properties\<close>

text \<open>Claim C9. The protocol is a procedure call: any sequence of short requests of the registered
  types, sent by the client of the test one after the other over the virtual stream, with pauses longer than the
  cooldown and answers within the timeout, does the same as calling the handlers of the hOn
  server directly and giving their answers to the client's answer handler: the same status of the appliance, the
  same lines logged. If the server accepts all requests, each is confirmed by one line at level INFO.\<close>

theorem session_is_direct_calls:
  assumes "allocates new" "paced clock DEFAULT_ANSWER_TIMEOUT DEFAULT_COOLDOWN_INTERVAL" "0 \<le> clock 0"
    and "\<forall>(m, crc) \<in> set ms. msg_ok m \<and> length (msg_payload m) \<le> 100 \<and> m_frame_type m \<in> fst ` set hon_test_handlers"
  shows "\<exists>w v. session (hon_client_platform kept new clock) (hon_server_platform new clock') ms (hon_client new, hon_server new now)
      = Some (w, v)
    \<and> direct_calls hon_serve hon_accept (map fst ms) (w_app (hon_client new), w_app (hon_server new now)) = Some (w_app w, w_app v)
    \<and> (all_accepted (map fst ms) (w_app (hon_server new now)) \<longrightarrow> hc_log (w_app w) = map expected_line (map fst ms))"
  using session_run [OF assms, where clock' = clock' and now = now] by blast

text \<open>The requests of tests 1 to 7. The last one sets the control part \<open>cs\<close>.\<close>

definition hon_test_requests :: "byte list \<Rightarrow> (haier_message \<times> bool) list" where
  "hon_test_requests cs =
     [(msg_of_data GET_DEVICE_VERSION (Some [0, 7]) 2, False),
      (msg_of_type GET_DEVICE_ID, True),
      (msg_of_subcommand CONTROL GET_USER_DATA, True),
      (msg_of_type GET_ALARM_STATUS, True),
      (msg_of_type GET_MANAGEMENT_INFORMATION, True),
      (msg_of_data REPORT_NETWORK_STATUS (Some [0x00, 0x01, 0x00, 0x37]) 4, True),
      (msg_new CONTROL SET_GROUP_PARAMETERS (Some cs) CONTROL_SIZE, True)]"

definition test7_control :: "byte list \<Rightarrow> byte list" where
  "test7_control status = take CONTROL_SIZE (puts hvac_put (map (\<lambda>(f, v). (Control f, v))
     [(Ac_Power, 1), (Ac_Mode, conditioning_mode_code ConditioningMode_HEALTHY_DRY), (Fan_Mode, fan_mode_code FanMode_FAN_MID),
      (Horizontal_Swing_Mode, horizontal_swing_mode_code HorizontalSwingMode_MAX_LEFT),
      (Vertical_Swing_Mode, vertical_swing_mode_code VerticalSwingMode_HEALTH_DOWN), (Display_Status, 0)]) status)"

lemma hon_test_payloads:
  assumes "length cs = CONTROL_SIZE"
  shows "map (\<lambda>(m, crc). (m_frame_type m, msg_payload m)) (hon_test_requests cs) =
    [(GET_DEVICE_VERSION, [0, 7]), (GET_DEVICE_ID, []), (CONTROL, [0x4D, 0x01]), (GET_ALARM_STATUS, []),
     (GET_MANAGEMENT_INFORMATION, []), (REPORT_NETWORK_STATUS, [0x00, 0x01, 0x00, 0x37]), (CONTROL, [0x60, 0x01] @ cs)]"
    "\<forall>(m, crc) \<in> set (hon_test_requests cs). msg_ok m"
  using assms by (simp_all add: hon_test_requests_def msg_of_data_def msg_of_type_def msg_of_subcommand_def msg_payload_def msg_new_ok)

lemma set_group_state:
  assumes "hon_inv s" "length cs = CONTROL_SIZE"
  shows "snd (snd (status_request_handler CONTROL ([0x60, 0x01] @ cs) s)) = HANDLER_OK"
    "fst (status_request_handler CONTROL ([0x60, 0x01] @ cs) s) = s\<lparr>hs_ac_status := cs @ drop CONTROL_SIZE (hs_ac_status s)\<rparr>"
proof -
  have "copy_control ([0x60, 0x01] @ cs) (hs_ac_status s) = cs @ drop CONTROL_SIZE (hs_ac_status s)"
    using copy_control_eq [of "hs_ac_status s" "[0x60, 0x01] @ cs"] assms by (simp add: hon_inv_def)
  then show "snd (snd (status_request_handler CONTROL ([0x60, 0x01] @ cs) s)) = HANDLER_OK"
    "fst (status_request_handler CONTROL ([0x60, 0x01] @ cs) s) = s\<lparr>hs_ac_status := cs @ drop CONTROL_SIZE (hs_ac_status s)\<rparr>"
    using assms(2) by (simp_all add: status_request_handler_def)
qed

text \<open>The states of the server during tests 1 to 7.\<close>

lemma hon_tests_accepted:
  assumes "hon_inv s" "length cs = CONTROL_SIZE" "hvac_get (Control Set_Point) (hs_ac_status s) \<noteq> 0x0E"
  shows "all_accepted (map fst (hon_test_requests cs)) s"
    "direct_calls hon_serve hon_accept (map fst (hon_test_requests cs)) (c, s) = Some (c', s') \<Longrightarrow>
       s' = s\<lparr>hs_config_mode := False, hs_communication_status := 1, hs_ac_status := cs @ drop CONTROL_SIZE (hs_ac_status s)\<rparr>"
proof -
  obtain m1 m2 m3 m4 m5 m6 m7 where m: "map fst (hon_test_requests cs) = [m1, m2, m3, m4, m5, m6, m7]"
    by (simp add: hon_test_requests_def)
  have p: "map (\<lambda>m. (m_frame_type m, msg_payload m)) [m1, m2, m3, m4, m5, m6, m7] =
    [(GET_DEVICE_VERSION, [0, 7]), (GET_DEVICE_ID, []), (CONTROL, [0x4D, 0x01]), (GET_ALARM_STATUS, []),
     (GET_MANAGEMENT_INFORMATION, []), (REPORT_NETWORK_STATUS, [0x00, 0x01, 0x00, 0x37]), (CONTROL, [0x60, 0x01] @ cs)]"
    using hon_test_payloads(1) [OF assms(2)] unfolding m [symmetric] by (simp add: split_def o_def)
  define t where "t = s\<lparr>hs_config_mode := False, hs_communication_status := 1\<rparr>"
  have t: "hon_inv t" "hs_ac_status t = hs_ac_status s" using assms(1) by (simp_all add: t_def hon_inv_def)
  have k: "hon_test_handler GET_DEVICE_VERSION = Get_Device_Version" "hon_test_handler GET_DEVICE_ID = Get_Device_Id"
    "hon_test_handler CONTROL = Status_Request" "hon_test_handler GET_ALARM_STATUS = Alarm_Status"
    "hon_test_handler GET_MANAGEMENT_INFORMATION = Get_Management_Information"
    "hon_test_handler REPORT_NETWORK_STATUS = Report_Network_Status"
    by (simp_all add: hon_test_handler_def hon_test_handlers_def)
  have r: "snd (snd (hon_serve GET_DEVICE_VERSION [0, 7] s)) = HANDLER_OK" "fst (hon_serve GET_DEVICE_VERSION [0, 7] s) = s"
    "snd (snd (hon_serve GET_DEVICE_ID [] s)) = HANDLER_OK" "fst (hon_serve GET_DEVICE_ID [] s) = s"
    "snd (snd (hon_serve CONTROL [0x4D, 0x01] s)) = HANDLER_OK" "fst (hon_serve CONTROL [0x4D, 0x01] s) = s"
    "snd (snd (hon_serve GET_ALARM_STATUS [] s)) = HANDLER_OK" "fst (hon_serve GET_ALARM_STATUS [] s) = s"
    "snd (snd (hon_serve GET_MANAGEMENT_INFORMATION [] s)) = HANDLER_OK" "fst (hon_serve GET_MANAGEMENT_INFORMATION [] s) = s"
    unfolding k hon_message.simps
    by (simp_all add: get_device_version_handler_def get_device_id_handler_def status_request_handler_def alarm_status_handler_def
        get_management_information_handler_def)
  have n: "snd (snd (hon_serve REPORT_NETWORK_STATUS [0x00, 0x01, 0x00, 0x37] s)) = HANDLER_OK"
    "fst (hon_serve REPORT_NETWORK_STATUS [0x00, 0x01, 0x00, 0x37] s) = t"
    unfolding k hon_message.simps using assms(3) by (auto simp: report_network_status_handler_def Let_def t_def)
  have g: "snd (snd (hon_serve CONTROL ([0x60, 0x01] @ cs) t)) = HANDLER_OK"
    "fst (hon_serve CONTROL ([0x60, 0x01] @ cs) t) = t\<lparr>hs_ac_status := cs @ drop CONTROL_SIZE (hs_ac_status s)\<rparr>"
    unfolding k hon_message.simps using set_group_state [OF t(1) assms(2)] t(2) by simp_all
  show "all_accepted (map fst (hon_test_requests cs)) s"
    using p unfolding m by (simp add: r n g del: append.simps)
  assume "direct_calls hon_serve hon_accept (map fst (hon_test_requests cs)) (c, s) = Some (c', s')"
  from direct_calls_state [OF this] show "s' = s\<lparr>hs_config_mode := False, hs_communication_status := 1, hs_ac_status := cs @ drop CONTROL_SIZE (hs_ac_status s)\<rparr>"
    using p unfolding m by (simp add: r n g [unfolded t_def] t_def del: append.simps)
qed

lemma initial_set_point: "hvac_get (Control Set_Point) init_status = 9"
  by code_simp

definition test_clock :: "nat \<Rightarrow> millis" where
  "test_clock i = 500 * int (i div 3)"

lemma test_clock_paced: "paced test_clock DEFAULT_ANSWER_TIMEOUT DEFAULT_COOLDOWN_INTERVAL" "0 \<le> test_clock 0"
proof -
  have a: "(3 * i + 1) div 3 = i" "(3 * i + 2) div 3 = i" "3 * i div 3 = i" for i :: nat by presburger+
  show "paced test_clock DEFAULT_ANSWER_TIMEOUT DEFAULT_COOLDOWN_INTERVAL" "0 \<le> test_clock 0"
    unfolding paced_def test_clock_def a by simp_all
qed

theorem session_is_direct_calls_witness:
  "\<exists>w v. session (hon_client_platform False (\<lambda>n. replicate n 0) test_clock) (hon_server_platform (\<lambda>n. replicate n 0) int)
        [(msg_of_type GET_DEVICE_ID, True), (msg_of_subcommand CONTROL 0x1234, False)]
        (hon_client (\<lambda>n. replicate n 0), hon_server (\<lambda>n. replicate n 0) 7) = Some (w, v)
     \<and> map fst (hc_log (w_app w)) = [LEVEL_INFO, LEVEL_WARNING]"
proof -
  let ?ms = "[(msg_of_type GET_DEVICE_ID, True), (msg_of_subcommand CONTROL 0x1234, False)]"
  let ?new = "\<lambda>n. replicate n (0 :: byte)"
  have p: "m_frame_type (msg_of_type GET_DEVICE_ID) = GET_DEVICE_ID" "msg_payload (msg_of_type GET_DEVICE_ID) = []"
    "m_frame_type (msg_of_subcommand CONTROL 0x1234) = CONTROL" "msg_payload (msg_of_subcommand CONTROL 0x1234) = [0x12, 0x34]"
    "msg_ok (msg_of_type GET_DEVICE_ID)" "msg_ok (msg_of_subcommand CONTROL 0x1234)"
    by (simp_all add: msg_of_type_def msg_of_subcommand_def msg_payload_def msg_new_ok)
  have ms: "\<forall>(m, crc) \<in> set ?ms. msg_ok m \<and> length (msg_payload m) \<le> 100 \<and> m_frame_type m \<in> fst ` set hon_test_handlers"
    using p by (simp add: hon_test_handlers_def)
  obtain w v where wv: "session (hon_client_platform False ?new test_clock) (hon_server_platform ?new int) ?ms (hon_client ?new, hon_server ?new 7) = Some (w, v)"
    "direct_calls hon_serve hon_accept (map fst ?ms) (w_app (hon_client ?new), w_app (hon_server ?new 7)) = Some (w_app w, w_app v)"
    using session_is_direct_calls [OF allocates_replicate [of 0] test_clock_paced ms, where clock' = int and now = 7] by blast
  have "answer_of (fst (snd (hon_serve GET_DEVICE_ID [] s))) = Some (msg_of_data GET_DEVICE_ID_RESPONSE (Some device_id_buf) (length device_id_buf))"
    "answer_of (fst (snd (hon_serve CONTROL [0x12, 0x34] s))) = Some INVALID_MSG" for s
    by (simp_all add: hon_test_handler_def hon_test_handlers_def get_device_id_handler_def status_request_handler_def answer_of_def)
  then have "map fst (hc_log (w_app w)) = [LEVEL_INFO, LEVEL_WARNING]"
    using wv(2) p by (auto simp: split_beta client_answers_handler_def expected_answers_def client_log_def hon_client_def
        msg_of_data_def INVALID_MSG_ok split: prod.splits dest!: sym [of _ "w_app w"])
  with wv(1) show ?thesis by (intro exI conjI)
qed

end
