(* ===== verification/Protocol_Log.thy ===== *)
theory Protocol_Log
  imports Protocol_Exchange Transport_Log
begin

text \<open>
  The warnings and errors of \<^verbatim>\<open>src/protocol/haier_protocol.cpp\<close>: beside each operation of
  \<open>Haier_Protocol\<close> that logs at the levels WARNING or ERROR a function with the same control flow that
  lists the lines, in order, with those of the transport handler below it and those of the registered handlers,
  which are an argument. When an operation is undefined the lines before that point are
  listed. The lines at the levels INFO to VERBOSE are left out.
\<close>

section \<open>The lines\<close>

text \<open>The enumerators of \<^verbatim>\<open>HandlerError\<close> are numbered from 0.\<close>

primrec handler_error_code :: "handler_error \<Rightarrow> nat" where
  "handler_error_code HANDLER_OK = 0"
| "handler_error_code UNSUPPORTED_MESSAGE = 1"
| "handler_error_code UNEXPECTED_MESSAGE = 2"
| "handler_error_code UNSUPPORTED_SUBCOMMAND = 3"
| "handler_error_code WRONG_MESSAGE_STRUCTURE = 4"
| "handler_error_code RUNTIME_ERROR = 5"
| "handler_error_code UNKNOWN_ERROR = 6"
| "handler_error_code INVALID_ANSWER = 7"

definition queue_size_line :: "nat \<Rightarrow> log_line" where
  "queue_size_line n = (LEVEL_WARNING,
     ''Incoming queue size '' @ decimal n @ '' (should be not more than 1). Dropping extra messages'')"

definition message_error_line :: "byte \<Rightarrow> handler_error \<Rightarrow> log_line" where
  "message_error_line msg err = (LEVEL_WARNING,
     ''Message handler error, msg='' @ hex_byte msg @ '', err='' @ decimal (handler_error_code err))"

definition no_answer_line :: "byte \<Rightarrow> log_line" where
  "no_answer_line msg = (LEVEL_WARNING,
     ''No answer sent in incoming messages handler, message type '' @ hex_byte msg)"

definition timeout_error_line :: "byte \<Rightarrow> handler_error \<Rightarrow> log_line" where
  "timeout_error_line msg err = (LEVEL_WARNING,
     ''Timeout handler error, msg='' @ hex_byte msg @ '', err='' @ decimal (handler_error_code err))"

definition answer_error_line :: "byte \<Rightarrow> byte \<Rightarrow> handler_error \<Rightarrow> log_line" where
  "answer_error_line msg answ err = (LEVEL_WARNING,
     ''Answer handler error, msg='' @ hex_byte msg @ '', answ='' @ hex_byte answ @ '', err='' @ decimal (handler_error_code err))"

definition sending_error_line :: "byte \<Rightarrow> log_line" where
  "sending_error_line ty = (LEVEL_ERROR, ''Error sending message: '' @ hex_byte ty)"

definition not_in_handler_line :: log_line where
  "not_in_handler_line = (LEVEL_ERROR, ''Answer can be send only from message handler!'')"

definition data_text :: "byte list \<Rightarrow> string" where
  "data_text data = (if length data > 0 then buf_to_hex data (length data) else ''<empty>'')"

definition unsupported_message_line :: "byte \<Rightarrow> byte list \<Rightarrow> log_line" where
  "unsupported_message_line message_type data = (LEVEL_WARNING,
     ''Unsupported message received: type '' @ hex_byte message_type @ '' data: '' @ data_text data)"

definition unsupported_answer_line :: "byte \<Rightarrow> byte \<Rightarrow> byte list \<Rightarrow> log_line" where
  "unsupported_answer_line requestType message_type data = (LEVEL_WARNING,
     ''Unsupported answer to '' @ hex_byte requestType @ '' received: type '' @ hex_byte message_type @ '' data: '' @ data_text data)"

definition answer_timeout_line :: "byte \<Rightarrow> log_line" where
  "answer_timeout_line message_type = (LEVEL_WARNING, ''Message '' @ hex_byte message_type @ '' answer timeout'')"

section \<open>What the operations log\<close>

text \<open>The lines of the registered handlers themselves.\<close>

record ('h, 'app) handler_lines =
  hl_message :: "'h \<Rightarrow> byte \<Rightarrow> byte list \<Rightarrow> 'app \<Rightarrow> log_line list"
  hl_answer :: "'h \<Rightarrow> byte \<Rightarrow> byte \<Rightarrow> byte list \<Rightarrow> 'app \<Rightarrow> log_line list"
  hl_timeout :: "'h \<Rightarrow> byte \<Rightarrow> 'app \<Rightarrow> log_line list"

definition write_message_log ::
    "('s, 'h, 'app) platform \<Rightarrow> haier_message \<Rightarrow> bool \<Rightarrow> ('s, 'h, 'app) world \<Rightarrow> log_line list" where
  "write_message_log pf m use_crc w =
     (case write_message pf m use_crc w of
        None \<Rightarrow> []
      | Some (is_success, _) \<Rightarrow> if \<not> is_success then [sending_error_line (m_frame_type m)] else [])"

definition send_answer_crc_log ::
    "('s, 'h, 'app) platform \<Rightarrow> haier_message \<Rightarrow> bool \<Rightarrow> ('s, 'h, 'app) world \<Rightarrow> log_line list" where
  "send_answer_crc_log pf m use_crc w =
     (if pr_processing_message (w_protocol w) then write_message_log pf m use_crc w else [not_in_handler_line])"

fun exec_call_log ::
    "('s, 'h, 'app) platform \<Rightarrow> 'h api_call \<Rightarrow> ('s, 'h, 'app) world \<Rightarrow> log_line list" where
  "exec_call_log pf (Send_Answer m) w = send_answer_crc_log pf m (pr_incoming_message_crc_status (w_protocol w)) w"
| "exec_call_log pf (Send_Answer_Crc m crc) w = send_answer_crc_log pf m crc w"
| "exec_call_log pf _ w = []"

fun exec_calls_log ::
    "('s, 'h, 'app) platform \<Rightarrow> 'h api_call list \<Rightarrow> ('s, 'h, 'app) world \<Rightarrow> log_line list" where
  "exec_calls_log pf [] w = []"
| "exec_calls_log pf (c # cs) w =
     exec_call_log pf c w @ (case exec_call pf c w of None \<Rightarrow> [] | Some w1 \<Rightarrow> exec_calls_log pf cs w1)"

text \<open>A handler logs its own lines and makes its calls.\<close>

definition run_handler_log ::
    "('s, 'h, 'app) platform \<Rightarrow> log_line list \<Rightarrow> ('app \<Rightarrow> 'app \<times> 'h api_call list \<times> handler_error)
       \<Rightarrow> ('s, 'h, 'app) world \<Rightarrow> log_line list" where
  "run_handler_log pf own h w =
     (let (app, calls, hres) = h (w_app w) in own @ exec_calls_log pf calls (w\<lparr>w_app := app\<rparr>))"

definition call_message_handler_log ::
    "('s, 'h, 'app) platform \<Rightarrow> ('h, 'app) handler_lines \<Rightarrow> byte \<Rightarrow> byte list \<Rightarrow> ('s, 'h, 'app) world \<Rightarrow> log_line list" where
  "call_message_handler_log pf hl ty data w =
     (let p = w_protocol w
      in case find_handler (pr_message_handlers_map p) ty (pr_default_message_handler p) of
           Some h \<Rightarrow> run_handler_log pf (hl_message hl h ty data (w_app w)) (pf_message pf h ty data) w
         | None \<Rightarrow> run_handler_log pf [unsupported_message_line ty data] (default_message_handler ty data) w)"

definition call_answer_handler_log ::
    "('s, 'h, 'app) platform \<Rightarrow> ('h, 'app) handler_lines \<Rightarrow> byte \<Rightarrow> byte \<Rightarrow> byte list \<Rightarrow> ('s, 'h, 'app) world \<Rightarrow> log_line list" where
  "call_answer_handler_log pf hl request ty data w =
     (let p = w_protocol w
      in case find_handler (pr_answer_handlers_map p) request (pr_default_answer_handler p) of
           Some h \<Rightarrow> run_handler_log pf (hl_answer hl h request ty data (w_app w)) (pf_answer pf h request ty data) w
         | None \<Rightarrow> run_handler_log pf [unsupported_answer_line request ty data] (default_answer_handler request ty data) w)"

definition call_timeout_handler_log ::
    "('s, 'h, 'app) platform \<Rightarrow> ('h, 'app) handler_lines \<Rightarrow> byte \<Rightarrow> ('s, 'h, 'app) world \<Rightarrow> log_line list" where
  "call_timeout_handler_log pf hl request w =
     (let p = w_protocol w
      in case find_handler (pr_timeout_handlers_map p) request (pr_default_timeout_handler p) of
           Some h \<Rightarrow> run_handler_log pf (hl_timeout hl h request (w_app w)) (pf_timeout pf h request) w
         | None \<Rightarrow> run_handler_log pf [answer_timeout_line request] (default_timeout_handler request) w)"

definition idle_receive_log ::
    "('s, 'h, 'app) platform \<Rightarrow> ('h, 'app) handler_lines \<Rightarrow> ('s, 'h, 'app) world \<Rightarrow> log_line list" where
  "idle_receive_log pf hl w =
     (let t = pr_transport (w_protocol w); messagesCount = tr_available t;
          extra = (if messagesCount > 1 then [queue_size_line messagesCount] else []);
          t1 = (if messagesCount > 1 then tr_drop (messagesCount - 1) t else t)
      in case tr_pop t1 of
           (None, t2) \<Rightarrow> extra
         | (Some tf, t2) \<Rightarrow>
             (let msg_type = f_type (tf_frame tf); data = frame_data (tf_frame tf);
                  w1 = on_protocol (\<lambda>p. p\<lparr>pr_transport := t2,
                         pr_incoming_message_crc_status := f_use_crc (tf_frame tf),
                         pr_processing_message := True, pr_answer_sent := False\<rparr>) w
              in extra @ call_message_handler_log pf hl msg_type data w1 @
                 (case call_message_handler pf msg_type data w1 of
                    None \<Rightarrow> []
                  | Some (hres, w2) \<Rightarrow>
                      if hres \<noteq> HANDLER_OK then [message_error_line msg_type hres]
                      else if \<not> pr_answer_sent (w_protocol w2) then [no_answer_line msg_type] else [])))"

definition idle_send_log ::
    "('s, 'h, 'app) platform \<Rightarrow> millis \<Rightarrow> ('s, 'h, 'app) world \<Rightarrow> log_line list" where
  "idle_send_log pf now w =
     (let p = w_protocol w
      in case pr_outgoing_messages p of
           [] \<Rightarrow> []
         | msg # rest \<Rightarrow>
             if now \<ge> pr_cooldown_time_point p \<and> now \<ge> pr_retry_time_point p
             then if oi_number_of_retries msg > 0 then write_message_log pf (oi_message msg) (oi_use_crc msg) w else []
             else [])"

definition waiting_timeout_log ::
    "('s, 'h, 'app) platform \<Rightarrow> ('h, 'app) handler_lines \<Rightarrow> millis \<Rightarrow> ('s, 'h, 'app) world \<Rightarrow> log_line list" where
  "waiting_timeout_log pf hl now w =
     (case pr_outgoing_messages (w_protocol w) of
        [] \<Rightarrow> []
      | msg # rest \<Rightarrow>
          if oi_number_of_retries msg = 0
          then let w1 = on_protocol (\<lambda>p. p\<lparr>pr_outgoing_messages := rest, pr_retry_time_point := now\<rparr>) w;
                   request = pr_last_message_type (w_protocol w)
               in call_timeout_handler_log pf hl request w1 @
                  (case call_timeout_handler pf request w1 of
                     None \<Rightarrow> []
                   | Some (hres, w2) \<Rightarrow> if hres \<noteq> HANDLER_OK then [timeout_error_line request hres] else [])
          else [])"

definition waiting_answer_log ::
    "('s, 'h, 'app) platform \<Rightarrow> ('h, 'app) handler_lines \<Rightarrow> ('s, 'h, 'app) world \<Rightarrow> log_line list" where
  "waiting_answer_log pf hl w =
     (case tr_pop (pr_transport (w_protocol w)) of
        (None, t1) \<Rightarrow> []
      | (Some tf, t1) \<Rightarrow>
          (let request = pr_last_message_type (w_protocol w); msg_type = f_type (tf_frame tf); data = frame_data (tf_frame tf);
               w1 = on_protocol (\<lambda>p. p\<lparr>pr_transport := t1\<rparr>) w
           in call_answer_handler_log pf hl request msg_type data w1 @
              (case call_answer_handler pf request msg_type data w1 of
                 None \<Rightarrow> []
               | Some (hres, w2) \<Rightarrow>
                   if hres \<noteq> HANDLER_OK then [answer_error_line (pr_last_message_type (w_protocol w2)) msg_type hres] else [])))"

definition dispatch_log ::
    "('s, 'h, 'app) platform \<Rightarrow> ('h, 'app) handler_lines \<Rightarrow> millis \<Rightarrow> ('s, 'h, 'app) world \<Rightarrow> log_line list" where
  "dispatch_log pf hl now w =
     (case pr_state (w_protocol w) of
        IDLE \<Rightarrow> idle_receive_log pf hl w @
          (case idle_receive pf w of None \<Rightarrow> [] | Some w1 \<Rightarrow> idle_send_log pf now w1)
      | WAITING_FOR_ANSWER \<Rightarrow>
          if now > pr_answer_time_point (w_protocol w) then waiting_timeout_log pf hl now w
          else if tr_available (pr_transport (w_protocol w)) > 0 then waiting_answer_log pf hl w else [])"

definition loop_log ::
    "('s, 'h, 'app) platform \<Rightarrow> ('h, 'app) handler_lines \<Rightarrow> ('s, 'h, 'app) world \<Rightarrow> log_line list" where
  "loop_log pf hl w =
     (let now = pf_clock pf (w_tick w);
          (_, t1, s1) = tr_read_data (pf_ops pf) (pr_transport (w_protocol w)) (w_stream w)
      in tr_read_data_log (pf_ops pf) (pr_transport (w_protocol w)) (w_stream w) @
         (case process_data_log now t1 of None \<Rightarrow> [] | Some lines \<Rightarrow> lines) @
         (case process_data now t1 of
            None \<Rightarrow> []
          | Some t2 \<Rightarrow> dispatch_log pf hl now
              (snd (read_clock pf (w\<lparr>w_stream := s1, w_protocol := (w_protocol w)\<lparr>pr_transport := t2\<rparr>\<rparr>)))))"

section \<open>Receiving\<close>

text \<open>Whole frames are received without a line.\<close>

lemma receive_loop_log:
  assumes pf: "pf_ops pf = get_stream_reference dir"
    and t: "settled (pr_transport (w_protocol w)) (Search [])" "tr_incoming_queue (pr_transport (w_protocol w)) = []"
    and s: "vs_inv (w_stream w)" "cb_list (vs_rx dir (w_stream w)) = concat (map wire fs)"
    and fs: "\<forall>f \<in> set fs. frame_ok f" "length (concat (map wire fs)) \<le> cb_capacity (tr_buffer (pr_transport (w_protocol w)))"
  obtains t' s' where "loop pf w = dispatch pf (pf_clock pf (w_tick w)) (ticked t' s' w)"
    "loop_log pf hl w = dispatch_log pf hl (pf_clock pf (w_tick w)) (ticked t' s' w)"
    "settled t' (Search [])" "map tf_frame (tr_incoming_queue t') = fs"
    "cb_capacity (tr_buffer t') = cb_capacity (tr_buffer (pr_transport (w_protocol w)))"
    "vs_inv s'" "cb_list (vs_rx dir s') = []" "cb_list (vs_tx dir s') = cb_list (vs_tx dir (w_stream w))"
proof (rule received_frames [OF assms])
  fix t1 t' s'
  assume rd: "tr_read_data (pf_ops pf) (pr_transport (w_protocol w)) (w_stream w) = (length (concat (map wire fs)), t1, s')"
    "process_data (pf_clock pf (w_tick w)) t1 = Some t'"
    and un: "handler t1 (Search [])" "unread t1 = concat (map wire fs)"
    and rest: "settled t' (Search [])" "map tf_frame (tr_incoming_queue t') = fs"
    "cb_capacity (tr_buffer t') = cb_capacity (tr_buffer (pr_transport (w_protocol w)))"
    "vs_inv s'" "cb_list (vs_rx dir s') = []" "cb_list (vs_tx dir s') = cb_list (vs_tx dir (w_stream w))"
  have "tr_read_data_log (pf_ops pf) (pr_transport (w_protocol w)) (w_stream w) = []"
    using virtual.read_data_reports [OF s(1), of _ "Search []" dir] t(1) by (simp add: settled_def pf)
  moreover have "process_data_log (pf_clock pf (w_tick w)) t1 = Some []"
    using process_data_reports [OF un(1)] un(2) wires_errors [OF fs(1)] by simp
  ultimately have "loop_log pf hl w = dispatch_log pf hl (pf_clock pf (w_tick w)) (ticked t' s' w)"
    using rd by (simp add: loop_log_def read_clock_def ticked_def)
  then show ?thesis
    using that [OF loop_eq [OF rd] _ rest] by blast
qed

lemma idle_receive_log_empty: "tr_incoming_queue (pr_transport (w_protocol w)) = [] \<Longrightarrow> idle_receive_log pf hl w = []"
  by (simp add: idle_receive_log_def tr_available_def tr_pop_def)

lemma idle_send_log_waits:
  "pr_outgoing_messages (w_protocol w) = [] \<or> now < pr_cooldown_time_point (w_protocol w) \<Longrightarrow> idle_send_log pf now w = []"
  by (auto simp: idle_send_log_def Let_def split: list.split)

section \<open>One received frame\<close>

definition message_lines ::
    "('h, 'app) handler_lines \<Rightarrow> 'h protocol \<Rightarrow> byte \<Rightarrow> byte list \<Rightarrow> 'app \<Rightarrow> log_line list" where
  "message_lines hl p ty data app = (case find_handler (pr_message_handlers_map p) ty (pr_default_message_handler p) of
     Some h \<Rightarrow> hl_message hl h ty data app | None \<Rightarrow> [unsupported_message_line ty data])"

lemma call_message_handler_log_eq:
  "call_message_handler_log pf hl ty data w
    = run_handler_log pf (message_lines hl (w_protocol w) ty data (w_app w)) (message_run pf (w_protocol w) ty data) w"
  by (simp add: call_message_handler_log_def message_lines_def message_run_def Let_def split: option.split)

lemma message_lines_cong:
  "pr_message_handlers_map p' = pr_message_handlers_map p \<Longrightarrow> pr_default_message_handler p' = pr_default_message_handler p
    \<Longrightarrow> message_lines hl p' = message_lines hl p"
  by (intro ext) (simp add: message_lines_def)

text \<open>Idle, with frames in the queue: the lines about the older ones, those of the handler and of its calls,
  then one line if the handler failed or left the frame unanswered.\<close>

definition outcome_lines :: "byte \<Rightarrow> handler_error \<Rightarrow> bool \<Rightarrow> log_line list" where
  "outcome_lines ty err sent =
     (if err \<noteq> HANDLER_OK then [message_error_line ty err] else if \<not> sent then [no_answer_line ty] else [])"

lemma dispatch_message_log:
  assumes "pr_state (w_protocol w) = IDLE"
    and q: "tr_incoming_queue (pr_transport (w_protocol w)) = older @ [tf]"
    and run: "message_run pf (w_protocol w) (f_type (tf_frame tf)) (frame_data (tf_frame tf)) (w_app w) = (app', calls, err)"
  defines "w0 \<equiv> (accepted (tf_frame tf) w)\<lparr>w_app := app'\<rparr>"
  assumes calls: "exec_calls pf calls w0 = Some w2"
  shows "dispatch_log pf hl now w =
      (if older \<noteq> [] then [queue_size_line (Suc (length older))] else [])
      @ message_lines hl (w_protocol w) (f_type (tf_frame tf)) (frame_data (tf_frame tf)) (w_app w)
      @ exec_calls_log pf calls w0 @ outcome_lines (f_type (tf_frame tf)) err (pr_answer_sent (w_protocol w2))
      @ idle_send_log pf now (on_protocol (\<lambda>p. p\<lparr>pr_processing_message := False\<rparr>) w2)"
proof -
  let ?ty = "f_type (tf_frame tf)" and ?d = "frame_data (tf_frame tf)" and ?t = "pr_transport (w_protocol w)"
  have drop: "(if tr_available ?t > 1 then tr_drop (tr_available ?t - 1) ?t else ?t) = ?t\<lparr>tr_incoming_queue := [tf]\<rparr>"
    using q by (auto simp: tr_available_def tr_drop_eq)
  have app: "w_app (accepted (tf_frame tf) w) = w_app w" by (simp add: accepted_def)
  have lines: "message_lines hl (w_protocol (accepted (tf_frame tf) w)) = message_lines hl (w_protocol w)"
    by (rule message_lines_cong) (simp_all add: accepted_def)
  have call: "call_message_handler pf ?ty ?d (accepted (tf_frame tf) w) = Some (err, w2)"
    using run calls app by (simp add: call_message_handler_eq run_handler_def w0_def)
  have "call_message_handler_log pf hl ?ty ?d (accepted (tf_frame tf) w)
      = message_lines hl (w_protocol w) ?ty ?d (w_app w) @ exec_calls_log pf calls w0"
    using run app lines by (simp add: call_message_handler_log_eq run_handler_log_def w0_def)
  moreover have "tr_pop (?t\<lparr>tr_incoming_queue := [tf]\<rparr>) = (Some tf, ?t\<lparr>tr_incoming_queue := []\<rparr>)"
    by (simp add: tr_pop_def)
  moreover have "on_protocol (\<lambda>p. p\<lparr>pr_transport := ?t\<lparr>tr_incoming_queue := []\<rparr>, pr_incoming_message_crc_status := f_use_crc (tf_frame tf),
      pr_processing_message := True, pr_answer_sent := False\<rparr>) w = accepted (tf_frame tf) w"
    by (simp add: accepted_def on_protocol_def)
  ultimately have "idle_receive_log pf hl w = (if older \<noteq> [] then [queue_size_line (Suc (length older))] else [])
      @ message_lines hl (w_protocol w) ?ty ?d (w_app w) @ exec_calls_log pf calls w0
      @ outcome_lines ?ty err (pr_answer_sent (w_protocol w2))"
    unfolding idle_receive_log_def Let_def drop using q call by (simp add: tr_available_def outcome_lines_def)
  moreover have "idle_receive pf w = Some (on_protocol (\<lambda>p. p\<lparr>pr_processing_message := False\<rparr>) w2)"
    using idle_receive_frame [of w pf] q call by simp
  ultimately show ?thesis
    using assms(1) by (simp add: dispatch_log_def)
qed

text \<open>Waiting: the lines of the answer handler, and one if it failed.\<close>

definition answer_lines ::
    "('h, 'app) handler_lines \<Rightarrow> 'h protocol \<Rightarrow> byte \<Rightarrow> byte \<Rightarrow> byte list \<Rightarrow> 'app \<Rightarrow> log_line list" where
  "answer_lines hl p request ty data app = (case find_handler (pr_answer_handlers_map p) request (pr_default_answer_handler p) of
     Some h \<Rightarrow> hl_answer hl h request ty data app | None \<Rightarrow> [unsupported_answer_line request ty data])"

lemma dispatch_answer_log:
  assumes "pr_state (w_protocol w) = WAITING_FOR_ANSWER" "now \<le> pr_answer_time_point (w_protocol w)"
    and "tr_incoming_queue (pr_transport (w_protocol w)) = tf # later"
    and "find_handler (pr_answer_handlers_map (w_protocol w)) (pr_last_message_type (w_protocol w))
           (pr_default_answer_handler (w_protocol w)) = Some h"
    and "pf_answer pf h (pr_last_message_type (w_protocol w)) (f_type (tf_frame tf)) (frame_data (tf_frame tf)) (w_app w)
           = (app', [], err)"
  shows "dispatch_log pf hl now w =
      hl_answer hl h (pr_last_message_type (w_protocol w)) (f_type (tf_frame tf)) (frame_data (tf_frame tf)) (w_app w)
      @ (if err \<noteq> HANDLER_OK then [answer_error_line (pr_last_message_type (w_protocol w)) (f_type (tf_frame tf)) err] else [])"
  using assms by (simp add: dispatch_log_def tr_available_def waiting_answer_log_def tr_pop_def call_answer_handler_log_def
      call_answer_handler_def run_handler_log_def run_handler_def Let_def)

section \<open>The loops of an exchange\<close>

lemma rest_loop_log:
  assumes "pf_ops pf = get_stream_reference dir"
    and v: "at_rest (w_protocol v)" "vs_inv (w_stream v)" "cb_list (vs_rx dir (w_stream v)) = []"
  shows "loop_log pf hl v = []"
proof -
  have r: "settled (pr_transport (w_protocol v)) (Search [])" "tr_incoming_queue (pr_transport (w_protocol v)) = []"
    "pr_state (w_protocol v) = IDLE" "pr_outgoing_messages (w_protocol v) = []"
    using v(1) by (simp_all add: at_rest_def)
  show ?thesis
  proof (rule receive_loop_log [OF assms(1) r(1,2) v(2), of "[]" hl])
    fix t s
    assume "loop_log pf hl v = dispatch_log pf hl (pf_clock pf (w_tick v)) (ticked t s v)" "map tf_frame (tr_incoming_queue t) = []"
    then show ?thesis
      using r(3,4) by (simp add: dispatch_log_def idle_receive_log_empty idle_receive_empty idle_send_log_def)
  qed (use v(3) in simp_all)
qed

lemma send_loop_log:
  assumes pf: "pf_ops pf = get_stream_reference dir" "allocates (pf_new pf)"
    and w: "quiet dir w" "pr_state (w_protocol w) = IDLE" "pr_outgoing_messages (w_protocol w) = [item]"
    and item: "msg_ok (oi_message item)"
      "length (msg_payload (oi_message item)) \<le> MAX_DATA_SIZE" "length (wire (item_frame item)) < 256"
    and tx: "cb_list (vs_tx dir (w_stream w)) = []"
  shows "loop_log pf hl w = []"
proof -
  have q: "settled (pr_transport (w_protocol w)) (Search [])" "tr_incoming_queue (pr_transport (w_protocol w)) = []"
    "vs_inv (w_stream w)" "cb_list (vs_rx dir (w_stream w)) = []"
    using w(1) by (simp_all add: quiet_def)
  show ?thesis
  proof (rule receive_loop_log [OF pf(1) q(1,2,3), of "[]" hl])
    fix t s
    assume l: "loop_log pf hl w = dispatch_log pf hl (pf_clock pf (w_tick w)) (ticked t s w)" "map tf_frame (tr_incoming_queue t) = []"
      "vs_inv s" "cb_list (vs_tx dir s) = cb_list (vs_tx dir (w_stream w))"
    have "cb_get_space (vs_tx dir s) = BUFFER_SIZE"
      using l(3,4) tx by (simp add: cb_get_space_def flip: length_cb_list)
    then have space: "length (wire (item_frame item)) \<le> cb_get_space (vs_tx dir s)"
      using item(3) by simp
    have "write_message_log pf (oi_message item) (oi_use_crc item) (ticked t s w) = []"
      using sent_frame_written(1) [OF pf l(3) item(2), of "oi_use_crc item", folded item_frame_def, OF item(3) space]
      by (simp add: write_message_log_def write_message_eq [OF pf(2) item(1)])
    then show ?thesis
      using l(1,2) w(2,3) by (simp add: dispatch_log_def idle_receive_log_empty idle_receive_empty idle_send_log_def)
  qed (use q(4) in simp_all)
qed

lemma answer_loop_log:
  assumes pf: "pf_ops pf = get_stream_reference dir" "allocates (pf_new pf)"
    and v: "settled (pr_transport (w_protocol v)) (Search [])" "tr_incoming_queue (pr_transport (w_protocol v)) = []"
      "pr_state (w_protocol v) = IDLE" "pr_outgoing_messages (w_protocol v) = []"
    and s: "vs_inv (w_stream v)" "cb_list (vs_rx dir (w_stream v)) = wire f" "cb_list (vs_tx dir (w_stream v)) = []"
    and f: "frame_ok f" "length (wire f) \<le> cb_capacity (tr_buffer (pr_transport (w_protocol v)))"
    and h: "message_run pf (w_protocol v) (f_type f) (frame_data f) (w_app v) = (app', calls, err)" "answers (f_use_crc f) calls a u"
    and a: "msg_ok a" "length (msg_payload a) \<le> MAX_DATA_SIZE" "length (wire (message_frame a u)) < 256"
  shows "loop_log pf hl v = message_lines hl (w_protocol v) (f_type f) (frame_data f) (w_app v)
    @ (if err \<noteq> HANDLER_OK then [message_error_line (f_type f) err] else [])"
proof (rule receive_loop_log [OF pf(1) v(1,2) s(1), of "[f]" hl])
  fix t s'
  assume l: "loop_log pf hl v = dispatch_log pf hl (pf_clock pf (w_tick v)) (ticked t s' v)" "map tf_frame (tr_incoming_queue t) = [f]"
    "vs_inv s'" "cb_list (vs_tx dir s') = cb_list (vs_tx dir (w_stream v))"
  obtain tf where tf: "tr_incoming_queue t = [] @ [tf]" "tf_frame tf = f"
    using l(2) by auto
  have "cb_get_space (vs_tx dir s') = BUFFER_SIZE"
    using l(3,4) s(3) by (simp add: cb_get_space_def flip: length_cb_list)
  then have space: "length (wire (message_frame a u)) \<le> cb_get_space (vs_tx dir s')" using a(3) by simp
  note sent = sent_frame_written(1) [OF pf l(3) a(2), of u, folded message_frame_def, OF a(3) space]
  define w0 where "w0 = (accepted f (ticked t s' v))\<lparr>w_app := app'\<rparr>"
  have w0: "w_stream w0 = s'" "pr_processing_message (w_protocol w0)" "pr_incoming_message_crc_status (w_protocol w0) = f_use_crc f"
    "pr_outgoing_messages (w_protocol w0) = []"
    using v(4) by (simp_all add: w0_def accepted_def)
  define w2 where "w2 = on_protocol (\<lambda>p. p\<lparr>pr_answer_sent := True\<rparr>) (after_write pf (snd (sent_frame pf a u s')) w0)"
  have wrote: "write_message pf a u w0 = Some (True, after_write pf (snd (sent_frame pf a u s')) w0)"
    using sent w0(1) by (simp add: write_message_eq [OF pf(2) a(1)])
  have calls: "exec_calls pf calls w0 = Some w2" "exec_calls_log pf calls w0 = []"
    using h(2) w0 wrote unfolding answers_def
    by (elim disjE conjE; simp add: send_answer_def send_answer_crc_def send_answer_crc_log_def write_message_log_def w2_def)+
  have cong: "message_run pf (w_protocol (ticked t s' v)) = message_run pf (w_protocol v)"
    "message_lines hl (w_protocol (ticked t s' v)) = message_lines hl (w_protocol v)"
    by (rule message_run_cong message_lines_cong; simp)+
  have "idle_send_log pf (pf_clock pf (w_tick v)) (on_protocol (\<lambda>p. p\<lparr>pr_processing_message := False\<rparr>) w2) = []"
    using w0(4) by (intro idle_send_log_waits) (simp add: w2_def)
  then show ?thesis
    using dispatch_message_log [of "ticked t s' v" "[]" tf pf app' calls err w2 hl "pf_clock pf (w_tick v)"] v(3) tf h(1) calls cong l(1)
    by (simp add: w0_def [symmetric] outcome_lines_def) (simp add: w2_def)
qed (use s(2) f in simp_all)

lemma message_loop_log:
  assumes pf: "pf_ops pf = get_stream_reference dir"
    and v: "at_rest (w_protocol v)"
    and s: "vs_inv (w_stream v)" "cb_list (vs_rx dir (w_stream v)) = wire f"
    and f: "frame_ok f" "length (wire f) \<le> cb_capacity (tr_buffer (pr_transport (w_protocol v)))"
    and h: "message_run pf (w_protocol v) (f_type f) (frame_data f) (w_app v) = (app', calls, err)" "calls = [] \<or> calls = [No_Answer]"
  shows "loop_log pf hl v = message_lines hl (w_protocol v) (f_type f) (frame_data f) (w_app v)
    @ outcome_lines (f_type f) err (calls = [No_Answer])"
proof -
  have rest: "settled (pr_transport (w_protocol v)) (Search [])" "tr_incoming_queue (pr_transport (w_protocol v)) = []"
    "pr_state (w_protocol v) = IDLE" "pr_outgoing_messages (w_protocol v) = []"
    using v by (simp_all add: at_rest_def)
  show ?thesis
  proof (rule receive_loop_log [OF pf rest(1,2) s(1), of "[f]" hl])
    fix t s'
    assume l: "loop_log pf hl v = dispatch_log pf hl (pf_clock pf (w_tick v)) (ticked t s' v)" "map tf_frame (tr_incoming_queue t) = [f]"
    obtain tf where tf: "tr_incoming_queue t = [] @ [tf]" "tf_frame tf = f"
      using l(2) by auto
    define w0 where "w0 = (accepted f (ticked t s' v))\<lparr>w_app := app'\<rparr>"
    define w2 where "w2 = (if calls = [] then w0 else on_protocol (\<lambda>p. p\<lparr>pr_answer_sent := True\<rparr>) w0)"
    have calls: "exec_calls pf calls w0 = Some w2" "exec_calls_log pf calls w0 = []"
      using h(2) by (auto simp: w2_def w0_def no_answer_def accepted_def)
    have cong: "message_run pf (w_protocol (ticked t s' v)) = message_run pf (w_protocol v)"
      "message_lines hl (w_protocol (ticked t s' v)) = message_lines hl (w_protocol v)"
      by (rule message_run_cong message_lines_cong; simp)+
    have sent: "pr_answer_sent (w_protocol w2) = (calls = [No_Answer])"
      using h(2) by (auto simp: w2_def w0_def accepted_def)
    have "idle_send_log pf (pf_clock pf (w_tick v)) (on_protocol (\<lambda>p. p\<lparr>pr_processing_message := False\<rparr>) w2) = []"
      using rest(4) by (intro idle_send_log_waits) (simp add: w2_def w0_def accepted_def)
    then show ?thesis
      using dispatch_message_log [of "ticked t s' v" "[]" tf pf app' calls err w2 hl "pf_clock pf (w_tick v)"] rest(3) tf h(1) calls cong l(1) sent
      by (simp add: w0_def [symmetric])
  qed (use s(2) f in simp_all)
qed

lemma answered_loop_log:
  assumes pf: "pf_ops pf = get_stream_reference dir"
    and w: "settled (pr_transport (w_protocol w)) (Search [])" "tr_incoming_queue (pr_transport (w_protocol w)) = []"
      "pr_state (w_protocol w) = WAITING_FOR_ANSWER" "pf_clock pf (w_tick w) \<le> pr_answer_time_point (w_protocol w)"
    and s: "vs_inv (w_stream w)" "cb_list (vs_rx dir (w_stream w)) = wire f"
    and f: "frame_ok f" "length (wire f) \<le> cb_capacity (tr_buffer (pr_transport (w_protocol w)))"
    and k: "find_handler (pr_answer_handlers_map (w_protocol w)) (pr_last_message_type (w_protocol w))
           (pr_default_answer_handler (w_protocol w)) = Some k"
      "pf_answer pf k (pr_last_message_type (w_protocol w)) (f_type f) (frame_data f) (w_app w) = (app', [], err)"
  shows "loop_log pf hl w = hl_answer hl k (pr_last_message_type (w_protocol w)) (f_type f) (frame_data f) (w_app w)
    @ (if err \<noteq> HANDLER_OK then [answer_error_line (pr_last_message_type (w_protocol w)) (f_type f) err] else [])"
proof (rule receive_loop_log [OF pf w(1,2) s(1), of "[f]" hl])
  fix t s'
  assume l: "loop_log pf hl w = dispatch_log pf hl (pf_clock pf (w_tick w)) (ticked t s' w)" "map tf_frame (tr_incoming_queue t) = [f]"
  obtain tf where tf: "tr_incoming_queue t = [tf]" "tf_frame tf = f"
    using l(2) by auto
  then show ?thesis
    using dispatch_answer_log [of "ticked t s' w" "pf_clock pf (w_tick w)" tf "[]" k pf app' err hl] w(3,4) k l(1) by simp
qed (use s(2) f in simp_all)

end
