(* ===== verification/Session_Log.thy ===== *)
theory Session_Log
  imports Protocol_Session Protocol_Log
begin

text \<open>
  Sessions of a client and a server together with the warnings and errors both sides log: a test script is a
  list of requests and of calls of the two loops. A request that is answered, one that comes back as a message of its
  own, and one the server does not support are followed through their calls of the loop with every line.
\<close>

section \<open>Scripts\<close>

text \<open>One call of the client's loop and one of the server's, both on the same stream.\<close>

definition both_loops ::
    "(virtual_stream_holder, 'h, 'a) platform \<Rightarrow> (virtual_stream_holder, 'k, 'b) platform
      \<Rightarrow> ('h, 'a) handler_lines \<Rightarrow> ('k, 'b) handler_lines
      \<Rightarrow> (virtual_stream_holder, 'h, 'a) world \<times> (virtual_stream_holder, 'k, 'b) world
      \<Rightarrow> (((virtual_stream_holder, 'h, 'a) world \<times> (virtual_stream_holder, 'k, 'b) world) \<times> log_line list) option" where
  "both_loops client server hc hs = (\<lambda>(w, v).
     do {
       w1 \<leftarrow> loop client w;
       let v0 = v\<lparr>w_stream := w_stream w1\<rparr>;
       v1 \<leftarrow> loop server v0;
       Some ((w1\<lparr>w_stream := w_stream v1\<rparr>, v1), loop_log client hc w @ loop_log server hs v0)
     })"

text \<open>The steps of a test: \<open>send_message\<close> and \<open>send_message_without_answer\<close> of the client, the loops, and a look at the server's
  application state that may log.\<close>

datatype 'b script_step =
    Request haier_message bool byte millis
  | Notice haier_message bool
  | Both_Loops
  | Look "'b \<Rightarrow> log_line list"

fun run_step ::
    "(virtual_stream_holder, 'h, 'a) platform \<Rightarrow> (virtual_stream_holder, 'k, 'b) platform
      \<Rightarrow> ('h, 'a) handler_lines \<Rightarrow> ('k, 'b) handler_lines \<Rightarrow> 'b script_step
      \<Rightarrow> (virtual_stream_holder, 'h, 'a) world \<times> (virtual_stream_holder, 'k, 'b) world
      \<Rightarrow> (((virtual_stream_holder, 'h, 'a) world \<times> (virtual_stream_holder, 'k, 'b) world) \<times> log_line list) option" where
  "run_step client server hc hs (Request m crc n i) (w, v) = map_option (\<lambda>w1. ((w1, v), [])) (send_message m crc n i w)"
| "run_step client server hc hs (Notice m crc) (w, v) = map_option (\<lambda>w1. ((w1, v), [])) (send_message_without_answer m crc w)"
| "run_step client server hc hs Both_Loops s = both_loops client server hc hs s"
| "run_step client server hc hs (Look f) (w, v) = Some ((w, v), f (w_app v))"

fun run_script ::
    "(virtual_stream_holder, 'h, 'a) platform \<Rightarrow> (virtual_stream_holder, 'k, 'b) platform
      \<Rightarrow> ('h, 'a) handler_lines \<Rightarrow> ('k, 'b) handler_lines \<Rightarrow> 'b script_step list
      \<Rightarrow> (virtual_stream_holder, 'h, 'a) world \<times> (virtual_stream_holder, 'k, 'b) world
      \<Rightarrow> (((virtual_stream_holder, 'h, 'a) world \<times> (virtual_stream_holder, 'k, 'b) world) \<times> log_line list) option" where
  "run_script client server hc hs [] s = Some (s, [])"
| "run_script client server hc hs (step # steps) s =
     do {
       (s1, lines) \<leftarrow> run_step client server hc hs step s;
       (s2, rest) \<leftarrow> run_script client server hc hs steps s1;
       Some (s2, lines @ rest)
     }"

lemma run_script_append:
  "run_script client server hc hs xs s = Some (s1, l1) \<Longrightarrow> run_script client server hc hs ys s1 = Some (s2, l2)
    \<Longrightarrow> run_script client server hc hs (xs @ ys) s = Some (s2, l1 @ l2)"
proof (induction xs arbitrary: s l1)
  case (Cons x xs)
  obtain s' l l' where "run_step client server hc hs x s = Some (s', l)" "run_script client server hc hs xs s' = Some (s1, l')" "l1 = l @ l'"
    using Cons.prems(1) by (auto simp: bind_eq_Some_conv)
  with Cons.IH [of s' l'] Cons.prems(2) show ?case by simp
qed simp

text \<open>The tests of a program with the numbers given to \<^verbatim>\<open>TEST_END\<close>: the lines of each. On a console such a test
  passes or ends the program.\<close>

fun run_tests ::
    "(virtual_stream_holder, 'h, 'a) platform \<Rightarrow> (virtual_stream_holder, 'k, 'b) platform
      \<Rightarrow> ('h, 'a) handler_lines \<Rightarrow> ('k, 'b) handler_lines \<Rightarrow> ('b script_step list \<times> nat \<times> nat) list
      \<Rightarrow> (virtual_stream_holder, 'h, 'a) world \<times> (virtual_stream_holder, 'k, 'b) world
      \<Rightarrow> (((virtual_stream_holder, 'h, 'a) world \<times> (virtual_stream_holder, 'k, 'b) world) \<times> (log_line list \<times> nat \<times> nat) list) option" where
  "run_tests client server hc hs [] s = Some (s, [])"
| "run_tests client server hc hs ((steps, warn, err) # tests) s =
     do {
       (s1, lines) \<leftarrow> run_script client server hc hs steps s;
       (s2, rest) \<leftarrow> run_tests client server hc hs tests s1;
       Some (s2, (lines, warn, err) # rest)
     }"

lemma run_tests_both:
  "run_tests client server hc hs (xs @ ys) s =
     do { (s1, r1) \<leftarrow> run_tests client server hc hs xs s; (s2, r2) \<leftarrow> run_tests client server hc hs ys s1; Some (s2, r1 @ r2) }"
proof (induction xs arbitrary: s)
  case Nil
  then show ?case by (cases "run_tests client server hc hs ys s") simp_all
next
  case (Cons x xs)
  obtain steps warn err where x: "x = (steps, warn, err)" by (cases x)
  show ?case by (cases "run_script client server hc hs steps s") (auto simp: x Cons.IH split: bind_splits)
qed

lemma run_tests_append:
  "run_tests client server hc hs xs s = Some (s1, r1) \<Longrightarrow> run_tests client server hc hs ys s1 = Some (s2, r2)
    \<Longrightarrow> run_tests client server hc hs (xs @ ys) s = Some (s2, r1 @ r2)"
  by (simp add: run_tests_both)

definition test_passes :: "nat \<Rightarrow> local_time \<Rightarrow> string \<Rightarrow> log_line list \<times> nat \<times> nat \<Rightarrow> 'l logger \<times> console \<Rightarrow> bool" where
  "test_passes lv now number = (\<lambda>(lines, warn, err) c.
     (case TEST_START lv now number c of
        None \<Rightarrow> False
      | Some (start, c1) \<Rightarrow> (case log_statements lv (map (Pair now) lines) c1 of
          None \<Rightarrow> False | Some c2 \<Rightarrow> TEST_END start warn err (snd c2))))"

text \<open>The lines at a level.\<close>

definition lines_at :: "haier_log_level \<Rightarrow> log_line list \<Rightarrow> log_line list" where
  "lines_at level lines = filter (\<lambda>l. fst l = level) lines"

lemma lines_at_simps [simp]:
  "lines_at level [] = []" "lines_at level (l # ls) = (if fst l = level then l # lines_at level ls else lines_at level ls)"
  "lines_at level (xs @ ys) = lines_at level xs @ lines_at level ys"
  by (simp_all add: lines_at_def)

lemma test_passes_count:
  assumes "log_ready c" "time_ok now" "\<forall>(level, txt) \<in> set lines. plain_text txt" "lv > 1" "plain_text number"
    and "length (lines_at LEVEL_WARNING lines) = warn" "length (lines_at LEVEL_ERROR lines) = err"
  shows "test_passes lv now number (lines, warn, err) c"
proof -
  let ?es = "map (Pair now) lines"
  have "logged_at lv level ?es = length (lines_at level lines)" if "level = LEVEL_WARNING \<or> level = LEVEL_ERROR" for level
  proof -
    have "filter (\<lambda>(n, l, txt). macro_enabled lv l \<and> l = level) ?es = map (Pair now) (lines_at level lines)"
      using assms(4) that by (induction lines) (auto simp: macro_enabled_def)
    then show ?thesis by (simp add: logged_at_def)
  qed
  then have n: "warn = logged_at lv LEVEL_WARNING ?es" "err = logged_at lv LEVEL_ERROR ?es"
    using assms(6,7) by simp_all
  have "\<forall>(t, level, txt) \<in> set ?es. time_ok t \<and> plain_text txt"
    using assms(2,3) by auto
  from logged_session [OF assms(1) this assms(2,5), of lv warn err] show ?thesis
    using n by (auto simp: test_passes_def)
qed

text \<open>Two calls of both loops are \<open>CLIENT_SERVER_LOOP\<close>.\<close>

lemma CLIENT_SERVER_LOOP_both:
  "CLIENT_SERVER_LOOP client server s =
     do { (s1, _) \<leftarrow> both_loops client server hc hs s; (s2, _) \<leftarrow> both_loops client server hc hs s1; Some s2 }"
  by (cases s) (simp add: CLIENT_SERVER_LOOP_def both_loops_def Let_def split: Option.bind_splits)

section \<open>Calls of the loop with nothing to do\<close>

lemma rest_both:
  assumes "pf_ops client = get_stream_reference dir" "pf_ops server = get_stream_reference (other_end dir)"
    and s: "connected dir (w, v)"
  shows "\<exists>w' v'. both_loops client server hc hs (w, v) = Some ((w', v'), []) \<and> connected dir (w', v')
    \<and> w_app w' = w_app w \<and> w_app v' = w_app v \<and> same_setup (w_protocol w) (w_protocol w') \<and> same_setup (w_protocol v) (w_protocol v')
    \<and> w_tick w' = Suc (w_tick w) \<and> pr_cooldown_time_point (w_protocol w') = pr_cooldown_time_point (w_protocol w)
    \<and> pr_retry_time_point (w_protocol w') = pr_retry_time_point (w_protocol w)"
proof -
  have s': "at_rest (w_protocol w)" "at_rest (w_protocol v)" "vs_inv (w_stream w)" "cb_list (vs_rx dir (w_stream w)) = []"
    "cb_list (vs_tx dir (w_stream w)) = []"
    using s by (simp_all add: connected_def)
  obtain w1 where w1: "loop client w = Some w1" "at_rest (w_protocol w1)" "same_setup (w_protocol w) (w_protocol w1)" "w_app w1 = w_app w"
    "vs_inv (w_stream w1)" "cb_list (vs_rx dir (w_stream w1)) = []" "cb_list (vs_tx dir (w_stream w1)) = []" "w_tick w1 = Suc (w_tick w)"
    "pr_cooldown_time_point (w_protocol w1) = pr_cooldown_time_point (w_protocol w)"
    "pr_retry_time_point (w_protocol w1) = pr_retry_time_point (w_protocol w)"
    using rest_loop [OF assms(1) s'(1,3,4)] s'(5) by auto
  define v0 where "v0 = v\<lparr>w_stream := w_stream w1\<rparr>"
  have v0: "at_rest (w_protocol v0)" "vs_inv (w_stream v0)" "cb_list (vs_rx (other_end dir) (w_stream v0)) = []"
    using s'(2) w1(5,7) by (simp_all add: v0_def vs_crossed)
  obtain v1 where v1: "loop server v0 = Some v1" "at_rest (w_protocol v1)" "same_setup (w_protocol v) (w_protocol v1)" "w_app v1 = w_app v"
    "vs_inv (w_stream v1)" "cb_list (vs_tx dir (w_stream v1)) = []" "cb_list (vs_rx dir (w_stream v1)) = []"
    using rest_loop [OF assms(2) v0] w1(6) by (auto simp: v0_def vs_crossed vs_crossed_back)
  have "both_loops client server hc hs (w, v) = Some ((w1\<lparr>w_stream := w_stream v1\<rparr>, v1), [])"
    using w1(1) v1(1) rest_loop_log [OF assms(1) s'(1,3,4), of hc] rest_loop_log [OF assms(2) v0, of hs]
    by (simp add: both_loops_def v0_def [symmetric] Let_def)
  moreover have "connected dir (w1\<lparr>w_stream := w_stream v1\<rparr>, v1)"
    using w1(2,3) v1 s by (simp add: connected_def same_setup_def)
  ultimately show ?thesis
    using w1 v1 by (intro exI [of _ "w1\<lparr>w_stream := w_stream v1\<rparr>"] exI [of _ v1]) simp
qed

lemma rest_script:
  assumes "pf_ops client = get_stream_reference dir" "pf_ops server = get_stream_reference (other_end dir)"
    and "connected dir (w, v)"
  shows "\<exists>w' v'. run_script client server hc hs (replicate n Both_Loops) (w, v) = Some ((w', v'), []) \<and> connected dir (w', v')
    \<and> w_app w' = w_app w \<and> w_app v' = w_app v \<and> same_setup (w_protocol w) (w_protocol w') \<and> same_setup (w_protocol v) (w_protocol v')
    \<and> w_tick w' = w_tick w + n \<and> pr_cooldown_time_point (w_protocol w') = pr_cooldown_time_point (w_protocol w)
    \<and> pr_retry_time_point (w_protocol w') = pr_retry_time_point (w_protocol w)"
  using assms(3)
proof (induction n arbitrary: w v)
  case 0
  then show ?case by (simp add: same_setup_refl)
next
  case (Suc n)
  obtain w1 v1 where 1: "both_loops client server hc hs (w, v) = Some ((w1, v1), [])" "connected dir (w1, v1)"
    "w_app w1 = w_app w" "w_app v1 = w_app v" "same_setup (w_protocol w) (w_protocol w1)" "same_setup (w_protocol v) (w_protocol v1)"
    "w_tick w1 = Suc (w_tick w)" "pr_cooldown_time_point (w_protocol w1) = pr_cooldown_time_point (w_protocol w)"
    "pr_retry_time_point (w_protocol w1) = pr_retry_time_point (w_protocol w)"
    using rest_both [OF assms(1,2) Suc.prems] by blast
  then show ?case
    using Suc.IH [OF 1(2)] same_setup_trans [OF 1(5)] same_setup_trans [OF 1(6)] by auto
qed

section \<open>A request that is answered\<close>

text \<open>The four calls of the loop: the request goes out, the server's handler runs and answers, the client's answer handler runs, and
  the server has nothing to do.\<close>

lemma send_and_serve_logs:
  assumes A: "pf_ops client = get_stream_reference dir" "allocates (pf_new client)"
    and B: "pf_ops server = get_stream_reference (other_end dir)" "allocates (pf_new server)"
    and w: "quiet dir w" "pr_state (w_protocol w) = IDLE" "pr_outgoing_messages (w_protocol w) = [item]"
      "pr_cooldown_time_point (w_protocol w) \<le> pf_clock client (w_tick w)"
      "pr_retry_time_point (w_protocol w) \<le> pf_clock client (w_tick w)"
      "cb_list (vs_tx dir (w_stream w)) = []"
    and item: "msg_ok (oi_message item)" "0 < oi_number_of_retries item"
      "length (msg_payload (oi_message item)) \<le> MAX_DATA_SIZE"
      "length (wire (item_frame item)) < 256"
      "length (wire (item_frame item)) \<le> cb_capacity (tr_buffer (pr_transport (w_protocol v)))"
    and v: "settled (pr_transport (w_protocol v)) (Search [])" "tr_incoming_queue (pr_transport (w_protocol v)) = []"
      "pr_state (w_protocol v) = IDLE" "pr_outgoing_messages (w_protocol v) = []"
      "find_handler (pr_message_handlers_map (w_protocol v)) (m_frame_type (oi_message item))
         (pr_default_message_handler (w_protocol v)) = Some h"
      "pf_message server h (m_frame_type (oi_message item)) (msg_payload (oi_message item)) (w_app v) = (b', calls, err)"
      "answers (oi_use_crc item) calls a u"
    and a: "msg_ok a" "length (msg_payload a) \<le> MAX_DATA_SIZE" "length (wire (message_frame a u)) < 256"
    and l: "loop client w = Some wa" and kept: "oi_no_answer item \<longrightarrow> pf_popped_kept client"
  shows "loop_log client hc w = []"
    "loop_log server hs (v\<lparr>w_stream := w_stream wa\<rparr>)
      = hl_message hs h (m_frame_type (oi_message item)) (msg_payload (oi_message item)) (w_app v)
        @ (if err \<noteq> HANDLER_OK then [message_error_line (m_frame_type (oi_message item)) err] else [])"
proof -
  let ?f = "item_frame item"
  note f = message_frame_ok(1-4) [OF item(3), of "oi_use_crc item", folded message_frame_ok(5) [OF item(3), of item]]
  have s1: "vs_inv (w_stream wa)" "cb_list (vs_tx dir (w_stream wa)) = wire ?f" "cb_list (vs_rx dir (w_stream wa)) = []"
    using send_loop [OF A w(1-5) item(1-4) w(6) kept] l by auto
  have run: "message_run server (w_protocol (v\<lparr>w_stream := w_stream wa\<rparr>)) (f_type ?f) (frame_data ?f) (w_app (v\<lparr>w_stream := w_stream wa\<rparr>))
      = (b', calls, err)"
    "answers (f_use_crc ?f) calls a u"
    using v(5-7) f by (simp_all add: message_run_def)
  show "loop_log client hc w = []"
    by (rule send_loop_log [OF A w(1-3) item(1,3,4) w(6)])
  show "loop_log server hs (v\<lparr>w_stream := w_stream wa\<rparr>) = hl_message hs h (m_frame_type (oi_message item)) (msg_payload (oi_message item)) (w_app v)
      @ (if err \<noteq> HANDLER_OK then [message_error_line (m_frame_type (oi_message item)) err] else [])"
    using answer_loop_log [OF B, of "v\<lparr>w_stream := w_stream wa\<rparr>" ?f b' calls err a u hs, OF _ _ _ _ _ _ _ f(1) _ run a]
      v(1-5) s1 item(5) f(2,4) by (simp add: vs_crossed vs_crossed_back message_lines_def)
qed

lemma exchange_logs:
  assumes A: "pf_ops client = get_stream_reference dir" "allocates (pf_new client)"
    and B: "pf_ops server = get_stream_reference (other_end dir)" "allocates (pf_new server)"
    and w: "quiet dir w" "pr_state (w_protocol w) = IDLE" "pr_outgoing_messages (w_protocol w) = [item]"
      "pr_cooldown_time_point (w_protocol w) \<le> pf_clock client (w_tick w)"
      "pr_retry_time_point (w_protocol w) \<le> pf_clock client (w_tick w)"
      "cb_list (vs_tx dir (w_stream w)) = []"
    and item: "msg_ok (oi_message item)" "\<not> oi_no_answer item" "0 < oi_number_of_retries item"
      "length (msg_payload (oi_message item)) \<le> MAX_DATA_SIZE"
      "length (wire (item_frame item)) < 256"
      "length (wire (item_frame item)) \<le> cb_capacity (tr_buffer (pr_transport (w_protocol v)))"
    and v: "settled (pr_transport (w_protocol v)) (Search [])" "tr_incoming_queue (pr_transport (w_protocol v)) = []"
      "pr_state (w_protocol v) = IDLE" "pr_outgoing_messages (w_protocol v) = []"
      "find_handler (pr_message_handlers_map (w_protocol v)) (m_frame_type (oi_message item))
         (pr_default_message_handler (w_protocol v)) = Some h"
      "pf_message server h (m_frame_type (oi_message item)) (msg_payload (oi_message item)) (w_app v) = (b', calls, err)"
      "answers (oi_use_crc item) calls a u"
    and a: "msg_ok a" "length (msg_payload a) \<le> MAX_DATA_SIZE"
      "length (wire (new_frame (m_frame_type a) (msg_payload a) (of_nat (length (msg_payload a))) u)) < 256"
      "length (wire (new_frame (m_frame_type a) (msg_payload a) (of_nat (length (msg_payload a))) u))
         \<le> cb_capacity (tr_buffer (pr_transport (w_protocol w)))"
    and k: "find_handler (pr_answer_handlers_map (w_protocol w)) (m_frame_type (oi_message item))
         (pr_default_answer_handler (w_protocol w)) = Some k"
      "pf_answer client k (m_frame_type (oi_message item)) (m_frame_type a) (msg_payload a) (w_app w) = (a', [], err')"
      "pf_clock client (w_tick w + 2) \<le> pf_clock client (w_tick w) + pr_answer_timeout_interval (w_protocol w)"
  obtains wa va wb where "loop client w = Some wa" "loop server (v\<lparr>w_stream := w_stream wa\<rparr>) = Some va"
    "loop client (wa\<lparr>w_stream := w_stream va\<rparr>) = Some wb" "loop_log client hc w = []"
    "loop_log server hs (v\<lparr>w_stream := w_stream wa\<rparr>)
      = hl_message hs h (m_frame_type (oi_message item)) (msg_payload (oi_message item)) (w_app v)
        @ (if err \<noteq> HANDLER_OK then [message_error_line (m_frame_type (oi_message item)) err] else [])"
    "loop_log client hc (wa\<lparr>w_stream := w_stream va\<rparr>)
      = hl_answer hc k (m_frame_type (oi_message item)) (m_frame_type a) (msg_payload a) (w_app w)
        @ (if err' \<noteq> HANDLER_OK then [answer_error_line (m_frame_type (oi_message item)) (m_frame_type a) err'] else [])"
    "loop_log server hs (va\<lparr>w_stream := w_stream wb\<rparr>) = []"
proof -
  let ?f = "item_frame item" and ?ty = "m_frame_type (oi_message item)" and ?d = "msg_payload (oi_message item)"
  note g = message_frame_ok(1,2,4) [OF a(2), of u]
  note fold = message_frame_def [symmetric]
  obtain wb va where x: "exchange client server w v = Some (wb, va)" "at_rest (w_protocol va)" "vs_inv (w_stream wb)"
    "cb_list (vs_tx dir (w_stream wb)) = []"
    using exchange_answered [OF assms] by blast
  obtain wa where wa: "loop client w = Some wa" "loop server (v\<lparr>w_stream := w_stream wa\<rparr>) = Some va"
    "loop client (wa\<lparr>w_stream := w_stream va\<rparr>) = Some wb"
    using x(1) by (auto simp: exchange_def bind_eq_Some_conv)
  have s2: "pr_state (w_protocol wa) = WAITING_FOR_ANSWER"
    "pr_answer_time_point (w_protocol wa) = pf_clock client (w_tick w) + pr_answer_timeout_interval (w_protocol w)"
    "pr_last_message_type (w_protocol wa) = ?ty" "settled (pr_transport (w_protocol wa)) (Search [])"
    "tr_incoming_queue (pr_transport (w_protocol wa)) = []" "w_app wa = w_app w" "w_tick wa = w_tick w + 2"
    "same_setup (w_protocol w) (w_protocol wa)" "vs_inv (w_stream va)"
    "cb_list (vs_rx dir (w_stream va)) = wire (message_frame a u)" "cb_list (vs_tx dir (w_stream va)) = []"
    using send_and_serve [OF A B w item(1,3-6) v a(1,2) a(3) [unfolded fold]] wa item(2) by auto
  have kept: "oi_no_answer item \<longrightarrow> pf_popped_kept client" using item(2) by simp
  note l1 = send_and_serve_logs [OF A B w item(1,3-6) v a(1,2) a(3) [unfolded fold] wa(1) kept]
  have l3: "loop_log client hc (wa\<lparr>w_stream := w_stream va\<rparr>)
      = hl_answer hc k ?ty (m_frame_type a) (msg_payload a) (w_app w)
        @ (if err' \<noteq> HANDLER_OK then [answer_error_line ?ty (m_frame_type a) err'] else [])"
    using answered_loop_log [OF A(1), of "wa\<lparr>w_stream := w_stream va\<rparr>" "message_frame a u" k a' err' hc] s2 g k a(4) [unfolded fold]
    by (simp add: same_setup_def)
  have "loop_log server hs (va\<lparr>w_stream := w_stream wb\<rparr>) = []"
    using x(2-4) by (intro rest_loop_log [OF B(1)]) (simp_all add: vs_crossed)
  then show ?thesis using that [OF wa l1 l3] by blast
qed

text \<open>The lines of an answered request.\<close>

definition answered_lines ::
    "('h, 'a) handler_lines \<Rightarrow> ('k, 'b) handler_lines \<Rightarrow> 'h \<Rightarrow> 'k \<Rightarrow> haier_message \<Rightarrow> haier_message
      \<Rightarrow> handler_error \<Rightarrow> handler_error \<Rightarrow> 'a \<Rightarrow> 'b \<Rightarrow> log_line list" where
  "answered_lines hc hs l j m r err err' a b =
     hl_message hs j (m_frame_type m) (msg_payload m) b
     @ (if err \<noteq> HANDLER_OK then [message_error_line (m_frame_type m) err] else [])
     @ hl_answer hc l (m_frame_type m) (m_frame_type r) (msg_payload r) a
     @ (if err' \<noteq> HANDLER_OK then [answer_error_line (m_frame_type m) (m_frame_type r) err'] else [])"

lemma answered_script:
  assumes A: "pf_ops client = get_stream_reference dir" "allocates (pf_new client)"
    and B: "pf_ops server = get_stream_reference (other_end dir)" "allocates (pf_new server)"
    and s: "connected dir (w, v)" "free client w"
    and m: "msg_ok m" "length (msg_payload m) \<le> 100"
    and j: "find_handler (pr_message_handlers_map (w_protocol v)) (m_frame_type m) (pr_default_message_handler (w_protocol v)) = Some j"
      "pf_message server j (m_frame_type m) (msg_payload m) (w_app v) = (b', calls, err)" "answers crc calls r u"
    and r: "msg_ok r" "length (msg_payload r) \<le> 100"
    and l: "find_handler (pr_answer_handlers_map (w_protocol w)) (m_frame_type m) (pr_default_answer_handler (w_protocol w)) = Some l"
      "pf_answer client l (m_frame_type m) (m_frame_type r) (msg_payload r) (w_app w) = (a', [], err')"
    and time: "pf_clock client (w_tick w + 2) \<le> pf_clock client (w_tick w) + pr_answer_timeout_interval (w_protocol w)"
  shows "\<exists>w' v'. run_script client server hc hs [Request m crc n i, Both_Loops, Both_Loops] (w, v)
      = Some ((w', v'), answered_lines hc hs l j m r err err' (w_app w) (w_app v))
    \<and> w_app v' = b' \<and> w_app w' = a' \<and> connected dir (w', v')
    \<and> same_setup (w_protocol w) (w_protocol w') \<and> same_setup (w_protocol v) (w_protocol v') \<and> w_tick w' = w_tick w + 3
    \<and> pr_retry_time_point (w_protocol w') = pf_clock client (w_tick w + 2)
    \<and> pr_cooldown_time_point (w_protocol w') = pf_clock client (w_tick w + 1) + pr_cooldown_interval (w_protocol w)"
proof -
  obtain w1 w' v' where x: "send_message m crc n i w = Some w1" "CLIENT_SERVER_LOOP client server (w1, v) = Some (w', v')"
    "w_app v' = b'" "w_app w' = a'" "connected dir (w', v')"
    "same_setup (w_protocol w) (w_protocol w')" "same_setup (w_protocol v) (w_protocol v')" "w_tick w' = w_tick w + 3"
    "pr_retry_time_point (w_protocol w') = pf_clock client (w_tick w + 2)"
    "pr_cooldown_time_point (w_protocol w') = pf_clock client (w_tick w + 1) + pr_cooldown_interval (w_protocol w)"
    using answered_round [OF A B s m j r l time] by blast
  obtain w1' it where w1': "enqueue_message True m crc n i w = Some w1'" "w_app w1' = w_app w" "w_tick w1' = w_tick w"
    "same_setup (w_protocol w) (w_protocol w1')"
    "quiet dir w1'" "pr_state (w_protocol w1') = IDLE" "pr_outgoing_messages (w_protocol w1') = [it]"
    "pr_cooldown_time_point (w_protocol w1') \<le> pf_clock client (w_tick w1')" "pr_retry_time_point (w_protocol w1') \<le> pf_clock client (w_tick w1')"
    "cb_list (vs_tx dir (w_stream w1')) = []"
    and it: "msg_ok (oi_message it)" "0 < oi_number_of_retries it" "length (msg_payload (oi_message it)) \<le> MAX_DATA_SIZE"
    "length (wire (item_frame it)) < 256" "length (wire (item_frame it)) \<le> cb_capacity (tr_buffer (pr_transport (w_protocol v)))"
    "oi_no_answer it = (\<not> True)" "oi_use_crc it = crc"
    "m_frame_type (oi_message it) = m_frame_type m" "msg_payload (oi_message it) = msg_payload m"
    by (rule enqueued [OF s m, of True crc n i])
  have "w1' = w1" using w1'(1) x(1) by (simp add: enqueue_message_def)
  note w1 = w1' [unfolded this]
  have srv: "settled (pr_transport (w_protocol v)) (Search [])" "tr_incoming_queue (pr_transport (w_protocol v)) = []"
    "pr_state (w_protocol v) = IDLE" "pr_outgoing_messages (w_protocol v) = []"
    "find_handler (pr_message_handlers_map (w_protocol v)) (m_frame_type (oi_message it)) (pr_default_message_handler (w_protocol v)) = Some j"
    "pf_message server j (m_frame_type (oi_message it)) (msg_payload (oi_message it)) (w_app v) = (b', calls, err)"
    "answers (oi_use_crc it) calls r u"
    using s(1) j it(7-9) by (simp_all add: connected_def at_rest_def)
  have ans: "length (msg_payload r) \<le> MAX_DATA_SIZE"
    "length (wire (new_frame (m_frame_type r) (msg_payload r) (of_nat (length (msg_payload r))) u)) < 256"
    "length (wire (new_frame (m_frame_type r) (msg_payload r) (of_nat (length (msg_payload r))) u))
       \<le> cb_capacity (tr_buffer (pr_transport (w_protocol w1)))"
    using r(2) short_wire [OF r(2), of u] s(1) w1(4) by (simp_all add: MAX_DATA_SIZE_def same_setup_def connected_def)
  have cl: "find_handler (pr_answer_handlers_map (w_protocol w1)) (m_frame_type (oi_message it)) (pr_default_answer_handler (w_protocol w1)) = Some l"
    "pf_answer client l (m_frame_type (oi_message it)) (m_frame_type r) (msg_payload r) (w_app w1) = (a', [], err')"
    using l w1(2,4) it(8) by (simp_all add: same_setup_def)
  have time1: "pf_clock client (w_tick w1 + 2) \<le> pf_clock client (w_tick w1) + pr_answer_timeout_interval (w_protocol w1)"
    using time w1(3,4) by (simp add: same_setup_def)
  have it6: "\<not> oi_no_answer it" using it(6) by simp
  obtain wa va wb where l4: "loop client w1 = Some wa" "loop server (v\<lparr>w_stream := w_stream wa\<rparr>) = Some va"
    "loop client (wa\<lparr>w_stream := w_stream va\<rparr>) = Some wb" "loop_log client hc w1 = []"
    "loop_log server hs (v\<lparr>w_stream := w_stream wa\<rparr>)
      = hl_message hs j (m_frame_type m) (msg_payload m) (w_app v) @ (if err \<noteq> HANDLER_OK then [message_error_line (m_frame_type m) err] else [])"
    "loop_log client hc (wa\<lparr>w_stream := w_stream va\<rparr>)
      = hl_answer hc l (m_frame_type m) (m_frame_type r) (msg_payload r) (w_app w)
        @ (if err' \<noteq> HANDLER_OK then [answer_error_line (m_frame_type m) (m_frame_type r) err'] else [])"
    "loop_log server hs (va\<lparr>w_stream := w_stream wb\<rparr>) = []"
    by (rule exchange_logs [OF A B w1(5-10) it(1) it6 it(2-5) srv r(1) ans cl time1, of hc hs, unfolded it(8,9) w1(2)])
  obtain vb where "loop server (va\<lparr>w_stream := w_stream wb\<rparr>) = Some vb" "w' = wb\<lparr>w_stream := w_stream vb\<rparr>" "v' = vb"
    using x(2) l4(1-3) by (auto simp: CLIENT_SERVER_LOOP_def bind_eq_Some_conv)
  with l4 have "run_script client server hc hs [Request m crc n i, Both_Loops, Both_Loops] (w, v)
      = Some ((w', v'), answered_lines hc hs l j m r err err' (w_app w) (w_app v))"
    by (simp add: x(1) both_loops_def Let_def answered_lines_def)
  then show ?thesis using x(3-10) by blast
qed

section \<open>A request that is not waited for\<close>

text \<open>The answer comes as a message of its own: the lines of the server's handler, those of the client's message handler, and
  the warning about a message that was left unanswered.\<close>

lemma noticed_script:
  assumes A: "pf_ops client = get_stream_reference dir" "allocates (pf_new client)"
    and B: "pf_ops server = get_stream_reference (other_end dir)" "allocates (pf_new server)"
    and s: "connected dir (w, v)" "free client w"
    and m: "msg_ok m" "length (msg_payload m) \<le> 100"
    and j: "find_handler (pr_message_handlers_map (w_protocol v)) (m_frame_type m) (pr_default_message_handler (w_protocol v)) = Some j"
      "pf_message server j (m_frame_type m) (msg_payload m) (w_app v) = (b', calls, err)" "answers crc calls r u"
    and r: "msg_ok r" "length (msg_payload r) \<le> 100"
    and k: "find_handler (pr_message_handlers_map (w_protocol w)) (m_frame_type r) (pr_default_message_handler (w_protocol w)) = Some k"
      "pf_message client k (m_frame_type r) (msg_payload r) (w_app w) = (a', calls', err')" "calls' = [] \<or> calls' = [No_Answer]"
    and kept: "pf_popped_kept client"
  shows "\<exists>w' v'. run_script client server hc hs [Notice m crc, Both_Loops, Both_Loops] (w, v)
      = Some ((w', v'), hl_message hs j (m_frame_type m) (msg_payload m) (w_app v)
          @ (if err \<noteq> HANDLER_OK then [message_error_line (m_frame_type m) err] else [])
          @ hl_message hc k (m_frame_type r) (msg_payload r) (w_app w) @ outcome_lines (m_frame_type r) err' (calls' = [No_Answer]))
    \<and> w_app v' = b' \<and> w_app w' = a' \<and> connected dir (w', v')
    \<and> same_setup (w_protocol w) (w_protocol w') \<and> same_setup (w_protocol v) (w_protocol v') \<and> w_tick w' = w_tick w + 3
    \<and> pr_retry_time_point (w_protocol w') = pf_clock client (w_tick w)
    \<and> pr_cooldown_time_point (w_protocol w') = pf_clock client (w_tick w + 1) + pr_cooldown_interval (w_protocol w)"
proof -
  obtain w1 w2 v1 w3 w' v' where x: "send_message_without_answer m crc w = Some w1"
    "loop client w1 = Some w2" "loop server (v\<lparr>w_stream := w_stream w2\<rparr>) = Some v1" "loop client (w2\<lparr>w_stream := w_stream v1\<rparr>) = Some w3"
    "CLIENT_SERVER_LOOP client server (w1, v) = Some (w', v')" "w_app v' = b'" "w_app w' = a'"
    "connected dir (w', v')" "same_setup (w_protocol w) (w_protocol w')" "same_setup (w_protocol v) (w_protocol v')" "w_tick w' = w_tick w + 3"
    "pr_retry_time_point (w_protocol w') = pf_clock client (w_tick w)"
    "pr_cooldown_time_point (w_protocol w') = pf_clock client (w_tick w + 1) + pr_cooldown_interval (w_protocol w)"
    and y: "at_rest (w_protocol w2)" "w_app w2 = w_app w" "same_setup (w_protocol w) (w_protocol w2)"
    "vs_inv (w_stream v1)" "cb_list (vs_rx dir (w_stream v1)) = wire (message_frame r u)" "at_rest (w_protocol v1)"
    "vs_inv (w_stream w3)" "cb_list (vs_tx dir (w_stream w3)) = []"
    by (rule noticed_round [OF A B s m j r k kept])
  obtain w1' it where w1': "enqueue_message False m crc 0 0 w = Some w1'"
    "quiet dir w1'" "pr_state (w_protocol w1') = IDLE" "pr_outgoing_messages (w_protocol w1') = [it]"
    "pr_cooldown_time_point (w_protocol w1') \<le> pf_clock client (w_tick w1')" "pr_retry_time_point (w_protocol w1') \<le> pf_clock client (w_tick w1')"
    "cb_list (vs_tx dir (w_stream w1')) = []"
    and it: "msg_ok (oi_message it)" "0 < oi_number_of_retries it" "length (msg_payload (oi_message it)) \<le> MAX_DATA_SIZE"
    "length (wire (item_frame it)) < 256" "length (wire (item_frame it)) \<le> cb_capacity (tr_buffer (pr_transport (w_protocol v)))"
    "oi_use_crc it = crc" "m_frame_type (oi_message it) = m_frame_type m" "msg_payload (oi_message it) = msg_payload m"
    by (rule enqueued [OF s m, of False crc 0 0])
  have "w1' = w1" using w1'(1) x(1) by (simp add: enqueue_message_def)
  note w1 = w1' [unfolded this]
  have srv: "settled (pr_transport (w_protocol v)) (Search [])" "tr_incoming_queue (pr_transport (w_protocol v)) = []"
    "pr_state (w_protocol v) = IDLE" "pr_outgoing_messages (w_protocol v) = []"
    "find_handler (pr_message_handlers_map (w_protocol v)) (m_frame_type (oi_message it)) (pr_default_message_handler (w_protocol v)) = Some j"
    "pf_message server j (m_frame_type (oi_message it)) (msg_payload (oi_message it)) (w_app v) = (b', calls, err)"
    "answers (oi_use_crc it) calls r u"
    using s(1) j it(6-8) by (simp_all add: connected_def at_rest_def)
  have ans: "length (msg_payload r) \<le> MAX_DATA_SIZE" "length (wire (message_frame r u)) \<le> 224"
    using r(2) short_wire [OF r(2), of u] by (simp_all add: MAX_DATA_SIZE_def message_frame_def)
  have sh: "length (wire (message_frame r u)) < 256" using ans(2) by simp
  have kept': "oi_no_answer it \<longrightarrow> pf_popped_kept client" using kept by simp
  note l12 = send_and_serve_logs [OF A B w1(2-7) it(1-5) srv r(1) ans(1) sh x(2) kept', unfolded it(7,8)]
  note f = message_frame_ok(1,2,4) [OF ans(1), of u]
  define w2' where "w2' = w2\<lparr>w_stream := w_stream v1\<rparr>"
  have w2': "at_rest (w_protocol w2')" "vs_inv (w_stream w2')" "cb_list (vs_rx dir (w_stream w2')) = wire (message_frame r u)"
    "length (wire (message_frame r u)) \<le> cb_capacity (tr_buffer (pr_transport (w_protocol w2')))"
    "message_run client (w_protocol w2') (f_type (message_frame r u)) (frame_data (message_frame r u)) (w_app w2') = (a', calls', err')"
    using y ans(2) s(1) k(1,2) f by (simp_all add: w2'_def same_setup_def connected_def message_run_def)
  have l3: "loop_log client hc (w2\<lparr>w_stream := w_stream v1\<rparr>) = hl_message hc k (m_frame_type r) (msg_payload r) (w_app w)
      @ outcome_lines (m_frame_type r) err' (calls' = [No_Answer])"
    using message_loop_log [OF A(1) w2'(1-3) f(1) w2'(4,5) k(3), of hc] y(2,3) k(1) f(2,3)
    by (simp add: w2'_def message_lines_def same_setup_def)
  have l4: "loop_log server hs (v1\<lparr>w_stream := w_stream w3\<rparr>) = []"
    using y(6-8) by (intro rest_loop_log [OF B(1)]) (simp_all add: vs_crossed)
  obtain vb where "loop server (v1\<lparr>w_stream := w_stream w3\<rparr>) = Some vb" "w' = w3\<lparr>w_stream := w_stream vb\<rparr>" "v' = vb"
    using x(2-5) by (auto simp: CLIENT_SERVER_LOOP_def bind_eq_Some_conv)
  with x(1-4) l12 l3 l4 have "run_script client server hc hs [Notice m crc, Both_Loops, Both_Loops] (w, v)
      = Some ((w', v'), hl_message hs j (m_frame_type m) (msg_payload m) (w_app v)
          @ (if err \<noteq> HANDLER_OK then [message_error_line (m_frame_type m) err] else [])
          @ hl_message hc k (m_frame_type r) (msg_payload r) (w_app w) @ outcome_lines (m_frame_type r) err' (calls' = [No_Answer]))"
    by (simp add: both_loops_def Let_def)
  then show ?thesis using x(6-13) by blast
qed

text \<open>Without the memory of popped elements kept, the script does not get past the first call of the loop.\<close>

lemma notice_script_undefined:
  assumes "pf_ops client = get_stream_reference dir" "allocates (pf_new client)" "\<not> pf_popped_kept client"
    and "connected dir (w, v)" "free client w" "msg_ok m" "length (msg_payload m) \<le> 100"
  shows "run_script client server hc hs (Notice m crc # Both_Loops # steps) (w, v) = None"
  using notice_undefined [OF assms, of crc] by (auto simp: both_loops_def Let_def)

end
