(* ===== verification/Hon_Test_Log.thy ===== *)
theory Hon_Test_Log
  imports Hon_Session Session_Log
begin

text \<open>
  The test program \<^verbatim>\<open>test/hon_test/main.cpp\<close> with the numbers of \<^verbatim>\<open>TEST_END\<close>: its eight tests,
  and the lines each of them logs. Of the library and the server the lines at the levels WARNING and ERROR are
  listed, of the client's handlers all of them.
\<close>

section \<open>What the handlers log\<close>

definition status_request_log :: "byte \<Rightarrow> byte list \<Rightarrow> log_line list" where
  "status_request_log ty buffer =
     (if ty = CONTROL \<and> \<not> length buffer < 2
      then let subcommand = push_bit 8 (ucast (buffer ! 0)) OR ucast (buffer ! 1) :: u16
           in if subcommand = GET_USER_DATA \<or> subcommand = GET_BIG_DATA then []
              else if subcommand = SET_GROUP_PARAMETERS
              then if length buffer - 2 \<noteq> CONTROL_SIZE
                   then [(LEVEL_WARNING, ''Wrong control packet size, expected '' @ decimal CONTROL_SIZE @ '', received '' @ decimal (length buffer - 2))]
                   else []
              else if subcommand AND 0xFF00 = SET_SINGLE_PARAMETER \<and> length buffer \<noteq> 4
              then [(LEVEL_WARNING, ''Wrong control packet size, expected 2, received '' @ decimal (length buffer - 2))]
              else []
      else [])"

text \<open>The number is missing in the last text: its format has no percent sign.\<close>

definition report_network_status_log :: "byte \<Rightarrow> byte list \<Rightarrow> hon_state \<Rightarrow> log_line list" where
  "report_network_status_log ty buffer s =
     (if ty = REPORT_NETWORK_STATUS \<and> length buffer = 4
      then let st = buffer ! 1
           in if st \<noteq> hs_communication_status s \<and> st \<notin> {0, 1, 2, 3}
              then [(LEVEL_WARNING, ''Network status:  Unknown status 0x02X'')] else []
      else [])"

definition hon_message_log :: "hon_message_handler \<Rightarrow> byte \<Rightarrow> byte list \<Rightarrow> hon_state \<Rightarrow> log_line list" where
  "hon_message_log k ty buffer s =
     (case k of Status_Request \<Rightarrow> status_request_log ty buffer
              | Report_Network_Status \<Rightarrow> report_network_status_log ty buffer s
              | _ \<Rightarrow> [])"

definition hon_server_lines :: "(hon_message_handler, hon_state) handler_lines" where
  "hon_server_lines = \<lparr>hl_message = hon_message_log, hl_answer = (\<lambda>k ty rty d a. []), hl_timeout = (\<lambda>k ty a. [])\<rparr>"

text \<open>The lines of the client's handlers are kept in its state; the default handler logs its own.\<close>

definition added_lines :: "hon_client \<Rightarrow> hon_client \<Rightarrow> log_line list" where
  "added_lines c c' = drop (length (hc_log c)) (hc_log c')"

definition hon_client_lines :: "(hon_client_handler, hon_client) handler_lines" where
  "hon_client_lines =
     \<lparr>hl_message = (\<lambda>k ty d c. if ty = STATUS
         then added_lines c (fst (get_status_message_handler ty d c :: hon_client \<times> hon_client_handler api_call list \<times> handler_error))
         else [unsupported_message_line ty d]),
      hl_answer = (\<lambda>k ty rty d c. added_lines c (hon_accept ty rty d c)), hl_timeout = (\<lambda>k ty c. [])\<rparr>"

section \<open>The tests\<close>

definition hon_control_check :: "byte list \<Rightarrow> hon_state \<Rightarrow> log_line list" where
  "hon_control_check cs s =
     (if take CONTROL_SIZE cs = take CONTROL_SIZE (hs_ac_status s)
      then [(LEVEL_INFO, ''AC control processed correctly'')] else [(LEVEL_WARNING, ''AC control not OK'')])"

definition hon_request_test :: "haier_message \<times> bool \<Rightarrow> hon_state script_step list" where
  "hon_request_test = (\<lambda>(m, crc). [Request m crc 0 0, Both_Loops, Both_Loops])"

definition hon_tests :: "byte list \<Rightarrow> (hon_state script_step list \<times> nat \<times> nat) list" where
  "hon_tests cs =
     map (\<lambda>r. (hon_request_test r, 0, 0)) (butlast (hon_test_requests cs)) @
     [(hon_request_test (last (hon_test_requests cs)) @ [Look (hon_control_check cs)], 0, 0),
      ([Notice test8_request True, Both_Loops, Both_Loops, Notice test8_request True, Both_Loops, Both_Loops], 1, 0)]"

section \<open>One request\<close>

abbreviation hon_run ::
    "bool \<Rightarrow> byte allocator \<Rightarrow> (nat \<Rightarrow> millis) \<Rightarrow> (nat \<Rightarrow> millis) \<Rightarrow> hon_state script_step list
      \<Rightarrow> (virtual_stream_holder, hon_client_handler, hon_client) world \<times> (virtual_stream_holder, hon_message_handler, hon_state) world
      \<Rightarrow> (((virtual_stream_holder, hon_client_handler, hon_client) world \<times> (virtual_stream_holder, hon_message_handler, hon_state) world)
          \<times> log_line list) option" where
  "hon_run kept new clock clock' \<equiv> run_script (hon_client_platform kept new clock) (hon_server_platform new clock') hon_client_lines hon_server_lines"

text \<open>An accepted request that reports no unknown network status makes the server log no warning.\<close>

lemma hon_accepted_log:
  assumes "ty \<in> fst ` set hon_test_handlers" "snd (snd (hon_serve ty d s)) = HANDLER_OK"
    and "ty = REPORT_NETWORK_STATUS \<Longrightarrow> d ! 1 \<in> {0, 1, 2, 3}"
  shows "hon_message_log (hon_test_handler ty) ty d s = []"
proof -
  have "status_request_log ty d = []" if "ty = CONTROL"
    using assms(2) that unfolding status_request_log_def hon_test_handler_def hon_test_handlers_def
    by (auto simp: status_request_handler_def Let_def split: if_splits)
  moreover have "report_network_status_log ty d s = []" if "ty = REPORT_NETWORK_STATUS"
    using assms(3) that by (auto simp: report_network_status_log_def Let_def)
  ultimately show ?thesis
    using assms(1) by (auto simp: hon_message_log_def hon_test_handler_def hon_test_handlers_def)
qed

lemma hon_server_map: "pr_message_handlers_map (w_protocol (hon_server new now)) = map_of hon_test_handlers"
  "pr_default_message_handler (w_protocol (hon_server new now)) = None"
  by (simp_all add: hon_server_def hon_test_handlers_def pr_set_message_handler_def pr_new_def pr_new_sized_def fun_upd_twist)

lemma hon_running_server:
  assumes "hon_running kept new clock now (w, v)" "ty \<in> fst ` set hon_test_handlers"
  shows "find_handler (pr_message_handlers_map (w_protocol v)) ty (pr_default_message_handler (w_protocol v)) = Some (hon_test_handler ty)"
proof -
  obtain k where "map_of hon_test_handlers ty = Some k"
    using assms(2) by (metis map_of_eq_None_iff not_Some_eq)
  then show ?thesis
    using assms(1) hon_server_map [of new now] by (simp add: hon_running_def same_setup_def find_handler_def hon_test_handler_def)
qed

lemma hon_request_step:
  assumes new: "allocates new" and run: "hon_running kept new clock now (w, v)"
    and m: "msg_ok m" "length (msg_payload m) \<le> 100" "m_frame_type m \<in> fst ` set hon_test_handlers"
    and acc: "snd (snd (hon_serve (m_frame_type m) (msg_payload m) (w_app v))) = HANDLER_OK"
    and known: "m_frame_type m = REPORT_NETWORK_STATUS \<Longrightarrow> msg_payload m ! 1 \<in> {0, 1, 2, 3}"
  shows "\<exists>w' v'. hon_run kept new clock clock' (hon_request_test (m, crc)) (w, v) = Some ((w', v'), [expected_line m])
    \<and> w_app v' = fst (hon_serve (m_frame_type m) (msg_payload m) (w_app v)) \<and> hon_running kept new clock now (w', v')
    \<and> hc_do_not_supress_warning (w_app w') = hc_do_not_supress_warning (w_app w)"
proof -
  let ?ty = "m_frame_type m" and ?d = "msg_payload m"
  let ?client = "hon_client_platform kept new clock" and ?server = "hon_server_platform new clock'"
  note pf = hon_test_platforms(1,2) [OF new, of kept clock] hon_test_platforms(3,4) [OF new, of clock] hon_test_platforms(3,4) [OF new, of clock']
  have r: "connected DIRECTION_B (w, v)" "due ?client w" "hon_inv (w_app v)"
    "same_setup (w_protocol (hon_client new)) (w_protocol w)" "same_setup (w_protocol (hon_server new now)) (w_protocol v)"
    using run by (simp_all add: hon_running_def)
  obtain b' calls err a u where h: "hon_serve ?ty ?d (w_app v) = (b', calls, err)" "hon_inv b'" "answers crc calls a u"
    "msg_ok a" "length (msg_payload a) \<le> 100"
    using hon_test.answered [OF r(3)] by blast
  have err: "err = HANDLER_OK" using acc h(1) by simp
  have a: "map_of expected_answers ?ty = Some (m_frame_type a)" "find_expected ?ty expected_answers = Some (?ty, m_frame_type a)" "?ty \<noteq> UNKNOWN_FRAME_TYPE"
    using accepted_answer_type [OF m(3) acc] h(1) answer_of_answers [OF h(3)] by auto
  define c' where "c' = client_log LEVEL_INFO (answer_line ?ty (m_frame_type a)) (w_app w)"
  have c: "pf_answer ?client Client_Answers ?ty (m_frame_type a) (msg_payload a) (w_app w) = (c', [], HANDLER_OK)"
    "hon_accept ?ty (m_frame_type a) (msg_payload a) (w_app w) = c'"
    using a(2,3) by (simp_all add: hon_client_platform_def client_answers_handler_def c'_def)
  have k: "find_handler (pr_answer_handlers_map (w_protocol w)) ?ty (pr_default_answer_handler (w_protocol w)) = Some Client_Answers"
    using r(4) by (simp add: same_setup_def hon_client_def find_handler_def pr_new_def pr_new_sized_def pr_set_default_answer_handler_def pr_set_message_handler_def)
  have j: "pf_message ?server (hon_test_handler ?ty) ?ty ?d (w_app v) = (b', calls, HANDLER_OK)"
    using h(1) err by (simp add: hon_server_platform_def)
  have time: "pf_clock ?client (w_tick w + 2) \<le> pf_clock ?client (w_tick w) + pr_answer_timeout_interval (w_protocol w)"
    using r(2) paced_step(1) by (auto simp: due_def)
  obtain w' v' where x: "hon_run kept new clock clock' [Request m crc 0 0, Both_Loops, Both_Loops] (w, v)
      = Some ((w', v'), answered_lines hon_client_lines hon_server_lines Client_Answers (hon_test_handler ?ty) m a HANDLER_OK HANDLER_OK (w_app w) (w_app v))"
    "w_app v' = b'" "w_app w' = c'" "connected DIRECTION_B (w', v')"
    "same_setup (w_protocol w) (w_protocol w')" "same_setup (w_protocol v) (w_protocol v')" "w_tick w' = w_tick w + 3"
    "pr_retry_time_point (w_protocol w') = pf_clock ?client (w_tick w + 2)"
    "pr_cooldown_time_point (w_protocol w') = pf_clock ?client (w_tick w + 1) + pr_cooldown_interval (w_protocol w)"
    using answered_script [OF pf(1,2,5,6) r(1) due_free [OF r(2)] m(1,2) hon_running_server [OF run m(3)] j h(3-5) k c(1) time] by blast
  have "answered_lines hon_client_lines hon_server_lines Client_Answers (hon_test_handler ?ty) m a HANDLER_OK HANDLER_OK (w_app w) (w_app v) = [expected_line m]"
    using hon_accepted_log [OF m(3) acc known] c(2) a(1)
    by (simp add: answered_lines_def hon_client_lines_def hon_server_lines_def added_lines_def c'_def client_log_def expected_line_def)
  moreover have "hon_running kept new clock now (w', v')"
    using x(2,4) h(2) due_again [OF r(2) x(5,7) _ x(9)] x(8) same_setup_trans [OF r(4) x(5)] same_setup_trans [OF r(5) x(6)] by (simp add: hon_running_def)
  ultimately show ?thesis
    using x(1-3) h(1) by (simp add: hon_request_test_def c'_def client_log_def)
qed

section \<open>All requests\<close>

lemma all_accepted_append:
  "all_accepted (xs @ ys) s \<longleftrightarrow>
     all_accepted xs s \<and> all_accepted ys (fold (\<lambda>m b. fst (hon_serve (m_frame_type m) (msg_payload m) b)) xs s)"
  by (induction xs arbitrary: s) auto

definition hon_request_ok :: "haier_message \<Rightarrow> bool" where
  "hon_request_ok m \<longleftrightarrow> msg_ok m \<and> length (msg_payload m) \<le> 100 \<and> m_frame_type m \<in> fst ` set hon_test_handlers
     \<and> (m_frame_type m = REPORT_NETWORK_STATUS \<longrightarrow> msg_payload m ! 1 \<in> {0, 1, 2, 3})"

lemma hon_requests_run:
  assumes new: "allocates new"
  shows "hon_running kept new clock now (w, v) \<Longrightarrow> \<forall>(m, crc) \<in> set ms. hon_request_ok m \<Longrightarrow> all_accepted (map fst ms) (w_app v)
    \<Longrightarrow> \<exists>w' v'. run_tests (hon_client_platform kept new clock) (hon_server_platform new clock') hon_client_lines hon_server_lines
        (map (\<lambda>r. (hon_request_test r, 0, 0)) ms) (w, v) = Some ((w', v'), map (\<lambda>(m, crc). ([expected_line m], 0, 0)) ms)
      \<and> w_app v' = fold (\<lambda>m b. fst (hon_serve (m_frame_type m) (msg_payload m) b)) (map fst ms) (w_app v)
      \<and> hon_running kept new clock now (w', v') \<and> hc_do_not_supress_warning (w_app w') = hc_do_not_supress_warning (w_app w)"
proof (induction ms arbitrary: w v)
  case (Cons mc ms)
  obtain m crc where mc: "mc = (m, crc)" by (cases mc)
  have m: "msg_ok m" "length (msg_payload m) \<le> 100" "m_frame_type m \<in> fst ` set hon_test_handlers"
    "m_frame_type m = REPORT_NETWORK_STATUS \<Longrightarrow> msg_payload m ! 1 \<in> {0, 1, 2, 3}"
    "snd (snd (hon_serve (m_frame_type m) (msg_payload m) (w_app v))) = HANDLER_OK"
    using Cons.prems(2,3) by (auto simp: mc hon_request_ok_def)
  obtain w1 v1 where 1: "hon_run kept new clock clock' (hon_request_test (m, crc)) (w, v) = Some ((w1, v1), [expected_line m])"
    "w_app v1 = fst (hon_serve (m_frame_type m) (msg_payload m) (w_app v))" "hon_running kept new clock now (w1, v1)"
    "hc_do_not_supress_warning (w_app w1) = hc_do_not_supress_warning (w_app w)"
    using hon_request_step [OF new Cons.prems(1) m(1-3,5,4), of clock' crc] by blast
  obtain w2 v2 where "run_tests (hon_client_platform kept new clock) (hon_server_platform new clock') hon_client_lines hon_server_lines
      (map (\<lambda>r. (hon_request_test r, 0, 0)) ms) (w1, v1) = Some ((w2, v2), map (\<lambda>(m, crc). ([expected_line m], 0, 0)) ms)"
    "w_app v2 = fold (\<lambda>m b. fst (hon_serve (m_frame_type m) (msg_payload m) b)) (map fst ms) (w_app v1)"
    "hon_running kept new clock now (w2, v2)" "hc_do_not_supress_warning (w_app w2) = hc_do_not_supress_warning (w_app w1)"
    using Cons.IH [OF 1(3)] Cons.prems(2,3) 1(2) by (auto simp: mc)
  then show ?case using 1 by (simp add: mc)
qed simp

text \<open>A status request that is not waited for.\<close>

lemma hon_notice_step:
  assumes new: "allocates new" and kept: kept and run: "hon_running kept new clock now (w, v)"
  shows "\<exists>w' v'. hon_run kept new clock clock' [Notice test8_request True, Both_Loops, Both_Loops] (w, v)
      = Some ((w', v'), new_message_line # (if hc_do_not_supress_warning (w_app w) then [no_answer_line STATUS] else []))
    \<and> hon_running kept new clock now (w', v') \<and> \<not> hc_do_not_supress_warning (w_app w') \<and> w_app v' = w_app v"
proof -
  let ?client = "hon_client_platform kept new clock" and ?server = "hon_server_platform new clock'"
  note pf = hon_test_platforms(1,2) [OF new, of kept clock] hon_test_platforms(3,4) [OF new, of clock] hon_test_platforms(3,4) [OF new, of clock']
  have r: "connected DIRECTION_B (w, v)" "due ?client w" "hon_inv (w_app v)"
    "same_setup (w_protocol (hon_client new)) (w_protocol w)" "same_setup (w_protocol (hon_server new now)) (w_protocol v)"
    using run by (simp_all add: hon_running_def)
  have m: "msg_ok test8_request" "length (msg_payload test8_request) \<le> 100" "m_frame_type test8_request = CONTROL"
    "msg_payload test8_request = [0x4D, 0x01]" "CONTROL \<in> fst ` set hon_test_handlers"
    by (simp_all add: test8_request_def msg_of_subcommand_def msg_payload_def msg_new_ok hon_test_handlers_def)
  have ok: "snd (snd (hon_serve CONTROL [0x4D, 0x01] (w_app v))) = HANDLER_OK"
    by (simp add: hon_test_handler_def hon_test_handlers_def status_request_handler_def)
  have st: "fst (hon_serve CONTROL [0x4D, 0x01] (w_app v)) = w_app v"
    by (simp add: hon_test_handler_def hon_test_handlers_def status_request_handler_def)
  obtain b' calls err a u where h: "hon_serve CONTROL [0x4D, 0x01] (w_app v) = (b', calls, err)" "hon_inv b'" "answers True calls a u"
    "msg_ok a" "length (msg_payload a) \<le> 100"
    using hon_test.answered [OF r(3)] by blast
  have same: "b' = w_app v" using st h(1) by simp
  have a: "m_frame_type a = STATUS" "err = HANDLER_OK"
    using accepted_answer_type [OF m(5) ok] h(1) answer_of_answers [OF h(3)] ok by (auto simp: expected_answers_def)
  define calls' :: "hon_client_handler api_call list" where "calls' = (if hc_do_not_supress_warning (w_app w) then [] else [No_Answer])"
  define c' where "c' = (w_app w)\<lparr>hc_log := hc_log (w_app w) @ [new_message_line], hc_do_not_supress_warning := False\<rparr>"
  have k: "find_handler (pr_message_handlers_map (w_protocol w)) (m_frame_type a) (pr_default_message_handler (w_protocol w)) = Some Get_Status_Message"
    using r(4) a(1) by (simp add: same_setup_def hon_client_def find_handler_def pr_set_message_handler_def)
  have g: "get_status_message_handler (m_frame_type a) (msg_payload a) (w_app w) = (c', calls', HANDLER_OK)"
    using a(1) by (simp add: get_status_message_handler_def client_log_def new_message_line_def calls'_def c'_def)
  have c: "pf_message ?client Get_Status_Message (m_frame_type a) (msg_payload a) (w_app w) = (c', calls', HANDLER_OK)"
    "calls' = [] \<or> calls' = [No_Answer]" "(calls' = [No_Answer]) = (\<not> hc_do_not_supress_warning (w_app w))"
    using g by (simp_all add: hon_client_platform_def) (simp_all add: calls'_def)
  have j: "find_handler (pr_message_handlers_map (w_protocol v)) (m_frame_type test8_request) (pr_default_message_handler (w_protocol v)) = Some (hon_test_handler CONTROL)"
    "pf_message ?server (hon_test_handler CONTROL) (m_frame_type test8_request) (msg_payload test8_request) (w_app v) = (b', calls, err)"
    using hon_running_server [OF run m(5)] h(1) m(3,4) by (simp_all add: hon_server_platform_def)
  have popped: "pf_popped_kept ?client" using kept by (simp add: hon_client_platform_def)
  obtain w' v' where x: "hon_run kept new clock clock' [Notice test8_request True, Both_Loops, Both_Loops] (w, v)
      = Some ((w', v'), hl_message hon_server_lines (hon_test_handler CONTROL) (m_frame_type test8_request) (msg_payload test8_request) (w_app v)
          @ (if err \<noteq> HANDLER_OK then [message_error_line (m_frame_type test8_request) err] else [])
          @ hl_message hon_client_lines Get_Status_Message (m_frame_type a) (msg_payload a) (w_app w)
          @ outcome_lines (m_frame_type a) HANDLER_OK (calls' = [No_Answer]))"
    "w_app v' = b'" "w_app w' = c'" "connected DIRECTION_B (w', v')"
    "same_setup (w_protocol w) (w_protocol w')" "same_setup (w_protocol v) (w_protocol v')" "w_tick w' = w_tick w + 3"
    "pr_retry_time_point (w_protocol w') = pf_clock ?client (w_tick w)"
    "pr_cooldown_time_point (w_protocol w') = pf_clock ?client (w_tick w + 1) + pr_cooldown_interval (w_protocol w)"
    using noticed_script [OF pf(1,2,5,6) r(1) due_free [OF r(2)] m(1,2) j h(3-5) k c(1,2) popped] by blast
  have "hl_message hon_server_lines (hon_test_handler CONTROL) (m_frame_type test8_request) (msg_payload test8_request) (w_app v) = []"
    using hon_accepted_log [OF m(5) ok] m(3,4) by (simp add: hon_server_lines_def)
  moreover have "hl_message hon_client_lines Get_Status_Message (m_frame_type a) (msg_payload a) (w_app w) = [new_message_line]"
    using g a(1) by (simp add: hon_client_lines_def added_lines_def get_status_message_handler_def) (simp add: c'_def)
  moreover have "hon_running kept new clock now (w', v')"
    using x(2,4) h(2) due_again [OF r(2) x(5,7) _ x(9)] x(8) same_setup_trans [OF r(4) x(5)] same_setup_trans [OF r(5) x(6)] by (simp add: hon_running_def)
  ultimately show ?thesis
    using x(1-3) a c(3) same by (simp add: outcome_lines_def c'_def)
qed

section \<open>The test program\<close>

definition hon_test_results :: "(log_line list \<times> nat \<times> nat) list" where
  "hon_test_results =
     map (\<lambda>(ty, rty). ([(LEVEL_INFO, answer_line ty rty)], 0, 0))
       [(GET_DEVICE_VERSION, GET_DEVICE_VERSION_RESPONSE), (GET_DEVICE_ID, GET_DEVICE_ID_RESPONSE), (CONTROL, STATUS),
        (GET_ALARM_STATUS, GET_ALARM_STATUS_RESPONSE), (GET_MANAGEMENT_INFORMATION, GET_MANAGEMENT_INFORMATION_RESPONSE),
        (REPORT_NETWORK_STATUS, CONFIRM)] @
     [([(LEVEL_INFO, answer_line CONTROL STATUS), (LEVEL_INFO, ''AC control processed correctly'')], 0, 0),
      ([new_message_line, no_answer_line STATUS, new_message_line], 1, 0)]"

lemma hon_test_counts:
  "\<forall>(lines, warn, err) \<in> set hon_test_results. (\<forall>(level, txt) \<in> set lines. plain_text txt)
     \<and> length (lines_at LEVEL_WARNING lines) = warn \<and> length (lines_at LEVEL_ERROR lines) = err"
  unfolding plain_text_def by code_simp

lemma hon_requests_ok:
  assumes "length cs = CONTROL_SIZE"
  shows "\<forall>(m, crc) \<in> set (hon_test_requests cs). hon_request_ok m"
    "hon_test_requests cs = butlast (hon_test_requests cs) @ [last (hon_test_requests cs)]"
    "map (\<lambda>(m, crc). ([expected_line m], 0 :: nat, 0 :: nat)) (butlast (hon_test_requests cs)) = butlast (butlast hon_test_results)"
    "expected_line (fst (last (hon_test_requests cs))) = (LEVEL_INFO, answer_line CONTROL STATUS)"
proof -
  have "\<forall>(ty, d) \<in> set (map (\<lambda>(m, crc). (m_frame_type m, msg_payload m)) (hon_test_requests cs)).
      length d \<le> 100 \<and> ty \<in> fst ` set hon_test_handlers \<and> (ty = REPORT_NETWORK_STATUS \<longrightarrow> d ! 1 \<in> {0, 1, 2, 3})"
    unfolding hon_test_payloads(1) [OF assms] using assms by (simp add: hon_test_handlers_def)
  then show "\<forall>(m, crc) \<in> set (hon_test_requests cs). hon_request_ok m"
    using hon_test_payloads(2) [OF assms] by (auto simp: hon_request_ok_def)
qed (simp_all add: hon_test_requests_def hon_test_results_def expected_line_def expected_answers_def msg_of_data_def msg_of_type_def msg_of_subcommand_def)

text \<open>Test 8.\<close>

lemma hon_test8:
  assumes new: "allocates new" and kept: kept and run: "hon_running kept new clock now (w, v)" "hc_do_not_supress_warning (w_app w)"
  shows "\<exists>w' v'. hon_run kept new clock clock'
      [Notice test8_request True, Both_Loops, Both_Loops, Notice test8_request True, Both_Loops, Both_Loops] (w, v)
      = Some ((w', v'), [new_message_line, no_answer_line STATUS, new_message_line]) \<and> w_app v' = w_app v"
proof -
  obtain w1 v1 where 1: "hon_run kept new clock clock' [Notice test8_request True, Both_Loops, Both_Loops] (w, v)
      = Some ((w1, v1), [new_message_line, no_answer_line STATUS])"
    "hon_running kept new clock now (w1, v1)" "\<not> hc_do_not_supress_warning (w_app w1)" "w_app v1 = w_app v"
    using hon_notice_step [OF new kept run(1), of clock'] run(2) by auto
  obtain w2 v2 where 2: "hon_run kept new clock clock' [Notice test8_request True, Both_Loops, Both_Loops] (w1, v1)
      = Some ((w2, v2), [new_message_line])" "w_app v2 = w_app v1"
    using hon_notice_step [OF new kept 1(2), of clock'] 1(3) by auto
  from run_script_append [OF 1(1) 2(1)] show ?thesis
    using 1(4) 2(2) by (intro exI [of _ w2] exI [of _ v2]) (simp del: run_script.simps)
qed

lemma hon_test8_undefined:
  assumes new: "allocates new" and kept: "\<not> kept" and run: "hon_running kept new clock now (w, v)"
  shows "hon_run kept new clock clock' (Notice test8_request True # Both_Loops # steps) (w, v) = None"
proof (rule notice_script_undefined)
  show "\<not> pf_popped_kept (hon_client_platform kept new clock)" using kept by (simp add: hon_client_platform_def)
  show "connected DIRECTION_B (w, v)" "free (hon_client_platform kept new clock) w"
    using run by (auto simp: hon_running_def due_free)
qed (simp_all add: hon_test_platforms [OF new] test8_request_def msg_of_subcommand_def msg_payload_def msg_new_ok)

text \<open>Tests 1 to 7: the state of the server after them, and their run.\<close>

lemma hon_tests_served:
  fixes new :: "byte allocator" and now :: millis
  assumes "allocates new" "paced clock DEFAULT_ANSWER_TIMEOUT DEFAULT_COOLDOWN_INTERVAL" "0 \<le> clock 0" "length cs = CONTROL_SIZE"
  defines "s \<equiv> w_app (hon_server new now)"
  shows "all_accepted (map fst (hon_test_requests cs)) s"
    "hs_ac_status (fold (\<lambda>m b. fst (hon_serve (m_frame_type m) (msg_payload m) b)) (map fst (hon_test_requests cs)) s)
      = cs @ drop CONTROL_SIZE init_status"
proof -
  let ?ms = "map fst (hon_test_requests cs)"
  have s: "hon_inv s" "hs_ac_status s = init_status"
    using hon_test_connected(2) [OF assms(1)] by (simp_all add: s_def hon_server_def get_ac_state_ref_def init_ac_state_def hon_globals_def)
  have pos: "hvac_get (Control Set_Point) (hs_ac_status s) \<noteq> 0x0E" by (simp add: s(2) initial_set_point)
  show "all_accepted ?ms s" by (rule hon_tests_accepted(1) [OF s(1) assms(4) pos])
  have "\<forall>(m, crc) \<in> set (hon_test_requests cs). msg_ok m \<and> length (msg_payload m) \<le> 100 \<and> m_frame_type m \<in> fst ` set hon_test_handlers"
    using hon_requests_ok(1) [OF assms(4)] by (auto simp: hon_request_ok_def)
  then obtain c1 s1 where dc: "direct_calls hon_serve hon_accept ?ms (w_app (hon_client new), s) = Some (c1, s1)"
    using session_run [OF assms(1-3), where ms = "hon_test_requests cs" and clock' = clock and now = now] unfolding s_def by blast
  show "hs_ac_status (fold (\<lambda>m b. fst (hon_serve (m_frame_type m) (msg_payload m) b)) ?ms s) = cs @ drop CONTROL_SIZE init_status"
    using hon_tests_accepted(2) [OF s(1) assms(4) pos dc] direct_calls_state [OF dc] s(2) by simp
qed

lemma hon_tests_run:
  assumes "allocates new" "hon_running kept new clock now (w0, v0)" "length cs = CONTROL_SIZE"
    and acc: "all_accepted (map fst (hon_test_requests cs)) (w_app v0)"
  shows "\<exists>w6 v6 w v. run_tests (hon_client_platform kept new clock) (hon_server_platform new clock') hon_client_lines hon_server_lines
        (map (\<lambda>r. (hon_request_test r, 0, 0)) (butlast (hon_test_requests cs))) (w0, v0) = Some ((w6, v6), butlast (butlast hon_test_results))
    \<and> hon_run kept new clock clock' (hon_request_test (last (hon_test_requests cs))) (w6, v6)
        = Some ((w, v), [(LEVEL_INFO, answer_line CONTROL STATUS)])
    \<and> w_app v = fold (\<lambda>m b. fst (hon_serve (m_frame_type m) (msg_payload m) b)) (map fst (hon_test_requests cs)) (w_app v0)
    \<and> hon_running kept new clock now (w, v) \<and> hc_do_not_supress_warning (w_app w) = hc_do_not_supress_warning (w_app w0)"
proof -
  let ?rs = "hon_test_requests cs"
  note ok = hon_requests_ok [OF assms(3)]
  obtain m crc where m: "last ?rs = (m, crc)" by (cases "last ?rs")
  have split: "map fst ?rs = map fst (butlast ?rs) @ [m]"
    using arg_cong [OF ok(2), of "map fst"] m by simp
  have "(m, crc) \<in> set ?rs" using arg_cong [OF ok(2), of set] m by auto
  then have okm: "msg_ok m" "length (msg_payload m) \<le> 100" "m_frame_type m \<in> fst ` set hon_test_handlers"
    "m_frame_type m = REPORT_NETWORK_STATUS \<Longrightarrow> msg_payload m ! 1 \<in> {0, 1, 2, 3}" using ok(1) by (auto simp: hon_request_ok_def)
  have ok6: "\<forall>(m, crc) \<in> set (butlast ?rs). hon_request_ok m" using ok(1) by (auto dest: in_set_butlastD)
  note acc' = acc [unfolded split all_accepted_append]
  obtain w6 v6 where 6: "run_tests (hon_client_platform kept new clock) (hon_server_platform new clock') hon_client_lines hon_server_lines
      (map (\<lambda>r. (hon_request_test r, 0, 0)) (butlast ?rs)) (w0, v0) = Some ((w6, v6), butlast (butlast hon_test_results))"
    "w_app v6 = fold (\<lambda>m b. fst (hon_serve (m_frame_type m) (msg_payload m) b)) (map fst (butlast ?rs)) (w_app v0)"
    "hon_running kept new clock now (w6, v6)" "hc_do_not_supress_warning (w_app w6) = hc_do_not_supress_warning (w_app w0)"
    using hon_requests_run [OF assms(1,2) ok6 conjunct1 [OF acc'], of clock'] unfolding ok(3) by blast
  have "snd (snd (hon_serve (m_frame_type m) (msg_payload m) (w_app v6))) = HANDLER_OK" using acc' by (simp add: 6(2))
  then show ?thesis
    using hon_request_step [OF assms(1) 6(3) okm(1-3) _ okm(4), of clock' crc] 6 ok(4) unfolding m split by fastforce
qed

text \<open>Claim C10. What the hOn test program checks, from its set-up, with pauses longer than the cooldown and answers within the timeout. Each
  of the eight tests logs exactly the listed lines, so \<^verbatim>\<open>TEST_END\<close> with the numbers of the program succeeds on any console
  that counts. In tests 1 to 7 the client confirms the answer type that the test expects, and nothing is warned about; after test 7 the
  control part of the server's status is the one the client sent, the rest is the initial one. In test 8, two status requests
  that are not waited for, the status comes as a message of its own both times; the first time the client's handler leaves it
  unanswered, and the library warns exactly once. These two requests write to a popped queue element: the program gets through test 8 where the
  memory of such elements is kept, and runs into undefined behaviour in it, after seven tests that pass, where it is not.\<close>

theorem hon_test_program_passes:
  fixes now :: millis and clock' :: "nat \<Rightarrow> millis" and kept :: bool
  assumes "allocates new" "paced clock DEFAULT_ANSWER_TIMEOUT DEFAULT_COOLDOWN_INTERVAL" "0 \<le> clock 0"
  defines "cs \<equiv> test7_control (hs_ac_status (w_app (hon_server new now)))"
    and "run \<equiv> run_tests (hon_client_platform kept new clock) (hon_server_platform new clock') hon_client_lines hon_server_lines"
  shows "\<exists>w7 v7 w v. run (butlast (hon_tests cs)) (hon_client new, hon_server new now) = Some ((w7, v7), butlast hon_test_results)
      \<and> run (hon_tests cs) (hon_client new, hon_server new now) = (if kept then Some ((w, v), hon_test_results) else None)
      \<and> hs_ac_status (w_app v7) = cs @ drop CONTROL_SIZE init_status \<and> hs_ac_status (w_app v) = cs @ drop CONTROL_SIZE init_status
      \<and> hvac_get (Control Ac_Power) (hs_ac_status (w_app v)) = 1
      \<and> hvac_get (Control Set_Point) (hs_ac_status (w_app v)) = hvac_get (Control Set_Point) init_status
    \<and> (\<forall>r \<in> set hon_test_results. \<forall>(c :: 'l logger \<times> console) now number. log_ready c \<and> time_ok now \<and> plain_text number \<and> lv > 1
        \<longrightarrow> test_passes lv now number r c)"
proof -
  let ?start = "(hon_client new, hon_server new now)"
  let ?t8 = "[Notice test8_request True, Both_Loops, Both_Loops, Notice test8_request True, Both_Loops, Both_Loops]"
  have s0: "hs_ac_status (w_app (hon_server new now)) = init_status"
    by (simp add: hon_server_def get_ac_state_ref_def init_ac_state_def hon_globals_def)
  have cs: "length cs = CONTROL_SIZE"
    unfolding cs_def s0 test7_control_def by (simp add: length_init_status hvac_size)
  have run0: "hon_running kept new clock now ?start"
    using hon_test_connected [OF assms(1)] hon_client_due [OF assms(2,3)] by (simp add: hon_running_def same_setup_refl)
  note served = hon_tests_served [OF assms(1-3) cs, of now]
  obtain w6 v6 w7 v7 where 7: "run (map (\<lambda>r. (hon_request_test r, 0, 0)) (butlast (hon_test_requests cs))) ?start
      = Some ((w6, v6), butlast (butlast hon_test_results))"
    "hon_run kept new clock clock' (hon_request_test (last (hon_test_requests cs))) (w6, v6) = Some ((w7, v7), [(LEVEL_INFO, answer_line CONTROL STATUS)])"
    "hs_ac_status (w_app v7) = cs @ drop CONTROL_SIZE init_status" "hon_running kept new clock now (w7, v7)"
    "hc_do_not_supress_warning (w_app w7) = hc_do_not_supress_warning (w_app (hon_client new))"
    using hon_tests_run [OF assms(1) run0 cs served(1), of clock'] served(2) unfolding run_def by auto
  have look: "hon_run kept new clock clock' [Look (hon_control_check cs)] (w7, v7) = Some ((w7, v7), [(LEVEL_INFO, ''AC control processed correctly'')])"
    using 7(3) cs by (simp add: hon_control_check_def)
  have "run [(hon_request_test (last (hon_test_requests cs)) @ [Look (hon_control_check cs)], 0, 0)] (w6, v6)
      = Some ((w7, v7), drop 6 (butlast hon_test_results))"
    using run_script_append [OF 7(2) look] unfolding run_def by (simp add: hon_test_results_def del: run_script.simps)
  from run_tests_append [OF 7(1) [unfolded run_def] this [unfolded run_def]]
  have seven: "run (butlast (hon_tests cs)) ?start = Some ((w7, v7), butlast hon_test_results)"
    unfolding run_def by (simp add: hon_tests_def hon_test_results_def butlast_append)
  have tests: "hon_tests cs = butlast (hon_tests cs) @ [(?t8, 1, 0)]"
    by (simp add: hon_tests_def butlast_append)
  obtain w v where 8: "hon_run kept new clock clock' ?t8 (w7, v7)
      = (if kept then Some ((w, v), [new_message_line, no_answer_line STATUS, new_message_line]) else None)" "w_app v = w_app v7"
  proof (cases kept)
    case True
    show thesis by (rule exE [OF hon_test8 [OF assms(1) True 7(4), of clock']]) (use 7(5) that True in \<open>auto simp: hon_client_def\<close>)
  next
    case False
    show thesis by (rule that [of w7 v7]) (use hon_test8_undefined [OF assms(1) False 7(4)] False in \<open>simp_all del: run_script.simps\<close>)
  qed
  have "run (hon_tests cs) ?start = (if kept then Some ((w, v), hon_test_results) else None)"
    using seven 8(1) unfolding run_def by (subst tests) (simp add: run_tests_both hon_test_results_def del: run_script.simps)
  moreover have "hvac_get (Control Ac_Power) (cs @ drop CONTROL_SIZE init_status) = 1"
    "hvac_get (Control Set_Point) (cs @ drop CONTROL_SIZE init_status) = hvac_get (Control Set_Point) init_status"
    unfolding cs_def s0 by code_simp+
  moreover have "test_passes lv now number r c" if "r \<in> set hon_test_results" "log_ready c" "time_ok now" "lv > 1" "plain_text number" for r now number and c :: "'l logger \<times> console"
    using hon_test_counts that by (cases r) (auto intro!: test_passes_count)
  ultimately show ?thesis using seven 7(3) 8(2) by auto
qed

theorem hon_test_program_passes_witness:
  "\<exists>cs w v. run_tests (hon_client_platform True (\<lambda>n. replicate n 0) test_clock) (hon_server_platform (\<lambda>n. replicate n 0) int)
        hon_client_lines hon_server_lines (hon_tests cs) (hon_client (\<lambda>n. replicate n 0), hon_server (\<lambda>n. replicate n 0) 7)
        = Some ((w, v), hon_test_results) \<and> hvac_get (Control Ac_Power) (hs_ac_status (w_app v)) = 1
     \<and> list_all (\<lambda>r. test_passes 2 midday ''1'' r (sample_logger, sample_console)) hon_test_results
     \<and> map snd (fst (last hon_test_results)) = [''Received an answer as a new message, type 0x02'',
         ''No answer sent in incoming messages handler, message type 02'', ''Received an answer as a new message, type 0x02'']"
proof -
  have r: "log_ready (sample_logger, sample_console)" "time_ok midday" "plain_text ''1''"
    by (simp_all add: plain_text_def log_ready_def console_wf_def sample_console_def sample_logger_def time_ok_def midday_def)
  have l: "map snd (fst (last hon_test_results)) = [''Received an answer as a new message, type 0x02'',
         ''No answer sent in incoming messages handler, message type 02'', ''Received an answer as a new message, type 0x02'']" by code_simp
  from hon_test_program_passes [where 'l = unit and kept = True, OF allocates_replicate [of 0] test_clock_paced, where clock' = int and now = 7 and lv = 2]
  obtain w v where
    "run_tests (hon_client_platform True (\<lambda>n. replicate n 0) test_clock) (hon_server_platform (\<lambda>n. replicate n 0) int)
        hon_client_lines hon_server_lines (hon_tests (test7_control (hs_ac_status (w_app (hon_server (\<lambda>n. replicate n 0) 7)))))
        (hon_client (\<lambda>n. replicate n 0), hon_server (\<lambda>n. replicate n 0) 7)
        = Some ((w, v), hon_test_results)" "hvac_get (Control Ac_Power) (hs_ac_status (w_app v)) = 1"
    "list_all (\<lambda>r. test_passes 2 midday ''1'' r (sample_logger, sample_console)) hon_test_results"
    using r by (auto simp: list_all_iff)
  then show ?thesis using l by (intro exI conjI)
qed

end
