(* ===== verification/Session_Repeats.thy ===== *)
theory Session_Repeats
  imports Session_Log
begin

text \<open>
  A request to a server with no handler for it: the client repeats it as often as \<open>send_message\<close> was told, and
  gives up. Followed here are the calls of both loops one by one with their lines: waiting, the timeout that starts
  a repeat, the repeat itself, and the timeout that ends it.
\<close>

section \<open>A client that waits\<close>

text \<open>The client has one request in its queue, the server rests and nothing is on the way.\<close>

definition pending ::
    "stream_direction \<Rightarrow> protocol_state \<Rightarrow> outgoing_item
      \<Rightarrow> (virtual_stream_holder, 'h, 'a) world \<times> (virtual_stream_holder, 'k, 'b) world \<Rightarrow> bool" where
  "pending dir st item = (\<lambda>(w, v).
     quiet dir w \<and> pr_state (w_protocol w) = st \<and> pr_outgoing_messages (w_protocol w) = [item]
     \<and> cb_list (vs_tx dir (w_stream w)) = [] \<and> at_rest (w_protocol v)
     \<and> 224 \<le> cb_capacity (tr_buffer (pr_transport (w_protocol w)))
     \<and> 224 \<le> cb_capacity (tr_buffer (pr_transport (w_protocol v))))"

text \<open>The applications and the set-up of both sides are the same.\<close>

definition kept ::
    "(virtual_stream_holder, 'h, 'a) world \<times> (virtual_stream_holder, 'k, 'b) world
      \<Rightarrow> (virtual_stream_holder, 'h, 'a) world \<times> (virtual_stream_holder, 'k, 'b) world \<Rightarrow> bool" where
  "kept = (\<lambda>(w, v) (w', v'). w_app w' = w_app w \<and> w_app v' = w_app v
     \<and> same_setup (w_protocol w) (w_protocol w') \<and> same_setup (w_protocol v) (w_protocol v'))"

lemma kept_trans: "kept s s1 \<Longrightarrow> kept s1 s2 \<Longrightarrow> kept s s2"
  by (auto simp: kept_def same_setup_def)

lemma kept_refl: "kept s s"
  by (simp add: kept_def same_setup_refl split: prod.split)

text \<open>When the client has sent nothing, the server's call of the loop does nothing.\<close>

lemma server_rests:
  assumes B: "pf_ops server = get_stream_reference (other_end dir)"
    and w1: "loop client w = Some w1" "vs_inv (w_stream w1)" "cb_list (vs_rx dir (w_stream w1)) = []"
      "cb_list (vs_tx dir (w_stream w1)) = []"
    and v: "at_rest (w_protocol v)"
  obtains v1 where "both_loops client server hc hs (w, v) = Some ((w1\<lparr>w_stream := w_stream v1\<rparr>, v1), loop_log client hc w)"
    "at_rest (w_protocol v1)" "same_setup (w_protocol v) (w_protocol v1)" "w_app v1 = w_app v"
    "vs_inv (w_stream v1)" "cb_list (vs_rx dir (w_stream v1)) = []" "cb_list (vs_tx dir (w_stream v1)) = []"
proof -
  define v0 where "v0 = v\<lparr>w_stream := w_stream w1\<rparr>"
  have v0: "at_rest (w_protocol v0)" "vs_inv (w_stream v0)" "cb_list (vs_rx (other_end dir) (w_stream v0)) = []"
    using v w1(2,4) by (simp_all add: v0_def vs_crossed)
  obtain v1 where v1: "loop server v0 = Some v1" "at_rest (w_protocol v1)" "same_setup (w_protocol v) (w_protocol v1)" "w_app v1 = w_app v"
    "vs_inv (w_stream v1)" "cb_list (vs_rx dir (w_stream v1)) = []" "cb_list (vs_tx dir (w_stream v1)) = []"
    using rest_loop [OF B v0] w1(3) by (auto simp: v0_def vs_crossed vs_crossed_back)
  have "both_loops client server hc hs (w, v) = Some ((w1\<lparr>w_stream := w_stream v1\<rparr>, v1), loop_log client hc w)"
    using w1(1) v1(1) rest_loop_log [OF B v0, of hs] by (simp add: both_loops_def v0_def [symmetric] Let_def)
  from that [OF this v1(2-7)] show ?thesis .
qed

text \<open>A waiting client that has received nothing, by the time and the repeats left.\<close>

lemma unanswered_loop:
  assumes pf: "pf_ops pf = get_stream_reference dir"
    and w: "quiet dir w" "pr_state (w_protocol w) = WAITING_FOR_ANSWER" "pr_outgoing_messages (w_protocol w) = [item]"
    and h: "find_handler (pr_timeout_handlers_map (w_protocol w)) (pr_last_message_type (w_protocol w))
      (pr_default_timeout_handler (w_protocol w)) = None"
  defines "now \<equiv> pf_clock pf (w_tick w)"
  defines "late \<equiv> pr_answer_time_point (w_protocol w) < now"
  defines "final \<equiv> late \<and> oi_number_of_retries item = 0"
  obtains t s where "loop pf w = Some (on_protocol (\<lambda>p. if final then p\<lparr>pr_outgoing_messages := [], pr_retry_time_point := now, pr_state := IDLE\<rparr>
      else if late then p\<lparr>pr_state := IDLE\<rparr> else p) (ticked t s w))"
    "loop_log pf hl w = (if final then [answer_timeout_line (pr_last_message_type (w_protocol w))] else [])"
    "settled t (Search [])" "tr_incoming_queue t = []"
    "cb_capacity (tr_buffer t) = cb_capacity (tr_buffer (pr_transport (w_protocol w)))"
    "vs_inv s" "cb_list (vs_rx dir s) = []" "cb_list (vs_tx dir s) = cb_list (vs_tx dir (w_stream w))"
proof -
  have q: "settled (pr_transport (w_protocol w)) (Search [])" "tr_incoming_queue (pr_transport (w_protocol w)) = []"
    "vs_inv (w_stream w)" "cb_list (vs_rx dir (w_stream w)) = concat (map wire [])"
    using w(1) by (simp_all add: quiet_def)
  show ?thesis
  proof (rule receive_loop_log [OF pf q, of hl])
    fix t s
    assume l: "loop pf w = dispatch pf (pf_clock pf (w_tick w)) (ticked t s w)"
      "loop_log pf hl w = dispatch_log pf hl (pf_clock pf (w_tick w)) (ticked t s w)"
      and t: "settled t (Search [])" "map tf_frame (tr_incoming_queue t) = []"
      "cb_capacity (tr_buffer t) = cb_capacity (tr_buffer (pr_transport (w_protocol w)))"
      "vs_inv s" "cb_list (vs_rx dir s) = []" "cb_list (vs_tx dir s) = cb_list (vs_tx dir (w_stream w))"
    have e: "tr_incoming_queue t = []" using t(2) by simp
    have "loop pf w = Some (on_protocol (\<lambda>p. if final then p\<lparr>pr_outgoing_messages := [], pr_retry_time_point := now, pr_state := IDLE\<rparr>
      else if late then p\<lparr>pr_state := IDLE\<rparr> else p) (ticked t s w))"
      using l(1) w(2,3) h e by (simp add: final_def late_def now_def dispatch_def waiting_timeout_def pop_outgoing_def call_timeout_handler_def
          run_handler_def default_timeout_handler_def tr_available_def on_protocol_def ticked_def)
    moreover have "loop_log pf hl w = (if final then [answer_timeout_line (pr_last_message_type (w_protocol w))] else [])"
      using l(2) w(2,3) h e by (simp add: final_def late_def now_def dispatch_log_def waiting_timeout_log_def call_timeout_handler_log_def
          call_timeout_handler_def run_handler_def run_handler_log_def default_timeout_handler_def tr_available_def)
    ultimately show ?thesis
      using that t e by blast
  qed simp_all
qed

lemma pending_waits:
  assumes pf: "pf_ops client = get_stream_reference dir" "pf_ops server = get_stream_reference (other_end dir)"
    and s: "pending dir WAITING_FOR_ANSWER item (w, v)"
    and h: "find_handler (pr_timeout_handlers_map (w_protocol w)) (pr_last_message_type (w_protocol w))
      (pr_default_timeout_handler (w_protocol w)) = None"
  defines "now \<equiv> pf_clock client (w_tick w)"
  defines "late \<equiv> pr_answer_time_point (w_protocol w) < now"
  defines "final \<equiv> late \<and> oi_number_of_retries item = 0"
  obtains w' v' where "both_loops client server hc hs (w, v)
      = Some ((w', v'), if final then [answer_timeout_line (pr_last_message_type (w_protocol w))] else [])"
    "kept (w, v) (w', v')" "w_tick w' = Suc (w_tick w)"
    "if final then connected dir (w', v') else pending dir (if late then IDLE else WAITING_FOR_ANSWER) item (w', v')"
    "pr_cooldown_time_point (w_protocol w') = pr_cooldown_time_point (w_protocol w)"
    "pr_retry_time_point (w_protocol w') = (if final then now else pr_retry_time_point (w_protocol w))"
    "pr_answer_time_point (w_protocol w') = pr_answer_time_point (w_protocol w)"
    "pr_last_message_type (w_protocol w') = pr_last_message_type (w_protocol w)"
proof -
  have w: "quiet dir w" "pr_state (w_protocol w) = WAITING_FOR_ANSWER" "pr_outgoing_messages (w_protocol w) = [item]"
    "cb_list (vs_tx dir (w_stream w)) = []" and v: "at_rest (w_protocol v)"
    and cap: "224 \<le> cb_capacity (tr_buffer (pr_transport (w_protocol w)))" "224 \<le> cb_capacity (tr_buffer (pr_transport (w_protocol v)))"
    using s by (simp_all add: pending_def)
  obtain t s' where l: "loop client w = Some (on_protocol (\<lambda>p. if final then p\<lparr>pr_outgoing_messages := [], pr_retry_time_point := now, pr_state := IDLE\<rparr>
      else if late then p\<lparr>pr_state := IDLE\<rparr> else p) (ticked t s' w))"
    "loop_log client hc w = (if final then [answer_timeout_line (pr_last_message_type (w_protocol w))] else [])"
    "settled t (Search [])" "tr_incoming_queue t = []" "cb_capacity (tr_buffer t) = cb_capacity (tr_buffer (pr_transport (w_protocol w)))"
    "vs_inv s'" "cb_list (vs_rx dir s') = []" "cb_list (vs_tx dir s') = []"
    by (rule unanswered_loop [OF pf(1) w(1-3) h, of hc, folded now_def, folded late_def, folded final_def, unfolded w(4)])
  define w1 where "w1 = on_protocol (\<lambda>p. if final then p\<lparr>pr_outgoing_messages := [], pr_retry_time_point := now, pr_state := IDLE\<rparr>
      else if late then p\<lparr>pr_state := IDLE\<rparr> else p) (ticked t s' w)"
  have w1: "w_stream w1 = s'" "w_app w1 = w_app w" "w_tick w1 = Suc (w_tick w)" by (simp_all add: w1_def)
  obtain v1 where v1: "both_loops client server hc hs (w, v) = Some ((w1\<lparr>w_stream := w_stream v1\<rparr>, v1), loop_log client hc w)"
    "at_rest (w_protocol v1)" "same_setup (w_protocol v) (w_protocol v1)" "w_app v1 = w_app v"
    "vs_inv (w_stream v1)" "cb_list (vs_rx dir (w_stream v1)) = []" "cb_list (vs_tx dir (w_stream v1)) = []"
    by (rule server_rests [OF pf(2) l(1) [folded w1_def], of v hc hs]) (use l(6-8) v w1(1) in simp_all)
  have set: "same_setup (w_protocol w) (w_protocol w1)" using l(5) by (simp add: same_setup_def w1_def)
  have "224 \<le> cb_capacity (tr_buffer (pr_transport (w_protocol v1)))" using v1(3) cap(2) by (simp add: same_setup_def)
  moreover have "final \<Longrightarrow> late" by (simp add: final_def)
  ultimately show ?thesis
    by (intro that [of "w1\<lparr>w_stream := w_stream v1\<rparr>" v1])
      (use v1 l w cap w1 set in \<open>simp_all add: kept_def connected_def pending_def quiet_def at_rest_def w1_def\<close>)
qed

section \<open>One transmission\<close>

text \<open>The server has no handler: the lines of the default handler and of its error.\<close>

definition unsupported_lines :: "haier_message \<Rightarrow> log_line list" where
  "unsupported_lines m =
     [unsupported_message_line (m_frame_type m) (msg_payload m), message_error_line (m_frame_type m) UNSUPPORTED_MESSAGE]"

text \<open>A request that fits.\<close>

definition request_ok :: "outgoing_item \<Rightarrow> bool" where
  "request_ok item \<longleftrightarrow> msg_ok (oi_message item) \<and> length (msg_payload (oi_message item)) \<le> 100 \<and> \<not> oi_no_answer item"

lemma pending_sends:
  assumes A: "pf_ops client = get_stream_reference dir" "allocates (pf_new client)"
    and B: "pf_ops server = get_stream_reference (other_end dir)"
    and s: "pending dir IDLE item (w, v)" "free client w" "0 < oi_number_of_retries item" "request_ok item"
    and h: "find_handler (pr_message_handlers_map (w_protocol v)) (m_frame_type (oi_message item))
      (pr_default_message_handler (w_protocol v)) = None"
  obtains w' v' where "both_loops client server hc hs (w, v) = Some ((w', v'), unsupported_lines (oi_message item))"
    "kept (w, v) (w', v')" "w_tick w' = w_tick w + 2"
    "pending dir WAITING_FOR_ANSWER (item\<lparr>oi_number_of_retries := oi_number_of_retries item - 1\<rparr>) (w', v')"
    "pr_cooldown_time_point (w_protocol w') = pf_clock client (w_tick w + 1) + pr_cooldown_interval (w_protocol w)"
    "pr_retry_time_point (w_protocol w') = pf_clock client (w_tick w) + oi_retry_interval item"
    "pr_answer_time_point (w_protocol w') = pf_clock client (w_tick w) + pr_answer_timeout_interval (w_protocol w)"
    "pr_last_message_type (w_protocol w') = m_frame_type (oi_message item)"
proof -
  let ?f = "item_frame item" and ?m = "oi_message item"
  have w: "quiet dir w" "pr_state (w_protocol w) = IDLE" "pr_outgoing_messages (w_protocol w) = [item]"
    "cb_list (vs_tx dir (w_stream w)) = []" and v: "at_rest (w_protocol v)"
    and cap: "224 \<le> cb_capacity (tr_buffer (pr_transport (w_protocol w)))" "224 \<le> cb_capacity (tr_buffer (pr_transport (w_protocol v)))"
    using s(1) by (simp_all add: pending_def)
  have time: "pr_cooldown_time_point (w_protocol w) \<le> pf_clock client (w_tick w)"
    "pr_retry_time_point (w_protocol w) \<le> pf_clock client (w_tick w)"
    using s(2) by (simp_all add: free_def)
  have len: "length (msg_payload ?m) \<le> MAX_DATA_SIZE" "length (wire ?f) \<le> 224"
    using s(4) short_wire [of ?m "oi_use_crc item"] by (simp_all add: request_ok_def MAX_DATA_SIZE_def item_frame_def)
  have item: "msg_ok ?m" "\<not> oi_no_answer item" "length (wire ?f) < 256" "length (wire ?f) \<le> cb_capacity (tr_buffer (pr_transport (w_protocol v)))"
    using s(4) len(2) cap(2) by (simp_all add: request_ok_def)
  obtain w1 where w1: "loop client w = Some w1" "pr_state (w_protocol w1) = WAITING_FOR_ANSWER"
    "pr_outgoing_messages (w_protocol w1) = [item\<lparr>oi_number_of_retries := oi_number_of_retries item - 1\<rparr>]"
    "pr_answer_time_point (w_protocol w1) = pf_clock client (w_tick w) + pr_answer_timeout_interval (w_protocol w)"
    "pr_retry_time_point (w_protocol w1) = pf_clock client (w_tick w) + oi_retry_interval item"
    "pr_last_message_type (w_protocol w1) = m_frame_type ?m"
    "settled (pr_transport (w_protocol w1)) (Search [])" "tr_incoming_queue (pr_transport (w_protocol w1)) = []"
    "w_app w1 = w_app w" "w_tick w1 = w_tick w + 2" "vs_inv (w_stream w1)"
    "cb_list (vs_tx dir (w_stream w1)) = wire ?f" "cb_list (vs_rx dir (w_stream w1)) = []"
    "same_setup (w_protocol w) (w_protocol w1)"
    "pr_cooldown_time_point (w_protocol w1) = pf_clock client (w_tick w + 1) + pr_cooldown_interval (w_protocol w)"
    using send_loop [OF A w(1-3) time item(1) s(3) len(1) item(3) w(4)] item(2) by auto
  note f = message_frame_ok(1-4) [OF len(1), of "oi_use_crc item", folded message_frame_ok(5) [OF len(1), of item]]
  define v0 where "v0 = v\<lparr>w_stream := w_stream w1\<rparr>"
  have v0: "at_rest (w_protocol v0)" "vs_inv (w_stream v0)" "cb_list (vs_rx (other_end dir) (w_stream v0)) = wire ?f"
    "length (wire ?f) \<le> cb_capacity (tr_buffer (pr_transport (w_protocol v0)))"
    "message_run server (w_protocol v0) (f_type ?f) (frame_data ?f) (w_app v0) = (w_app v, [], UNSUPPORTED_MESSAGE)"
    using v w1(11,12) item(4) h f(2) by (simp_all add: v0_def vs_crossed message_run_def default_message_handler_def)
  obtain v1 where v1: "loop server v0 = Some v1" "w_app v1 = w_app v" "at_rest (w_protocol v1)" "same_setup (w_protocol v) (w_protocol v1)"
    "vs_inv (w_stream v1)" "cb_list (vs_rx dir (w_stream v1)) = []" "cb_list (vs_tx dir (w_stream v1)) = []"
    using message_loop [OF B v0(1-3) f(1) v0(4,5)] w1(13) by (auto simp: v0_def vs_crossed vs_crossed_back)
  have "loop_log server hs v0 = unsupported_lines ?m"
    using message_loop_log [OF B v0(1-3) f(1) v0(4,5), of hs] h f(2,4)
    by (simp add: v0_def message_lines_def outcome_lines_def unsupported_lines_def)
  then have "both_loops client server hc hs (w, v) = Some ((w1\<lparr>w_stream := w_stream v1\<rparr>, v1), unsupported_lines ?m)"
    using w1(1) v1(1) send_loop_log [OF A w(1-3) item(1) len(1) item(3) w(4), of hc]
    by (simp add: both_loops_def v0_def [symmetric] Let_def)
  moreover have "224 \<le> cb_capacity (tr_buffer (pr_transport (w_protocol w1)))" "224 \<le> cb_capacity (tr_buffer (pr_transport (w_protocol v1)))"
    using v1(4) w1(14) cap by (simp_all add: same_setup_def)
  ultimately show ?thesis
    by (intro that [of "w1\<lparr>w_stream := w_stream v1\<rparr>" v1])
      (use v1 w1 in \<open>simp_all add: kept_def pending_def quiet_def\<close>)
qed

section \<open>All transmissions\<close>

text \<open>Readings of the client's clock from \<open>k\<close> on, when a waiting client has just seen the timeout: \<open>r\<close> times a repeat,
  whose two readings are followed by the next timeout and by a call that is behind the cooldown and the interval.\<close>

definition repeats_paced :: "(nat \<Rightarrow> millis) \<Rightarrow> millis \<Rightarrow> millis \<Rightarrow> millis \<Rightarrow> nat \<Rightarrow> nat \<Rightarrow> bool" where
  "repeats_paced clock timeout cooldown interval k r \<longleftrightarrow> (\<forall>j < r. let b = k + 3 * j + 1 in
     clock b + timeout < clock (b + 2) \<and> clock (b + 1) + cooldown \<le> clock (b + 3) \<and> clock b + interval \<le> clock (b + 3))"

lemma repeats_paced_Suc:
  "repeats_paced clock t c i k (Suc r) \<longleftrightarrow>
     clock (k + 1) + t < clock (k + 3) \<and> clock (k + 2) + c \<le> clock (k + 4) \<and> clock (k + 1) + i \<le> clock (k + 4)
     \<and> repeats_paced clock t c i (k + 3) r"
proof -
  have b: "k + 3 * Suc j + 1 = k + 3 + 3 * j + 1" for j by simp
  have n: "k + 3 * 0 + 1 = k + 1" "k + 1 + 1 = k + 2" "k + 1 + 2 = k + 3" "k + 1 + 3 = k + 4" by simp_all
  show ?thesis unfolding repeats_paced_def All_less_Suc2 b Let_def n by blast
qed

lemma kept_setup:
  assumes "kept (w, v) (w', v')"
  shows "pr_answer_timeout_interval (w_protocol w') = pr_answer_timeout_interval (w_protocol w)"
    "pr_cooldown_interval (w_protocol w') = pr_cooldown_interval (w_protocol w)"
    "find_handler (pr_timeout_handlers_map (w_protocol w')) ty (pr_default_timeout_handler (w_protocol w'))
      = find_handler (pr_timeout_handlers_map (w_protocol w)) ty (pr_default_timeout_handler (w_protocol w))"
    "find_handler (pr_message_handlers_map (w_protocol v')) ty (pr_default_message_handler (w_protocol v'))
      = find_handler (pr_message_handlers_map (w_protocol v)) ty (pr_default_message_handler (w_protocol v))"
  using assms by (simp_all add: kept_def same_setup_def)

lemma repeats_script:
  assumes A: "pf_ops client = get_stream_reference dir" "allocates (pf_new client)"
    and B: "pf_ops server = get_stream_reference (other_end dir)"
    and s: "pending dir WAITING_FOR_ANSWER item (w, v)" "oi_number_of_retries item = int r" "request_ok item"
      "pr_last_message_type (w_protocol w) = m_frame_type (oi_message item)"
    and h: "find_handler (pr_timeout_handlers_map (w_protocol w)) (m_frame_type (oi_message item)) (pr_default_timeout_handler (w_protocol w)) = None"
      "find_handler (pr_message_handlers_map (w_protocol v)) (m_frame_type (oi_message item)) (pr_default_message_handler (w_protocol v)) = None"
    and time: "pr_answer_time_point (w_protocol w) < pf_clock client (w_tick w)"
      "pr_cooldown_time_point (w_protocol w) \<le> pf_clock client (w_tick w + 1)" "pr_retry_time_point (w_protocol w) \<le> pf_clock client (w_tick w + 1)"
      "repeats_paced (pf_clock client) (pr_answer_timeout_interval (w_protocol w)) (pr_cooldown_interval (w_protocol w))
        (oi_retry_interval item) (w_tick w) r"
  shows "\<exists>w' v'. run_script client server hc hs (replicate (2 * r + 1) Both_Loops) (w, v)
      = Some ((w', v'), concat (replicate r (unsupported_lines (oi_message item))) @ [answer_timeout_line (m_frame_type (oi_message item))])
    \<and> connected dir (w', v') \<and> kept (w, v) (w', v') \<and> w_tick w' = w_tick w + 3 * r + 1
    \<and> pr_cooldown_time_point (w_protocol w') \<le> pf_clock client (w_tick w')
    \<and> pr_retry_time_point (w_protocol w') = pf_clock client (w_tick w + 3 * r)"
  using s h time
proof (induction r arbitrary: w v item)
  case 0
  note p = "0.prems"
  have h: "find_handler (pr_timeout_handlers_map (w_protocol w)) (pr_last_message_type (w_protocol w)) (pr_default_timeout_handler (w_protocol w)) = None"
    using p(4,5) by simp
  have final: "pr_answer_time_point (w_protocol w) < pf_clock client (w_tick w) \<and> oi_number_of_retries item = 0"
    using p(2,7) by simp
  obtain w' v' where "both_loops client server hc hs (w, v) = Some ((w', v'), [answer_timeout_line (m_frame_type (oi_message item))])"
    "kept (w, v) (w', v')" "w_tick w' = Suc (w_tick w)" "connected dir (w', v')"
    "pr_cooldown_time_point (w_protocol w') = pr_cooldown_time_point (w_protocol w)"
    "pr_retry_time_point (w_protocol w') = pf_clock client (w_tick w)"
    by (rule pending_waits [OF A(1) B p(1) h, of hc hs, unfolded if_P [OF final] p(4)]) (rule that)
  then show ?case using p(8) by simp
next
  case (Suc r)
  note p = Suc.prems
  have h: "find_handler (pr_timeout_handlers_map (w_protocol w)) (pr_last_message_type (w_protocol w)) (pr_default_timeout_handler (w_protocol w)) = None"
    using p(4,5) by simp
  have late: "pr_answer_time_point (w_protocol w) < pf_clock client (w_tick w)"
    and nf: "\<not> (pr_answer_time_point (w_protocol w) < pf_clock client (w_tick w) \<and> oi_number_of_retries item = 0)"
    using p(2,7) by simp_all
  obtain w1 v1 where 1: "both_loops client server hc hs (w, v) = Some ((w1, v1), [])"
    "kept (w, v) (w1, v1)" "w_tick w1 = Suc (w_tick w)" "pending dir IDLE item (w1, v1)"
    "pr_cooldown_time_point (w_protocol w1) = pr_cooldown_time_point (w_protocol w)"
    "pr_retry_time_point (w_protocol w1) = pr_retry_time_point (w_protocol w)"
    by (rule pending_waits [OF A(1) B p(1) h, of hc hs, unfolded if_not_P [OF nf] if_P [OF late]]) (rule that)
  have ready: "free client w1" "0 < oi_number_of_retries item"
    "find_handler (pr_message_handlers_map (w_protocol v1)) (m_frame_type (oi_message item)) (pr_default_message_handler (w_protocol v1)) = None"
    using 1(3,5,6) p(2,6,8,9) kept_setup [OF 1(2)] by (simp_all add: free_def)
  define item1 where "item1 = item\<lparr>oi_number_of_retries := oi_number_of_retries item - 1\<rparr>"
  have item1: "oi_message item1 = oi_message item" "oi_number_of_retries item1 = int r" "oi_retry_interval item1 = oi_retry_interval item" "request_ok item1"
    using p(2,3) by (simp_all add: item1_def request_ok_def)
  obtain w2 v2 where 2: "both_loops client server hc hs (w1, v1) = Some ((w2, v2), unsupported_lines (oi_message item))"
    "kept (w1, v1) (w2, v2)" "w_tick w2 = w_tick w1 + 2" "pending dir WAITING_FOR_ANSWER item1 (w2, v2)"
    "pr_cooldown_time_point (w_protocol w2) = pf_clock client (w_tick w1 + 1) + pr_cooldown_interval (w_protocol w1)"
    "pr_retry_time_point (w_protocol w2) = pf_clock client (w_tick w1) + oi_retry_interval item"
    "pr_answer_time_point (w_protocol w2) = pf_clock client (w_tick w1) + pr_answer_timeout_interval (w_protocol w1)"
    "pr_last_message_type (w_protocol w2) = m_frame_type (oi_message item)"
    by (rule pending_sends [OF A B 1(4) ready(1,2) p(3) ready(3), of hc hs, folded item1_def]) (rule that)
  note k = kept_trans [OF 1(2) 2(2)]
  have t2: "w_tick w2 = w_tick w + 3" using 1(3) 2(3) by simp
  have pace: "pf_clock client (w_tick w + 1) + pr_answer_timeout_interval (w_protocol w) < pf_clock client (w_tick w + 3)"
    "pf_clock client (w_tick w + 2) + pr_cooldown_interval (w_protocol w) \<le> pf_clock client (w_tick w + 4)"
    "pf_clock client (w_tick w + 1) + oi_retry_interval item \<le> pf_clock client (w_tick w + 4)"
    "repeats_paced (pf_clock client) (pr_answer_timeout_interval (w_protocol w)) (pr_cooldown_interval (w_protocol w))
        (oi_retry_interval item) (w_tick w + 3) r"
    using p(10) by (simp_all add: repeats_paced_Suc)
  have tick: "w_tick w1 + 1 = w_tick w + 2" "w_tick w1 = w_tick w + 1" "w_tick w2 + 1 = w_tick w + 4" using 1(3) t2 by simp_all
  have time2: "pr_answer_time_point (w_protocol w2) < pf_clock client (w_tick w2)"
    "pr_cooldown_time_point (w_protocol w2) \<le> pf_clock client (w_tick w2 + 1)" "pr_retry_time_point (w_protocol w2) \<le> pf_clock client (w_tick w2 + 1)"
    "repeats_paced (pf_clock client) (pr_answer_timeout_interval (w_protocol w2)) (pr_cooldown_interval (w_protocol w2))
        (oi_retry_interval item1) (w_tick w2) r"
    using pace kept_setup(1,2) [OF 1(2)] kept_setup(1,2) [OF k] unfolding 2(5-7) tick t2 item1 by (simp_all add: ac_simps)
  obtain w' v' where 3: "run_script client server hc hs (replicate (2 * r + 1) Both_Loops) (w2, v2)
      = Some ((w', v'), concat (replicate r (unsupported_lines (oi_message item))) @ [answer_timeout_line (m_frame_type (oi_message item))])"
    "connected dir (w', v')" "kept (w2, v2) (w', v')" "w_tick w' = w_tick w2 + 3 * r + 1"
    "pr_cooldown_time_point (w_protocol w') \<le> pf_clock client (w_tick w')"
    "pr_retry_time_point (w_protocol w') = pf_clock client (w_tick w2 + 3 * r)"
    using Suc.IH [OF 2(4) item1(2,4) _ _ _ time2] 2(8) p(5,6) kept_setup(3,4) [OF k] item1(1) by auto
  have "run_script client server hc hs (replicate (2 * Suc r + 1) Both_Loops) (w, v)
      = Some ((w', v'), concat (replicate (Suc r) (unsupported_lines (oi_message item))) @ [answer_timeout_line (m_frame_type (oi_message item))])"
    using run_script_append [of client server hc hs "[Both_Loops, Both_Loops]" "(w, v)" "(w2, v2)" "unsupported_lines (oi_message item)", OF _ 3(1)]
      1(1) 2(1) by simp
  then show ?case
    using 3 t2 kept_trans [OF k 3(3)] by (intro exI [of _ w'] exI [of _ v']) (simp add: ac_simps)
qed

section \<open>The whole request\<close>

lemma unsupported_script:
  fixes interval :: millis and n :: byte
  defines "r \<equiv> min (unat n) MAX_PACKET_RETRIES"
  assumes A: "pf_ops client = get_stream_reference dir" "allocates (pf_new client)"
    and B: "pf_ops server = get_stream_reference (other_end dir)"
    and s: "connected dir (w, v)" "free client w"
    and m: "msg_ok m" "length (msg_payload m) \<le> 100"
    and h: "find_handler (pr_timeout_handlers_map (w_protocol w)) (m_frame_type m) (pr_default_timeout_handler (w_protocol w)) = None"
      "find_handler (pr_message_handlers_map (w_protocol v)) (m_frame_type m) (pr_default_message_handler (w_protocol v)) = None"
    and k: "w_tick w = k" "pr_answer_timeout_interval (w_protocol w) = timeout" "pr_cooldown_interval (w_protocol w) = cooldown"
    and time: "pf_clock client (k + 2) \<le> pf_clock client k + timeout" "pf_clock client k + timeout < pf_clock client (k + 3)"
      "pf_clock client (k + 1) + cooldown \<le> pf_clock client (k + 4)" "pf_clock client k + interval \<le> pf_clock client (k + 4)"
      "repeats_paced (pf_clock client) timeout cooldown interval (k + 3) r"
  shows "\<exists>w' v'. run_script client server hc hs (Request m crc n interval # replicate (2 * r + 3) Both_Loops) (w, v)
      = Some ((w', v'), concat (replicate (Suc r) (unsupported_lines m)) @ [answer_timeout_line (m_frame_type m)])
    \<and> connected dir (w', v') \<and> kept (w, v) (w', v') \<and> w_tick w' = k + 3 * r + 4
    \<and> pr_cooldown_time_point (w_protocol w') \<le> pf_clock client (k + 3 * r + 4)
    \<and> pr_retry_time_point (w_protocol w') = pf_clock client (k + 3 * r + 3)"
proof -
  obtain w1 it where w1: "enqueue_message True m crc n interval w = Some w1" "w_app w1 = w_app w" "w_tick w1 = w_tick w"
    "same_setup (w_protocol w) (w_protocol w1)"
    "quiet dir w1" "pr_state (w_protocol w1) = IDLE" "pr_outgoing_messages (w_protocol w1) = [it]"
    "pr_cooldown_time_point (w_protocol w1) \<le> pf_clock client (w_tick w1)" "pr_retry_time_point (w_protocol w1) \<le> pf_clock client (w_tick w1)"
    "cb_list (vs_tx dir (w_stream w1)) = []"
    and it: "msg_ok (oi_message it)" "0 < oi_number_of_retries it" "oi_no_answer it = (\<not> True)"
    "m_frame_type (oi_message it) = m_frame_type m" "msg_payload (oi_message it) = msg_payload m"
    "oi_number_of_retries it = int r + 1" "oi_retry_interval it = interval"
    by (rule enqueued [OF s m, of True crc n interval]) (rule that, (assumption | simp add: r_def)+)
  have p1: "pending dir IDLE it (w1, v)"
    using w1(4-7,10) s(1) by (simp add: pending_def connected_def same_setup_def)
  have f1: "free client w1" "request_ok it" using w1(8,9) it(1,3,5) m(2) by (simp_all add: free_def request_ok_def)
  have lines: "unsupported_lines (oi_message it) = unsupported_lines m" by (simp add: unsupported_lines_def it(4,5))
  have kept1: "kept (w, v) (w1, v)" using w1(2,4) by (simp add: kept_def same_setup_refl)
  define it1 where "it1 = it\<lparr>oi_number_of_retries := oi_number_of_retries it - 1\<rparr>"
  have it1: "oi_message it1 = oi_message it" "oi_number_of_retries it1 = int r" "oi_retry_interval it1 = interval" "request_ok it1"
    using it(6,7) f1(2) by (simp_all add: it1_def request_ok_def)
  obtain w2 v2 where 2: "both_loops client server hc hs (w1, v) = Some ((w2, v2), unsupported_lines m)"
    "kept (w1, v) (w2, v2)" "w_tick w2 = w_tick w1 + 2" "pending dir WAITING_FOR_ANSWER it1 (w2, v2)"
    "pr_cooldown_time_point (w_protocol w2) = pf_clock client (w_tick w1 + 1) + pr_cooldown_interval (w_protocol w1)"
    "pr_retry_time_point (w_protocol w2) = pf_clock client (w_tick w1) + interval"
    "pr_answer_time_point (w_protocol w2) = pf_clock client (w_tick w1) + pr_answer_timeout_interval (w_protocol w1)"
    "pr_last_message_type (w_protocol w2) = m_frame_type m"
    by (rule pending_sends [OF A B p1 f1(1) it(2) f1(2) h(2) [folded it(4)], of hc hs, folded it1_def, unfolded lines it(4,7)]) (rule that)
  note k2 = kept_trans [OF kept1 2(2)]
  have at2: "w_tick w2 = k + 2" "pr_answer_time_point (w_protocol w2) = pf_clock client k + timeout"
    "pr_cooldown_time_point (w_protocol w2) = pf_clock client (k + 1) + cooldown"
    using 2(3,5,7) w1(3) k kept_setup(1,2) [OF kept1] by simp_all
  have in_time: "\<not> (pr_answer_time_point (w_protocol w2) < pf_clock client (w_tick w2) \<and> oi_number_of_retries it1 = 0)"
    "\<not> pr_answer_time_point (w_protocol w2) < pf_clock client (w_tick w2)"
    using at2 time(1) by simp_all
  have h2: "find_handler (pr_timeout_handlers_map (w_protocol w2)) (pr_last_message_type (w_protocol w2)) (pr_default_timeout_handler (w_protocol w2)) = None"
    using h(1) kept_setup(3) [OF k2] 2(8) by simp
  obtain w3 v3 where 3: "both_loops client server hc hs (w2, v2) = Some ((w3, v3), [])"
    "kept (w2, v2) (w3, v3)" "w_tick w3 = Suc (w_tick w2)" "pending dir WAITING_FOR_ANSWER it1 (w3, v3)"
    "pr_cooldown_time_point (w_protocol w3) = pr_cooldown_time_point (w_protocol w2)"
    "pr_retry_time_point (w_protocol w3) = pr_retry_time_point (w_protocol w2)"
    "pr_answer_time_point (w_protocol w3) = pr_answer_time_point (w_protocol w2)"
    "pr_last_message_type (w_protocol w3) = pr_last_message_type (w_protocol w2)"
    by (rule pending_waits [OF A(1) B 2(4) h2, of hc hs, unfolded if_not_P [OF in_time(1)] if_not_P [OF in_time(2)]]) (rule that)
  note k3 = kept_trans [OF k2 3(2)]
  have tick: "w_tick w3 = k + 3" "w_tick w3 + 1 = k + 4" using at2(1) 3(3) by simp_all
  have late: "pr_answer_time_point (w_protocol w3) < pf_clock client (w_tick w3)"
    "pr_cooldown_time_point (w_protocol w3) \<le> pf_clock client (w_tick w3 + 1)" "pr_retry_time_point (w_protocol w3) \<le> pf_clock client (w_tick w3 + 1)"
    "repeats_paced (pf_clock client) (pr_answer_timeout_interval (w_protocol w3)) (pr_cooldown_interval (w_protocol w3))
      (oi_retry_interval it1) (w_tick w3) r"
    using time(2-5) 2(6) w1(3) k kept_setup(1,2) [OF k3] unfolding 3(5-7) at2(2,3) tick it1(3) by (simp_all add: ac_simps)
  obtain w' v' where 4: "run_script client server hc hs (replicate (2 * r + 1) Both_Loops) (w3, v3)
      = Some ((w', v'), concat (replicate r (unsupported_lines m)) @ [answer_timeout_line (m_frame_type m)])"
    "connected dir (w', v')" "kept (w3, v3) (w', v')" "w_tick w' = w_tick w3 + 3 * r + 1"
    "pr_cooldown_time_point (w_protocol w') \<le> pf_clock client (w_tick w')"
    "pr_retry_time_point (w_protocol w') = pf_clock client (w_tick w3 + 3 * r)"
    using repeats_script [OF A B 3(4) it1(2,4) _ _ _ late, of hc hs] 3(8) 2(8) h kept_setup(3,4) [OF k3] lines it1(1) it(4) by auto
  have "run_script client server hc hs [Request m crc n interval, Both_Loops, Both_Loops] (w, v) = Some ((w3, v3), unsupported_lines m)"
    using w1(1) 2(1) 3(1) by (simp add: enqueue_message_def)
  from run_script_append [OF this 4(1)]
  have "run_script client server hc hs (Request m crc n interval # replicate (2 * r + 3) Both_Loops) (w, v)
      = Some ((w', v'), concat (replicate (Suc r) (unsupported_lines m)) @ [answer_timeout_line (m_frame_type m)])"
    by (simp add: numeral_3_eq_3)
  moreover have "w_tick w' = k + 3 * r + 4" "w_tick w3 + 3 * r = k + 3 * r + 3" using 4(4) tick by simp_all
  ultimately show ?thesis
    using 4(2,5,6) kept_trans [OF k3 4(3)] by (intro exI [of _ w'] exI [of _ v']) (simp add: ac_simps)
qed

text \<open>Claim C8. A request the server does not support. The client sends it with \<open>n\<close> repeats while it is free, the server has no
  handler for its type and no default handler, and the client no timeout handler. With calls of both loops paced as the
  clock states, the server gets the request min(n, 9) + 1 times and logs two warnings each time, what it received and
  the error of the handler; nothing goes back; after the last timeout the client logs one more warning and gives
  up. Both sides are at rest again, and the applications have not been involved.\<close>

theorem unsupported_request_gives_up:
  fixes interval :: millis and n :: byte
  defines "r \<equiv> min (unat n) MAX_PACKET_RETRIES"
  assumes "pf_ops client = get_stream_reference dir" "allocates (pf_new client)" "pf_ops server = get_stream_reference (other_end dir)"
    and "connected dir (w, v)" "free client w" "msg_ok m" "length (msg_payload m) \<le> 100"
    and "find_handler (pr_timeout_handlers_map (w_protocol w)) (m_frame_type m) (pr_default_timeout_handler (w_protocol w)) = None"
      "find_handler (pr_message_handlers_map (w_protocol v)) (m_frame_type m) (pr_default_message_handler (w_protocol v)) = None"
    and "w_tick w = k" "pr_answer_timeout_interval (w_protocol w) = timeout" "pr_cooldown_interval (w_protocol w) = cooldown"
    and "pf_clock client (k + 2) \<le> pf_clock client k + timeout" "pf_clock client k + timeout < pf_clock client (k + 3)"
      "pf_clock client (k + 1) + cooldown \<le> pf_clock client (k + 4)" "pf_clock client k + interval \<le> pf_clock client (k + 4)"
      "repeats_paced (pf_clock client) timeout cooldown interval (k + 3) r"
  shows "\<exists>w' v'. run_script client server hc hs (Request m crc n interval # replicate (2 * r + 3) Both_Loops) (w, v)
      = Some ((w', v'), concat (replicate (Suc r)
          [unsupported_message_line (m_frame_type m) (msg_payload m), message_error_line (m_frame_type m) UNSUPPORTED_MESSAGE])
          @ [answer_timeout_line (m_frame_type m)])
    \<and> at_rest (w_protocol w') \<and> at_rest (w_protocol v') \<and> w_app w' = w_app w \<and> w_app v' = w_app v"
proof -
  obtain w' v' where "run_script client server hc hs (Request m crc n interval # replicate (2 * r + 3) Both_Loops) (w, v)
      = Some ((w', v'), concat (replicate (Suc r) (unsupported_lines m)) @ [answer_timeout_line (m_frame_type m)])"
    "connected dir (w', v')" "kept (w, v) (w', v')"
    using unsupported_script [OF assms(2-17) assms(18) [unfolded r_def], of hc hs crc] unfolding r_def by blast
  then show ?thesis
    unfolding unsupported_lines_def by (intro exI [of _ w'] exI [of _ v']) (simp add: connected_def kept_def)
qed

text \<open>Twelve repeats are asked for, ten transmissions happen: 21 lines.\<close>

definition pausing_platform :: "stream_direction \<Rightarrow> (virtual_stream_holder, unit, nat) platform" where
  "pausing_platform dir = (fast_platform dir)\<lparr>pf_clock := (\<lambda>i. if i < 3 then 0 else 500 * int i)\<rparr>"

definition bare_world :: "(virtual_stream_holder, unit, nat) world" where
  "bare_world = on_protocol (\<lambda>p. p\<lparr>pr_default_timeout_handler := None\<rparr>) quiet_world"

theorem unsupported_request_gives_up_witness:
  "\<exists>s lines. run_script (pausing_platform DIRECTION_A) (pausing_platform DIRECTION_B)
        (handler_lines.make (\<lambda>_ _ _ _. []) (\<lambda>_ _ _ _ _. []) (\<lambda>_ _ _. [])) (handler_lines.make (\<lambda>_ _ _ _. []) (\<lambda>_ _ _ _ _. []) (\<lambda>_ _ _. []))
        (Request (msg_of_data CONTROL (Some [1]) 1) True 12 0 # replicate 21 Both_Loops) (bare_world, bare_world) = Some (s, lines)
     \<and> length lines = 21 \<and> snd (lines ! 0) = ''Unsupported message received: type 01 data: 01'' \<and> snd (lines ! 20) = ''Message 01 answer timeout''"
proof -
  let ?m = "msg_of_data CONTROL (Some [1]) 1"
  let ?hl = "handler_lines.make (\<lambda>_ _ _ _. []) (\<lambda>_ _ _ _ _. []) (\<lambda>_ _ _. []) :: (unit, nat) handler_lines"
  have m: "msg_ok ?m" "msg_payload ?m = [1]" "m_frame_type ?m = CONTROL"
    by (simp_all add: msg_of_data_def msg_new_ok msg_payload_def)
  have q: "quiet DIRECTION_A quiet_world" "cb_list (vs_tx DIRECTION_A (vs_new (\<lambda>n. replicate n 0))) = []"
    using quiet_world_ready vs_new_empty(2) [OF allocates_replicate [of 0]] by (simp_all add: ready_def Let_def)
  have cap: "cb_capacity (tr_buffer (pr_transport (w_protocol bare_world))) = 256"
    using tr_new_handler(3) [OF allocates_replicate [of 0], of 256]
    by (simp add: bare_world_def quiet_world_def pr_new_sized_def CIRCULAR_BUFFER_MINIMUM_SIZE_def)
  have c: "connected DIRECTION_A (bare_world, bare_world)" "free (pausing_platform DIRECTION_A) bare_world"
    using q cap by (simp_all add: connected_def at_rest_def quiet_def bare_world_def quiet_world_def pr_new_sized_def free_def pausing_platform_def)
  have pf: "pf_ops (pausing_platform dir) = get_stream_reference dir" "allocates (pf_new (pausing_platform dir))"
    "pf_clock (pausing_platform dir) i = (if i < 3 then 0 else 500 * int i)" for dir i
    by (simp_all add: pausing_platform_def fast_platform_def allocates_replicate)
  have w: "w_tick bare_world = 0" "pr_answer_timeout_interval (w_protocol bare_world) = 200" "pr_cooldown_interval (w_protocol bare_world) = 400"
    "find_handler (pr_timeout_handlers_map (w_protocol bare_world)) ty (pr_default_timeout_handler (w_protocol bare_world)) = None"
    "find_handler (pr_message_handlers_map (w_protocol bare_world)) ty (pr_default_message_handler (w_protocol bare_world)) = None" for ty
    by (simp_all add: bare_world_def quiet_world_def pr_new_sized_def find_handler_def)
  have "repeats_paced (pf_clock (pausing_platform DIRECTION_A)) 200 400 0 (0 + 3) (min (unat (12 :: byte)) MAX_PACKET_RETRIES)"
    by (simp add: repeats_paced_def Let_def pf)
  from unsupported_request_gives_up [OF pf(1,2) _ c m(1) _ w(4,5,1-3) _ _ _ _ this, of "pausing_platform DIRECTION_B" ?hl ?hl True]
  obtain s where "run_script (pausing_platform DIRECTION_A) (pausing_platform DIRECTION_B) ?hl ?hl (Request ?m True 12 0 # replicate 21 Both_Loops)
      (bare_world, bare_world) = Some (s, concat (replicate 10
          [unsupported_message_line CONTROL [1], message_error_line CONTROL UNSUPPORTED_MESSAGE]) @ [answer_timeout_line CONTROL])"
    unfolding m by (auto simp: pf other_end_def)
  moreover have "snd (unsupported_message_line CONTROL [1]) = ''Unsupported message received: type 01 data: 01''"
    "snd (answer_timeout_line CONTROL) = ''Message 01 answer timeout''"
    by code_simp+
  ultimately show ?thesis
    by (intro exI conjI) (assumption, simp_all add: numeral_eq_Suc)
qed

end
