(* ===== verification/Smartair2_Server.thy ===== *)
theory Smartair2_Server
  imports Bit_Fields Handler_Contract
begin

text \<open>
  The SmartAir2 server: the layout of \<^verbatim>\<open>tools/utils/smartair2_packet.h\<close> and the
  status and message handlers of \<^verbatim>\<open>tools/utils/smartair2_server.cpp\<close>, with the
  interpretation of the field and handler interfaces on them and what a control command does. What
  the handlers log is in \<open>Smartair2_Session\<close>.
\<close>

section \<open>Layout\<close>

datatype s2_conditioning_mode =
  S2_Mode_AUTO | S2_Mode_COOL | S2_Mode_HEAT | S2_Mode_FAN | S2_Mode_DRY

primrec s2_conditioning_mode_code :: "s2_conditioning_mode \<Rightarrow> byte" where
  "s2_conditioning_mode_code S2_Mode_AUTO = 0x00"
| "s2_conditioning_mode_code S2_Mode_COOL = 0x01"
| "s2_conditioning_mode_code S2_Mode_HEAT = 0x02"
| "s2_conditioning_mode_code S2_Mode_FAN = 0x03"
| "s2_conditioning_mode_code S2_Mode_DRY = 0x04"

datatype s2_fan_mode = S2_FAN_HIGH | S2_FAN_MID | S2_FAN_LOW | S2_FAN_AUTO

primrec s2_fan_mode_code :: "s2_fan_mode \<Rightarrow> byte" where
  "s2_fan_mode_code S2_FAN_HIGH = 0x00"
| "s2_fan_mode_code S2_FAN_MID = 0x01"
| "s2_fan_mode_code S2_FAN_LOW = 0x02"
| "s2_fan_mode_code S2_FAN_AUTO = 0x03"

text \<open>\<^verbatim>\<open>HaierPacketControl\<close>, 24 bytes.\<close>

datatype s2_field =
    S2_Room_Temperature | S2_Room_Humidity | S2_Cntrl | S2_Ac_Mode | S2_Fan_Mode | S2_Swing_Both
  | S2_Use_Fahrenheit | S2_Lock_Remote | S2_Ac_Power | S2_Health_Mode | S2_Compressor | S2_Ten_Degree
  | S2_Use_Swing_Bits | S2_Turbo_Mode | S2_Quiet_Mode | S2_Horizontal_Swing | S2_Vertical_Swing
  | S2_Display_Status | S2_Set_Point

primrec s2_layout :: "s2_field \<Rightarrow> bit_field" where
  "s2_layout S2_Room_Temperature = (1, 0, 8)"
| "s2_layout S2_Room_Humidity = (3, 0, 8)"
| "s2_layout S2_Cntrl = (5, 0, 8)"
| "s2_layout S2_Ac_Mode = (11, 0, 8)"
| "s2_layout S2_Fan_Mode = (13, 0, 8)"
| "s2_layout S2_Swing_Both = (15, 0, 8)"
| "s2_layout S2_Use_Fahrenheit = (16, 3, 1)"
| "s2_layout S2_Lock_Remote = (16, 7, 1)"
| "s2_layout S2_Ac_Power = (17, 0, 1)"
| "s2_layout S2_Health_Mode = (17, 3, 1)"
| "s2_layout S2_Compressor = (17, 4, 1)"
| "s2_layout S2_Ten_Degree = (17, 6, 1)"
| "s2_layout S2_Use_Swing_Bits = (19, 0, 1)"
| "s2_layout S2_Turbo_Mode = (19, 1, 1)"
| "s2_layout S2_Quiet_Mode = (19, 2, 1)"
| "s2_layout S2_Horizontal_Swing = (19, 3, 1)"
| "s2_layout S2_Vertical_Swing = (19, 4, 1)"
| "s2_layout S2_Display_Status = (19, 5, 1)"
| "s2_layout S2_Set_Point = (23, 0, 8)"

abbreviation S2_CONTROL_SIZE :: nat where "S2_CONTROL_SIZE \<equiv> 24" \<comment> \<open>\<^verbatim>\<open>sizeof(HaierPacketControl)\<close>\<close>

definition s2_get :: "s2_field \<Rightarrow> byte list \<Rightarrow> byte" where
  "s2_get f m = bf_get (s2_layout f) m"

definition s2_put :: "s2_field \<Rightarrow> byte \<Rightarrow> byte list \<Rightarrow> byte list" where
  "s2_put f v m = bf_put (s2_layout f) v m"

definition s2_offset :: "s2_field \<Rightarrow> nat" where
  "s2_offset f = fst (s2_layout f)"

section \<open>State\<close>

record s2_state =
  s2_ac_status :: "byte list"
  s2_first_run :: bool

definition s2_globals :: s2_state where
  "s2_globals = \<lparr>s2_ac_status = replicate S2_CONTROL_SIZE 0, s2_first_run = True\<rparr>"

definition S2_INVALID_MSG :: haier_message where
  "S2_INVALID_MSG = msg_of_data INVALID (Some [0x00, 0x00]) 2"

definition S2_CONFIRM_MSG :: haier_message where
  "S2_CONFIRM_MSG = msg_of_type CONFIRM"

text \<open>The assignments of \<^verbatim>\<open>init_ac_state\<close>.\<close>

definition s2_init_control :: "(s2_field \<times> byte) list" where
  "s2_init_control =
    [(S2_Room_Temperature, 18), (S2_Room_Humidity, 56), (S2_Cntrl, 0x7F),
     (S2_Ac_Mode, s2_conditioning_mode_code S2_Mode_AUTO), (S2_Fan_Mode, s2_fan_mode_code S2_FAN_AUTO),
     (S2_Swing_Both, 0), (S2_Use_Fahrenheit, 0), (S2_Lock_Remote, 1), (S2_Ac_Power, 0), (S2_Health_Mode, 0),
     (S2_Compressor, 1), (S2_Ten_Degree, 0), (S2_Use_Swing_Bits, 0), (S2_Turbo_Mode, 1), (S2_Quiet_Mode, 0),
     (S2_Horizontal_Swing, 0), (S2_Vertical_Swing, 0), (S2_Display_Status, 0), (S2_Set_Point, 25 - 16)]"

definition s2_init_ac_state :: "('z s2_state_scheme) \<Rightarrow> ('z s2_state_scheme)" where
  "s2_init_ac_state s = s\<lparr>s2_ac_status := puts s2_put s2_init_control (replicate S2_CONTROL_SIZE 0)\<rparr>"

definition s2_get_ac_state_ref :: "('z s2_state_scheme) \<Rightarrow> ('z s2_state_scheme)" where
  "s2_get_ac_state_ref s = (if s2_first_run s then s2_init_ac_state (s\<lparr>s2_first_run := False\<rparr>) else s)"

section \<open>Handlers\<close>

text \<open>A handler takes the frame type and the data and returns the new state, the calls it makes to
  the protocol handler, and its error code.\<close>

type_synonym ('a, 'h) s2_handler = "byte \<Rightarrow> byte list \<Rightarrow> 'a \<Rightarrow> 'a \<times> 'h api_call list \<times> handler_error"

definition s2_report_network_status_handler :: "('z s2_state_scheme, 'h) s2_handler" where
  "s2_report_network_status_handler ty buffer s =
     (if ty = REPORT_NETWORK_STATUS
      then if length buffer = 4 then (s, [Send_Answer S2_CONFIRM_MSG], HANDLER_OK)
           else (s, [Send_Answer S2_INVALID_MSG], WRONG_MESSAGE_STRUCTURE)
      else (s, [Send_Answer S2_INVALID_MSG], UNSUPPORTED_MESSAGE))"

definition s2_unsupported_message_handler :: "('z s2_state_scheme, 'h) s2_handler" where
  "s2_unsupported_message_handler ty buffer s = (s, [Send_Answer S2_INVALID_MSG], HANDLER_OK)"

text \<open>The loop over the control bytes.\<close>

definition s2_copy_control :: "byte list \<Rightarrow> byte list \<Rightarrow> byte list" where
  "s2_copy_control buffer m =
     fold (\<lambda>i m. if i = s2_offset S2_Cntrl \<or> i = s2_offset S2_Room_Temperature \<or> i = s2_offset S2_Room_Humidity then m
                 else if m ! i \<noteq> buffer ! (2 + i) then m[i := buffer ! (2 + i)] else m) [0..<S2_CONTROL_SIZE] m"

definition s2_status_answer :: "u16 \<Rightarrow> ('z s2_state_scheme) \<Rightarrow> ('z s2_state_scheme) \<times> 'h api_call list \<times> handler_error" where
  "s2_status_answer subcommand s =
     (s, [Send_Answer (msg_new STATUS subcommand (Some (s2_ac_status s)) S2_CONTROL_SIZE)], HANDLER_OK)"

definition s2_status_request_handler :: "('z s2_state_scheme, 'h) s2_handler" where
  "s2_status_request_handler ty buffer s =
     (if ty = CONTROL
      then if length buffer = 2 \<and> buffer ! 0 = 0x4D \<and> buffer ! 1 = 0x01 then s2_status_answer 0x6D01 s
           else if length buffer = 2 \<and> buffer ! 0 = 0x4D \<and> buffer ! 1 = 0x02
           then s2_status_answer 0x6D02 (s\<lparr>s2_ac_status := s2_put S2_Ac_Power 1 (s2_ac_status s)\<rparr>)
           else if length buffer = 2 \<and> buffer ! 0 = 0x4D \<and> buffer ! 1 = 0x03
           then s2_status_answer 0x6D03 (s\<lparr>s2_ac_status := s2_put S2_Ac_Power 0 (s2_ac_status s)\<rparr>)
           else if length buffer > 2 \<and> buffer ! 0 = 0x4D \<and> buffer ! 1 = 0x5F
           then if length buffer - 2 \<noteq> S2_CONTROL_SIZE then (s, [Send_Answer S2_INVALID_MSG], WRONG_MESSAGE_STRUCTURE)
                else s2_status_answer 0x6D5F (s\<lparr>s2_ac_status := s2_copy_control buffer (s2_ac_status s)\<rparr>)
           else (s, [Send_Answer S2_INVALID_MSG], UNSUPPORTED_SUBCOMMAND)
      else (s, [Send_Answer S2_INVALID_MSG], UNSUPPORTED_MESSAGE))"

section \<open>The fields are independent\<close>

definition s2_width :: "s2_field \<Rightarrow> nat" where
  "s2_width f = snd (snd (s2_layout f))"

lemma s2_inside: "bf_inside S2_CONTROL_SIZE (s2_layout f)"
  by (cases f) simp_all

definition s2_fields :: "s2_field list" where
  "s2_fields = map fst s2_init_control"

lemma s2_fields_complete: "f \<in> set s2_fields"
  by (cases f) (simp_all add: s2_fields_def s2_init_control_def)

lemma s2_fields_sorted: "sorted_wrt bf_before (map s2_layout s2_fields)"
  by (simp add: s2_fields_def s2_init_control_def)

lemma length_s2_put [simp]: "length (s2_put f v m) = length m"
  by (simp add: s2_put_def)

interpretation s2: field_family "\<lambda>m. length m = S2_CONTROL_SIZE" s2_get s2_put s2_width
  by unfold_locales
    (simp_all add: s2_get_def s2_put_def s2_width_def bf_get_put bf_get_put_other bf_put_get s2_inside
      sorted_layout_disjoint [OF s2_fields_sorted s2_fields_complete s2_fields_complete])

section \<open>The handler contract\<close>

definition s2_inv :: "('z s2_state_scheme) \<Rightarrow> bool" where
  "s2_inv s \<longleftrightarrow> length (s2_ac_status s) = S2_CONTROL_SIZE"

lemma s2_inv_init: "s2_inv (s2_get_ac_state_ref s2_globals)"
  using s2.puts_valid [of "replicate S2_CONTROL_SIZE 0" s2_init_control]
  by (simp add: s2_inv_def s2_get_ac_state_ref_def s2_globals_def s2_init_ac_state_def)

text \<open>The copied bytes: all but the three that the appliance reports.\<close>

lemma s2_copy_control_nth:
  assumes "length m = S2_CONTROL_SIZE" "j < S2_CONTROL_SIZE"
  shows "length (s2_copy_control buffer m) = S2_CONTROL_SIZE
    \<and> s2_copy_control buffer m ! j = (if j \<in> {1, 3, 5} then m ! j else buffer ! (2 + j))"
proof -
  define step where "step = (\<lambda>i (m :: byte list).
    if i = s2_offset S2_Cntrl \<or> i = s2_offset S2_Room_Temperature \<or> i = s2_offset S2_Room_Humidity then m
    else if m ! i \<noteq> buffer ! (2 + i) then m[i := buffer ! (2 + i)] else m)"
  have l: "length (fold step [0..<k] m) = length m" for k
    by (induction k) (simp_all add: step_def)
  define own :: "nat set" where "own = {1, 3, 5}"
  have one: "step k m' ! j = (if j = k \<and> k \<notin> own then buffer ! (2 + j) else m' ! j)"
    if "j < length m'" for k m'
    using that by (simp add: step_def s2_offset_def own_def)
  have "fold step [0..<k] m ! j = (if j < k \<and> j \<notin> own then buffer ! (2 + j) else m ! j)"
    if "k \<le> S2_CONTROL_SIZE" for k
    using that
  proof (induction k)
    case (Suc k)
    have "fold step [0..<Suc k] m = step k (fold step [0..<k] m)" by simp
    then show ?case
      using Suc one [of "fold step [0..<k] m" k] assms l [of k] by (auto simp: less_Suc_eq)
  qed simp
  from this [of S2_CONTROL_SIZE] l [of S2_CONTROL_SIZE] show ?thesis
    using assms by (simp add: s2_copy_control_def step_def own_def)
qed

lemma S2_MSG_ok: "msg_ok S2_INVALID_MSG" "msg_payload S2_INVALID_MSG = [0, 0]" "msg_ok S2_CONFIRM_MSG"
  "msg_payload S2_CONFIRM_MSG = []"
  by (simp_all add: S2_INVALID_MSG_def S2_CONFIRM_MSG_def msg_of_data_def msg_of_type_def msg_new_ok msg_payload_def)

lemma s2_refuses: "s2_inv s \<Longrightarrow> contract s2_inv S2_INVALID_MSG s (s, [Send_Answer S2_INVALID_MSG], err)"
  by (rule contract_refuses) (simp_all add: S2_MSG_ok)

lemma s2_accepts:
  "s2_inv s \<Longrightarrow> m = S2_INVALID_MSG \<or> m = S2_CONFIRM_MSG
    \<Longrightarrow> contract s2_inv S2_INVALID_MSG s (s, [Send_Answer m], HANDLER_OK)"
  by (rule contract_sends) (auto simp: S2_MSG_ok)

lemma s2_status_answer_contract:
  "s2_inv s' \<Longrightarrow> contract s2_inv S2_INVALID_MSG s (s2_status_answer sub s')"
  unfolding s2_status_answer_def by (rule contract_answers(1)) (simp_all add: s2_inv_def)

datatype s2_message_handler = S2_Report_Network_Status | S2_Unsupported_Message | S2_Status_Request

primrec s2_message :: "s2_message_handler \<Rightarrow> ('z s2_state_scheme, 'h) s2_handler" where
  "s2_message S2_Report_Network_Status = s2_report_network_status_handler"
| "s2_message S2_Unsupported_Message = s2_unsupported_message_handler"
| "s2_message S2_Status_Request = s2_status_request_handler"

lemma s2_contract:
  assumes "s2_inv s"
  shows "contract s2_inv S2_INVALID_MSG s (s2_message k ty buffer s)"
proof -
  have "s2_inv (s\<lparr>s2_ac_status := s2_put f v (s2_ac_status s)\<rparr>)"
    "s2_inv (s\<lparr>s2_ac_status := s2_copy_control b (s2_ac_status s)\<rparr>)" for f v b
    using assms s2_copy_control_nth [of "s2_ac_status s" 0 b] by (simp_all add: s2_inv_def)
  then have "contract s2_inv S2_INVALID_MSG s (s2_status_request_handler ty buffer s)"
    unfolding s2_status_request_handler_def
    by (intro contract_if s2_refuses s2_status_answer_contract assms) simp_all
  then show ?thesis
    using assms by (cases k)
      (simp_all add: s2_report_network_status_handler_def s2_unsupported_message_handler_def s2_refuses s2_accepts)
qed

interpretation smartair2: answering_handler "s2_message k :: ('z s2_state_scheme, 'h) s2_handler" s2_inv S2_INVALID_MSG
  for k :: s2_message_handler
  by (rule answering_handlerI, rule s2_contract)

end
