(* ===== verification/Smartair2_Session.thy ===== *)
theory Smartair2_Session
  imports Session_Repeats Smartair2_Server Hon_Session
begin

text \<open>
  The test program \<^verbatim>\<open>test/smartair2_test/main.cpp\<close>: its client, its server with three handlers of the
  SmartAir2 server, both on a virtual stream, and its five tests with every warning \<^verbatim>\<open>TEST_END\<close> counts. The
  lines of the library are those at the levels WARNING and ERROR, the lines of the two applications all of them.
\<close>

section \<open>The client\<close>

definition s2_expected_answers :: "(byte \<times> byte) list" where
  "s2_expected_answers =
     [(GET_DEVICE_VERSION, GET_DEVICE_VERSION_RESPONSE),
      (CONTROL, STATUS),
      (REPORT_NETWORK_STATUS, CONFIRM),
      (UNKNOWN_FRAME_TYPE, UNKNOWN_FRAME_TYPE)]"

text \<open>What the answer handler logs and returns; the search ends at the last entry of the table.\<close>

definition s2_client_answer :: "byte \<Rightarrow> byte \<Rightarrow> log_line list \<times> handler_error" where
  "s2_client_answer message_type answer_type =
     (case find_expected message_type s2_expected_answers of
        None \<Rightarrow> ([], UNKNOWN_ERROR)
      | Some e \<Rightarrow>
          if fst e = UNKNOWN_FRAME_TYPE
          then ([(LEVEL_WARNING, ''Unexpected command 0x'' @ hex_byte message_type)], UNEXPECTED_MESSAGE)
          else if snd e \<noteq> answer_type
          then ([(LEVEL_WARNING, ''Unexpected answer 0x'' @ hex_byte answer_type @ '' for command 0x'' @ hex_byte message_type)],
                INVALID_ANSWER)
          else ([(LEVEL_INFO, answer_line message_type answer_type)], HANDLER_OK))"

lemma s2_find_expected_total: "find_expected ty s2_expected_answers \<noteq> None"
  by (simp add: s2_expected_answers_def)

section \<open>What the server's handlers log\<close>

definition s2_changed_line :: "nat \<Rightarrow> byte \<Rightarrow> byte \<Rightarrow> log_line" where
  "s2_changed_line i old_byte new_byte =
     (LEVEL_INFO, ''Byte #'' @ decimal (i + 10) @ '' changed 0x'' @ hex_byte old_byte @ '' => 0x'' @ hex_byte new_byte)"

definition s2_copy_control_log :: "byte list \<Rightarrow> byte list \<Rightarrow> log_line list" where
  "s2_copy_control_log buffer m = concat (map (\<lambda>i.
     if i = s2_offset S2_Cntrl \<or> i = s2_offset S2_Room_Temperature \<or> i = s2_offset S2_Room_Humidity then []
     else if m ! i \<noteq> buffer ! (2 + i) then [s2_changed_line i (m ! i) (buffer ! (2 + i))] else []) [0..<S2_CONTROL_SIZE])"

definition s2_status_request_log :: "byte \<Rightarrow> byte list \<Rightarrow> ('z s2_state_scheme) \<Rightarrow> log_line list" where
  "s2_status_request_log ty buffer s =
     (if ty = CONTROL \<and> length buffer > 2 \<and> buffer ! 0 = 0x4D \<and> buffer ! 1 = 0x5F
      then if length buffer - 2 \<noteq> S2_CONTROL_SIZE
           then [(LEVEL_WARNING, ''Wrong control packet size, expected '' @ decimal S2_CONTROL_SIZE @ '', received '' @ decimal (length buffer - 2))]
           else s2_copy_control_log buffer (s2_ac_status s)
      else [])"

primrec s2_message_log :: "s2_message_handler \<Rightarrow> byte \<Rightarrow> byte list \<Rightarrow> ('z s2_state_scheme) \<Rightarrow> log_line list" where
  "s2_message_log S2_Report_Network_Status ty buffer s = []"
| "s2_message_log S2_Unsupported_Message ty buffer s = [(LEVEL_INFO, ''Unsupported message 0x'' @ hex_byte ty @ '' received'')]"
| "s2_message_log S2_Status_Request ty buffer s = s2_status_request_log ty buffer s"

section \<open>Both sides\<close>

definition s2_client_platform ::
    "byte allocator \<Rightarrow> (nat \<Rightarrow> millis) \<Rightarrow> (virtual_stream_holder, unit, unit) platform" where
  "s2_client_platform new clock =
     \<lparr>pf_ops = get_stream_reference DIRECTION_B, pf_new = new, pf_clock = clock,
      pf_message = (\<lambda>k. default_message_handler),
      pf_answer = (\<lambda>k ty rty d a. (a, [], snd (s2_client_answer ty rty))),
      pf_timeout = (\<lambda>k. default_timeout_handler), pf_popped_kept = False\<rparr>"

definition s2_client_lines :: "(unit, unit) handler_lines" where
  "s2_client_lines = \<lparr>hl_message = (\<lambda>k ty d a. []), hl_answer = (\<lambda>k ty rty d a. fst (s2_client_answer ty rty)), hl_timeout = (\<lambda>k ty a. [])\<rparr>"

definition s2_server_platform ::
    "byte allocator \<Rightarrow> (nat \<Rightarrow> millis) \<Rightarrow> (virtual_stream_holder, s2_message_handler, s2_state) platform" where
  "s2_server_platform new clock =
     \<lparr>pf_ops = get_stream_reference DIRECTION_A, pf_new = new, pf_clock = clock, pf_message = s2_message,
      pf_answer = (\<lambda>k. default_answer_handler), pf_timeout = (\<lambda>k. default_timeout_handler), pf_popped_kept = False\<rparr>"

definition s2_server_lines :: "(s2_message_handler, s2_state) handler_lines" where
  "s2_server_lines = \<lparr>hl_message = s2_message_log, hl_answer = (\<lambda>k ty rty d a. []), hl_timeout = (\<lambda>k ty a. [])\<rparr>"

definition s2_test_handlers :: "(byte \<times> s2_message_handler) list" where
  "s2_test_handlers =
     [(GET_DEVICE_VERSION, S2_Unsupported_Message), (CONTROL, S2_Status_Request),
      (REPORT_NETWORK_STATUS, S2_Report_Network_Status)]"

text \<open>The set-up at the start of \<^verbatim>\<open>main\<close>.\<close>

definition s2_server :: "byte allocator \<Rightarrow> (virtual_stream_holder, s2_message_handler, s2_state) world" where
  "s2_server new =
     \<lparr>w_protocol = fold (\<lambda>(ty, k). pr_set_message_handler ty k) s2_test_handlers (pr_new new),
      w_stream = vs_new new, w_tick = 0, w_app = s2_get_ac_state_ref s2_globals\<rparr>"

definition s2_client :: "byte allocator \<Rightarrow> (virtual_stream_holder, unit, unit) world" where
  "s2_client new =
     \<lparr>w_protocol = pr_set_default_answer_handler () (pr_new new), w_stream = vs_new new, w_tick = 0, w_app = ()\<rparr>"

section \<open>The tests\<close>

text \<open>The control of test 5 is set on a copy of the status that \<^verbatim>\<open>main\<close> took at the start.\<close>

definition s2_test5_control :: "byte list \<Rightarrow> byte list" where
  "s2_test5_control ac_full_state = puts s2_put
     [(S2_Ac_Power, 1), (S2_Ac_Mode, s2_conditioning_mode_code S2_Mode_COOL), (S2_Display_Status, 0)] ac_full_state"

definition s2_control_check :: "byte list \<Rightarrow> s2_state \<Rightarrow> log_line list" where
  "s2_control_check ac_full_state s =
     (if take S2_CONTROL_SIZE ac_full_state = take S2_CONTROL_SIZE (s2_ac_status (s2_get_ac_state_ref s))
      then [(LEVEL_INFO, ''AC control processed correctly'')] else [(LEVEL_WARNING, ''AC control not OK'')])"

text \<open>The messages of the five tests. \<open>ATTEMPTS_NUM\<close> is the constant of test 2.\<close>

abbreviation ATTEMPTS_NUM :: nat where "ATTEMPTS_NUM \<equiv> 3"

definition s2_tests :: "byte list \<Rightarrow> (s2_state script_step list \<times> nat \<times> nat) list" where
  "s2_tests cs =
     [(Request (msg_of_data GET_DEVICE_VERSION (Some [0, 7]) 2) False 3 0 # Both_Loops # Both_Loops # replicate 3 Both_Loops, 2, 0),
      (Request (msg_of_type DOWNLINK_TRANSPARENT_TRANSMISSION) False (of_nat (ATTEMPTS_NUM - 1)) 0 # Both_Loops # Both_Loops
         # replicate (2 * ATTEMPTS_NUM + 1) Both_Loops, 2 * ATTEMPTS_NUM + 1, 0),
      ([Request (msg_of_subcommand CONTROL 0x4D01) False 0 0, Both_Loops, Both_Loops], 0, 0),
      ([Request (msg_of_data REPORT_NETWORK_STATUS (Some [0x00, 0x01, 0x00, 0x37]) 4) False 0 0, Both_Loops, Both_Loops], 0, 0),
      ([Request (msg_new CONTROL 0x4D5F (Some cs) S2_CONTROL_SIZE) False 0 0, Both_Loops, Both_Loops, Look (s2_control_check cs)], 0, 0)]"

text \<open>The client's readings of the clock: a pause of half a second before those in the list, and answers within the
  timeout.\<close>

definition s2_pauses :: "nat list" where
  "s2_pauses = [3, 4, 5, 9, 10, 12, 13, 15, 16, 17, 18, 21, 24]"

definition s2_paced :: "(nat \<Rightarrow> millis) \<Rightarrow> bool" where
  "s2_paced clock \<longleftrightarrow> 0 \<le> clock 0
     \<and> (\<forall>i \<in> set [0..<27]. clock i + (if Suc i \<in> set s2_pauses then 500 else 0) \<le> clock (Suc i))
     \<and> (\<forall>i \<in> {0, 6, 18, 21, 24}. clock (i + 2) \<le> clock i + DEFAULT_ANSWER_TIMEOUT)"

section \<open>Between two tests\<close>

definition s2_linked ::
    "byte allocator \<Rightarrow> (virtual_stream_holder, unit, unit) world \<times> (virtual_stream_holder, s2_message_handler, s2_state) world \<Rightarrow> bool" where
  "s2_linked new = (\<lambda>(w, v). connected DIRECTION_B (w, v)
     \<and> same_setup (w_protocol (s2_client new)) (w_protocol w) \<and> same_setup (w_protocol (s2_server new)) (w_protocol v))"

lemma s2_linked_next:
  "s2_linked new (w, v) \<Longrightarrow> connected DIRECTION_B (w', v') \<Longrightarrow> same_setup (w_protocol w) (w_protocol w')
    \<Longrightarrow> same_setup (w_protocol v) (w_protocol v') \<Longrightarrow> s2_linked new (w', v')"
  by (simp add: s2_linked_def same_setup_def)

definition s2_status :: "byte list" where
  "s2_status = s2_ac_status (s2_get_ac_state_ref s2_globals)"

lemma s2_platforms:
  assumes "allocates new"
  shows "pf_ops (s2_client_platform new clock) = get_stream_reference DIRECTION_B" "allocates (pf_new (s2_client_platform new clock))"
    "pf_ops (s2_server_platform new clock') = get_stream_reference (other_end DIRECTION_B)"
    "allocates (pf_new (s2_server_platform new clock'))" "pf_clock (s2_client_platform new clock) = clock"
  using assms by (simp_all add: s2_client_platform_def s2_server_platform_def other_end_def)

lemma s2_start:
  assumes "allocates new"
  shows "s2_linked new (s2_client new, s2_server new)"
proof -
  have "vs_inv (vs_new new)" "cb_list (vs_rx DIRECTION_B (vs_new new)) = []" "cb_list (vs_tx DIRECTION_B (vs_new new)) = []"
    using vs_new_inv [OF assms] vs_new_empty [OF assms] by simp_all
  then show ?thesis
    by (simp add: s2_linked_def connected_def s2_client_def s2_server_def s2_test_handlers_def pr_new_at_rest [OF assms] same_setup_refl)
qed

lemma s2_setup:
  assumes "s2_linked new (w, v)"
  shows "pr_message_handlers_map (w_protocol v) = map_of s2_test_handlers" "pr_default_message_handler (w_protocol v) = None"
    "find_handler (pr_answer_handlers_map (w_protocol w)) ty (pr_default_answer_handler (w_protocol w)) = Some ()"
    "find_handler (pr_timeout_handlers_map (w_protocol w)) ty (pr_default_timeout_handler (w_protocol w)) = None"
    "pr_answer_timeout_interval (w_protocol w) = DEFAULT_ANSWER_TIMEOUT" "pr_cooldown_interval (w_protocol w) = DEFAULT_COOLDOWN_INTERVAL"
proof -
  have p: "pr_message_handlers_map (w_protocol (s2_server new)) = map_of s2_test_handlers" "pr_default_message_handler (w_protocol (s2_server new)) = None"
    by (simp_all add: s2_server_def s2_test_handlers_def pr_set_message_handler_def pr_new_def pr_new_sized_def fun_upd_twist)
  show "pr_message_handlers_map (w_protocol v) = map_of s2_test_handlers" "pr_default_message_handler (w_protocol v) = None"
    "find_handler (pr_answer_handlers_map (w_protocol w)) ty (pr_default_answer_handler (w_protocol w)) = Some ()"
    "find_handler (pr_timeout_handlers_map (w_protocol w)) ty (pr_default_timeout_handler (w_protocol w)) = None"
    "pr_answer_timeout_interval (w_protocol w) = DEFAULT_ANSWER_TIMEOUT" "pr_cooldown_interval (w_protocol w) = DEFAULT_COOLDOWN_INTERVAL"
    using assms p by (simp_all add: s2_linked_def same_setup_def s2_client_def pr_set_default_answer_handler_def pr_new_def pr_new_sized_def find_handler_def)
qed

text \<open>A request with a registered handler that answers.\<close>

lemma s2_round:
  assumes new: "allocates new" and s: "s2_linked new (w, v)" "free (s2_client_platform new clock) w" "w_tick w = k"
    and m: "msg_ok m" "m_frame_type m = ty" "msg_payload m = d" "length d \<le> 100"
    and j: "map_of s2_test_handlers ty = Some j" "s2_message j ty d (w_app v) = (b', [Send_Answer r] :: s2_message_handler api_call list, err)"
    and r: "msg_ok r" "length (msg_payload r) \<le> 100" "m_frame_type r = rty"
    and time: "clock (k + 2) \<le> clock k + DEFAULT_ANSWER_TIMEOUT"
  obtains w' v' where "run_script (s2_client_platform new clock) (s2_server_platform new clock') s2_client_lines s2_server_lines
      [Request m False n i, Both_Loops, Both_Loops] (w, v) = Some ((w', v'),
        s2_message_log j ty d (w_app v) @ (if err \<noteq> HANDLER_OK then [message_error_line ty err] else [])
        @ fst (s2_client_answer ty rty)
        @ (if snd (s2_client_answer ty rty) \<noteq> HANDLER_OK then [answer_error_line ty rty (snd (s2_client_answer ty rty))] else []))"
    "w_app v' = b'" "s2_linked new (w', v')" "w_tick w' = k + 3" "pr_retry_time_point (w_protocol w') = clock (k + 2)"
    "pr_cooldown_time_point (w_protocol w') = clock (k + 1) + DEFAULT_COOLDOWN_INTERVAL"
proof -
  note pf = s2_platforms [OF new, of clock] s2_platforms(3,4) [OF new, of clock']
  have c: "connected DIRECTION_B (w, v)" using s(1) by (simp add: s2_linked_def)
  note set = s2_setup [OF s(1)]
  have h: "find_handler (pr_message_handlers_map (w_protocol v)) (m_frame_type m) (pr_default_message_handler (w_protocol v)) = Some j"
    "pf_message (s2_server_platform new clock') j (m_frame_type m) (msg_payload m) (w_app v) = (b', [Send_Answer r], err)"
    "answers False [Send_Answer r] r False" "length (msg_payload m) \<le> 100"
    "pf_answer (s2_client_platform new clock) () (m_frame_type m) (m_frame_type r) (msg_payload r) (w_app w)
      = (w_app w, [], snd (s2_client_answer ty rty))"
    using j m r(3) set(1,2) by (simp_all add: find_handler_def s2_server_platform_def s2_client_platform_def answers_def)
  have t: "pf_clock (s2_client_platform new clock) (w_tick w + 2) \<le> pf_clock (s2_client_platform new clock) (w_tick w) + pr_answer_timeout_interval (w_protocol w)"
    using time s(3) set(5) pf(5) by simp
  obtain w' v' where x: "run_script (s2_client_platform new clock) (s2_server_platform new clock') s2_client_lines s2_server_lines
      [Request m False n i, Both_Loops, Both_Loops] (w, v) = Some ((w', v'),
        answered_lines s2_client_lines s2_server_lines () j m r err (snd (s2_client_answer ty rty)) (w_app w) (w_app v))"
    "w_app v' = b'" "connected DIRECTION_B (w', v')" "same_setup (w_protocol w) (w_protocol w')" "same_setup (w_protocol v) (w_protocol v')"
    "w_tick w' = w_tick w + 3" "pr_retry_time_point (w_protocol w') = pf_clock (s2_client_platform new clock) (w_tick w + 2)"
    "pr_cooldown_time_point (w_protocol w') = pf_clock (s2_client_platform new clock) (w_tick w + 1) + pr_cooldown_interval (w_protocol w)"
    using answered_script [OF pf(1,2,6,7) c s(2) m(1) h(4) h(1-3) r(1,2) set(3) h(5) t] by blast
  show ?thesis
    by (rule that [of w' v'])
      (use x s(3) set(6) pf(5) m(2,3) r(3) s2_linked_next [OF s(1) x(3-5)] in
        \<open>simp_all add: answered_lines_def s2_client_lines_def s2_server_lines_def\<close>)
qed

lemma s2_rest:
  assumes new: "allocates new" and s: "s2_linked new (w, v)"
  obtains w' v' where "run_script (s2_client_platform new clock) (s2_server_platform new clock') s2_client_lines s2_server_lines
      (replicate n Both_Loops) (w, v) = Some ((w', v'), [])"
    "w_app v' = w_app v" "s2_linked new (w', v')" "w_tick w' = w_tick w + n"
    "pr_retry_time_point (w_protocol w') = pr_retry_time_point (w_protocol w)"
    "pr_cooldown_time_point (w_protocol w') = pr_cooldown_time_point (w_protocol w)"
proof -
  note pf = s2_platforms [OF new]
  have c: "connected DIRECTION_B (w, v)" using s by (simp add: s2_linked_def)
  obtain w' v' where x: "run_script (s2_client_platform new clock) (s2_server_platform new clock') s2_client_lines s2_server_lines
      (replicate n Both_Loops) (w, v) = Some ((w', v'), [])" "connected DIRECTION_B (w', v')" "w_app v' = w_app v"
    "same_setup (w_protocol w) (w_protocol w')" "same_setup (w_protocol v) (w_protocol v')" "w_tick w' = w_tick w + n"
    "pr_cooldown_time_point (w_protocol w') = pr_cooldown_time_point (w_protocol w)"
    "pr_retry_time_point (w_protocol w') = pr_retry_time_point (w_protocol w)"
    using rest_script [OF pf(1) [of clock] pf(3) [of clock'] c, of s2_client_lines s2_server_lines n] by blast
  show ?thesis
    by (rule that [of w' v']) (use x s2_linked_next [OF s x(2,4,5)] in simp_all)
qed

section \<open>The tests one by one\<close>

lemma s2_pace:
  assumes "s2_paced clock"
  shows "0 \<le> clock 0" "clock 2 \<le> clock 0 + 200" "clock 1 + 400 \<le> clock 6" "clock 2 \<le> clock 6"
    "clock 8 \<le> clock 6 + 200" "clock 6 + 200 < clock 9" "clock 7 + 400 \<le> clock 10" "clock 6 \<le> clock 10"
    "repeats_paced clock 200 400 0 9 2" "clock 16 \<le> clock 18" "clock 15 \<le> clock 18"
    "clock 20 \<le> clock 18 + 200" "clock 19 + 400 \<le> clock 21" "clock 20 \<le> clock 21"
    "clock 23 \<le> clock 21 + 200" "clock 22 + 400 \<le> clock 24" "clock 23 \<le> clock 24" "clock 26 \<le> clock 24 + 200"
proof -
  have t: "0 \<le> clock 0" "clock 2 \<le> clock 0 + 200" "clock 8 \<le> clock 6 + 200" "clock 20 \<le> clock 18 + 200"
    "clock 23 \<le> clock 21 + 200" "clock 26 \<le> clock 24 + 200"
    using assms by (simp_all add: s2_paced_def numeral_2_eq_2)
  have c: "\<forall>i \<in> set [0..<27]. clock i + (if Suc i \<in> set s2_pauses then 500 else 0) \<le> clock (Suc i)"
    using assms by (simp add: s2_paced_def)
  have step: "clock i \<le> clock (Suc i)" if "i < 27" for i
    using bspec [OF c, of i] that by (auto split: if_splits)
  have pause: "clock i + 500 \<le> clock (Suc i)" if "i < 27" "Suc i \<in> set s2_pauses" for i
    using bspec [OF c, of i] that by auto
  have mono: "clock i \<le> clock j" if "i \<le> j" "j \<le> 27" for i j
    using that
  proof (induction rule: dec_induct)
    case (step n)
    then show ?case using \<open>\<And>i. i < 27 \<Longrightarrow> clock i \<le> clock (Suc i)\<close> [of n] by simp
  qed simp
  have jump: "clock i + 500 \<le> clock j" if "i < p" "p \<le> j" "j \<le> 27" "p \<in> set s2_pauses" for i p j
    using pause [of "p - 1"] mono [of i "p - 1"] mono [of p j] that by (cases p) auto
  have p: "x \<in> set s2_pauses" if "x \<in> {3, 9, 10, 12, 13, 15, 16, 21, 24}" for x
    using that by (auto simp: s2_pauses_def)
  show "0 \<le> clock 0" "clock 2 \<le> clock 0 + 200" "clock 8 \<le> clock 6 + 200" "clock 20 \<le> clock 18 + 200"
    "clock 23 \<le> clock 21 + 200" "clock 26 \<le> clock 24 + 200" by (fact t)+
  show "clock 1 + 400 \<le> clock 6" using jump [of 1 3 6] p by simp
  show "clock 2 \<le> clock 6" "clock 6 \<le> clock 10" "clock 16 \<le> clock 18" "clock 15 \<le> clock 18" "clock 20 \<le> clock 21" "clock 23 \<le> clock 24"
    using mono by simp_all
  show "clock 6 + 200 < clock 9" using jump [of 6 9 9] p by simp
  show "clock 7 + 400 \<le> clock 10" using jump [of 7 10 10] p by simp
  show "clock 19 + 400 \<le> clock 21" using jump [of 19 21 21] p by simp
  show "clock 22 + 400 \<le> clock 24" using jump [of 22 24 24] p by simp
  show "repeats_paced clock 200 400 0 9 2"
    using jump [of 10 12 12] jump [of 11 13 13] mono [of 10 13] jump [of 13 15 15] jump [of 14 16 16] mono [of 13 16] p
    by (simp add: repeats_paced_def All_less_Suc2 numeral_2_eq_2 Let_def)
qed

lemma s2_test5:
  "s2_copy_control (0x4D # 0x5F # s2_test5_control s2_status) s2_status = s2_test5_control s2_status"
  "s2_copy_control_log (0x4D # 0x5F # s2_test5_control s2_status) s2_status = [s2_changed_line 11 0x00 0x01, s2_changed_line 17 0x10 0x11]"
  "length s2_status = S2_CONTROL_SIZE" "length (s2_test5_control s2_status) = S2_CONTROL_SIZE"
  by code_simp+

lemma s2_client_answers:
  "s2_client_answer GET_DEVICE_VERSION INVALID
    = ([(LEVEL_WARNING, ''Unexpected answer 0x'' @ hex_byte INVALID @ '' for command 0x'' @ hex_byte GET_DEVICE_VERSION)], INVALID_ANSWER)"
  "s2_client_answer CONTROL STATUS = ([(LEVEL_INFO, answer_line CONTROL STATUS)], HANDLER_OK)"
  "s2_client_answer REPORT_NETWORK_STATUS CONFIRM = ([(LEVEL_INFO, answer_line REPORT_NETWORK_STATUS CONFIRM)], HANDLER_OK)"
  by (simp_all add: s2_client_answer_def s2_expected_answers_def)

text \<open>The lines of the five tests.\<close>

definition s2_test_results :: "(log_line list \<times> nat \<times> nat) list" where
  "s2_test_results =
     [([(LEVEL_INFO, ''Unsupported message 0x'' @ hex_byte GET_DEVICE_VERSION @ '' received''),
        (LEVEL_WARNING, ''Unexpected answer 0x'' @ hex_byte INVALID @ '' for command 0x'' @ hex_byte GET_DEVICE_VERSION),
        answer_error_line GET_DEVICE_VERSION INVALID INVALID_ANSWER], 2, 0),
      (concat (replicate 3 [unsupported_message_line DOWNLINK_TRANSPARENT_TRANSMISSION [],
          message_error_line DOWNLINK_TRANSPARENT_TRANSMISSION UNSUPPORTED_MESSAGE])
        @ [answer_timeout_line DOWNLINK_TRANSPARENT_TRANSMISSION], 7, 0),
      ([(LEVEL_INFO, answer_line CONTROL STATUS)], 0, 0),
      ([(LEVEL_INFO, answer_line REPORT_NETWORK_STATUS CONFIRM)], 0, 0),
      ([s2_changed_line 11 0x00 0x01, s2_changed_line 17 0x10 0x11,
        (LEVEL_INFO, answer_line CONTROL STATUS), (LEVEL_INFO, ''AC control processed correctly'')], 0, 0)]"

lemma s2_test_counts:
  "\<forall>(lines, warn, err) \<in> set s2_test_results. (\<forall>(level, txt) \<in> set lines. plain_text txt)
     \<and> length (lines_at LEVEL_WARNING lines) = warn \<and> length (lines_at LEVEL_ERROR lines) = err"
  unfolding plain_text_def by code_simp

lemma s2_request_payloads:
  "msg_ok (msg_of_data GET_DEVICE_VERSION (Some [0, 7]) 2)" "m_frame_type (msg_of_data GET_DEVICE_VERSION (Some [0, 7]) 2) = GET_DEVICE_VERSION"
  "msg_payload (msg_of_data GET_DEVICE_VERSION (Some [0, 7]) 2) = [0, 7]"
  "msg_ok (msg_of_type DOWNLINK_TRANSPARENT_TRANSMISSION)"
  "m_frame_type (msg_of_type DOWNLINK_TRANSPARENT_TRANSMISSION) = DOWNLINK_TRANSPARENT_TRANSMISSION"
  "msg_payload (msg_of_type DOWNLINK_TRANSPARENT_TRANSMISSION) = []"
  "msg_ok (msg_of_subcommand CONTROL 0x4D01)" "m_frame_type (msg_of_subcommand CONTROL 0x4D01) = CONTROL"
  "msg_payload (msg_of_subcommand CONTROL 0x4D01) = [0x4D, 0x01]"
  "msg_ok (msg_of_data REPORT_NETWORK_STATUS (Some [0x00, 0x01, 0x00, 0x37]) 4)"
  "m_frame_type (msg_of_data REPORT_NETWORK_STATUS (Some [0x00, 0x01, 0x00, 0x37]) 4) = REPORT_NETWORK_STATUS"
  "msg_payload (msg_of_data REPORT_NETWORK_STATUS (Some [0x00, 0x01, 0x00, 0x37]) 4) = [0x00, 0x01, 0x00, 0x37]"
  "length cs = S2_CONTROL_SIZE \<Longrightarrow> msg_ok (msg_new CONTROL 0x4D5F (Some cs) S2_CONTROL_SIZE)"
  "m_frame_type (msg_new CONTROL 0x4D5F (Some cs) S2_CONTROL_SIZE) = CONTROL"
  "length cs = S2_CONTROL_SIZE \<Longrightarrow> msg_payload (msg_new CONTROL 0x4D5F (Some cs) S2_CONTROL_SIZE) = 0x4D # 0x5F # cs"
  by (simp_all add: msg_of_data_def msg_of_type_def msg_of_subcommand_def msg_payload_def msg_new_ok)

text \<open>The answers of the server.\<close>

lemma S2_INVALID_MSG_type: "m_frame_type S2_INVALID_MSG = INVALID" "m_frame_type S2_CONFIRM_MSG = CONFIRM"
  by (simp_all add: S2_INVALID_MSG_def S2_CONFIRM_MSG_def msg_of_data_def msg_of_type_def)

lemma s2_status_message:
  assumes "length st = S2_CONTROL_SIZE"
  shows "msg_ok (msg_new STATUS sub (Some st) S2_CONTROL_SIZE)" "length (msg_payload (msg_new STATUS sub (Some st) S2_CONTROL_SIZE)) \<le> 100"
    "m_frame_type (msg_new STATUS sub (Some st) S2_CONTROL_SIZE) = STATUS"
  using assms by (simp_all add: msg_new_ok msg_payload_def)

text \<open>Between two tests, with the server's status and the client's reading of the clock.\<close>

definition s2_at ::
    "byte allocator \<Rightarrow> (nat \<Rightarrow> millis) \<Rightarrow> nat \<Rightarrow> s2_state
      \<Rightarrow> (virtual_stream_holder, unit, unit) world \<times> (virtual_stream_holder, s2_message_handler, s2_state) world \<Rightarrow> bool" where
  "s2_at new clock k st = (\<lambda>(w, v). s2_linked new (w, v) \<and> free (s2_client_platform new clock) w \<and> w_tick w = k \<and> w_app v = st)"

abbreviation s2_run ::
    "byte allocator \<Rightarrow> (nat \<Rightarrow> millis) \<Rightarrow> (nat \<Rightarrow> millis) \<Rightarrow> s2_state script_step list
      \<Rightarrow> (virtual_stream_holder, unit, unit) world \<times> (virtual_stream_holder, s2_message_handler, s2_state) world
      \<Rightarrow> (((virtual_stream_holder, unit, unit) world \<times> (virtual_stream_holder, s2_message_handler, s2_state) world) \<times> log_line list) option" where
  "s2_run new clock clock' \<equiv> run_script (s2_client_platform new clock) (s2_server_platform new clock') s2_client_lines s2_server_lines"

text \<open>A test of one request that is answered.\<close>

lemma s2_answered_test:
  assumes "allocates new" and s: "s2_at new clock k st s"
    and m: "msg_ok m" "m_frame_type m = ty" "msg_payload m = d" "length d \<le> 100"
    and j: "map_of s2_test_handlers ty = Some j" "s2_message j ty d st = (st', [Send_Answer r] :: s2_message_handler api_call list, HANDLER_OK)"
    and r: "msg_ok r" "length (msg_payload r) \<le> 100" "s2_client_answer ty (m_frame_type r) = (lines, HANDLER_OK)"
    and time: "clock (k + 2) \<le> clock k + DEFAULT_ANSWER_TIMEOUT"
  shows "\<exists>w v. s2_run new clock clock' [Request m False 0 0, Both_Loops, Both_Loops] s = Some ((w, v), s2_message_log j ty d st @ lines)
    \<and> w_app v = st'
    \<and> (clock (k + 1) + DEFAULT_COOLDOWN_INTERVAL \<le> clock (k + 3) \<and> clock (k + 2) \<le> clock (k + 3) \<longrightarrow> s2_at new clock (k + 3) st' (w, v))"
proof -
  obtain w v where wv: "s = (w, v)" "s2_linked new (w, v)" "free (s2_client_platform new clock) w" "w_tick w = k" "w_app v = st"
    using s by (cases s) (auto simp: s2_at_def)
  obtain w' v' where x: "s2_run new clock clock' [Request m False 0 0, Both_Loops, Both_Loops] (w, v) = Some ((w', v'), s2_message_log j ty d st @ lines)"
    "w_app v' = st'" "s2_linked new (w', v')" "w_tick w' = k + 3" "pr_retry_time_point (w_protocol w') = clock (k + 2)"
    "pr_cooldown_time_point (w_protocol w') = clock (k + 1) + DEFAULT_COOLDOWN_INTERVAL"
    by (rule s2_round [OF assms(1) wv(2-4) m j(1) j(2) [folded wv(5)] r(1,2) refl time, of clock' 0 0]) (simp add: wv(5) r(3))
  then show ?thesis
    using wv(1) s2_platforms(5) [OF assms(1), of clock] by (intro exI [of _ w'] exI [of _ v']) (simp add: s2_at_def free_def)
qed

lemma s2_test1:
  assumes "allocates new" "s2_paced clock" "s2_at new clock 0 st s"
  shows "\<exists>s'. s2_run new clock clock' (fst (s2_tests cs ! 0)) s = Some (s', fst (s2_test_results ! 0)) \<and> s2_at new clock 6 st s'"
proof -
  note p = s2_pace [OF assms(2)]
  obtain w v where wv: "s = (w, v)" "s2_linked new (w, v)" "free (s2_client_platform new clock) w" "w_tick w = 0" "w_app v = st"
    using assms(3) by (cases s) (auto simp: s2_at_def)
  have j: "map_of s2_test_handlers GET_DEVICE_VERSION = Some S2_Unsupported_Message"
    "s2_message S2_Unsupported_Message GET_DEVICE_VERSION [0, 7] (w_app v) = (st, [Send_Answer S2_INVALID_MSG] :: s2_message_handler api_call list, HANDLER_OK)"
    "m_frame_type S2_INVALID_MSG = INVALID" "length (msg_payload S2_INVALID_MSG) \<le> 100" "length [0, 7 :: byte] \<le> 100"
    "clock (0 + 2) \<le> clock 0 + DEFAULT_ANSWER_TIMEOUT"
    using wv(5) p(2) S2_INVALID_MSG_type by (simp_all add: s2_test_handlers_def s2_unsupported_message_handler_def S2_MSG_ok(2) numeral_2_eq_2)
  obtain w1 v1 where 1: "s2_run new clock clock' [Request (msg_of_data GET_DEVICE_VERSION (Some [0, 7]) 2) False 3 0, Both_Loops, Both_Loops] (w, v)
      = Some ((w1, v1), fst (s2_test_results ! 0))"
    "w_app v1 = st" "s2_linked new (w1, v1)" "w_tick w1 = 0 + 3" "pr_retry_time_point (w_protocol w1) = clock (0 + 2)"
    "pr_cooldown_time_point (w_protocol w1) = clock (0 + 1) + DEFAULT_COOLDOWN_INTERVAL"
    by (rule s2_round [OF assms(1) wv(2-4) s2_request_payloads(1-3) j(5,1,2) S2_MSG_ok(1) j(4,3,6), of clock' 3 0])
      (simp add: s2_client_answers s2_test_results_def)
  obtain w2 v2 where 2: "s2_run new clock clock' (replicate 3 Both_Loops) (w1, v1) = Some ((w2, v2), [])"
    "w_app v2 = w_app v1" "s2_linked new (w2, v2)" "w_tick w2 = w_tick w1 + 3"
    "pr_retry_time_point (w_protocol w2) = pr_retry_time_point (w_protocol w1)"
    "pr_cooldown_time_point (w_protocol w2) = pr_cooldown_time_point (w_protocol w1)"
    by (rule s2_rest [OF assms(1) 1(3), of clock clock' 3])
  have "s2_at new clock 6 st (w2, v2)"
    using 1(2,4-6) 2(2-6) p(3,4) s2_platforms(5) [OF assms(1), of clock] by (simp add: s2_at_def free_def numeral_2_eq_2)
  then show ?thesis
    using run_script_append [OF 1(1) 2(1)] by (intro exI [of _ "(w2, v2)"]) (simp add: s2_tests_def wv(1))
qed

lemma s2_test2:
  assumes "allocates new" "s2_paced clock" "s2_at new clock 6 st s"
  shows "\<exists>s'. s2_run new clock clock' (fst (s2_tests cs ! 1)) s = Some (s', fst (s2_test_results ! 1)) \<and> s2_at new clock 18 st s'"
proof -
  note p = s2_pace [OF assms(2)]
  note pf = s2_platforms [OF assms(1), of clock] s2_platforms(3,4) [OF assms(1), of clock']
  obtain w v where wv: "s = (w, v)" "s2_linked new (w, v)" "free (s2_client_platform new clock) w" "w_tick w = 6" "w_app v = st"
    using assms(3) by (cases s) (auto simp: s2_at_def)
  let ?m = "msg_of_type DOWNLINK_TRANSPARENT_TRANSMISSION"
  have c: "connected DIRECTION_B (w, v)" "length (msg_payload ?m) \<le> 100" using wv(2) by (simp_all add: s2_linked_def s2_request_payloads)
  note set = s2_setup [OF wv(2)]
  have h: "find_handler (pr_message_handlers_map (w_protocol v)) (m_frame_type ?m) (pr_default_message_handler (w_protocol v)) = None"
    by (simp add: set(1,2) find_handler_def s2_test_handlers_def s2_request_payloads)
  have time: "pf_clock (s2_client_platform new clock) (6 + 2) \<le> pf_clock (s2_client_platform new clock) 6 + 200"
    "pf_clock (s2_client_platform new clock) 6 + 200 < pf_clock (s2_client_platform new clock) (6 + 3)"
    "pf_clock (s2_client_platform new clock) (6 + 1) + 400 \<le> pf_clock (s2_client_platform new clock) (6 + 4)"
    "pf_clock (s2_client_platform new clock) 6 + 0 \<le> pf_clock (s2_client_platform new clock) (6 + 4)"
    "repeats_paced (pf_clock (s2_client_platform new clock)) 200 400 0 (6 + 3) (min (unat (of_nat (ATTEMPTS_NUM - 1) :: byte)) MAX_PACKET_RETRIES)"
    using p(5-9) by (simp_all add: pf(5))
  have n: "2 * min (unat (of_nat (ATTEMPTS_NUM - 1) :: byte)) MAX_PACKET_RETRIES + 3 = 7" "6 + 3 * min (unat (of_nat (ATTEMPTS_NUM - 1) :: byte)) MAX_PACKET_RETRIES + 4 = 16"
    "6 + 3 * min (unat (of_nat (ATTEMPTS_NUM - 1) :: byte)) MAX_PACKET_RETRIES + 3 = 15" by simp_all
  have lines: "concat (replicate (Suc (min (unat (of_nat (ATTEMPTS_NUM - 1) :: byte)) MAX_PACKET_RETRIES)) (unsupported_lines ?m)) @ [answer_timeout_line (m_frame_type ?m)]
      = fst (s2_test_results ! 1)"
    by (simp add: s2_test_results_def unsupported_lines_def s2_request_payloads numeral_3_eq_3)
  obtain w1 v1 where 1: "s2_run new clock clock' (Request ?m False (of_nat (ATTEMPTS_NUM - 1)) 0 # replicate 7 Both_Loops) (w, v)
      = Some ((w1, v1), fst (s2_test_results ! 1))"
    "connected DIRECTION_B (w1, v1)" "kept (w, v) (w1, v1)" "w_tick w1 = 16" "pr_cooldown_time_point (w_protocol w1) \<le> clock 16"
    "pr_retry_time_point (w_protocol w1) = clock 15"
    using unsupported_script [OF pf(1,2,6) c(1) wv(3) s2_request_payloads(4) c(2) set(4) h wv(4) set(5,6) time, of s2_client_lines s2_server_lines False,
        unfolded n lines pf(5)] by blast
  have l1: "s2_linked new (w1, v1)" using s2_linked_next [OF wv(2) 1(2)] 1(3) by (simp add: kept_def)
  obtain w2 v2 where 2: "s2_run new clock clock' (replicate 2 Both_Loops) (w1, v1) = Some ((w2, v2), [])"
    "w_app v2 = w_app v1" "s2_linked new (w2, v2)" "w_tick w2 = w_tick w1 + 2"
    "pr_retry_time_point (w_protocol w2) = pr_retry_time_point (w_protocol w1)"
    "pr_cooldown_time_point (w_protocol w2) = pr_cooldown_time_point (w_protocol w1)"
    by (rule s2_rest [OF assms(1) l1, of clock clock' 2])
  have "s2_at new clock 18 st (w2, v2)"
    using 1 2(2-6) p(10,11) pf(5) wv(5) by (simp add: s2_at_def free_def kept_def)
  moreover have "fst (s2_tests cs ! 1) = (Request ?m False (of_nat (ATTEMPTS_NUM - 1)) 0 # replicate 7 Both_Loops) @ replicate 2 Both_Loops"
    by (simp add: s2_tests_def numeral_eq_Suc)
  ultimately show ?thesis
    using run_script_append [OF 1(1) 2(1)] by (intro exI [of _ "(w2, v2)"]) (simp add: wv(1))
qed

text \<open>The server after the start.\<close>

abbreviation s2_started :: s2_state where "s2_started \<equiv> s2_get_ac_state_ref s2_globals"

lemma s2_started_simps: "s2_ac_status s2_started = s2_status" "s2_first_run s2_started = False"
  by (simp_all add: s2_status_def s2_get_ac_state_ref_def s2_globals_def s2_init_ac_state_def)

lemma s2_tests345:
  assumes "allocates new" "s2_paced clock"
  defines "cs \<equiv> s2_test5_control s2_status"
  shows "s2_at new clock 18 s2_started s
      \<Longrightarrow> \<exists>s'. s2_run new clock clock' (fst (s2_tests cs ! 2)) s = Some (s', fst (s2_test_results ! 2)) \<and> s2_at new clock 21 s2_started s'"
    "s2_at new clock 21 s2_started s
      \<Longrightarrow> \<exists>s'. s2_run new clock clock' (fst (s2_tests cs ! 3)) s = Some (s', fst (s2_test_results ! 3)) \<and> s2_at new clock 24 s2_started s'"
    "s2_at new clock 24 s2_started s
      \<Longrightarrow> \<exists>w v. s2_run new clock clock' (fst (s2_tests cs ! 4)) s = Some ((w, v), fst (s2_test_results ! 4)) \<and> s2_ac_status (w_app v) = cs"
proof -
  note p = s2_pace [OF assms(2)] and t = s2_test5 [folded cs_def] and a = s2_client_answers
  note h = s2_test_handlers_def s2_status_request_handler_def s2_status_answer_def s2_report_network_status_handler_def s2_started_simps
  have j: "map_of s2_test_handlers CONTROL = Some S2_Status_Request" "map_of s2_test_handlers REPORT_NETWORK_STATUS = Some S2_Report_Network_Status"
    by (simp_all add: s2_test_handlers_def)
  have m3: "s2_message S2_Status_Request CONTROL [0x4D, 0x01] s2_started
      = (s2_started, [Send_Answer (msg_new STATUS 0x6D01 (Some s2_status) S2_CONTROL_SIZE)] :: s2_message_handler api_call list, HANDLER_OK)"
    by (simp add: h)
  have m4: "s2_message S2_Report_Network_Status REPORT_NETWORK_STATUS [0x00, 0x01, 0x00, 0x37] s2_started
      = (s2_started, [Send_Answer S2_CONFIRM_MSG] :: s2_message_handler api_call list, HANDLER_OK)"
    by (simp add: h)
  have m5: "s2_message S2_Status_Request CONTROL (0x4D # 0x5F # cs) s2_started = (s2_started\<lparr>s2_ac_status := cs\<rparr>,
      [Send_Answer (msg_new STATUS 0x6D5F (Some cs) S2_CONTROL_SIZE)] :: s2_message_handler api_call list, HANDLER_OK)"
    using t(1,4) by (simp add: h)
  have l: "s2_message_log S2_Status_Request CONTROL [0x4D, 0x01] s2_started = []"
    "s2_message_log S2_Report_Network_Status REPORT_NETWORK_STATUS [0x00, 0x01, 0x00, 0x37] s2_started = []"
    "s2_message_log S2_Status_Request CONTROL (0x4D # 0x5F # cs) s2_started = [s2_changed_line 11 0x00 0x01, s2_changed_line 17 0x10 0x11]"
    using t(2,4) by (simp_all add: s2_status_request_log_def s2_started_simps)
  have a3: "s2_client_answer CONTROL (m_frame_type (msg_new STATUS sub d n)) = ([(LEVEL_INFO, answer_line CONTROL STATUS)], HANDLER_OK)" for sub d n
    using a(2) by simp
  have a4: "s2_client_answer REPORT_NETWORK_STATUS (m_frame_type S2_CONFIRM_MSG) = ([(LEVEL_INFO, answer_line REPORT_NETWORK_STATUS CONFIRM)], HANDLER_OK)"
    using a(3) by (simp add: S2_INVALID_MSG_type)
  have len: "length [0x4D, 0x01 :: byte] \<le> 100" "length [0x00, 0x01, 0x00, 0x37 :: byte] \<le> 100" "length (0x4D # 0x5F # cs) \<le> 100"
    "length (msg_payload S2_CONFIRM_MSG) \<le> 100"
    using t(4) by (simp_all add: S2_MSG_ok)
  have c: "clock (18 + 2) \<le> clock 18 + DEFAULT_ANSWER_TIMEOUT" "clock (21 + 2) \<le> clock 21 + DEFAULT_ANSWER_TIMEOUT"
    "clock (24 + 2) \<le> clock 24 + DEFAULT_ANSWER_TIMEOUT"
    using p by simp_all
  show "\<exists>s'. s2_run new clock clock' (fst (s2_tests cs ! 2)) s = Some (s', fst (s2_test_results ! 2)) \<and> s2_at new clock 21 s2_started s'"
    if "s2_at new clock 18 s2_started s"
    using s2_answered_test [OF assms(1) that s2_request_payloads(7-9) len(1) j(1) m3 s2_status_message(1,2) [OF t(3)] a3 c(1), of clock'] p(13,14)
    unfolding l by (auto simp: s2_tests_def s2_test_results_def simp del: run_script.simps)
  show "\<exists>s'. s2_run new clock clock' (fst (s2_tests cs ! 3)) s = Some (s', fst (s2_test_results ! 3)) \<and> s2_at new clock 24 s2_started s'"
    if "s2_at new clock 21 s2_started s"
    using s2_answered_test [OF assms(1) that s2_request_payloads(10-12) len(2) j(2) m4 S2_MSG_ok(3) len(4) a4 c(2), of clock'] p(16,17)
    unfolding l by (auto simp: s2_tests_def s2_test_results_def numeral_3_eq_3 simp del: run_script.simps)
  show "\<exists>w v. s2_run new clock clock' (fst (s2_tests cs ! 4)) s = Some ((w, v), fst (s2_test_results ! 4)) \<and> s2_ac_status (w_app v) = cs"
    if at24: "s2_at new clock 24 s2_started s"
  proof -
    obtain w v where wv: "s2_run new clock clock' [Request (msg_new CONTROL 0x4D5F (Some cs) S2_CONTROL_SIZE) False 0 0, Both_Loops, Both_Loops] s
        = Some ((w, v), [s2_changed_line 11 0x00 0x01, s2_changed_line 17 0x10 0x11] @ [(LEVEL_INFO, answer_line CONTROL STATUS)])"
      "w_app v = s2_started\<lparr>s2_ac_status := cs\<rparr>"
      using s2_answered_test [OF assms(1) at24 s2_request_payloads(13) [OF t(4)] s2_request_payloads(14) s2_request_payloads(15) [OF t(4)] len(3) j(1) m5
          s2_status_message(1,2) [OF t(4)] a3 c(3), of clock', unfolded l] by blast
    have "s2_run new clock clock' [Look (s2_control_check cs)] (w, v) = Some ((w, v), [(LEVEL_INFO, ''AC control processed correctly'')])"
      using wv(2) by (simp add: s2_control_check_def s2_get_ac_state_ref_def s2_started_simps(2) [unfolded s2_get_ac_state_ref_def])
    from run_script_append [OF wv(1) this] wv(2) show ?thesis
      by (intro exI [of _ w] exI [of _ v]) (simp add: s2_tests_def s2_test_results_def numeral_eq_Suc del: run_script.simps)
  qed
qed

section \<open>The test program\<close>

lemma s2_start_at:
  assumes "allocates new" "s2_paced clock"
  shows "s2_at new clock 0 s2_started (s2_client new, s2_server new)"
  using s2_start [OF assms(1)] s2_pace(1) [OF assms(2)] s2_platforms(5) [OF assms(1)]
  by (simp add: s2_at_def free_def s2_client_def s2_server_def pr_set_default_answer_handler_def pr_new_def pr_new_sized_def)

text \<open>Claim C11. What the SmartAir2 test program checks, from its set-up and with its pauses. Each of the five tests logs exactly the listed
  lines, so \<^verbatim>\<open>TEST_END\<close> with the numbers of the program succeeds on any console that counts. Test 1: the request for the
  device version is refused, the client's handler and the library warn about the answer. Test 2: the unsupported
  request is sent three times with two warnings each, and given up with a seventh. Tests 3 to 5 log no
  warning. In test 5 the server takes over the control that the client sent, power on and cooling, and its status is
  then byte by byte the client's.\<close>

theorem smartair2_tests_pass:
  assumes "allocates new" "s2_paced clock"
  defines "cs \<equiv> s2_test5_control s2_status"
  shows "\<exists>w v. run_tests (s2_client_platform new clock) (s2_server_platform new clock') s2_client_lines s2_server_lines (s2_tests cs)
        (s2_client new, s2_server new) = Some ((w, v), s2_test_results)
      \<and> s2_ac_status (w_app v) = cs \<and> s2_get S2_Ac_Power cs = 1 \<and> s2_get S2_Ac_Mode cs = s2_conditioning_mode_code S2_Mode_COOL
      \<and> s2_get S2_Ac_Power s2_status = 0
    \<and> (\<forall>r \<in> set s2_test_results. \<forall>(c :: 'l logger \<times> console) now number. log_ready c \<and> time_ok now \<and> plain_text number \<and> lv > 1
        \<longrightarrow> test_passes lv now number r c)"
proof -
  note at0 = s2_start_at [OF assms(1,2)]
  obtain s1 where 1: "s2_run new clock clock' (fst (s2_tests cs ! 0)) (s2_client new, s2_server new) = Some (s1, fst (s2_test_results ! 0))"
    "s2_at new clock 6 s2_started s1" using s2_test1 [OF assms(1,2) at0] by blast
  obtain s2 where 2: "s2_run new clock clock' (fst (s2_tests cs ! 1)) s1 = Some (s2, fst (s2_test_results ! 1))"
    "s2_at new clock 18 s2_started s2" using s2_test2 [OF assms(1,2) 1(2)] by blast
  note t = s2_tests345 [OF assms(1,2), folded cs_def]
  obtain s3 where 3: "s2_run new clock clock' (fst (s2_tests cs ! 2)) s2 = Some (s3, fst (s2_test_results ! 2))"
    "s2_at new clock 21 s2_started s3" using t(1) [OF 2(2)] by blast
  obtain s4 where 4: "s2_run new clock clock' (fst (s2_tests cs ! 3)) s3 = Some (s4, fst (s2_test_results ! 3))"
    "s2_at new clock 24 s2_started s4" using t(2) [OF 3(2)] by blast
  obtain w v where 5: "s2_run new clock clock' (fst (s2_tests cs ! 4)) s4 = Some ((w, v), fst (s2_test_results ! 4))"
    "s2_ac_status (w_app v) = cs" using t(3) [OF 4(2)] by blast
  obtain p1 p2 p3 p4 p5 where p: "s2_tests cs = [(p1, 2, 0), (p2, 7, 0), (p3, 0, 0), (p4, 0, 0), (p5, 0, 0)]"
    by (simp add: s2_tests_def)
  obtain l1 l2 l3 l4 l5 where l: "s2_test_results = [(l1, 2, 0), (l2, 7, 0), (l3, 0, 0), (l4, 0, 0), (l5, 0, 0)]"
    unfolding s2_test_results_def by blast
  have "run_tests (s2_client_platform new clock) (s2_server_platform new clock') s2_client_lines s2_server_lines (s2_tests cs)
      (s2_client new, s2_server new) = Some ((w, v), s2_test_results)"
    using 1(1) 2(1) 3(1) 4(1) 5(1) unfolding p l by (simp add: numeral_eq_Suc)
  moreover have "s2_get S2_Ac_Power cs = 1 \<and> s2_get S2_Ac_Mode cs = s2_conditioning_mode_code S2_Mode_COOL \<and> s2_get S2_Ac_Power s2_status = 0"
    unfolding cs_def by code_simp
  moreover have "test_passes lv now number r c" if "r \<in> set s2_test_results" "log_ready c" "time_ok now" "lv > 1" "plain_text number" for r now number and c :: "'l logger \<times> console"
    using s2_test_counts that by (cases r) (auto intro!: test_passes_count)
  ultimately show ?thesis using 5(2) by blast
qed

text \<open>A clock with the pauses of the program.\<close>

definition s2_sample_clock :: "nat \<Rightarrow> millis" where
  "s2_sample_clock i = 500 * int (length (filter (\<lambda>p. p \<le> i) s2_pauses))"

theorem smartair2_tests_pass_witness:
  "\<exists>w v. run_tests (s2_client_platform (\<lambda>n. replicate n 0) s2_sample_clock) (s2_server_platform (\<lambda>n. replicate n 0) int)
        s2_client_lines s2_server_lines (s2_tests (s2_test5_control s2_status)) (s2_client (\<lambda>n. replicate n 0), s2_server (\<lambda>n. replicate n 0))
        = Some ((w, v), s2_test_results) \<and> s2_get S2_Ac_Power (s2_ac_status (w_app v)) = 1
     \<and> list_all (\<lambda>r. test_passes 2 midday ''1'' r (sample_logger, sample_console)) s2_test_results
     \<and> map snd (fst (s2_test_results ! 0)) = [''Unsupported message 0x61 received'', ''Unexpected answer 0x03 for command 0x61'',
         ''Answer handler error, msg=61, answ=03, err=7'']"
proof -
  have p: "s2_paced s2_sample_clock" by code_simp
  have r: "log_ready (sample_logger, sample_console)" "time_ok midday" "plain_text ''1''"
    by (simp_all add: plain_text_def log_ready_def console_wf_def sample_console_def sample_logger_def time_ok_def midday_def)
  have l: "map snd (fst (s2_test_results ! 0)) = [''Unsupported message 0x61 received'', ''Unexpected answer 0x03 for command 0x61'',
         ''Answer handler error, msg=61, answ=03, err=7'']" by code_simp
  from smartair2_tests_pass [where 'l = unit, OF allocates_replicate [of 0] p, of int 2] obtain w v where
    "run_tests (s2_client_platform (\<lambda>n. replicate n 0) s2_sample_clock) (s2_server_platform (\<lambda>n. replicate n 0) int)
        s2_client_lines s2_server_lines (s2_tests (s2_test5_control s2_status)) (s2_client (\<lambda>n. replicate n 0), s2_server (\<lambda>n. replicate n 0))
        = Some ((w, v), s2_test_results)" "s2_get S2_Ac_Power (s2_ac_status (w_app v)) = 1"
    "list_all (\<lambda>r. test_passes 2 midday ''1'' r (sample_logger, sample_console)) s2_test_results"
    using r by (auto simp: list_all_iff)
  then show ?thesis using l by (intro exI conjI)
qed

end
