(* ===== verification/Serial_Stream.thy ===== *)
theory Serial_Stream
  imports Protocol_Stream
begin

text \<open>
  The serial stream the simulators run on, \<^verbatim>\<open>tools/utils/serial_stream.cpp\<close> and
  \<^verbatim>\<open>serial_stream.h\<close>. The port is a file of the operating system: what its system
  calls return is an argument of the definitions. The stream fetches bytes from the port only in \<^verbatim>\<open>available\<close>, so it keeps the contract \<open>byte_stream\<close> and not the
  stronger \<open>protocol_stream\<close>.
\<close>

section \<open>The stream\<close>

abbreviation SERIAL_BUFFER_SIZE :: nat where "SERIAL_BUFFER_SIZE \<equiv> 2048"

text \<open>A read gives the bytes, none if there are none, or fails; a write gives nothing back that
  the code looks at.\<close>

record 'p serial_port =
  sp_read :: "nat \<Rightarrow> 'p \<Rightarrow> byte list option \<times> 'p"
  sp_write :: "byte list \<Rightarrow> 'p \<Rightarrow> 'p"

record 'p serial_stream =
  ss_handle_valid :: bool
  ss_buffer :: "byte circular_buffer"
  ss_port :: 'p

text \<open>\<open>opened\<close>: the port could be opened and configured.\<close>

definition ss_new :: "byte allocator \<Rightarrow> bool \<Rightarrow> 'p \<Rightarrow> 'p serial_stream" where
  "ss_new new opened port = \<lparr>ss_handle_valid = opened, ss_buffer = cb_new new SERIAL_BUFFER_SIZE, ss_port = port\<rparr>"

definition ss_is_valid :: "'p serial_stream \<Rightarrow> bool" where
  "ss_is_valid s = ss_handle_valid s"

definition ss_close :: "'p serial_stream \<Rightarrow> 'p serial_stream" where
  "ss_close s = (if ss_is_valid s then s\<lparr>ss_handle_valid := False\<rparr> else s)"

text \<open>The system call stores at most as many bytes as it is asked for.\<close>

definition ss_available :: "'p serial_port \<Rightarrow> 'p serial_stream \<Rightarrow> nat \<times> 'p serial_stream" where
  "ss_available sp s =
     (if \<not> ss_is_valid s then (0, s)
      else if cb_is_empty (ss_buffer s)
      then let (r, port) = sp_read sp SERIAL_BUFFER_SIZE (ss_port s);
               s1 = s\<lparr>ss_port := port\<rparr>;
               bs = (case r of None \<Rightarrow> [] | Some bs \<Rightarrow> take SERIAL_BUFFER_SIZE bs)
           in if r \<noteq> None \<and> length bs > 0
              then let b = snd (cb_push (ss_buffer s1) bs (length bs))
                   in (cb_get_size b, s1\<lparr>ss_buffer := b\<rparr>)
              else (0, s1)
      else (cb_get_size (ss_buffer s), s))"

definition ss_read_array :: "nat \<Rightarrow> 'p serial_stream \<Rightarrow> byte list \<times> 'p serial_stream" where
  "ss_read_array len s =
     (if \<not> ss_is_valid s \<or> cb_is_empty (ss_buffer s) then ([], s)
      else let av = cb_get_size (ss_buffer s);
               len = (if av < len then av else len);
               (bs, b) = cb_pop (ss_buffer s) len
           in (bs, s\<lparr>ss_buffer := b\<rparr>))"

definition ss_write_array :: "'p serial_port \<Rightarrow> byte list \<Rightarrow> 'p serial_stream \<Rightarrow> 'p serial_stream" where
  "ss_write_array sp bs s = (if \<not> ss_is_valid s then s else s\<lparr>ss_port := sp_write sp bs (ss_port s)\<rparr>)"

definition serial_ops :: "'p serial_port \<Rightarrow> 'p serial_stream stream_ops" where
  "serial_ops sp =
     \<lparr>so_available = ss_available sp, so_read_array = ss_read_array, so_write_array = ss_write_array sp\<rparr>"

section \<open>The contract\<close>

definition ss_inv :: "'p serial_stream \<Rightarrow> bool" where
  "ss_inv s \<longleftrightarrow> cb_wf (ss_buffer s) \<and> cb_capacity (ss_buffer s) = SERIAL_BUFFER_SIZE"

definition ss_pending :: "'p serial_stream \<Rightarrow> byte list" where
  "ss_pending s = (if ss_handle_valid s then cb_list (ss_buffer s) else [])"

lemma ss_new_inv: "allocates new \<Longrightarrow> ss_inv (ss_new new opened port) \<and> ss_pending (ss_new new opened port) = []"
  by (simp add: ss_inv_def ss_pending_def ss_new_def cb_new_correct CIRCULAR_BUFFER_MINIMUM_SIZE_def)

lemma ss_available_correct:
  fixes sp :: "'p serial_port" and s :: "'p serial_stream"
  assumes "ss_inv s"
  defines "r \<equiv> ss_available sp s"
  shows "ss_inv (snd r) \<and> fst r = length (ss_pending (snd r)) \<and> fst r \<le> SERIAL_BUFFER_SIZE
    \<and> (\<exists>more. ss_pending (snd r) = ss_pending s @ more)"
proof (cases "ss_is_valid s \<and> cb_is_empty (ss_buffer s)")
  case False
  then show ?thesis
    using assms cb_get_size_le [of "ss_buffer s"]
    by (auto simp: r_def ss_available_def ss_inv_def ss_pending_def ss_is_valid_def simp flip: length_cb_list)
next
  case True
  obtain res port where rd: "sp_read sp SERIAL_BUFFER_SIZE (ss_port s) = (res, port)"
    by (cases "sp_read sp SERIAL_BUFFER_SIZE (ss_port s)") auto
  define bs where "bs = (case res of None \<Rightarrow> [] | Some bs \<Rightarrow> take SERIAL_BUFFER_SIZE bs)"
  define b where "b = snd (cb_push (ss_buffer s) bs (length bs))"
  have wf: "cb_wf (ss_buffer s)" "cb_list (ss_buffer s) = []" "cb_capacity (ss_buffer s) = SERIAL_BUFFER_SIZE"
    using assms(1) True by (simp_all add: ss_inv_def cb_empty_iff)
  then have "length bs \<le> cb_get_space (ss_buffer s)"
    by (auto simp: bs_def cb_get_space_def split: option.split simp flip: length_cb_list)
  then have b: "cb_wf b" "cb_list b = bs" "cb_capacity b = SERIAL_BUFFER_SIZE"
    using cb_push_correct [OF wf(1) order_refl, of bs] wf by (simp_all add: b_def)
  have r: "r = (if res \<noteq> None \<and> length bs > 0 then (cb_get_size b, s\<lparr>ss_port := port, ss_buffer := b\<rparr>)
      else (0, s\<lparr>ss_port := port\<rparr>))"
    using True by (simp add: r_def ss_available_def rd bs_def b_def Let_def)
  have "length bs \<le> SERIAL_BUFFER_SIZE" by (auto simp: bs_def split: option.split)
  then show ?thesis
    using b wf True unfolding r by (auto simp: ss_inv_def ss_pending_def ss_is_valid_def simp flip: length_cb_list)
qed

lemma ss_read_array_correct:
  assumes "ss_inv s"
  shows "ss_inv (snd (ss_read_array n s)) \<and> fst (ss_read_array n s) = take n (ss_pending s)
    \<and> ss_pending (snd (ss_read_array n s)) = drop n (ss_pending s)"
  using assms cb_empty_iff [of "ss_buffer s"]
  by (auto simp: ss_read_array_def ss_inv_def ss_pending_def ss_is_valid_def Let_def split_def cb_pop_correct
      cb_drop_correct simp flip: length_cb_list)

interpretation serial: byte_stream "serial_ops sp" ss_inv ss_pending "\<lambda>_. 0" "\<lambda>_. []"
  for sp :: "'p serial_port"
proof
  fix s :: "'p serial_stream" and n and bs :: "byte list" assume s: "ss_inv s"
  show "fst (so_available (serial_ops sp) s) = length (arrived (serial_ops sp) ss_pending s)"
    "ss_inv (snd (so_available (serial_ops sp) s))
      \<and> (\<exists>more. arrived (serial_ops sp) ss_pending s = ss_pending s @ more) \<and> [] = []"
    using ss_available_correct [OF s, of sp] by (simp_all add: arrived_def serial_ops_def)
  show "fst (so_read_array (serial_ops sp) n s) = take n (ss_pending s)"
    "ss_inv (snd (so_read_array (serial_ops sp) n s))
      \<and> ss_pending (snd (so_read_array (serial_ops sp) n s)) = drop n (ss_pending s) \<and> [] = []"
    using ss_read_array_correct [OF s, of n] by (simp_all add: serial_ops_def)
  show "ss_inv (so_write_array (serial_ops sp) bs s) \<and> ss_pending (so_write_array (serial_ops sp) bs s) = ss_pending s"
    using s by (simp add: serial_ops_def ss_write_array_def ss_inv_def ss_pending_def)
qed simp

text \<open>What the calls on the port keep is kept by the operations of the stream.\<close>

definition port_keeps :: "'p serial_port \<Rightarrow> ('p \<Rightarrow> 'a) \<Rightarrow> bool" where
  "port_keeps sp f \<longleftrightarrow> (\<forall>k p. f (snd (sp_read sp k p)) = f p) \<and> (\<forall>bs p. f (sp_write sp bs p) = f p)"

lemma ss_ops_keep:
  "port_keeps sp f \<Longrightarrow> f (ss_port (snd (ss_available sp s))) = f (ss_port s)"
  "ss_port (snd (ss_read_array n s)) = ss_port s"
  "port_keeps sp f \<Longrightarrow> f (ss_port (ss_write_array sp bs s)) = f (ss_port s)"
  by (simp_all add: port_keeps_def ss_available_def ss_read_array_def ss_write_array_def split_beta Let_def)

lemma serial_keeps:
  assumes "port_keeps sp f"
  shows "byte_stream (serial_ops sp) (\<lambda>s. ss_inv s \<and> f (ss_port s) = c) ss_pending (\<lambda>_. 0) (\<lambda>_. [])"
proof
  fix s n and bs :: "byte list" assume s: "ss_inv s \<and> f (ss_port s) = c"
  show "fst (so_available (serial_ops sp) s) = length (arrived (serial_ops sp) ss_pending s)"
    "fst (so_read_array (serial_ops sp) n s) = take n (ss_pending s)"
    using s serial.available_count serial.read_bytes by blast+
  show "(ss_inv (snd (so_available (serial_ops sp) s)) \<and> f (ss_port (snd (so_available (serial_ops sp) s))) = c)
      \<and> (\<exists>more. arrived (serial_ops sp) ss_pending s = ss_pending s @ more) \<and> [] = []"
    using s serial.available_state [of s sp] ss_ops_keep(1) [OF assms, of s] by (simp add: serial_ops_def)
  show "(ss_inv (snd (so_read_array (serial_ops sp) n s)) \<and> f (ss_port (snd (so_read_array (serial_ops sp) n s))) = c)
      \<and> ss_pending (snd (so_read_array (serial_ops sp) n s)) = drop n (ss_pending s) \<and> [] = []"
    using s serial.read_state [of s sp n] ss_ops_keep(2) [of n s] by (simp add: serial_ops_def)
  show "(ss_inv (so_write_array (serial_ops sp) bs s) \<and> f (ss_port (so_write_array (serial_ops sp) bs s)) = c)
      \<and> ss_pending (so_write_array (serial_ops sp) bs s) = ss_pending s"
    using s serial.write_state [of s sp bs] ss_ops_keep(3) [OF assms, of bs s] by (simp add: serial_ops_def)
qed simp

end
