(* ===== verification/Serial_Port.thy ===== *)
theory Serial_Port
  imports Serial_Stream "HOL-Library.Word" "HOL-Library.Sublist"
begin

text \<open>
  How \<^verbatim>\<open>tools/utils/serial_stream.cpp\<close> opens, configures and closes its port: the constructor
  and the destructor of \<^verbatim>\<open>SerialStream\<close>. The operating system is an argument; the flags are those of
  Linux. Of a \<^verbatim>\<open>termios\<close> the bits of the control word that encode the speed are the
  separate speed fields.
\<close>

unbundle bit_operations_syntax

section \<open>Terminal settings\<close>

type_synonym tcflag = "32 word"

abbreviation (input) PARENB :: tcflag where "PARENB \<equiv> 0x100"
abbreviation (input) CSTOPB :: tcflag where "CSTOPB \<equiv> 0x40"
abbreviation (input) CSIZE :: tcflag where "CSIZE \<equiv> 0x30"
abbreviation (input) CS8 :: tcflag where "CS8 \<equiv> 0x30"
abbreviation (input) CRTSCTS :: tcflag where "CRTSCTS \<equiv> 0x80000000"
abbreviation (input) CREAD :: tcflag where "CREAD \<equiv> 0x80"
abbreviation (input) CLOCAL :: tcflag where "CLOCAL \<equiv> 0x800"
abbreviation (input) ICANON :: tcflag where "ICANON \<equiv> 0x2"
abbreviation (input) ECHO :: tcflag where "ECHO \<equiv> 0x8"
abbreviation (input) ECHOE :: tcflag where "ECHOE \<equiv> 0x10"
abbreviation (input) ECHONL :: tcflag where "ECHONL \<equiv> 0x40"
abbreviation (input) ISIG :: tcflag where "ISIG \<equiv> 0x1"
abbreviation (input) IXON :: tcflag where "IXON \<equiv> 0x400"
abbreviation (input) IXOFF :: tcflag where "IXOFF \<equiv> 0x1000"
abbreviation (input) IXANY :: tcflag where "IXANY \<equiv> 0x800"
abbreviation (input) IGNBRK :: tcflag where "IGNBRK \<equiv> 0x1"
abbreviation (input) BRKINT :: tcflag where "BRKINT \<equiv> 0x2"
abbreviation (input) PARMRK :: tcflag where "PARMRK \<equiv> 0x8"
abbreviation (input) ISTRIP :: tcflag where "ISTRIP \<equiv> 0x20"
abbreviation (input) INLCR :: tcflag where "INLCR \<equiv> 0x40"
abbreviation (input) IGNCR :: tcflag where "IGNCR \<equiv> 0x80"
abbreviation (input) ICRNL :: tcflag where "ICRNL \<equiv> 0x100"
abbreviation (input) OPOST :: tcflag where "OPOST \<equiv> 0x1"
abbreviation (input) ONLCR :: tcflag where "ONLCR \<equiv> 0x4"
abbreviation (input) B9600 :: tcflag where "B9600 \<equiv> 0xD"

record termios =
  c_iflag :: tcflag
  c_oflag :: tcflag
  c_cflag :: tcflag
  c_lflag :: tcflag
  c_cc_VTIME :: byte
  c_cc_VMIN :: byte
  c_ispeed :: tcflag
  c_ospeed :: tcflag

definition configure :: "termios \<Rightarrow> termios" where
  "configure tty =
     (let tty = tty\<lparr>c_cflag := c_cflag tty AND NOT PARENB\<rparr>;
          tty = tty\<lparr>c_cflag := c_cflag tty AND NOT CSTOPB\<rparr>;
          tty = tty\<lparr>c_cflag := c_cflag tty AND NOT CSIZE\<rparr>;
          tty = tty\<lparr>c_cflag := c_cflag tty OR CS8\<rparr>;
          tty = tty\<lparr>c_cflag := c_cflag tty AND NOT CRTSCTS\<rparr>;
          tty = tty\<lparr>c_cflag := c_cflag tty OR (CREAD OR CLOCAL)\<rparr>;
          tty = tty\<lparr>c_lflag := c_lflag tty AND NOT ICANON\<rparr>;
          tty = tty\<lparr>c_lflag := c_lflag tty AND NOT ECHO\<rparr>;
          tty = tty\<lparr>c_lflag := c_lflag tty AND NOT ECHOE\<rparr>;
          tty = tty\<lparr>c_lflag := c_lflag tty AND NOT ECHONL\<rparr>;
          tty = tty\<lparr>c_lflag := c_lflag tty AND NOT ISIG\<rparr>;
          tty = tty\<lparr>c_iflag := c_iflag tty AND NOT (IXON OR IXOFF OR IXANY)\<rparr>;
          tty = tty\<lparr>c_iflag := c_iflag tty AND NOT (IGNBRK OR BRKINT OR PARMRK OR ISTRIP OR INLCR OR IGNCR OR ICRNL)\<rparr>;
          tty = tty\<lparr>c_oflag := c_oflag tty AND NOT OPOST\<rparr>;
          tty = tty\<lparr>c_oflag := c_oflag tty AND NOT ONLCR\<rparr>;
          tty = tty\<lparr>c_cc_VTIME := 0\<rparr>;
          tty = tty\<lparr>c_cc_VMIN := 0\<rparr>;
          tty = tty\<lparr>c_ispeed := B9600\<rparr>
      in tty\<lparr>c_ospeed := B9600\<rparr>)"

section \<open>Opening and closing\<close>

text \<open>\<open>os_open\<close> and \<open>os_tcsetattr\<close> return what the system calls return, \<open>os_tcgetattr\<close> the settings or
  \<open>None\<close> for a result other than 0.\<close>

record 'o serial_os =
  os_open :: "string \<Rightarrow> 'o \<Rightarrow> int \<times> 'o"
  os_tcgetattr :: "int \<Rightarrow> 'o \<Rightarrow> termios option \<times> 'o"
  os_tcsetattr :: "int \<Rightarrow> termios \<Rightarrow> 'o \<Rightarrow> int \<times> 'o"
  os_close :: "int \<Rightarrow> 'o \<Rightarrow> 'o"

definition handle_is_valid :: "int \<Rightarrow> bool" where
  "handle_is_valid h \<longleftrightarrow> h \<ge> 0"

text \<open>The constructor up to the buffer: the handle and the system afterwards.\<close>

definition serial_open :: "'o serial_os \<Rightarrow> string \<Rightarrow> 'o \<Rightarrow> int \<times> 'o" where
  "serial_open os port_path s =
     (let (handle, s1) = os_open os port_path s
      in if handle_is_valid handle
         then (case os_tcgetattr os handle s1 of
                 (None, s2) \<Rightarrow> (-1, s2)
               | (Some tty, s2) \<Rightarrow>
                   let (res, s3) = os_tcsetattr os handle (configure tty) s2
                   in if res \<noteq> 0 then (-1, s3) else (handle, s3))
         else (handle, s1))"

definition serial_close :: "'o serial_os \<Rightarrow> int \<Rightarrow> 'o \<Rightarrow> int \<times> 'o" where
  "serial_close os handle s = (if handle_is_valid handle then (-1, os_close os handle s) else (handle, s))"

section \<open>The Windows branch\<close>

definition win_prefix :: string where
  "win_prefix = [CHR 0x5C, CHR 0x5C, CHR ''.'', CHR 0x5C]"

definition port_win :: "string \<Rightarrow> string" where
  "port_win port_path = (if \<not> prefix win_prefix port_path then win_prefix @ port_path else port_path)"

record dcb =
  BaudRate :: nat
  ByteSize :: byte
  fBinary :: bool
  fRtsControl :: nat
  fDtrControl :: nat
  XonLim :: nat
  XoffLim :: nat
  Parity :: byte
  XonChar :: byte
  XoffChar :: byte
  EofChar :: byte

definition configure_win :: "dcb \<Rightarrow> dcb" where
  "configure_win serialParams =
     serialParams\<lparr>BaudRate := 9600, ByteSize := 8, fBinary := True, fRtsControl := 0, fDtrControl := 0,
       XonLim := 2048, XoffLim := 512, Parity := 0, XonChar := 17, XoffChar := 19, EofChar := 26\<rparr>"

record commtimeouts =
  ReadIntervalTimeout :: nat
  ReadTotalTimeoutConstant :: nat
  ReadTotalTimeoutMultiplier :: nat
  WriteTotalTimeoutConstant :: nat
  WriteTotalTimeoutMultiplier :: nat

text \<open>With \<^verbatim>\<open>MAXDWORD\<close> and zeros a read returns at once with what is there.\<close>

definition comm_timeout :: commtimeouts where
  "comm_timeout = \<lparr>ReadIntervalTimeout = 2 ^ 32 - 1, ReadTotalTimeoutConstant = 0, ReadTotalTimeoutMultiplier = 0,
     WriteTotalTimeoutConstant = 2, WriteTotalTimeoutMultiplier = 0\<rparr>"

text \<open>The results of the three calls that configure the port are not looked at; \<open>ws_GetCommState\<close> gives what it left in the
  structure it was passed.\<close>

record 'o win_serial =
  ws_CreateFile :: "string \<Rightarrow> 'o \<Rightarrow> int \<times> 'o"
  ws_GetCommState :: "int \<Rightarrow> dcb \<Rightarrow> 'o \<Rightarrow> dcb \<times> 'o"
  ws_SetCommState :: "int \<Rightarrow> dcb \<Rightarrow> 'o \<Rightarrow> 'o"
  ws_SetCommTimeouts :: "int \<Rightarrow> commtimeouts \<Rightarrow> 'o \<Rightarrow> 'o"
  ws_CloseHandle :: "int \<Rightarrow> 'o \<Rightarrow> 'o"

abbreviation INVALID_HANDLE_VALUE :: int where "INVALID_HANDLE_VALUE \<equiv> -1"

definition zero_dcb :: dcb where
  "zero_dcb = \<lparr>BaudRate = 0, ByteSize = 0, fBinary = False, fRtsControl = 0, fDtrControl = 0, XonLim = 0, XoffLim = 0,
     Parity = 0, XonChar = 0, XoffChar = 0, EofChar = 0\<rparr>"

definition serial_open_win :: "'o win_serial \<Rightarrow> string \<Rightarrow> 'o \<Rightarrow> int \<times> 'o" where
  "serial_open_win ws port_path s =
     (let (handle, s) = ws_CreateFile ws (port_win port_path) s
      in if handle \<noteq> INVALID_HANDLE_VALUE
         then let (serialParams, s) = ws_GetCommState ws handle zero_dcb s;
                  s = ws_SetCommState ws handle (configure_win serialParams) s
              in (handle, ws_SetCommTimeouts ws handle comm_timeout s)
         else (handle, s))"

definition serial_close_win :: "'o win_serial \<Rightarrow> int \<Rightarrow> 'o \<Rightarrow> int \<times> 'o" where
  "serial_close_win ws handle s =
     (if handle \<noteq> INVALID_HANDLE_VALUE then (INVALID_HANDLE_VALUE, ws_CloseHandle ws handle s) else (handle, s))"

text \<open>Unlike on Linux, a port that cannot be configured stays valid; nothing is left open by the destructor.\<close>

lemma serial_open_win_handle: "fst (serial_open_win ws path s) = fst (ws_CreateFile ws (port_win path) s)"
  by (simp add: serial_open_win_def Let_def split_beta)

lemma port_win_idem: "port_win (port_win path) = port_win path" "prefix win_prefix (port_win path)"
  by (simp_all add: port_win_def)

section \<open>The settings of an open port\<close>

text \<open>Raw bytes, eight data bits, no parity, one stop bit, no flow control, 9600 baud, reads that
  do not wait.\<close>

definition raw_8n1 :: "termios \<Rightarrow> bool" where
  "raw_8n1 tty \<longleftrightarrow>
     c_cflag tty AND (PARENB OR CSTOPB OR CRTSCTS) = 0 \<and> c_cflag tty AND CSIZE = CS8
     \<and> c_cflag tty AND (CREAD OR CLOCAL) = CREAD OR CLOCAL
     \<and> c_lflag tty AND (ICANON OR ECHO OR ECHOE OR ECHONL OR ISIG) = 0
     \<and> c_iflag tty AND (IXON OR IXOFF OR IXANY OR IGNBRK OR BRKINT OR PARMRK OR ISTRIP OR INLCR OR IGNCR OR ICRNL) = 0
     \<and> c_oflag tty AND (OPOST OR ONLCR) = 0
     \<and> c_cc_VTIME tty = 0 \<and> c_cc_VMIN tty = 0 \<and> c_ispeed tty = B9600 \<and> c_ospeed tty = B9600"

text \<open>The five assignments to a flag word, collected.\<close>

lemma configure_masks:
  fixes x :: tcflag
  shows "(((x AND - 257) AND - 65) AND - 49 OR 48) AND - 2147483649 OR 2176 = x AND - 2147484017 OR 2224"
    and "(((x AND - 3) AND - 9) AND - 17) AND - 65 = x AND - 91"
    and "(x AND - 91) AND - 2 = x AND - 92"
    and "(x AND - 7169) AND - 492 = x AND - 7660"
    and "(x AND - 2) AND - 5 = x AND - 6"
  by (simp_all add: and.assoc bit.conj_disj_distrib2 or.assoc)

lemma configure_eq:
  "configure tty = tty\<lparr>
     c_cflag := c_cflag tty AND - 2147484017 OR 2224,
     c_lflag := c_lflag tty AND - 92,
     c_iflag := c_iflag tty AND - 7660,
     c_oflag := c_oflag tty AND - 6,
     c_cc_VTIME := 0, c_cc_VMIN := 0, c_ispeed := B9600, c_ospeed := B9600\<rparr>"
  by (simp add: configure_def Let_def configure_masks)

lemma configure_raw: "raw_8n1 (configure tty)"
  by (simp add: configure_eq raw_8n1_def and.assoc bit.conj_disj_distrib2)

lemma configure_idem: "configure (configure tty) = configure tty"
  by (simp add: configure_eq and.assoc bit.conj_disj_distrib2 or.assoc)

section \<open>What the system documents\<close>

text \<open>\<open>fds\<close> are the open descriptors, \<open>requested\<close> what \<^verbatim>\<open>tcsetattr\<close> was last asked for with success.\<close>

definition serial_os_contract :: "'o serial_os \<Rightarrow> ('o \<Rightarrow> int set) \<Rightarrow> ('o \<Rightarrow> int \<Rightarrow> termios option) \<Rightarrow> bool" where
  "serial_os_contract os fds requested \<longleftrightarrow>
     (\<forall>path s. let (h, s') = os_open os path s
               in if h < 0 then fds s' = fds s else h \<notin> fds s \<and> fds s' = insert h (fds s))
     \<and> (\<forall>h s. fds (snd (os_tcgetattr os h s)) = fds s)
     \<and> (\<forall>h tty s. fds (snd (os_tcsetattr os h tty s)) = fds s
              \<and> (fst (os_tcsetattr os h tty s) = 0 \<longrightarrow> requested (snd (os_tcsetattr os h tty s)) h = Some tty))
     \<and> (\<forall>h s. fds (os_close os h s) = fds s - {h})"

lemma serial_os_contractD:
  assumes "serial_os_contract os fds requested"
  shows "os_open os path s = (h, s') \<Longrightarrow> if h < 0 then fds s' = fds s else h \<notin> fds s \<and> fds s' = insert h (fds s)"
    "os_tcgetattr os h s = (r, s') \<Longrightarrow> fds s' = fds s"
    "os_tcsetattr os h tty s = (res, s') \<Longrightarrow> fds s' = fds s \<and> (res = 0 \<longrightarrow> requested s' h = Some tty)"
    "fds (os_close os h s) = fds s - {h}"
proof -
  note c = assms [unfolded serial_os_contract_def]
  show "os_open os path s = (h, s') \<Longrightarrow> if h < 0 then fds s' = fds s else h \<notin> fds s \<and> fds s' = insert h (fds s)"
    using c [THEN conjunct1, THEN spec [of _ path], THEN spec [of _ s]] by (simp only: Let_def prod.case)
  show "os_tcgetattr os h s = (r, s') \<Longrightarrow> fds s' = fds s"
    using c [THEN conjunct2, THEN conjunct1, THEN spec [of _ h], THEN spec [of _ s]] by simp
  show "os_tcsetattr os h tty s = (res, s') \<Longrightarrow> fds s' = fds s \<and> (res = 0 \<longrightarrow> requested s' h = Some tty)"
    using c [THEN conjunct2, THEN conjunct2, THEN conjunct1, THEN spec [of _ h], THEN spec [of _ tty], THEN spec [of _ s]] by simp
  show "fds (os_close os h s) = fds s - {h}"
    using c by blast
qed

text \<open>The three outcomes of the constructor, in the terms of the descriptors.\<close>

lemma serial_open_cases:
  assumes "serial_os_contract os fds requested" "serial_open os path s = (h, s')"
  obtains (failed) "h < 0" "fst (os_open os path s) < 0" "fds s' = fds s"
    | (leaked) g where "h = -1" "fst (os_open os path s) = g" "0 \<le> g" "g \<notin> fds s" "fds s' = insert g (fds s)"
    | (opened) tty where "0 \<le> h" "fst (os_open os path s) = h" "h \<notin> fds s" "fds s' = insert h (fds s)" "requested s' h = Some (configure tty)"
proof -
  note d = serial_os_contractD [OF assms(1)]
  obtain g s1 where o1: "os_open os path s = (g, s1)" by (cases "os_open os path s")
  obtain r s2 where o2: "os_tcgetattr os g s1 = (r, s2)" by (cases "os_tcgetattr os g s1")
  show ?thesis
  proof (cases "g < 0")
    case True
    then show ?thesis using assms(2) o1 d(1) [OF o1] failed by (simp add: serial_open_def handle_is_valid_def)
  next
    case False
    then have g: "0 \<le> g" "g \<notin> fds s" "fds s2 = insert g (fds s)"
      using d(1) [OF o1] d(2) [OF o2] by simp_all
    show ?thesis
    proof (cases r)
      case None
      then show ?thesis using assms(2) o1 o2 g leaked [of g] by (simp add: serial_open_def handle_is_valid_def)
    next
      case (Some tty)
      obtain res s3 where o3: "os_tcsetattr os g (configure tty) s2 = (res, s3)"
        by (cases "os_tcsetattr os g (configure tty) s2")
      show ?thesis
        using assms(2) o1 o2 o3 g d(3) [OF o3] leaked [of g] opened [of tty]
        by (cases "res = 0") (simp_all add: serial_open_def handle_is_valid_def Some)
    qed
  qed
qed

text \<open>Claim C31. Opening a serial port. When the constructor leaves a valid handle, the system
  has accepted raw settings, eight data bits without parity, 9600 baud and no waiting, whatever
  the settings were before, and the destructor gives the descriptor back. When the port cannot be opened no
  descriptor is taken. When it is opened but its settings cannot be read or changed, the handle is overwritten
  with -1: the descriptor stays open and the destructor does not close it.\<close>

theorem open_port:
  assumes "serial_os_contract os fds requested" "serial_open os path s = (h, s')"
  shows "(handle_is_valid h \<longrightarrow> fds s' = insert h (fds s) \<and> fds (snd (serial_close os h s')) = fds s
        \<and> (\<exists>tty. requested s' h = Some tty \<and> raw_8n1 tty))
    \<and> (\<not> handle_is_valid h \<and> fst (os_open os path s) < 0 \<longrightarrow> fds (snd (serial_close os h s')) = fds s)
    \<and> (\<not> handle_is_valid h \<and> fst (os_open os path s) \<ge> 0 \<longrightarrow>
         fst (os_open os path s) \<in> fds (snd (serial_close os h s')) - fds s)"
  using assms(1,2)
proof (cases rule: serial_open_cases)
  case failed
  then show ?thesis by (simp add: handle_is_valid_def serial_close_def)
next
  case (leaked g)
  then show ?thesis by (simp add: handle_is_valid_def serial_close_def)
next
  case (opened tty)
  then show ?thesis
    using serial_os_contractD(4) [OF assms(1)] configure_raw [of tty] by (simp add: handle_is_valid_def serial_close_def)
qed

lemma serial_open_valid:
  assumes "serial_os_contract os fds requested" "serial_open os path s = (h, s')" "handle_is_valid h"
  shows "fds (snd (serial_close os h s')) = fds s \<and> (\<exists>tty. requested s' h = Some tty \<and> raw_8n1 tty)"
  using assms(1,2)
proof (cases rule: serial_open_cases)
  case (opened tty)
  then show ?thesis
    using assms(3) serial_os_contractD(4) [OF assms(1)] configure_raw [of tty] by (simp add: serial_close_def)
qed (use assms(3) in \<open>simp_all add: handle_is_valid_def\<close>)

lemma serial_close_fds:
  "serial_os_contract os fds requested \<Longrightarrow> handle_is_valid h \<Longrightarrow> fds (snd (serial_close os h s)) = fds s - {h}"
  using serial_os_contractD(4) by (simp add: serial_close_def)

lemma serial_open_returns:
  assumes "serial_os_contract os fds requested" "serial_open os path s = (h, s')" "handle_is_valid h"
  shows "fds s' - {h} = fds s"
  using serial_open_valid [OF assms] serial_close_fds [OF assms(1,3)] by simp

text \<open>A system that knows one port, with the settings \<open>get\<close>, if it can be read, and whether
  \<^verbatim>\<open>tcsetattr\<close> succeeds.\<close>

definition one_port :: "termios option \<Rightarrow> bool \<Rightarrow> (int set \<times> (int \<Rightarrow> termios option)) serial_os" where
  "one_port get ok =
     \<lparr>os_open = \<lambda>path (fds, req). if path = ''/dev/ttyUSB0'' \<and> 3 \<notin> fds then (3, insert 3 fds, req) else (-1, fds, req),
      os_tcgetattr = \<lambda>h s. (get, s),
      os_tcsetattr = \<lambda>h tty (fds, req). if ok then (0, fds, req(h \<mapsto> tty)) else (-1, fds, req),
      os_close = \<lambda>h (fds, req). (fds - {h}, req)\<rparr>"

lemma one_port_contract: "serial_os_contract (one_port get ok) fst snd"
  by (simp add: serial_os_contract_def one_port_def split_beta)

definition sample_tty :: termios where
  "sample_tty = \<lparr>c_iflag = - 1, c_oflag = - 1, c_cflag = - 1, c_lflag = - 1, c_cc_VTIME = 5, c_cc_VMIN = 1,
     c_ispeed = 0xF, c_ospeed = 0xF\<rparr>"

theorem open_port_witness:
  "fst (serial_open (one_port None True) ''/dev/ttyUSB0'' ({}, Map.empty)) = -1
   \<and> 3 \<in> fst (snd (serial_close (one_port None True) (-1) (snd (serial_open (one_port None True) ''/dev/ttyUSB0'' ({}, Map.empty)))))"
proof -
  let ?os = "one_port None True"
  have o1: "serial_open ?os ''/dev/ttyUSB0'' ({}, Map.empty) = (-1, {3}, Map.empty)" "os_open ?os ''/dev/ttyUSB0'' ({}, Map.empty) = (3, {3}, Map.empty)"
    by (simp_all add: serial_open_def one_port_def handle_is_valid_def)
  show ?thesis
    using open_port [OF one_port_contract o1(1)] o1 by (simp add: handle_is_valid_def)
qed

end
