(* ===== verification/Simulator_Base.thy ===== *)
theory Simulator_Base
  imports Protocol_Properties Serial_Port
begin

text \<open>
  The frame of the simulators, \<^verbatim>\<open>tools/utils/simulator_base.cpp\<close>: how
  \<^verbatim>\<open>simulator_main\<close> sets the protocol handler up, and the two threads it runs,
  as a step relation. It returns at once when the port cannot be opened. The protocol thread alternates between the preloop function of the
  application and the loop of the protocol handler; the console thread runs key handlers at
  any time between these calls; the stream changes from outside. What an application must
  provide is the interface \<open>simulation\<close>.
\<close>

section \<open>Setup\<close>

text \<open>The handler tables are unordered maps; a list stands for them in the order of iteration.\<close>

definition simulator_main :: "byte allocator \<Rightarrow> (byte \<times> 'h) list \<Rightarrow> (byte \<times> 'h) list \<Rightarrow> 'h protocol" where
  "simulator_main new mhandlers ahandlers =
     (let p = pr_set_answer_timeout 1000 (pr_new new);
          p = fold (\<lambda>(ty, h). pr_set_message_handler ty h) mhandlers p
      in fold (\<lambda>(ty, h). pr_set_answer_handler ty h) ahandlers p)"

text \<open>The start up to the threads: the message it ends with, or the handle of the port and the protocol
  handler.\<close>

definition simulator_start ::
    "'o serial_os \<Rightarrow> byte allocator \<Rightarrow> string \<Rightarrow> (byte \<times> 'h) list \<Rightarrow> (byte \<times> 'h) list \<Rightarrow> 'o
      \<Rightarrow> (string + int \<times> 'h protocol) \<times> 'o" where
  "simulator_start os new port_name mhandlers ahandlers s =
     (let (handle, s') = serial_open os port_name s
      in if \<not> handle_is_valid handle
         then (Inl (''Can't open port '' @ port_name @ [CHR 0x0A]), snd (serial_close os handle s'))
         else (Inr (handle, simulator_main new mhandlers ahandlers), s'))"

section \<open>Threads\<close>

datatype protocol_thread = At_Preloop | At_Loop

record ('s, 'h, 'a) simulator =
  si_world :: "('s, 'h, 'a) world"
  si_thread :: protocol_thread
  si_app_exiting :: bool

text \<open>A key press: the escape key ends the application, other keys are looked up as
  characters.\<close>

definition on_key :: "(byte \<rightharpoonup> ('a \<Rightarrow> 'a)) \<Rightarrow> int \<Rightarrow> ('s, 'h, 'a) simulator \<Rightarrow> ('s, 'h, 'a) simulator" where
  "on_key khandlers kb m =
     (if kb = 27 then m\<lparr>si_app_exiting := True\<rparr>
      else (case khandlers (word_of_int kb) of
              None \<Rightarrow> m
            | Some f \<Rightarrow> m\<lparr>si_world := (si_world m)\<lparr>w_app := f (w_app (si_world m))\<rparr>\<rparr>))"

text \<open>One step. The preloop function takes an input that stands for the random number it may
  draw; \<open>valid\<close> holds of the states the outside can bring the stream into.\<close>

inductive sim_step ::
    "('s, 'h, 'a) platform \<Rightarrow> ('i \<Rightarrow> ('s, 'h, 'a) world \<Rightarrow> ('s, 'h, 'a) world option) \<Rightarrow> (byte \<rightharpoonup> ('a \<Rightarrow> 'a))
       \<Rightarrow> ('s \<Rightarrow> bool) \<Rightarrow> ('s, 'h, 'a) simulator \<Rightarrow> ('s, 'h, 'a) simulator \<Rightarrow> bool"
  for pf ploop khandlers valid where
  preloop: "\<not> si_app_exiting m \<Longrightarrow> si_thread m = At_Preloop \<Longrightarrow> ploop i (si_world m) = Some w' \<Longrightarrow>
     sim_step pf ploop khandlers valid m (m\<lparr>si_world := w', si_thread := At_Loop\<rparr>)"
| protocol_loop: "si_thread m = At_Loop \<Longrightarrow> loop pf (si_world m) = Some w' \<Longrightarrow>
     sim_step pf ploop khandlers valid m (m\<lparr>si_world := w', si_thread := At_Preloop\<rparr>)"
| key: "\<not> si_app_exiting m \<Longrightarrow> sim_step pf ploop khandlers valid m (on_key khandlers kb m)"
| stream: "valid s' \<Longrightarrow> sim_step pf ploop khandlers valid m (m\<lparr>si_world := (si_world m)\<lparr>w_stream := s'\<rparr>\<rparr>)"

inductive sim_reachable ::
    "('s, 'h, 'a) platform \<Rightarrow> ('i \<Rightarrow> ('s, 'h, 'a) world \<Rightarrow> ('s, 'h, 'a) world option) \<Rightarrow> (byte \<rightharpoonup> ('a \<Rightarrow> 'a))
       \<Rightarrow> ('s \<Rightarrow> bool) \<Rightarrow> ('s, 'h, 'a) simulator \<Rightarrow> ('s, 'h, 'a) simulator \<Rightarrow> bool"
  for pf ploop khandlers valid m0 where
  start: "sim_reachable pf ploop khandlers valid m0 m0"
| step: "sim_reachable pf ploop khandlers valid m0 m \<Longrightarrow> sim_step pf ploop khandlers valid m m' \<Longrightarrow>
     sim_reachable pf ploop khandlers valid m0 m'"

text \<open>Both threads have ended: the console thread waits for the protocol thread, which sees the flag
  before the preloop function.\<close>

definition sim_finished :: "('s, 'h, 'a) simulator \<Rightarrow> bool" where
  "sim_finished m \<longleftrightarrow> si_app_exiting m \<and> si_thread m = At_Preloop"

text \<open>The end of \<^verbatim>\<open>simulator_main\<close>: it joins the protocol thread, and the stream is destroyed on return. \<open>None\<close>: it
  has not come to that yet.\<close>

definition simulator_end :: "'o serial_os \<Rightarrow> int \<Rightarrow> ('o serial_stream, 'h, 'a) simulator \<Rightarrow> 'o option" where
  "simulator_end os handle m =
     (if sim_finished m then Some (snd (serial_close os handle (ss_port (w_stream (si_world m))))) else None)"

text \<open>The program can no longer be called back: in every state to come both threads have ended or one more step
  ends them, and after the end only the outside of the stream changes.\<close>

definition going_to_end ::
    "('s, 'h, 'a) platform \<Rightarrow> ('i \<Rightarrow> ('s, 'h, 'a) world \<Rightarrow> ('s, 'h, 'a) world option) \<Rightarrow> (byte \<rightharpoonup> ('a \<Rightarrow> 'a))
       \<Rightarrow> ('s \<Rightarrow> bool) \<Rightarrow> ('s, 'h, 'a) simulator \<Rightarrow> bool" where
  "going_to_end pf ploop khandlers valid m \<longleftrightarrow>
     (\<forall>m'. sim_reachable pf ploop khandlers valid m m' \<longrightarrow>
        si_app_exiting m'
        \<and> (sim_finished m' \<or> (\<exists>m''. sim_step pf ploop khandlers valid m' m'' \<and> sim_finished m''))
        \<and> (sim_finished m' \<longrightarrow> (\<forall>m''. sim_reachable pf ploop khandlers valid m' m'' \<longrightarrow>
              (\<exists>s. m'' = m'\<lparr>si_world := (si_world m')\<lparr>w_stream := s\<rparr>\<rparr>))))"

section \<open>Lemmas on the setup\<close>

lemma registered_message:
  "pr_message_handlers_map (fold (\<lambda>(ty, h). pr_set_message_handler ty h) hs p)
     = pr_message_handlers_map p ++ map_of (rev hs)"
  by (induction hs arbitrary: p) (auto simp: pr_set_message_handler_def map_add_def fun_eq_iff split: option.split)

lemma registered_answer:
  "pr_answer_handlers_map (fold (\<lambda>(ty, h). pr_set_answer_handler ty h) hs p)
     = pr_answer_handlers_map p ++ map_of (rev hs)"
  by (induction hs arbitrary: p) (auto simp: pr_set_answer_handler_def map_add_def fun_eq_iff split: option.split)

lemma registration_frame:
  "protocol_ok k (fold (\<lambda>(ty, h). pr_set_message_handler ty h) hs p) = protocol_ok k p"
  "protocol_ok k (fold (\<lambda>(ty, h). pr_set_answer_handler ty h) hs p) = protocol_ok k p"
  "pr_answer_handlers_map (fold (\<lambda>(ty, h). pr_set_message_handler ty h) hs p) = pr_answer_handlers_map p"
  "pr_message_handlers_map (fold (\<lambda>(ty, h). pr_set_answer_handler ty h) hs p) = pr_message_handlers_map p"
  by (induction hs arbitrary: p)
    (auto simp: pr_set_message_handler_def pr_set_answer_handler_def protocol_ok_def core_ok_def)

lemma simulator_main_ok:
  assumes "allocates new"
  shows "protocol_ok k (simulator_main new mhandlers ahandlers)"
proof -
  have "protocol_ok k (pr_new new)"
    using tr_new_handler(1) [OF assms] unfolding pr_new_def
    by (auto simp: protocol_ok_def core_ok_def pr_new_sized_def transport_ok_def settled_def queue_ok_def)
  then have "protocol_ok k (pr_set_answer_timeout 1000 (pr_new new))"
    by (simp add: pr_set_answer_timeout_def protocol_ok_def core_ok_def)
  then show ?thesis
    by (simp add: simulator_main_def registration_frame)
qed

lemma simulator_main_handlers:
  "pr_message_handlers_map (simulator_main new mhandlers ahandlers) = map_of (rev mhandlers)"
  "pr_answer_handlers_map (simulator_main new mhandlers ahandlers) = map_of (rev ahandlers)"
  by (simp_all add: simulator_main_def registration_frame registered_message registered_answer
      pr_set_answer_timeout_def pr_new_def pr_new_sized_def)

lemma exiting_step:
  assumes "sim_step pf ploop khandlers valid m m'" "si_app_exiting m"
  shows "si_app_exiting m' \<and> (si_thread m' = si_thread m \<and> (\<exists>s. m' = m\<lparr>si_world := (si_world m)\<lparr>w_stream := s\<rparr>\<rparr>)
    \<or> si_thread m = At_Loop \<and> sim_finished m')"
  using assms(1)
proof cases
  case (stream s')
  then show ?thesis using assms(2) by auto
qed (use assms(2) in \<open>simp_all add: sim_finished_def\<close>)

text \<open>Once the end is requested there is at most one more call.\<close>

lemma exiting_reachable:
  assumes "sim_reachable pf ploop khandlers valid m m'" "si_app_exiting m"
  shows "si_app_exiting m' \<and> (sim_finished m' \<or> si_thread m' = si_thread m)
    \<and> (sim_finished m \<longrightarrow> (\<exists>s. m' = m\<lparr>si_world := (si_world m)\<lparr>w_stream := s\<rparr>\<rparr>))"
  using assms
proof (induction rule: sim_reachable.induct)
  case start
  have "m = m\<lparr>si_world := (si_world m)\<lparr>w_stream := w_stream (si_world m)\<rparr>\<rparr>" by simp
  then show ?case using start by blast
next
  case (step m1 m2)
  then have "si_app_exiting m1" by simp
  from exiting_step [OF step.hyps(2) this] step show ?case
    by (auto simp: sim_finished_def)
qed

section \<open>What an application provides\<close>

definition sim_ok :: "('s \<Rightarrow> bool) \<Rightarrow> ('a \<Rightarrow> bool) \<Rightarrow> ('s, 'h, 'a) simulator \<Rightarrow> bool" where
  "sim_ok sinv I m \<longleftrightarrow> sinv (w_stream (si_world m)) \<and> I (w_app (si_world m)) \<and> protocol_ok False (w_protocol (si_world m))"

locale simulation = byte_stream ops sinv pending room written
  for ops :: "'s stream_ops" and sinv :: "'s \<Rightarrow> bool" and pending room written +
  fixes pf :: "('s, 'h, 'a) platform" and ploop :: "'i \<Rightarrow> ('s, 'h, 'a) world \<Rightarrow> ('s, 'h, 'a) world option"
    and khandlers :: "byte \<rightharpoonup> ('a \<Rightarrow> 'a)" and I :: "'a \<Rightarrow> bool"
  assumes stream_ops: "pf_ops pf = ops"
    and handlers: "handlers_ok False I pf"
    and keys: "khandlers kb = Some f \<Longrightarrow> I a \<Longrightarrow> I (f a)"
    and ploop_total: "I (w_app w) \<Longrightarrow> \<exists>w'. ploop i w = Some w' \<and> I (w_app w') \<and> w_stream w' = w_stream w \<and> callback False w w'"
begin

lemma ploop_keeps:
  assumes "sim_ok sinv I m"
  shows "\<exists>w'. ploop i (si_world m) = Some w' \<and> sinv (w_stream w') \<and> I (w_app w') \<and> protocol_ok False (w_protocol w')"
proof -
  have w: "I (w_app (si_world m))" "protocol_ok False (w_protocol (si_world m))" "sinv (w_stream (si_world m))"
    using assms by (simp_all add: sim_ok_def)
  obtain w' where w': "ploop i (si_world m) = Some w'" "I (w_app w')" "w_stream w' = w_stream (si_world m)"
    "callback False (si_world m) w'"
    using ploop_total [OF w(1)] by blast
  have "protocol_ok False (w_protocol w')"
    using w(2) callback_core [OF w'(4)] w'(4) by (simp add: protocol_ok_def callback_def Let_def)
  then show ?thesis using w' w(3) by simp
qed

lemma loop_keeps:
  "sim_ok sinv I m \<Longrightarrow> allocates (pf_new pf) \<Longrightarrow>
     \<exists>w'. loop pf (si_world m) = Some w' \<and> sinv (w_stream w') \<and> I (w_app w') \<and> protocol_ok False (w_protocol w')"
  using loop_total [OF stream_ops _ handlers] by (simp add: sim_ok_def)

lemma step_ok:
  assumes "sim_step pf ploop khandlers sinv m m'" "sim_ok sinv I m" "allocates (pf_new pf)"
  shows "sim_ok sinv I m'"
  using assms(1)
proof (cases rule: sim_step.cases)
  case (preloop i w')
  then show ?thesis using ploop_keeps [OF assms(2), of i] by (auto simp: sim_ok_def)
next
  case (protocol_loop w')
  then show ?thesis using loop_keeps [OF assms(2,3)] by (auto simp: sim_ok_def)
next
  case (key kb)
  then show ?thesis using assms(2) keys by (auto simp: sim_ok_def on_key_def split: option.split)
next
  case (stream s')
  then show ?thesis using assms(2) by (simp add: sim_ok_def)
qed

text \<open>After the end is requested the one step that is missing can be made.\<close>

lemma ends:
  assumes "si_app_exiting m" "\<not> sim_finished m" "sim_ok sinv I m" "allocates (pf_new pf)"
  shows "\<exists>m'. sim_step pf ploop khandlers sinv m m' \<and> sim_finished m'"
proof -
  have t: "si_thread m = At_Loop"
    using assms(1,2) by (cases "si_thread m") (simp_all add: sim_finished_def)
  obtain w' where "loop pf (si_world m) = Some w'" using loop_keeps [OF assms(3,4)] by blast
  from sim_step.protocol_loop [OF t this] show ?thesis
    using assms(1) by (intro exI conjI) (assumption, simp add: sim_finished_def)
qed

lemma reachable_ok:
  "sim_reachable pf ploop khandlers sinv m0 m \<Longrightarrow> sim_ok sinv I m0 \<Longrightarrow> allocates (pf_new pf) \<Longrightarrow> sim_ok sinv I m"
  by (induction rule: sim_reachable.induct) (auto intro: step_ok)

lemma escape_ends:
  assumes "sim_reachable pf ploop khandlers sinv m0 m" "\<not> si_app_exiting m" "sim_ok sinv I m0" "allocates (pf_new pf)"
  shows "sim_step pf ploop khandlers sinv m (on_key khandlers 27 m)
    \<and> going_to_end pf ploop khandlers sinv (on_key khandlers 27 m)"
proof -
  let ?m = "on_key khandlers 27 m"
  have n: "sim_step pf ploop khandlers sinv m ?m" by (rule sim_step.key [OF assms(2)])
  have ok: "sim_ok sinv I ?m" using step_ok [OF n reachable_ok [OF assms(1,3,4)] assms(4)] .
  have e: "si_app_exiting ?m" by (simp add: on_key_def)
  show ?thesis
    unfolding going_to_end_def
  proof (intro conjI n allI impI)
    fix m' assume r: "sim_reachable pf ploop khandlers sinv ?m m'"
    show e': "si_app_exiting m'" using exiting_reachable [OF r e] by simp
    show "sim_finished m' \<or> (\<exists>m''. sim_step pf ploop khandlers sinv m' m'' \<and> sim_finished m'')"
      using ends [OF e' _ reachable_ok [OF r ok assms(4)] assms(4)] by blast
    fix m'' assume "sim_finished m'" "sim_reachable pf ploop khandlers sinv m' m''"
    then show "\<exists>s. m'' = m'\<lparr>si_world := (si_world m')\<lparr>w_stream := s\<rparr>\<rparr>"
      using exiting_reachable [OF _ e'] by blast
  qed
qed

text \<open>Whatever happened before, the next call of the protocol thread returns.\<close>

lemma never_stuck:
  assumes "sim_reachable pf ploop khandlers sinv m0 m" "sim_ok sinv I m0" "allocates (pf_new pf)"
  shows "sim_ok sinv I m \<and> (\<exists>w'. ploop i (si_world m) = Some w') \<and> (\<exists>w'. loop pf (si_world m) = Some w')"
  using reachable_ok [OF assms] ploop_keeps [of m i] loop_keeps [of m, OF _ assms(3)] by blast

end

end
