(* ===== verification/Hon_Simulator.thy ===== *)
theory Hon_Simulator
  imports Hon_Server_Properties Simulator_Base
begin

text \<open>
  The hOn simulator, \<^verbatim>\<open>tools/hon_simulator/main.cpp\<close>: its variables on top of
  those of the server, its preloop function, its key handlers and the tables of \<^verbatim>\<open>main\<close>.
  The random number is an argument, as is the size of a \<^verbatim>\<open>size_t\<close>.
\<close>

section \<open>State\<close>

datatype piring_mode = PiringMode_NONE | PiringMode_HON_PAIRING

record hon_sim = hon_state +
  sm_pairing_mode :: piring_mode
  sm_toggle_ac_power :: bool
  sm_trigger_random_alarm :: bool
  sm_reset_alarm :: bool

text \<open>The variables after static initialisation, which calls \<^verbatim>\<open>get_ac_state_ref\<close>.\<close>

definition hon_sim_globals :: "millis \<Rightarrow> hon_sim" where
  "hon_sim_globals now = hon_state.extend (get_ac_state_ref now hon_globals)
     \<lparr>sm_pairing_mode = PiringMode_NONE, sm_toggle_ac_power = False, sm_trigger_random_alarm = False,
      sm_reset_alarm = False\<rparr>"

section \<open>Preloop\<close>

definition toggle_power :: "hon_sim \<Rightarrow> hon_sim" where
  "toggle_power s =
     (if sm_toggle_ac_power s
      then let s = s\<lparr>sm_toggle_ac_power := False\<rparr>
           in if \<not> is_in_configuration_mode s
              then let ac_power = hvac_get (Control Ac_Power) (hs_ac_status s)
                   in s\<lparr>hs_ac_status := hvac_put (Control Ac_Power) (if ac_power = 1 then 0 else 1) (hs_ac_status s)\<rparr>
              else s
      else s)"

definition pairing_control :: "(hvac_field \<times> byte) list" where
  "pairing_control = map (\<lambda>(f, v). (Control f, v))
    [(Set_Point, 0x0E), (Vertical_Swing_Mode, vertical_swing_mode_code VerticalSwingMode_MAX_UP),
     (Fan_Mode, fan_mode_code FanMode_FAN_LOW), (Special_Mode, special_mode_code SpecialMode_NONE),
     (Ac_Mode, conditioning_mode_code ConditioningMode_COOL), (Ten_Degree, 0), (Display_Status, 1), (Half_Degree, 0),
     (Intelligence_Status, 0), (Pmv_Status, 0), (Use_Fahrenheit, 0), (Ac_Power, 1), (Health_Mode, 1),
     (Electric_Heating_Status, 0), (Fast_Mode, 0), (Quiet_Mode, 0), (Sleep_Mode, 0), (Lock_Remote, 0),
     (Beeper_Status, 0), (Horizontal_Swing_Mode, horizontal_swing_mode_code HorizontalSwingMode_CENTER),
     (Fresh_Air_Status, 0), (Humidification_Status, 0), (Pm2p5_Cleaning_Status, 1), (Ch2o_Cleaning_Status, 1),
     (Self_Cleaning_Status, 0), (Light_Status, 0), (Energy_Saving_Status, 0), (Cleaning_Time_Status, 0)]"

definition enter_pairing :: "hon_sim \<Rightarrow> hon_sim" where
  "enter_pairing s =
     (if sm_pairing_mode s = PiringMode_HON_PAIRING
      then let s = s\<lparr>sm_pairing_mode := PiringMode_NONE\<rparr>
           in if \<not> is_in_configuration_mode s
              then s\<lparr>hs_ac_status := puts hvac_put pairing_control (hs_ac_status s)\<rparr> else s
      else s)"

definition random_alarm :: "nat \<Rightarrow> hon_sim \<Rightarrow> hon_sim" where
  "random_alarm rand s =
     (if sm_trigger_random_alarm s
      then let s = s\<lparr>sm_trigger_random_alarm := False\<rparr>; r = HON_ALARM_COUNT - rand mod HON_ALARM_COUNT
           in snd (start_alarm (of_nat r) s)
      else s)"

definition requested_reset :: "nat \<Rightarrow> hon_sim \<Rightarrow> hon_sim" where
  "requested_reset size_of_size_t s =
     (if sm_reset_alarm s then reset_alarms size_of_size_t (s\<lparr>sm_reset_alarm := False\<rparr>) else s)"

definition hon_preloop ::
    "nat \<Rightarrow> ('s, 'h, hon_sim) platform \<Rightarrow> nat \<Rightarrow> ('s, 'h, hon_sim) world \<Rightarrow> ('s, 'h, hon_sim) world option" where
  "hon_preloop size_of_size_t pf rand w =
     process_alarms pf (w\<lparr>w_app := requested_reset size_of_size_t (random_alarm rand (enter_pairing (toggle_power (w_app w))))\<rparr>)"

section \<open>Keys\<close>

text \<open>The keys are the characters 1 to 5, a and s. Fields of one bit are written as
  \<^verbatim>\<open>1 - field\<close>, computed as an integer and truncated.\<close>

definition flip_flag :: "control_field \<Rightarrow> hon_sim \<Rightarrow> hon_sim" where
  "flip_flag f s = s\<lparr>hs_ac_status := hvac_put (Control f) (1 - hvac_get (Control f) (hs_ac_status s)) (hs_ac_status s)\<rparr>"

definition hon_keys :: "byte \<rightharpoonup> (hon_sim \<Rightarrow> hon_sim)" where
  "hon_keys =
     [0x31 \<mapsto> (\<lambda>s. s\<lparr>sm_toggle_ac_power := True\<rparr>),
      0x32 \<mapsto> (\<lambda>s. s\<lparr>sm_pairing_mode := PiringMode_HON_PAIRING\<rparr>),
      0x33 \<mapsto> (\<lambda>s. s\<lparr>hs_ac_status := puts hvac_put [(Control Self_Cleaning_Status, 0), (Control Steri_Clean, 0)] (hs_ac_status s)\<rparr>),
      0x34 \<mapsto> flip_flag Quiet_Mode,
      0x35 \<mapsto> flip_flag Health_Mode,
      0x61 \<mapsto> (\<lambda>s. s\<lparr>sm_trigger_random_alarm := True\<rparr>),
      0x73 \<mapsto> (\<lambda>s. s\<lparr>sm_reset_alarm := True\<rparr>)]"

section \<open>Main\<close>

datatype hon_handler = Message_Handler hon_message_handler | Alarm_Report_Handler

definition hon_mhandlers :: "(byte \<times> hon_handler) list" where
  "hon_mhandlers = map (\<lambda>(ty, k). (ty, Message_Handler k))
     [(GET_DEVICE_VERSION, Get_Device_Version), (GET_DEVICE_ID, Get_Device_Id), (CONTROL, Status_Request),
      (GET_ALARM_STATUS, Alarm_Status), (GET_MANAGEMENT_INFORMATION, Get_Management_Information),
      (REPORT_NETWORK_STATUS, Report_Network_Status), (STOP_FAULT_ALARM, Stop_Alarm)]"

definition hon_ahandlers :: "(byte \<times> hon_handler) list" where
  "hon_ahandlers = [(ALARM_STATUS, Alarm_Report_Handler)]"

definition hon_main :: "'o serial_os \<Rightarrow> byte allocator \<Rightarrow> string list \<Rightarrow> 'o \<Rightarrow> (string + int \<times> hon_handler protocol) \<times> 'o" where
  "hon_main os new argv s =
     (if length argv = 2 then simulator_start os new (argv ! 1) hon_mhandlers hon_ahandlers s
      else (Inl (''Please use: hon_simulator <port>'' @ [CHR 0x0A]), s))"

text \<open>The handlers of the simulator on a stream. A message table holds message handlers only and
  an answer table answer handlers only, as their types demand.\<close>

definition hon_platform ::
    "'s stream_ops \<Rightarrow> byte allocator \<Rightarrow> (nat \<Rightarrow> millis) \<Rightarrow> ('s, hon_handler, hon_sim) platform" where
  "hon_platform ops new clock =
     \<lparr>pf_ops = ops, pf_new = new, pf_clock = clock,
      pf_message = (\<lambda>h. case h of Message_Handler k \<Rightarrow> hon_message k | Alarm_Report_Handler \<Rightarrow> default_message_handler),
      pf_answer = (\<lambda>h. case h of Alarm_Report_Handler \<Rightarrow> alarm_status_report_answer_handler
                             | Message_Handler k \<Rightarrow> default_answer_handler),
      pf_timeout = (\<lambda>h. default_timeout_handler), pf_popped_kept = False\<rparr>"

definition hon_simulator ::
    "byte allocator \<Rightarrow> millis \<Rightarrow> 's \<Rightarrow> ('s, hon_handler, hon_sim) simulator" where
  "hon_simulator new now stream =
     \<lparr>si_world = \<lparr>w_protocol = simulator_main new hon_mhandlers hon_ahandlers, w_stream = stream, w_tick = 0,
        w_app = hon_sim_globals now\<rparr>, si_thread = At_Preloop, si_app_exiting = False\<rparr>"

text \<open>The number drawn is 1 to 51, so alarm 0 is never triggered and 51 is refused.\<close>

lemma random_alarm_accepted:
  "fst (start_alarm (of_nat (HON_ALARM_COUNT - rand mod HON_ALARM_COUNT)) s) \<longleftrightarrow> rand mod 51 \<noteq> 0"
  "0 < HON_ALARM_COUNT - rand mod HON_ALARM_COUNT"
proof -
  define k where "k = 51 - rand mod 51"
  have r: "rand mod 51 < 51" by simp
  then have k: "k \<le> 51" "0 < k" "k < 51 \<longleftrightarrow> rand mod 51 \<noteq> 0" unfolding k_def by linarith+
  then have "unat (of_nat k :: byte) = k"
    by (simp add: unat_of_nat)
  then show "fst (start_alarm (of_nat (HON_ALARM_COUNT - rand mod HON_ALARM_COUNT)) s) \<longleftrightarrow> rand mod 51 \<noteq> 0"
    using k unfolding HON_ALARM_COUNT_eq k_def [symmetric] by (auto simp: start_alarm_def HON_ALARM_COUNT_eq Let_def le_less)
  show "0 < HON_ALARM_COUNT - rand mod HON_ALARM_COUNT"
    using k unfolding HON_ALARM_COUNT_eq k_def [symmetric] by simp
qed

section \<open>The simulator as an application\<close>

lemma hon_inv_preloop:
  assumes "hon_inv s" "size_of_size_t \<le> 8"
  shows "hon_inv (requested_reset size_of_size_t (random_alarm rand (enter_pairing (toggle_power s))))"
proof -
  have "hon_inv (toggle_power t)" "hon_inv (enter_pairing t)" "hon_inv (random_alarm rand t)"
    "hon_inv (requested_reset size_of_size_t t)" if "hon_inv t" for t
    using that assms(2)
    by (simp_all add: hon_inv_def toggle_power_def enter_pairing_def random_alarm_def requested_reset_def
        start_alarm_def reset_alarms_def Let_def)
  then show ?thesis using assms(1) by blast
qed

lemma hon_inv_keys: "hon_keys kb = Some f \<Longrightarrow> hon_inv s \<Longrightarrow> hon_inv (f s)"
  by (auto simp: hon_keys_def hon_inv_def flip_flag_def split: if_splits)

lemma hon_inv_sim_globals: "hon_inv (hon_sim_globals now)"
  using hon_inv_init [OF hon_inv_globals, of now] by (simp add: hon_sim_globals_def hon_inv_def hon_state.defs)

lemma hon_preloop_total:
  assumes "hon_inv (w_app w)" "size_of_size_t \<le> 8"
  shows "\<exists>w'. hon_preloop size_of_size_t pf rand w = Some w' \<and> hon_inv (w_app w') \<and> w_stream w' = w_stream w \<and> callback False w w'"
proof -
  define v where "v = w\<lparr>w_app := requested_reset size_of_size_t (random_alarm rand (enter_pairing (toggle_power (w_app w))))\<rparr>"
  have v: "hon_inv (w_app v)" "w_stream v = w_stream w" "callback False v w' = callback False w w'" for w'
    using hon_inv_preloop [OF assms] by (simp_all add: v_def)
  obtain w' where w': "process_alarms pf v = Some w'" "w_stream w' = w_stream v" "callback False v w'"
    "w_app w' = w_app v \<or> w_app w' = (w_app v)\<lparr>hs_alarm_paused := False, hs_last_alarm_message := pf_clock pf (w_tick v)\<rparr>"
    using process_alarms_eq [OF v(1), where pf = pf and k = False] by (auto split: if_splits)
  then have "hon_inv (w_app w')" using v(1) by (auto simp: hon_inv_def)
  then show ?thesis
    using w' v by (simp add: hon_preloop_def v_def [symmetric])
qed

lemma hon_handlers_ok: "handlers_ok False hon_inv (hon_platform ops new clock)"
proof -
  have "keeps False hon_inv (alarm_status_report_answer_handler rq ty d :: hon_sim \<Rightarrow> hon_sim \<times> hon_handler api_call list \<times> _)"
    for rq ty d
    by (simp add: keeps_def alarm_status_report_answer_handler_def hon_inv_def)
  then show ?thesis
    by (simp add: handlers_ok_def hon_platform_def hon.keeps default_handlers_keep split: hon_handler.split)
qed

text \<open>On the serial stream, with a \<^verbatim>\<open>size_t\<close> of 8 or 4 bytes.\<close>

definition size_t_size :: "bool \<Rightarrow> nat" where
  "size_t_size wide = (if wide then 8 else 4)"

lemma hon_simulation:
  assumes "byte_stream (serial_ops sp) sinv pending room written"
  shows "simulation (serial_ops sp) sinv pending room written (hon_platform (serial_ops sp) new clock)
    (hon_preloop (size_t_size wide) (hon_platform (serial_ops sp) new clock)) hon_keys hon_inv"
proof (intro simulation.intro assms simulation_axioms.intro)
  let ?pf = "hon_platform (serial_ops sp) new clock"
  show "pf_ops ?pf = serial_ops sp" by (simp add: hon_platform_def)
  show "handlers_ok False hon_inv ?pf" by (rule hon_handlers_ok)
  show "hon_keys kb = Some f \<Longrightarrow> hon_inv a \<Longrightarrow> hon_inv (f a)" for kb f a by (rule hon_inv_keys)
  show "hon_inv (w_app w) \<Longrightarrow> \<exists>w'. hon_preloop (size_t_size wide) ?pf i w = Some w' \<and> hon_inv (w_app w')
      \<and> w_stream w' = w_stream w \<and> callback False w w'" for i w
    by (rule hon_preloop_total) (simp_all add: size_t_size_def)
qed

interpretation hon_sim: simulation "serial_ops sp" ss_inv ss_pending "\<lambda>_. 0" "\<lambda>_. []"
    "hon_platform (serial_ops sp) new clock" "hon_preloop (size_t_size wide) (hon_platform (serial_ops sp) new clock)"
    hon_keys hon_inv
  for sp :: "'p serial_port" and new clock wide
  by (rule hon_simulation [OF serial.byte_stream_axioms])

section \<open>Properties\<close>

text \<open>Claim C13. The hOn simulator never gets stuck: started by \<^verbatim>\<open>simulator_main\<close> on an opened
  serial port and run for any number of steps, whatever the system calls on the port return, with
  any keys pressed and any random numbers, its state keeps the invariants of the server, the
  protocol handler and the stream, and the next call of the preloop function and of the loop
  returns. The message handlers it starts with are those of \<^verbatim>\<open>main\<close>.\<close>

theorem simulator_never_stuck:
  fixes sp :: "'p serial_port" and clock :: "nat \<Rightarrow> millis" and wide :: bool and new :: "byte allocator"
  defines "pf \<equiv> hon_platform (serial_ops sp) new clock"
  assumes "allocates new"
    and "sim_reachable pf (hon_preloop (size_t_size wide) pf) hon_keys ss_inv (hon_simulator new now (ss_new new True port)) m"
  shows "hon_inv (w_app (si_world m)) \<and> protocol_ok False (w_protocol (si_world m)) \<and> ss_inv (w_stream (si_world m))
    \<and> (\<exists>w'. hon_preloop (size_t_size wide) pf rand (si_world m) = Some w') \<and> (\<exists>w'. loop pf (si_world m) = Some w')
    \<and> pr_message_handlers_map (w_protocol (si_world (hon_simulator new now (ss_new new True port)))) = map_of hon_mhandlers"
proof -
  have m0: "sim_ok ss_inv hon_inv (hon_simulator new now (ss_new new True port))"
    using assms(2) ss_new_inv [OF assms(2), of True port]
    by (simp add: sim_ok_def hon_simulator_def hon_inv_sim_globals simulator_main_ok)
  have d: "distinct (map fst hon_mhandlers)" by (simp add: hon_mhandlers_def)
  have "map_of (rev hon_mhandlers) = map_of hon_mhandlers"
    using d by (intro map_of_inject_set [THEN iffD2]) (simp_all flip: rev_map)
  moreover have "allocates (pf_new (hon_platform (serial_ops sp) new clock))"
    using assms(2) by (simp add: hon_platform_def)
  ultimately show ?thesis
    using hon_sim.never_stuck [OF assms(3) [unfolded pf_def] m0, of rand]
    by (simp add: sim_ok_def pf_def hon_simulator_def simulator_main_handlers)
qed

lemma hon_simulator_life:
  fixes sp :: "'o serial_port" and new :: "byte allocator" and clock wide p now
  assumes "allocates new" "port_keeps sp f"
  defines "pf \<equiv> hon_platform (serial_ops sp) new clock"
  defines "ploop \<equiv> hon_preloop (size_t_size wide) pf" and "valid \<equiv> \<lambda>x. ss_inv x \<and> f (ss_port x) = f p"
    and "m0 \<equiv> hon_simulator new now (ss_new new True p)"
  assumes r: "sim_reachable pf ploop hon_keys valid m0 m"
  shows "valid (w_stream (si_world m))"
    and "\<not> si_app_exiting m \<Longrightarrow> sim_step pf ploop hon_keys valid m (on_key hon_keys 27 m)
      \<and> going_to_end pf ploop hon_keys valid (on_key hon_keys 27 m)"
proof -
  have m0: "sim_ok valid hon_inv m0" and al: "allocates (pf_new pf)"
    using assms(1) ss_new_inv [OF assms(1), of True p]
    by (simp_all add: m0_def sim_ok_def hon_simulator_def hon_inv_sim_globals simulator_main_ok pf_def hon_platform_def valid_def)
      (simp add: ss_new_def)
  note sim = hon_simulation [OF serial_keeps [OF assms(2), of "f p"], of new clock wide, folded pf_def ploop_def valid_def]
  show "valid (w_stream (si_world m))"
    using simulation.reachable_ok [OF sim r m0 al] by (simp add: sim_ok_def)
  show "sim_step pf ploop hon_keys valid m (on_key hon_keys 27 m) \<and> going_to_end pf ploop hon_keys valid (on_key hon_keys 27 m)"
    if "\<not> si_app_exiting m"
    by (rule simulation.escape_ends [OF sim r that m0 al])
qed

text \<open>Claim C20. The life of the hOn simulator from \<^verbatim>\<open>main\<close> to its end. With other than one
  argument it says how to use it and touches nothing. A port that cannot be opened or configured ends
  it with a message. Otherwise the port has raw settings with 9600 baud and the two
  threads start on the protocol handler with the handlers of \<^verbatim>\<open>main\<close>, over that port. Whenever the escape key is pressed, the
  program is on its way to the end: from then on it cannot be called back, either both threads have ended or
  one more call of the loop, which returns, ends them, and after that nothing but the outside of the port
  changes. \<^verbatim>\<open>simulator_main\<close> returns when both threads have ended and not before, and whatever has happened until then, it
  leaves exactly the descriptors open that were open before it started. Reads and writes of the port, and what changes it
  from outside, are taken to open and close no descriptor.\<close>

theorem simulator_runs_and_ends:
  fixes os :: "'o serial_os" and port :: "int \<Rightarrow> 'o serial_port" and clock :: "nat \<Rightarrow> millis" and wide :: bool
    and new :: "byte allocator" and now
  assumes "allocates new" "serial_os_contract os fds requested" "\<forall>h. port_keeps (port h) fds" "hon_main os new argv s = (r, s')"
  defines "pf \<equiv> \<lambda>h. hon_platform (serial_ops (port h)) new clock"
  defines "ploop \<equiv> \<lambda>h. hon_preloop (size_t_size wide) (pf h)"
    and "valid \<equiv> \<lambda>x. ss_inv x \<and> fds (ss_port x) = fds s'" and "m0 \<equiv> hon_simulator new now (ss_new new True s')"
  shows "case r of
      Inl txt \<Rightarrow> if length argv = 2 then txt = ''Can't open port '' @ argv ! 1 @ [CHR 0x0A] \<and> \<not> handle_is_valid (fst (serial_open os (argv ! 1) s))
                else txt = ''Please use: hon_simulator <port>'' @ [CHR 0x0A] \<and> s' = s
    | Inr (h, p) \<Rightarrow> length argv = 2 \<and> (\<exists>tty. requested s' h = Some tty \<and> raw_8n1 tty) \<and> p = w_protocol (si_world m0)
        \<and> (\<forall>m. sim_reachable (pf h) (ploop h) hon_keys valid m0 m \<longrightarrow>
              (\<not> si_app_exiting m \<longrightarrow> sim_step (pf h) (ploop h) hon_keys valid m (on_key hon_keys 27 m)
                 \<and> going_to_end (pf h) (ploop h) hon_keys valid (on_key hon_keys 27 m))
              \<and> (if sim_finished m then \<exists>s''. simulator_end os h m = Some s'' \<and> fds s'' = fds s else simulator_end os h m = None))"
proof -
  obtain h s1 where o1: "serial_open os (argv ! Suc 0) s = (h, s1)" by (cases "serial_open os (argv ! Suc 0) s")
  consider "length argv \<noteq> 2" | "length argv = 2" "\<not> handle_is_valid h" | "length argv = 2" "handle_is_valid h" by blast
  then show ?thesis
  proof cases
    case 3
    then have rs: "r = Inr (h, w_protocol (si_world m0))" "s' = s1"
      using assms(4) o1 by (auto simp: hon_main_def simulator_start_def m0_def hon_simulator_def)
    have named: "hon_platform (serial_ops (port h)) new clock = pf h" "hon_preloop (size_t_size wide) (pf h) = ploop h"
      by (simp_all add: pf_def ploop_def)
    note life = hon_simulator_life [OF assms(1) assms(3) [THEN spec, of h], where now = now and p = s' and clock = clock and wide = wide, unfolded named, folded m0_def valid_def]
    have "fds (snd (serial_close os h (ss_port x))) = fds s" if "fds (ss_port x) = fds s1" for x
      using serial_open_returns [OF assms(2) o1 3(2)] that serial_close_fds [OF assms(2) 3(2)] by simp
    then show ?thesis
      using serial_open_valid [OF assms(2) o1 3(2)] 3(1) life rs by (auto simp: simulator_end_def)
  qed (use assms(4) o1 in \<open>auto simp: hon_main_def simulator_start_def\<close>)
qed

text \<open>A port nothing arrives at.\<close>

definition silent_port :: "unit serial_port" where
  "silent_port = \<lparr>sp_read = \<lambda>n p. (Some [], p), sp_write = \<lambda>bs p. p\<rparr>"

theorem simulator_never_stuck_witness:
  "\<exists>m w'. sim_reachable (hon_platform (serial_ops silent_port) (\<lambda>n. replicate n 0) int)
       (hon_preloop 8 (hon_platform (serial_ops silent_port) (\<lambda>n. replicate n 0) int)) hon_keys ss_inv
       (hon_simulator (\<lambda>n. replicate n 0) 7 (ss_new (\<lambda>n. replicate n 0) True ())) m
     \<and> sm_trigger_random_alarm (w_app (si_world m))
     \<and> hon_preloop 8 (hon_platform (serial_ops silent_port) (\<lambda>n. replicate n 0) int) 3 (si_world m) = Some w'"
proof -
  let ?new = "\<lambda>n. replicate n (0 :: byte)"
  let ?pf = "hon_platform (serial_ops silent_port) ?new int"
  let ?m0 = "hon_simulator ?new 7 (ss_new ?new True ())"
  have r: "sim_reachable ?pf (hon_preloop (size_t_size True) ?pf) hon_keys ss_inv ?m0 (on_key hon_keys 0x61 ?m0)"
    by (rule sim_reachable.step [OF sim_reachable.start sim_step.key]) (simp add: hon_simulator_def)
  have "sm_trigger_random_alarm (w_app (si_world (on_key hon_keys 0x61 ?m0)))"
    by (simp add: on_key_def hon_keys_def)
  then show ?thesis
    using simulator_never_stuck [OF allocates_replicate [of 0] r, of 3] r
    by (auto simp: size_t_size_def)
qed

text \<open>A port of the system that knows one, nothing arrives at it.\<close>

definition quiet_port :: "int \<Rightarrow> 'o serial_port" where
  "quiet_port h = \<lparr>sp_read = \<lambda>n p. (Some [], p), sp_write = \<lambda>bs p. p\<rparr>"

theorem simulator_runs_and_ends_witness:
  "\<exists>p s' m s''. hon_main (one_port (Some sample_tty) True) (\<lambda>n. replicate n 0) [''hon_simulator'', ''/dev/ttyUSB0''] ({9}, Map.empty)
       = (Inr (3, p), s') \<and> p = w_protocol (si_world m)
     \<and> simulator_end (one_port (Some sample_tty) True) 3 m = None
     \<and> simulator_end (one_port (Some sample_tty) True) 3 (on_key hon_keys 27 m) = Some s'' \<and> fst s' = {3, 9} \<and> fst s'' = {9}"
proof -
  let ?new = "\<lambda>n. replicate n (0 :: byte)" and ?os = "one_port (Some sample_tty) True"
  obtain p s' where m: "hon_main ?os ?new [''hon_simulator'', ''/dev/ttyUSB0''] ({9}, Map.empty) = (Inr (3, p), s')" "fst s' = {3, 9}"
    by (auto simp: hon_main_def simulator_start_def serial_open_def one_port_def handle_is_valid_def)
  let ?m = "hon_simulator ?new 7 (ss_new ?new True s')"
  let ?pf = "hon_platform (serial_ops (quiet_port 3)) ?new int"
  let ?valid = "\<lambda>x. ss_inv x \<and> fst (ss_port x) = fst s'"
  have st: "\<not> si_app_exiting ?m" "\<not> sim_finished ?m" "sim_finished (on_key hon_keys 27 ?m)"
    by (simp_all add: hon_simulator_def sim_finished_def on_key_def)
  have r: "sim_reachable ?pf (hon_preloop (size_t_size True) ?pf) hon_keys ?valid ?m (on_key hon_keys 27 ?m)"
    by (rule sim_reachable.step [OF sim_reachable.start sim_step.key [OF st(1)]])
  have k: "\<forall>h. port_keeps (quiet_port h) fst" by (simp add: port_keeps_def quiet_port_def)
  note life = simulator_runs_and_ends [OF allocates_replicate [of 0] one_port_contract k m(1), where now = 7 and wide = True and clock = int,
      unfolded sum.case prod.case]
  have "p = w_protocol (si_world ?m)" using life by blast
  moreover have "simulator_end ?os 3 ?m = None"
    using st(2) by (simp add: simulator_end_def)
  moreover obtain s'' where "simulator_end ?os 3 (on_key hon_keys 27 ?m) = Some s''" "fst s'' = {9}"
    using life [THEN conjunct2, THEN conjunct2, THEN conjunct2, THEN spec, THEN mp, OF r, THEN conjunct2] st(3) by auto
  ultimately show ?thesis using m by blast
qed

end
