(* ===== verification/Smartair2_Simulator.thy ===== *)
theory Smartair2_Simulator
  imports Smartair2_Server Simulator_Base
begin

text \<open>
  The SmartAir2 simulator, \<^verbatim>\<open>tools/smartair2_simulator/main.cpp\<close>, as an application
  of the simulator frame, and the effect of the control commands of its server.
\<close>

section \<open>State and preloop\<close>

record s2_sim = s2_state +
  s2m_toggle_ac_power :: bool
  s2m_start_pairing :: bool

definition s2_sim_globals :: s2_sim where
  "s2_sim_globals = s2_state.extend (s2_get_ac_state_ref s2_globals)
     \<lparr>s2m_toggle_ac_power = False, s2m_start_pairing = False\<rparr>"

definition s2_toggle_power :: "s2_sim \<Rightarrow> s2_sim" where
  "s2_toggle_power s =
     (if s2m_toggle_ac_power s
      then let s = s\<lparr>s2m_toggle_ac_power := False\<rparr>; ac_power = s2_get S2_Ac_Power (s2_ac_status s)
           in s\<lparr>s2_ac_status := s2_put S2_Ac_Power (if ac_power = 1 then 0 else 1) (s2_ac_status s)\<rparr>
      else s)"

definition s2_enter_pairing :: "s2_sim \<Rightarrow> s2_sim" where
  "s2_enter_pairing s =
     (if s2m_start_pairing s
      then let s = s\<lparr>s2m_start_pairing := False\<rparr>
           in s\<lparr>s2_ac_status := puts s2_put
                [(S2_Ac_Power, 1), (S2_Set_Point, 14), (S2_Ac_Mode, s2_conditioning_mode_code S2_Mode_COOL),
                 (S2_Fan_Mode, s2_fan_mode_code S2_FAN_LOW)] (s2_ac_status s)\<rparr>
      else s)"

definition s2_preloop :: "unit \<Rightarrow> ('s, 'h, s2_sim) world \<Rightarrow> ('s, 'h, s2_sim) world option" where
  "s2_preloop i w = Some (w\<lparr>w_app := s2_enter_pairing (s2_toggle_power (w_app w))\<rparr>)"

text \<open>The keys are the characters 1 and 2.\<close>

definition s2_keys :: "byte \<rightharpoonup> (s2_sim \<Rightarrow> s2_sim)" where
  "s2_keys = [0x31 \<mapsto> (\<lambda>s. s\<lparr>s2m_toggle_ac_power := True\<rparr>), 0x32 \<mapsto> (\<lambda>s. s\<lparr>s2m_start_pairing := True\<rparr>)]"

section \<open>Main\<close>

definition s2_mhandlers :: "(byte \<times> s2_message_handler) list" where
  "s2_mhandlers =
     [(GET_DEVICE_VERSION, S2_Unsupported_Message), (GET_DEVICE_ID, S2_Unsupported_Message),
      (CONTROL, S2_Status_Request), (REPORT_NETWORK_STATUS, S2_Report_Network_Status)]"

definition s2_main :: "'o serial_os \<Rightarrow> byte allocator \<Rightarrow> string list \<Rightarrow> 'o \<Rightarrow> (string + int \<times> s2_message_handler protocol) \<times> 'o" where
  "s2_main os new argv s =
     (if length argv = 2 then simulator_start os new (argv ! 1) s2_mhandlers [] s
      else (Inl (''Please use: smartair2_simulator <port>'' @ [CHR 0x0A]), s))"

definition s2_platform ::
    "'s stream_ops \<Rightarrow> byte allocator \<Rightarrow> (nat \<Rightarrow> millis) \<Rightarrow> ('s, s2_message_handler, s2_sim) platform" where
  "s2_platform ops new clock =
     \<lparr>pf_ops = ops, pf_new = new, pf_clock = clock, pf_message = s2_message,
      pf_answer = (\<lambda>h. default_answer_handler), pf_timeout = (\<lambda>h. default_timeout_handler), pf_popped_kept = False\<rparr>"

definition s2_simulator :: "byte allocator \<Rightarrow> 's \<Rightarrow> ('s, s2_message_handler, s2_sim) simulator" where
  "s2_simulator new stream =
     \<lparr>si_world = \<lparr>w_protocol = simulator_main new s2_mhandlers [], w_stream = stream, w_tick = 0,
        w_app = s2_sim_globals\<rparr>, si_thread = At_Preloop, si_app_exiting = False\<rparr>"

section \<open>The simulator as an application\<close>

lemma s2_inv_sim_globals: "s2_inv s2_sim_globals"
  using s2_inv_init by (simp add: s2_sim_globals_def s2_inv_def s2_state.defs)

lemma s2_inv_keys: "s2_keys kb = Some f \<Longrightarrow> s2_inv s \<Longrightarrow> s2_inv (f s)"
  by (auto simp: s2_keys_def s2_inv_def split: if_splits)

lemma s2_preloop_total:
  "s2_inv (w_app w) \<Longrightarrow> \<exists>w'. s2_preloop i w = Some w' \<and> s2_inv (w_app w') \<and> w_stream w' = w_stream w \<and> callback False w w'"
  by (simp add: s2_preloop_def s2_inv_def s2_enter_pairing_def s2_toggle_power_def Let_def callback_def)

interpretation s2_sim: simulation "serial_ops sp" ss_inv ss_pending "\<lambda>_. 0" "\<lambda>_. []"
    "s2_platform (serial_ops sp) new clock" s2_preloop s2_keys s2_inv
  for sp :: "'p serial_port" and new clock
proof
  let ?pf = "s2_platform (serial_ops sp) new clock"
  show "pf_ops ?pf = serial_ops sp" by (simp add: s2_platform_def)
  show "handlers_ok False s2_inv ?pf"
    by (simp add: handlers_ok_def s2_platform_def smartair2.keeps default_handlers_keep)
  show "s2_keys kb = Some f \<Longrightarrow> s2_inv a \<Longrightarrow> s2_inv (f a)" for kb f a by (rule s2_inv_keys)
  show "s2_inv (w_app w) \<Longrightarrow> \<exists>w'. s2_preloop i w = Some w' \<and> s2_inv (w_app w') \<and> w_stream w' = w_stream w \<and> callback False w w'"
    for i and w :: "('p serial_stream, s2_message_handler, s2_sim) world"
    by (rule s2_preloop_total)
qed

lemma smartair2_simulator_never_stuck:
  fixes sp :: "'p serial_port" and clock :: "nat \<Rightarrow> millis" and new :: "byte allocator"
  defines "pf \<equiv> s2_platform (serial_ops sp) new clock"
  assumes "allocates new" "sim_reachable pf s2_preloop s2_keys ss_inv (s2_simulator new (ss_new new True port)) m"
  shows "s2_inv (w_app (si_world m)) \<and> (\<exists>w'. loop pf (si_world m) = Some w')
    \<and> (\<not> si_app_exiting m \<longrightarrow> going_to_end pf s2_preloop s2_keys ss_inv (on_key s2_keys 27 m))"
proof -
  have "sim_ok ss_inv s2_inv (s2_simulator new (ss_new new True port))"
    using assms(2) ss_new_inv [OF assms(2), of True port] by (simp add: sim_ok_def s2_simulator_def s2_inv_sim_globals simulator_main_ok)
  moreover have "allocates (pf_new (s2_platform (serial_ops sp) new clock))"
    using assms(2) by (simp add: s2_platform_def)
  ultimately show ?thesis
    using s2_sim.never_stuck [OF assms(3) [unfolded pf_def]] s2_sim.escape_ends [OF assms(3) [unfolded pf_def]]
    by (simp add: sim_ok_def pf_def)
qed

section \<open>Properties\<close>

text \<open>The payload of a status answer, the fields of a status after a group command, and the power commands.\<close>

lemma s2_status_payload:
  assumes "length b = S2_CONTROL_SIZE" "sub \<noteq> NO_SUBCOMMAND"
  shows "msg_payload (msg_new STATUS sub (Some b) S2_CONTROL_SIZE) = [ucast (drop_bit 8 sub), ucast (sub AND 0xFF)] @ b"
  using assms by (simp add: msg_payload_def)

lemma s2_copy_control_fields:
  assumes "length st = S2_CONTROL_SIZE"
  shows "s2_get f (s2_copy_control ([0x4D, 0x5F] @ cs) st) =
    (if f \<in> {S2_Room_Temperature, S2_Room_Humidity, S2_Cntrl} then s2_get f st else bf_get (s2_layout f) cs)"
    "length (s2_copy_control ([0x4D, 0x5F] @ cs) st) = S2_CONTROL_SIZE"
proof -
  define a where "a = s2_copy_control ([0x4D, 0x5F] @ cs) st"
  have nth: "length a = S2_CONTROL_SIZE" "a ! j = (if j \<in> {1, 3, 5} then st ! j else cs ! j)" if "j < S2_CONTROL_SIZE" for j
    using s2_copy_control_nth [OF assms that, of "[0x4D, 0x5F] @ cs"] by (simp_all add: a_def)
  show "s2_get f (s2_copy_control ([0x4D, 0x5F] @ cs) st) =
      (if f \<in> {S2_Room_Temperature, S2_Room_Humidity, S2_Cntrl} then s2_get f st else bf_get (s2_layout f) cs)"
    unfolding a_def [symmetric] by (cases f) (simp_all add: s2_get_def nth(2))
  show "length (s2_copy_control ([0x4D, 0x5F] @ cs) st) = S2_CONTROL_SIZE"
    using nth(1) [of 0] by (simp add: a_def)
qed

lemma s2_power_effect:
  assumes st: "length (s2_ac_status s) = S2_CONTROL_SIZE" and c: "c \<in> {0x02, 0x03}"
  shows "\<exists>s2 m. s2_status_request_handler CONTROL [0x4D, c] s = (s2, [Send_Answer m], HANDLER_OK)
    \<and> msg_payload m = [0x6D, c] @ s2_ac_status s2
    \<and> (\<forall>f. s2_get f (s2_ac_status s2) = (if f = S2_Ac_Power then if c = 0x02 then 1 else 0 else s2_get f (s2_ac_status s)))"
proof -
  define b where "b = s2_put S2_Ac_Power (if c = 0x02 then 1 else 0) (s2_ac_status s)"
  have "length b = S2_CONTROL_SIZE" using st by (simp add: b_def)
  then have "msg_payload (msg_new STATUS (if c = 0x02 then 0x6D02 else 0x6D03) (Some b) S2_CONTROL_SIZE) = [0x6D, c] @ b"
    using c s2_status_payload [of b] by auto
  moreover have "s2_status_request_handler CONTROL [0x4D, c] s = (s\<lparr>s2_ac_status := b\<rparr>,
      [Send_Answer (msg_new STATUS (if c = 0x02 then 0x6D02 else 0x6D03) (Some b) S2_CONTROL_SIZE)], HANDLER_OK)"
    using c by (auto simp: s2_status_request_handler_def s2_status_answer_def b_def)
  moreover have "s2_get f b = (if f = S2_Ac_Power then if c = 0x02 then 1 else 0 else s2_get f (s2_ac_status s))" for f
    using s2.get_put [OF st, of S2_Ac_Power] s2.get_put_other [OF st, of S2_Ac_Power f]
    by (auto simp: b_def s2_width_def take_bit_eq_mask)
  ultimately show ?thesis by (intro exI [of _ "s\<lparr>s2_ac_status := b\<rparr>"] exI conjI) auto
qed

text \<open>Claim C29. The SmartAir2 control command: 24 control bytes are accepted, every field takes the value
  its bits in the command have, except the room temperature, the room humidity and the control
  byte, which keep theirs; the answer and the answer to the next status request carry the new
  status. The power commands then set the power bit and no other field.\<close>

theorem smartair2_control:
  assumes "s2_inv s" "length cs = S2_CONTROL_SIZE"
  shows "\<exists>s' m n. s2_status_request_handler CONTROL ([0x4D, 0x5F] @ cs) s = (s', [Send_Answer m], HANDLER_OK)
    \<and> s2_inv s' \<and> msg_payload m = [0x6D, 0x5F] @ s2_ac_status s'
    \<and> (\<forall>f. s2_get f (s2_ac_status s') =
          (if f \<in> {S2_Room_Temperature, S2_Room_Humidity, S2_Cntrl} then s2_get f (s2_ac_status s)
           else bf_get (s2_layout f) cs))
    \<and> s2_status_request_handler CONTROL [0x4D, 0x01] s' = (s', [Send_Answer n], HANDLER_OK)
    \<and> msg_payload n = [0x6D, 0x01] @ s2_ac_status s'
    \<and> (\<forall>c \<in> {0x02, 0x03}. \<exists>s2 m. s2_status_request_handler CONTROL [0x4D, c] s' = (s2, [Send_Answer m], HANDLER_OK)
          \<and> msg_payload m = [0x6D, c] @ s2_ac_status s2
          \<and> (\<forall>f. s2_get f (s2_ac_status s2) =
                (if f = S2_Ac_Power then if c = 0x02 then 1 else 0 else s2_get f (s2_ac_status s'))))"
proof -
  let ?m = "s2_ac_status s"
  define a where "a = s2_copy_control ([0x4D, 0x5F] @ cs) ?m"
  let ?s = "s\<lparr>s2_ac_status := a\<rparr>"
  have l: "length ?m = S2_CONTROL_SIZE" using assms(1) by (simp add: s2_inv_def)
  note a = s2_copy_control_fields(1) [OF l, of _ cs, folded a_def] s2_copy_control_fields(2) [OF l, of cs, folded a_def]
  have run: "s2_status_request_handler CONTROL ([0x4D, 0x5F] @ cs) s = s2_status_answer 0x6D5F ?s"
    "s2_status_request_handler CONTROL [0x4D, 0x01] ?s = s2_status_answer 0x6D01 ?s"
    using assms(2) by (simp_all add: s2_status_request_handler_def a_def)
  show ?thesis
  proof (intro exI conjI)
    show "s2_status_request_handler CONTROL ([0x4D, 0x5F] @ cs) s =
        (?s, [Send_Answer (msg_new STATUS 0x6D5F (Some a) S2_CONTROL_SIZE)], HANDLER_OK)"
      "s2_status_request_handler CONTROL [0x4D, 0x01] ?s =
        (?s, [Send_Answer (msg_new STATUS 0x6D01 (Some a) S2_CONTROL_SIZE)], HANDLER_OK)"
      by (simp_all add: run s2_status_answer_def del: append.simps)
    show "msg_payload (msg_new STATUS 0x6D5F (Some a) S2_CONTROL_SIZE) = [0x6D, 0x5F] @ s2_ac_status ?s"
      "msg_payload (msg_new STATUS 0x6D01 (Some a) S2_CONTROL_SIZE) = [0x6D, 0x01] @ s2_ac_status ?s"
      by (simp_all add: s2_status_payload [OF a(2)])
    show "s2_inv ?s" using a(2) by (simp add: s2_inv_def)
    show "\<forall>f. s2_get f (s2_ac_status ?s) = (if f \<in> {S2_Room_Temperature, S2_Room_Humidity, S2_Cntrl}
        then s2_get f ?m else bf_get (s2_layout f) cs)"
      by (simp add: a(1))
  qed (rule ballI, rule s2_power_effect, simp add: a(2))
qed

theorem smartair2_control_witness:
  "\<exists>s' m. s2_status_request_handler CONTROL ([0x4D, 0x5F] @ replicate 24 0xFF) (s2_get_ac_state_ref s2_globals)
     = (s', [Send_Answer m :: unit api_call], HANDLER_OK) \<and> s2_get S2_Ac_Power (s2_ac_status s') = 1"
proof -
  have len: "length (replicate 24 0xFF :: byte list) = S2_CONTROL_SIZE" by simp
  obtain s' m where "s2_status_request_handler CONTROL ([0x4D, 0x5F] @ replicate 24 0xFF) (s2_get_ac_state_ref s2_globals)
      = (s', [Send_Answer m :: unit api_call], HANDLER_OK)"
    "\<forall>f. s2_get f (s2_ac_status s') = (if f \<in> {S2_Room_Temperature, S2_Room_Humidity, S2_Cntrl}
        then s2_get f (s2_ac_status (s2_get_ac_state_ref s2_globals)) else bf_get (s2_layout f) (replicate 24 0xFF))"
    using smartair2_control [OF s2_inv_init len] by (elim exE conjE) (rule that)
  moreover have "bf_get (s2_layout S2_Ac_Power) (replicate 24 0xFF) = 1" by (simp add: take_bit_eq_mask)
  ultimately show ?thesis
    by (intro exI [of _ s'] exI [of _ m]) (simp del: bf_get.simps)
qed

end
