(* ===== verification/Serial_Bridge.thy ===== *)
theory Serial_Bridge
  imports Serial_Stream Console_Log "HOL-Library.Sublist"
begin

text \<open>
  The relay of \<^verbatim>\<open>tools/remote_serial_bridge/main.cpp\<close>, the loop of \<^verbatim>\<open>main\<close>, which copies
  bytes between the serial stream and a socket until the escape key is pressed or a system call on
  the socket fails. The system calls are arguments; every call is taken to return, also the one
  that reads the socket, which outside Windows blocks until something arrives.
\<close>

section \<open>The relay\<close>

abbreviation SOCKET_BUFFER_SIZE :: nat where "SOCKET_BUFFER_SIZE \<equiv> 2048"

text \<open>\<open>write_socket\<close> returns a number that is negative on failure, \<open>read_socket\<close> the bytes, or
  \<open>None\<close> for a negative result.\<close>

record 'k tcp_socket =
  write_socket :: "byte list \<Rightarrow> 'k \<Rightarrow> int \<times> 'k"
  read_socket :: "nat \<Rightarrow> 'k \<Rightarrow> byte list option \<times> 'k"

record ('p, 'k) bridge =
  br_serial_stream :: "'p serial_stream"
  br_remote_socket :: 'k
  br_app_exiting :: bool

text \<open>One round of the loop with the key \<^verbatim>\<open>get_kb_hit\<close> finds waiting, if any.
  \<open>Inl\<close> is the state when \<^verbatim>\<open>main\<close> returns 1.\<close>

definition bridge_round ::
    "'p serial_port \<Rightarrow> 'k tcp_socket \<Rightarrow> int option \<Rightarrow> ('p, 'k) bridge \<Rightarrow> ('p, 'k) bridge + ('p, 'k) bridge" where
  "bridge_round sp tk kb b =
     (if get_kb_hit kb \<noteq> NO_KB_HIT
      then Inr (if get_kb_hit kb = 27 then b\<lparr>br_app_exiting := True\<rparr> else b)
      else
          let (available, s0) = ss_available sp (br_serial_stream b);
              (serial_buffer, s1) = ss_read_array available s0;
              (res, k1) = (if length serial_buffer > 0 then write_socket tk serial_buffer (br_remote_socket b)
                           else (0, br_remote_socket b))
          in if res < 0 then Inl (b\<lparr>br_serial_stream := s1, br_remote_socket := k1\<rparr>)
             else (case read_socket tk SOCKET_BUFFER_SIZE k1 of
                     (None, k2) \<Rightarrow> Inl (b\<lparr>br_serial_stream := s1, br_remote_socket := k2\<rparr>)
                   | (Some ds, k2) \<Rightarrow>
                       let socket_buffer = take SOCKET_BUFFER_SIZE ds
                       in Inr (b\<lparr>br_serial_stream := (if length socket_buffer > 0 then ss_write_array sp socket_buffer s1 else s1),
                                 br_remote_socket := k2\<rparr>)))"

fun bridge_loop ::
    "'p serial_port \<Rightarrow> 'k tcp_socket \<Rightarrow> int option list \<Rightarrow> ('p, 'k) bridge \<Rightarrow> ('p, 'k) bridge + ('p, 'k) bridge" where
  "bridge_loop sp tk [] b = Inr b"
| "bridge_loop sp tk (kb # kbs) b =
     (if br_app_exiting b then Inr b
      else (case bridge_round sp tk kb b of Inl b' \<Rightarrow> Inl b' | Inr b' \<Rightarrow> bridge_loop sp tk kbs b'))"

section \<open>What the devices document\<close>

text \<open>\<open>got\<close> is what has been read from the port so far, \<open>passed\<close> what the program has passed to its writes and \<open>put\<close> what
  these have written; \<open>recv\<close>, \<open>offered\<close> and \<open>sent\<close> the same for the socket. A read returns at most the bytes asked for, a failed
  read none. A write takes bytes from the front of what it is passed: \<^verbatim>\<open>write\<close> on the socket says how many, possibly not all,
  and takes none when it fails; how many the port takes the program does not look at.\<close>

definition port_history :: "'p serial_port \<Rightarrow> ('p \<Rightarrow> byte list) \<Rightarrow> ('p \<Rightarrow> byte list) \<Rightarrow> ('p \<Rightarrow> byte list) \<Rightarrow> bool" where
  "port_history sp got put passed \<longleftrightarrow>
     (\<forall>n p. (case sp_read sp n p of
               (None, p') \<Rightarrow> got p' = got p \<and> put p' = put p \<and> passed p' = passed p
             | (Some bs, p') \<Rightarrow> length bs \<le> n \<and> got p' = got p @ bs \<and> put p' = put p \<and> passed p' = passed p))
     \<and> (\<forall>bs p. got (sp_write sp bs p) = got p \<and> passed (sp_write sp bs p) = passed p @ bs
              \<and> (\<exists>m. put (sp_write sp bs p) = put p @ take m bs))"

definition socket_history :: "'k tcp_socket \<Rightarrow> ('k \<Rightarrow> byte list) \<Rightarrow> ('k \<Rightarrow> byte list) \<Rightarrow> ('k \<Rightarrow> byte list) \<Rightarrow> bool" where
  "socket_history tk recv sent offered \<longleftrightarrow>
     (\<forall>n k. (case read_socket tk n k of
               (None, k') \<Rightarrow> recv k' = recv k \<and> sent k' = sent k \<and> offered k' = offered k
             | (Some bs, k') \<Rightarrow> length bs \<le> n \<and> recv k' = recv k @ bs \<and> sent k' = sent k \<and> offered k' = offered k))
     \<and> (\<forall>bs k. (case write_socket tk bs k of (res, k') \<Rightarrow> recv k' = recv k \<and> offered k' = offered k @ bs
              \<and> (if res < 0 then sent k' = sent k else nat res \<le> length bs \<and> sent k' = sent k @ take (nat res) bs)))"

text \<open>No write is short.\<close>

definition port_whole :: "'p serial_port \<Rightarrow> ('p \<Rightarrow> byte list) \<Rightarrow> bool" where
  "port_whole sp put \<longleftrightarrow> (\<forall>bs p. put (sp_write sp bs p) = put p @ bs)"

definition socket_whole :: "'k tcp_socket \<Rightarrow> bool" where
  "socket_whole tk \<longleftrightarrow> (\<forall>bs k. 0 \<le> fst (write_socket tk bs k) \<longrightarrow> fst (write_socket tk bs k) = int (length bs))"

lemma port_historyD:
  fixes n :: nat
  assumes "port_history sp got put passed"
  shows "sp_read sp n p = (Some bs, p') \<Longrightarrow> length bs \<le> n \<and> got p' = got p @ bs \<and> put p' = put p \<and> passed p' = passed p"
    "sp_read sp n p = (None, p') \<Longrightarrow> got p' = got p \<and> put p' = put p \<and> passed p' = passed p"
    "got (sp_write sp bs p) = got p" "passed (sp_write sp bs p) = passed p @ bs"
    "\<exists>m. put (sp_write sp bs p) = put p @ take m bs"
  using assms [unfolded port_history_def, THEN conjunct1, THEN spec [of _ n], THEN spec [of _ p]]
    assms [unfolded port_history_def, THEN conjunct2] by auto

lemma socket_historyD:
  fixes n :: nat
  assumes "socket_history tk recv sent offered"
  shows "read_socket tk n k = (Some bs, k') \<Longrightarrow> length bs \<le> n \<and> recv k' = recv k @ bs \<and> sent k' = sent k \<and> offered k' = offered k"
    "read_socket tk n k = (None, k') \<Longrightarrow> recv k' = recv k \<and> sent k' = sent k \<and> offered k' = offered k"
    "write_socket tk bs k = (res, k') \<Longrightarrow> recv k' = recv k \<and> offered k' = offered k @ bs
       \<and> (if res < 0 then sent k' = sent k else nat res \<le> length bs \<and> sent k' = sent k @ take (nat res) bs)"
  using assms [unfolded socket_history_def, THEN conjunct1, THEN spec [of _ n], THEN spec [of _ k]]
    assms [unfolded socket_history_def, THEN conjunct2, THEN spec [of _ bs], THEN spec [of _ k]] by auto

text \<open>Between rounds nothing is held back in either direction. \<open>failed\<close>: a write on the socket has failed.\<close>

definition relayed ::
    "'p serial_port \<Rightarrow> 'k tcp_socket \<Rightarrow> bool \<Rightarrow> ('p \<Rightarrow> byte list) \<Rightarrow> ('p \<Rightarrow> byte list) \<Rightarrow> ('p \<Rightarrow> byte list)
      \<Rightarrow> ('k \<Rightarrow> byte list) \<Rightarrow> ('k \<Rightarrow> byte list) \<Rightarrow> ('k \<Rightarrow> byte list) \<Rightarrow> ('p, 'k) bridge \<Rightarrow> bool" where
  "relayed sp tk failed got put passed recv sent offered b \<longleftrightarrow>
     (let s = br_serial_stream b; p = ss_port s; k = br_remote_socket b
      in ss_inv s \<and> ss_is_valid s \<and> ss_pending s = [] \<and> offered k = got p \<and> passed p = recv k
         \<and> subseq (sent k) (got p) \<and> subseq (put p) (recv k)
         \<and> (socket_whole tk \<and> \<not> failed \<longrightarrow> sent k = got p) \<and> (port_whole sp put \<longrightarrow> put p = recv k))"

section \<open>Relaying\<close>

text \<open>What a round takes from the port, and when one of its calls on the socket fails.\<close>

definition round_bytes :: "'p serial_port \<Rightarrow> ('p, 'k) bridge \<Rightarrow> byte list" where
  "round_bytes sp b = (let (n, s) = ss_available sp (br_serial_stream b) in fst (ss_read_array n s))"

definition socket_fails :: "'p serial_port \<Rightarrow> 'k tcp_socket \<Rightarrow> ('p, 'k) bridge \<Rightarrow> bool" where
  "socket_fails sp tk b \<longleftrightarrow>
     (let bs = round_bytes sp b; k = br_remote_socket b
      in if bs = [] then fst (read_socket tk SOCKET_BUFFER_SIZE k) = None
         else fst (write_socket tk bs k) < 0 \<or> fst (read_socket tk SOCKET_BUFFER_SIZE (snd (write_socket tk bs k))) = None)"

lemma bridge_round_fails:
  "(\<exists>b'. bridge_round sp tk kb b = Inl b') \<longleftrightarrow> get_kb_hit kb = NO_KB_HIT \<and> socket_fails sp tk b"
  by (auto simp: bridge_round_def socket_fails_def round_bytes_def split_beta Let_def split: option.splits prod.splits if_splits)

lemma bridge_round_key:
  "bridge_round sp tk kb b = Inr b' \<Longrightarrow> br_app_exiting b' \<longleftrightarrow> br_app_exiting b \<or> kb = Some 27"
  "bridge_round sp tk (Some 27) b = Inr (b\<lparr>br_app_exiting := True\<rparr>)"
  by (auto simp: bridge_round_def get_kb_hit_def split_beta Let_def split: option.splits prod.splits if_splits)

text \<open>How the loop comes to its end.\<close>

lemma bridge_loop_exiting: "br_app_exiting b \<Longrightarrow> bridge_loop sp tk kbs b = Inr b"
  by (cases kbs) simp_all

lemma bridge_loop_append:
  "bridge_loop sp tk (kbs @ rest) b = (case bridge_loop sp tk kbs b of Inl b' \<Rightarrow> Inl b' | Inr b' \<Rightarrow> bridge_loop sp tk rest b')"
  by (induction kbs arbitrary: b) (simp_all add: bridge_loop_exiting split: sum.split)

lemma bridge_loop_runs:
  "bridge_loop sp tk kbs b = Inr b' \<Longrightarrow> \<not> br_app_exiting b \<Longrightarrow> br_app_exiting b' \<longleftrightarrow> Some 27 \<in> set kbs"
proof (induction kbs arbitrary: b)
  case (Cons kb kbs)
  then obtain b1 where b1: "bridge_round sp tk kb b = Inr b1" "bridge_loop sp tk kbs b1 = Inr b'"
    by (auto split: sum.splits)
  then show ?case
  proof (cases "br_app_exiting b1")
    case True
    then show ?thesis using b1 bridge_loop_exiting [OF True, of sp tk kbs] bridge_round_key(1) [OF b1(1)] Cons.prems(2) by simp
  next
    case False
    then show ?thesis using Cons.IH [OF b1(2) False] bridge_round_key(1) [OF b1(1)] by auto
  qed
qed simp

lemma bridge_loop_fails:
  "bridge_loop sp tk kbs b = Inl b' \<Longrightarrow> \<not> br_app_exiting b \<Longrightarrow>
    \<exists>ks kb rest b1. kbs = ks @ kb # rest \<and> Some 27 \<notin> set ks \<and> bridge_loop sp tk ks b = Inr b1
      \<and> get_kb_hit kb = NO_KB_HIT \<and> socket_fails sp tk b1"
proof (induction kbs arbitrary: b)
  case (Cons kb kbs)
  show ?case
  proof (cases "bridge_round sp tk kb b")
    case (Inl x)
    then have "get_kb_hit kb = NO_KB_HIT \<and> socket_fails sp tk b" using bridge_round_fails by blast
    then show ?thesis by (intro exI [of _ "[]"]) auto
  next
    case (Inr b1)
    then have l: "bridge_loop sp tk kbs b1 = Inl b'" using Cons.prems by simp
    then have go: "\<not> br_app_exiting b1" by (cases kbs) auto
    then obtain ks k rest b2 where "kbs = ks @ k # rest" "Some 27 \<notin> set ks" "bridge_loop sp tk ks b1 = Inr b2"
      "get_kb_hit k = NO_KB_HIT" "socket_fails sp tk b2"
      using Cons.IH [OF l] by blast
    then show ?thesis
      using Inr go Cons.prems(2) bridge_round_key(1) [OF Inr] by (intro exI [of _ "kb # ks"]) auto
  qed
qed simp

text \<open>Asking an empty stream fetches one read of the port.\<close>

lemma ss_available_fetches:
  assumes "ss_inv s" "ss_is_valid s" "ss_pending s = []" "port_history sp got put passed"
  shows "\<exists>bs p. ss_available sp s = (length bs, snd (ss_available sp s)) \<and> ss_inv (snd (ss_available sp s))
    \<and> ss_is_valid (snd (ss_available sp s)) \<and> ss_pending (snd (ss_available sp s)) = bs
    \<and> ss_port (snd (ss_available sp s)) = p \<and> got p = got (ss_port s) @ bs \<and> put p = put (ss_port s) \<and> passed p = passed (ss_port s)"
proof -
  obtain r p where rd: "sp_read sp SERIAL_BUFFER_SIZE (ss_port s) = (r, p)"
    by (cases "sp_read sp SERIAL_BUFFER_SIZE (ss_port s)") auto
  define bs where "bs = (case r of None \<Rightarrow> [] | Some bs \<Rightarrow> bs)"
  have h: "length bs \<le> SERIAL_BUFFER_SIZE" "got p = got (ss_port s) @ bs" "put p = put (ss_port s)" "passed p = passed (ss_port s)"
    using port_historyD(1,2) [OF assms(4)] rd by (cases r; force simp: bs_def)+
  have wf: "cb_wf (ss_buffer s)" "cb_list (ss_buffer s) = []" "cb_is_empty (ss_buffer s)"
    "cb_capacity (ss_buffer s) = SERIAL_BUFFER_SIZE"
    using assms(1-3) by (simp_all add: ss_inv_def ss_pending_def ss_is_valid_def cb_empty_iff)
  define b where "b = snd (cb_push (ss_buffer s) bs (length bs))"
  have b: "cb_wf b" "cb_list b = bs" "cb_capacity b = SERIAL_BUFFER_SIZE"
    using cb_push_correct [OF wf(1) order_refl, of bs] wf h(1)
    by (simp_all add: b_def cb_get_space_def flip: length_cb_list)
  have "ss_available sp s = (if r \<noteq> None \<and> length bs > 0 then (cb_get_size b, s\<lparr>ss_port := p, ss_buffer := b\<rparr>)
      else (0, s\<lparr>ss_port := p\<rparr>))"
    using assms(2) wf(3) h(1) by (auto simp: ss_available_def rd bs_def b_def Let_def split: option.split)
  moreover have "bs = []" if "r = None" using that by (simp add: bs_def)
  ultimately show ?thesis
    using b wf assms(1,2) h by (cases "bs = []")
      (auto simp: ss_inv_def ss_pending_def ss_is_valid_def simp flip: length_cb_list)
qed

text \<open>The two halves of a round: port to socket, with what \<^verbatim>\<open>write_socket\<close> returns, and socket to port.\<close>

lemma relay_up:
  assumes d: "port_history sp got put passed" "socket_history tk recv sent offered"
    and b: "relayed sp tk False got put passed recv sent offered b"
  obtains bs s0 s1 res k1 where "ss_available sp (br_serial_stream b) = (length bs, s0)" "ss_read_array (length bs) s0 = (bs, s1)"
    "(if length bs > 0 then write_socket tk bs (br_remote_socket b) else (0, br_remote_socket b)) = (res, k1)"
    "relayed sp tk (res < 0) got put passed recv sent offered (b\<lparr>br_serial_stream := s1, br_remote_socket := k1\<rparr>)"
proof -
  let ?s = "br_serial_stream b" and ?k = "br_remote_socket b"
  have s: "ss_inv ?s" "ss_is_valid ?s" "ss_pending ?s = []" "offered ?k = got (ss_port ?s)" "passed (ss_port ?s) = recv ?k"
    "subseq (sent ?k) (got (ss_port ?s))" "subseq (put (ss_port ?s)) (recv ?k)"
    "socket_whole tk \<Longrightarrow> sent ?k = got (ss_port ?s)" "port_whole sp put \<Longrightarrow> put (ss_port ?s) = recv ?k"
    using b by (simp_all add: relayed_def Let_def)
  obtain bs s0 where a: "ss_available sp ?s = (length bs, s0)" "ss_inv s0" "ss_is_valid s0" "ss_pending s0 = bs"
    "got (ss_port s0) = got (ss_port ?s) @ bs" "put (ss_port s0) = put (ss_port ?s)" "passed (ss_port s0) = passed (ss_port ?s)"
    using ss_available_fetches [OF s(1-3) d(1)] by metis
  obtain s1 where rd: "ss_read_array (length bs) s0 = (bs, s1)" "ss_inv s1" "ss_pending s1 = []"
    using ss_read_array_correct [OF a(2), of "length bs"] a(4) by (cases "ss_read_array (length bs) s0") auto
  have s1: "ss_is_valid s1" "ss_port s1 = ss_port s0"
    using rd(1) a(3) by (auto simp: ss_read_array_def ss_is_valid_def Let_def split: if_splits prod.splits)
  obtain res k1 where w: "(if length bs > 0 then write_socket tk bs ?k else (0, ?k)) = (res, k1)"
    by (cases "if length bs > 0 then write_socket tk bs ?k else (0, ?k)") auto
  have k1: "recv k1 = recv ?k" "offered k1 = offered ?k @ bs" "\<exists>m. sent k1 = sent ?k @ take m bs"
    "socket_whole tk \<Longrightarrow> \<not> res < 0 \<Longrightarrow> sent k1 = sent ?k @ bs"
  proof -
    note h = socket_historyD(3) [OF d(2), of bs ?k res k1]
    show "recv k1 = recv ?k" "offered k1 = offered ?k @ bs" "\<exists>m. sent k1 = sent ?k @ take m bs"
      using h w by (auto split: if_splits intro: exI [of _ 0])
    have "res = int (length bs)" if "socket_whole tk" "\<not> res < 0" "length bs > 0"
      using that(1) [unfolded socket_whole_def, THEN spec [of _ bs], THEN spec [of _ ?k]] that(2,3) w by simp
    then show "sent k1 = sent ?k @ bs" if "socket_whole tk" "\<not> res < 0"
      using h w that by (cases "length bs > 0") auto
  qed
  obtain m where m: "sent k1 = sent ?k @ take m bs" using k1(3) by blast
  have "subseq (sent k1) (got (ss_port s0))"
    unfolding m a(5) by (rule list_emb_append_mono [OF s(6)]) (simp add: prefix_imp_subseq take_is_prefix)
  then have "relayed sp tk (res < 0) got put passed recv sent offered (b\<lparr>br_serial_stream := s1, br_remote_socket := k1\<rparr>)"
    using s a rd(2,3) s1 k1 by (simp add: relayed_def)
  then show thesis by (rule that [OF a(1) rd(1) w])
qed

lemma relay_down:
  assumes d: "port_history sp got put passed" "socket_history tk recv sent offered"
    and b: "relayed sp tk False got put passed recv sent offered b"
    and q: "read_socket tk SOCKET_BUFFER_SIZE (br_remote_socket b) = (q, k2)"
  shows "case q of None \<Rightarrow> relayed sp tk False got put passed recv sent offered (b\<lparr>br_remote_socket := k2\<rparr>)
    | Some ds \<Rightarrow> relayed sp tk False got put passed recv sent offered (b\<lparr>br_serial_stream :=
        (if length (take SOCKET_BUFFER_SIZE ds) > 0 then ss_write_array sp (take SOCKET_BUFFER_SIZE ds) (br_serial_stream b) else br_serial_stream b),
        br_remote_socket := k2\<rparr>)"
proof (cases q)
  case None
  then show ?thesis using b socket_historyD(2) [OF d(2)] q by (simp add: relayed_def Let_def)
next
  case (Some ds)
  let ?s = "br_serial_stream b" and ?k = "br_remote_socket b"
  have s: "ss_inv ?s" "ss_is_valid ?s" "ss_pending ?s = []" "offered ?k = got (ss_port ?s)" "passed (ss_port ?s) = recv ?k"
    "subseq (sent ?k) (got (ss_port ?s))" "subseq (put (ss_port ?s)) (recv ?k)"
    "socket_whole tk \<Longrightarrow> sent ?k = got (ss_port ?s)" "port_whole sp put \<Longrightarrow> put (ss_port ?s) = recv ?k"
    using b by (simp_all add: relayed_def Let_def)
  have k2: "length ds \<le> SOCKET_BUFFER_SIZE" "recv k2 = recv ?k @ ds" "sent k2 = sent ?k" "offered k2 = offered ?k"
    using socket_historyD(1) [OF d(2)] q Some by auto
  define s2 where "s2 = (if length ds > 0 then ss_write_array sp ds ?s else ?s)"
  obtain m where m: "put (sp_write sp ds (ss_port ?s)) = put (ss_port ?s) @ take m ds"
    using port_historyD(5) [OF d(1)] by blast
  have st: "ss_inv s2" "ss_is_valid s2" "ss_pending s2 = []" "got (ss_port s2) = got (ss_port ?s)"
    "passed (ss_port s2) = passed (ss_port ?s) @ ds" "put (ss_port s2) = put (ss_port ?s) @ take m ds"
    "port_whole sp put \<Longrightarrow> put (ss_port s2) = put (ss_port ?s) @ ds"
    using port_historyD(3,4) [OF d(1)] s(1-3) m
    by (auto simp: s2_def ss_write_array_def ss_inv_def ss_pending_def ss_is_valid_def port_whole_def)
  have "subseq (put (ss_port s2)) (recv k2)"
    unfolding st(6) k2(2) by (rule list_emb_append_mono [OF s(7)]) (simp add: prefix_imp_subseq take_is_prefix)
  then show ?thesis
    using s st k2 unfolding Some option.case take_all [OF k2(1)] s2_def [symmetric] by (simp add: relayed_def)
qed

lemma bridge_round_relays:
  assumes d: "port_history sp got put passed" "socket_history tk recv sent offered"
    and b: "relayed sp tk False got put passed recv sent offered b"
  shows "case bridge_round sp tk kb b of Inl b' \<Rightarrow> relayed sp tk True got put passed recv sent offered b'
    | Inr b' \<Rightarrow> relayed sp tk False got put passed recv sent offered b'"
proof (cases "get_kb_hit kb = NO_KB_HIT")
  case False
  then show ?thesis using b by (simp add: bridge_round_def relayed_def)
next
  case True
  obtain bs s0 s1 res k1 where u: "ss_available sp (br_serial_stream b) = (length bs, s0)" "ss_read_array (length bs) s0 = (bs, s1)"
    "(if length bs > 0 then write_socket tk bs (br_remote_socket b) else (0, br_remote_socket b)) = (res, k1)"
    "relayed sp tk (res < 0) got put passed recv sent offered (b\<lparr>br_serial_stream := s1, br_remote_socket := k1\<rparr>)"
    by (rule relay_up [OF d b])
  obtain q k2 where q: "read_socket tk SOCKET_BUFFER_SIZE k1 = (q, k2)"
    by (cases "read_socket tk SOCKET_BUFFER_SIZE k1") auto
  have round: "bridge_round sp tk kb b = (if res < 0 then Inl (b\<lparr>br_serial_stream := s1, br_remote_socket := k1\<rparr>)
      else (case q of None \<Rightarrow> Inl (b\<lparr>br_serial_stream := s1, br_remote_socket := k2\<rparr>)
        | Some ds \<Rightarrow> Inr (b\<lparr>br_serial_stream := (if length (take SOCKET_BUFFER_SIZE ds) > 0
              then ss_write_array sp (take SOCKET_BUFFER_SIZE ds) s1 else s1), br_remote_socket := k2\<rparr>)))"
    unfolding bridge_round_def True u(1,2) Let_def prod.case u(3) q by (simp split: option.split)
  have weaker: "relayed sp tk False got put passed recv sent offered c \<Longrightarrow> relayed sp tk True got put passed recv sent offered c" for c
    by (simp add: relayed_def Let_def)
  show ?thesis
  proof (cases "res < 0")
    case True
    then show ?thesis using u(4) unfolding round by simp
  next
    case False
    then show ?thesis
      using relay_down [OF d, of "b\<lparr>br_serial_stream := s1, br_remote_socket := k1\<rparr>" q k2] u(4) q weaker unfolding round
      by (auto split: option.splits)
  qed
qed

lemma bridge_loop_relays:
  assumes "port_history sp got put passed" "socket_history tk recv sent offered"
  shows "relayed sp tk False got put passed recv sent offered b \<Longrightarrow>
    case bridge_loop sp tk kbs b of Inl b' \<Rightarrow> relayed sp tk True got put passed recv sent offered b'
    | Inr b' \<Rightarrow> relayed sp tk False got put passed recv sent offered b'"
proof (induction kbs arbitrary: b)
  case (Cons kb kbs)
  show ?case
    using bridge_round_relays [OF assms Cons.prems, of kb] Cons.IH Cons.prems by (cases "bridge_round sp tk kb b") auto
qed simp

text \<open>The program starts on an opened port and a connected socket.\<close>

definition bridge_start :: "byte allocator \<Rightarrow> 'p \<Rightarrow> 'k \<Rightarrow> ('p, 'k) bridge" where
  "bridge_start new p k = \<lparr>br_serial_stream = ss_new new True p, br_remote_socket = k, br_app_exiting = False\<rparr>"

lemma relayed_start:
  assumes "allocates new" "sent k = got p" "put p = recv k" "offered k = got p" "passed p = recv k"
  shows "relayed sp tk False got put passed recv sent offered (bridge_start new p k)"
  using ss_new_inv [OF assms(1), of True p] assms(2-5)
  by (simp add: relayed_def ss_is_valid_def bridge_start_def) (simp add: ss_new_def)


text \<open>Devices that deliver given chunks and remember what they delivered, took and were passed. The socket takes at most \<open>n\<close> bytes
  in one call.\<close>

type_synonym device = "byte list list \<times> byte list \<times> byte list \<times> byte list"

fun device_read :: "nat \<Rightarrow> device \<Rightarrow> byte list option \<times> device" where
  "device_read n ([], i, out) = (Some [], [], i, out)"
| "device_read n (c # cs, i, out) = (Some (take n c), cs, i @ take n c, out)"

definition device_port :: "device serial_port" where
  "device_port = \<lparr>sp_read = device_read, sp_write = \<lambda>bs (cs, i, out, ps). (cs, i, out @ bs, ps @ bs)\<rparr>"

definition device_socket :: "nat \<Rightarrow> device tcp_socket" where
  "device_socket n = \<lparr>write_socket = \<lambda>bs (cs, i, out, ps). (int (min n (length bs)), cs, i, out @ take n bs, ps @ bs),
     read_socket = device_read\<rparr>"

lemma device_read_spec:
  "\<exists>bs. fst (device_read k d) = Some bs \<and> length bs \<le> k \<and> fst (snd (snd (device_read k d))) = fst (snd d) @ bs
     \<and> snd (snd (snd (device_read k d))) = snd (snd d)"
  by (cases "(k, d)" rule: device_read.cases) auto


end
