(* ===== verification/Bridge_Main.thy ===== *)
theory Bridge_Main
  imports Serial_Bridge Serial_Port
begin

text \<open>
  The sockets and \<^verbatim>\<open>main\<close> of \<^verbatim>\<open>tools/remote_serial_bridge/main.cpp\<close>: connecting to the
  server, opening the port, relaying, and what is closed on each way out. The system calls are
  arguments. Both platforms are modelled; \<^verbatim>\<open>main\<close> with the calls of Linux.
\<close>

section \<open>Sockets under Linux\<close>

abbreviation INVALID_SOCKET :: int where "INVALID_SOCKET \<equiv> -1"

text \<open>\<open>nt_gethostbyname\<close> returns an address or nothing, \<open>nt_read\<close> the bytes or \<open>None\<close> for a
  negative result, the others what the system calls return.\<close>

record 'n network =
  nt_socket :: "'n \<Rightarrow> int \<times> 'n"
  nt_gethostbyname :: "string \<Rightarrow> 'n \<Rightarrow> byte list option \<times> 'n"
  nt_connect :: "int \<Rightarrow> byte list \<Rightarrow> u16 \<Rightarrow> 'n \<Rightarrow> int \<times> 'n"
  nt_read :: "int \<Rightarrow> nat \<Rightarrow> 'n \<Rightarrow> byte list option \<times> 'n"
  nt_write :: "int \<Rightarrow> byte list \<Rightarrow> 'n \<Rightarrow> int \<times> 'n"
  nt_close :: "int \<Rightarrow> 'n \<Rightarrow> 'n"

definition open_socket :: "'n network \<Rightarrow> string \<Rightarrow> nat \<Rightarrow> 'n \<Rightarrow> int \<times> 'n" where
  "open_socket net addr port n =
     (let (sockfd, n1) = nt_socket net n
      in if sockfd < 0 then (INVALID_SOCKET, n1)
         else (case nt_gethostbyname net addr n1 of
                 (None, n2) \<Rightarrow> (INVALID_SOCKET, n2)
               | (Some h_addr, n2) \<Rightarrow>
                   let (res, n3) = nt_connect net sockfd h_addr (of_nat port) n2
                   in if res < 0 then (INVALID_SOCKET, n3) else (sockfd, n3)))"

definition close_socket :: "'n network \<Rightarrow> int \<Rightarrow> 'n \<Rightarrow> 'n" where
  "close_socket net srv_socket n = nt_close net srv_socket n"

text \<open>\<^verbatim>\<open>read_socket\<close> and \<^verbatim>\<open>write_socket\<close> of a connected socket.\<close>

definition connected_socket :: "'n network \<Rightarrow> int \<Rightarrow> 'n tcp_socket" where
  "connected_socket net fd = \<lparr>write_socket = nt_write net fd, read_socket = nt_read net fd\<rparr>"

section \<open>The program\<close>

text \<open>\<open>port\<close> are reads and writes on a descriptor of the port, \<open>argv\<close> the arguments with the name of the program
  first, \<open>kbs\<close> the keys of the rounds. The result is the exit code with the two systems, or \<open>None\<close>
  when the keys are used up and the program is still relaying. The stream is destroyed on return.\<close>

definition bridge_main ::
    "byte allocator \<Rightarrow> 'o serial_os \<Rightarrow> (int \<Rightarrow> 'o serial_port) \<Rightarrow> 'n network \<Rightarrow> string list \<Rightarrow> int option list
       \<Rightarrow> 'o \<Rightarrow> 'n \<Rightarrow> (int \<times> 'o \<times> 'n) option" where
  "bridge_main new os port net argv kbs s n =
     (if length argv = 3
      then
        let (remote_socket, n1) = open_socket net (argv ! 2) 8888 n
        in if remote_socket = INVALID_SOCKET then Some (1, s, close_socket net remote_socket n1)
           else
             let (handle, s1) = serial_open os (argv ! 1) s;
                 serial_stream = ss_new new (handle_is_valid handle) s1
             in if \<not> ss_is_valid serial_stream then Some (1, snd (serial_close os handle s1), n1)
                else (case bridge_loop (port handle) (connected_socket net remote_socket) kbs
                        \<lparr>br_serial_stream = serial_stream, br_remote_socket = n1, br_app_exiting = False\<rparr> of
                        Inl b \<Rightarrow> Some (1, snd (serial_close os handle (ss_port (br_serial_stream b))),
                                      close_socket net remote_socket (br_remote_socket b))
                      | Inr b \<Rightarrow>
                          if br_app_exiting b
                          then Some (0, snd (serial_close os handle (ss_port (br_serial_stream b))),
                                     close_socket net remote_socket (br_remote_socket b))
                          else None)
      else Some (0, s, n))"

section \<open>Sockets under Windows\<close>

record 'n win_network =
  wn_WSAStartup :: "'n \<Rightarrow> int \<times> 'n"
  wn_WSACleanup :: "'n \<Rightarrow> 'n"
  wn_getaddrinfo :: "string \<Rightarrow> nat \<Rightarrow> 'n \<Rightarrow> byte list list option \<times> 'n"
  wn_socket :: "byte list \<Rightarrow> 'n \<Rightarrow> int \<times> 'n"
  wn_connect :: "int \<Rightarrow> byte list \<Rightarrow> 'n \<Rightarrow> int \<times> 'n"
  wn_closesocket :: "int \<Rightarrow> 'n \<Rightarrow> 'n"
  wn_FIONREAD :: "int \<Rightarrow> 'n \<Rightarrow> nat \<times> 'n"
  wn_recv :: "int \<Rightarrow> nat \<Rightarrow> 'n \<Rightarrow> byte list option \<times> 'n"
  wn_send :: "int \<Rightarrow> byte list \<Rightarrow> 'n \<Rightarrow> int \<times> 'n"

text \<open>The loop over the resolved addresses; \<open>Inl\<close> is the early return when no socket can be made.\<close>

fun connect_first :: "'n win_network \<Rightarrow> byte list list \<Rightarrow> int \<Rightarrow> 'n \<Rightarrow> (int \<times> 'n) + (int \<times> 'n)" where
  "connect_first wn [] socket_res n = Inr (socket_res, n)"
| "connect_first wn (a # as) socket_res n =
     (let (socket_res, n1) = wn_socket wn a n
      in if socket_res = INVALID_SOCKET then Inl (INVALID_SOCKET, wn_WSACleanup wn n1)
         else let (res, n2) = wn_connect wn socket_res a n1
              in if res = -1 then connect_first wn as INVALID_SOCKET (wn_closesocket wn socket_res n2)
                 else Inr (socket_res, n2))"

definition open_socket_win :: "'n win_network \<Rightarrow> string \<Rightarrow> nat \<Rightarrow> 'n \<Rightarrow> int \<times> 'n" where
  "open_socket_win wn addr port n =
     (let (res, n1) = wn_WSAStartup wn n
      in if res \<noteq> 0 then (INVALID_SOCKET, n1)
         else (case wn_getaddrinfo wn addr port n1 of
                 (None, n2) \<Rightarrow> (INVALID_SOCKET, wn_WSACleanup wn n2)
               | (Some as, n2) \<Rightarrow> (case connect_first wn as INVALID_SOCKET n2 of Inl r \<Rightarrow> r | Inr r \<Rightarrow> r)))"

definition close_socket_win :: "'n win_network \<Rightarrow> int \<Rightarrow> 'n \<Rightarrow> 'n" where
  "close_socket_win wn socket n =
     wn_WSACleanup wn (if socket \<noteq> INVALID_SOCKET then wn_closesocket wn socket n else n)"

definition read_socket_win :: "'n win_network \<Rightarrow> int \<Rightarrow> nat \<Rightarrow> 'n \<Rightarrow> byte list option \<times> 'n" where
  "read_socket_win wn socket buffer_size n =
     (let (available, n1) = wn_FIONREAD wn socket n
      in if available > 0
         then (case wn_recv wn socket SOCKET_BUFFER_SIZE n1 of
                 (Some bs, n2) \<Rightarrow> if length bs > 0 then (Some bs, n2) else (Some [], n2)
               | (None, n2) \<Rightarrow> (Some [], n2))
         else (Some [], n1))"

definition write_socket_win :: "'n win_network \<Rightarrow> int \<Rightarrow> byte list \<Rightarrow> 'n \<Rightarrow> int \<times> 'n" where
  "write_socket_win wn socket buffer n = wn_send wn socket buffer n"

text \<open>A failed or closed connection reads as no data, so the branch of \<^verbatim>\<open>main\<close> for a failed read is
  never taken under Windows.\<close>

lemma read_socket_win_never_fails: "fst (read_socket_win wn socket k n) \<noteq> None"
  by (simp add: read_socket_win_def split_beta split: option.split prod.split)

section \<open>What the systems document\<close>

text \<open>\<open>fds\<close> are the open sockets.\<close>

definition network_contract :: "'n network \<Rightarrow> ('n \<Rightarrow> int set) \<Rightarrow> bool" where
  "network_contract net fds \<longleftrightarrow>
     (\<forall>n. let (h, n') = nt_socket net n
          in if h < 0 then fds n' = fds n else h \<notin> fds n \<and> fds n' = insert h (fds n))
     \<and> (\<forall>a n. fds (snd (nt_gethostbyname net a n)) = fds n)
     \<and> (\<forall>h a p n. fds (snd (nt_connect net h a p n)) = fds n)
     \<and> (\<forall>h k n. fds (snd (nt_read net h k n)) = fds n)
     \<and> (\<forall>h bs n. fds (snd (nt_write net h bs n)) = fds n)
     \<and> (\<forall>h n. fds (nt_close net h n) = fds n - {h})"

text \<open>Opening, configuring and closing transmit nothing.\<close>

definition serial_quiet :: "'o serial_os \<Rightarrow> ('o \<Rightarrow> byte list) \<Rightarrow> bool" where
  "serial_quiet os f \<longleftrightarrow>
     (\<forall>path s. f (snd (os_open os path s)) = f s) \<and> (\<forall>h s. f (snd (os_tcgetattr os h s)) = f s)
     \<and> (\<forall>h tty s. f (snd (os_tcsetattr os h tty s)) = f s) \<and> (\<forall>h s. f (os_close os h s) = f s)"

definition network_quiet :: "'n network \<Rightarrow> ('n \<Rightarrow> byte list) \<Rightarrow> bool" where
  "network_quiet net f \<longleftrightarrow>
     (\<forall>n. f (snd (nt_socket net n)) = f n) \<and> (\<forall>a n. f (snd (nt_gethostbyname net a n)) = f n)
     \<and> (\<forall>h a p n. f (snd (nt_connect net h a p n)) = f n) \<and> (\<forall>h n. f (nt_close net h n) = f n)"

definition socket_keeps :: "'k tcp_socket \<Rightarrow> ('k \<Rightarrow> 'a) \<Rightarrow> bool" where
  "socket_keeps tk f \<longleftrightarrow>
     (\<forall>j k. f (snd (read_socket tk j k)) = f k) \<and> (\<forall>bs k. f (snd (write_socket tk bs k)) = f k)"

lemma serial_open_quiet: "serial_quiet os f \<Longrightarrow> f (snd (serial_open os path s)) = f s"
  unfolding serial_quiet_def serial_open_def
  by (clarsimp simp: split_beta Let_def split: option.split prod.split)

lemma serial_close_quiet: "serial_quiet os f \<Longrightarrow> f (snd (serial_close os h s)) = f s"
  by (simp add: serial_quiet_def serial_close_def)

lemma open_socket_quiet: "network_quiet net f \<Longrightarrow> f (snd (open_socket net addr port n)) = f n"
  unfolding network_quiet_def open_socket_def
  by (clarsimp simp: split_beta Let_def split: option.split prod.split)

section \<open>The outcomes of connecting\<close>

lemma open_socket_cases:
  assumes "network_contract net fds" "open_socket net addr port n = (fd, n')" "fds n \<subseteq> {0..}"
  obtains (failed) "fd = INVALID_SOCKET" "fst (nt_socket net n) < 0" "fds n' = fds n"
    | (leaked) g where "fd = INVALID_SOCKET" "g = fst (nt_socket net n)" "0 \<le> g" "g \<notin> fds n" "fds n' = insert g (fds n)"
    | (connected) "fd = fst (nt_socket net n)" "0 \<le> fd" "fd \<notin> fds n" "fds n' = insert fd (fds n)"
proof -
  note c = assms(1) [unfolded network_contract_def]
  obtain g n1 where o1: "nt_socket net n = (g, n1)" by (cases "nt_socket net n")
  have f1: "if g < 0 then fds n1 = fds n else g \<notin> fds n \<and> fds n1 = insert g (fds n)"
    using c [THEN conjunct1, THEN spec [of _ n]] by (simp only: o1 Let_def prod.case)
  obtain r n2 where o2: "nt_gethostbyname net addr n1 = (r, n2)" by (cases "nt_gethostbyname net addr n1")
  have f2: "fds n2 = fds n1"
    using c [THEN conjunct2, THEN conjunct1, THEN spec [of _ addr], THEN spec [of _ n1]] o2 by simp
  show ?thesis
  proof (cases "g < 0")
    case True
    then show ?thesis using failed f1 assms(2) o1 by (simp add: open_socket_def)
  next
    case False
    show ?thesis
    proof (cases r)
      case None
      then show ?thesis using False f1 f2 assms(2) o1 o2 leaked by (simp add: open_socket_def)
    next
      case (Some a)
      obtain res n3 where o3: "nt_connect net g a (of_nat port) n2 = (res, n3)"
        by (cases "nt_connect net g a (of_nat port) n2")
      have "fds n3 = fds n2" using c o3 by (metis snd_conv)
      then show ?thesis
        using False f1 f2 assms(2) o1 o2 o3 leaked connected Some by (cases "res < 0") (simp_all add: open_socket_def)
    qed
  qed
qed

section \<open>What relaying keeps\<close>

lemma bridge_round_keeps:
  assumes "port_keeps sp f" "socket_keeps tk g" "bridge_round sp tk kb b = Inl b' \<or> bridge_round sp tk kb b = Inr b'"
  shows "f (ss_port (br_serial_stream b')) = f (ss_port (br_serial_stream b)) \<and> g (br_remote_socket b') = g (br_remote_socket b)"
proof -
  have k: "g (snd (read_socket tk j k)) = g k" "g (snd (write_socket tk bs k)) = g k" for j k bs
    using assms(2) by (simp_all add: socket_keeps_def)
  note p = ss_ops_keep(1,3) [OF assms(1)] ss_ops_keep(2)
  show ?thesis
    using assms(3) by (auto simp: bridge_round_def split_beta Let_def p k split: if_splits option.splits prod.splits)
qed

lemma bridge_loop_keeps:
  "port_keeps sp f \<Longrightarrow> socket_keeps tk g \<Longrightarrow> bridge_loop sp tk kbs b = Inl b' \<or> bridge_loop sp tk kbs b = Inr b' \<Longrightarrow>
     f (ss_port (br_serial_stream b')) = f (ss_port (br_serial_stream b)) \<and> g (br_remote_socket b') = g (br_remote_socket b)"
proof (induction kbs arbitrary: b)
  case (Cons kb kbs)
  show ?case
  proof (cases "br_app_exiting b")
    case False
    consider b1 where "bridge_round sp tk kb b = Inl b1" | b1 where "bridge_round sp tk kb b = Inr b1"
      by (cases "bridge_round sp tk kb b")
    then show ?thesis
      using Cons.prems(3) Cons.IH [OF Cons.prems(1,2)] bridge_round_keeps [OF Cons.prems(1,2), of kb b] False
      by cases auto
  qed (use Cons.prems(3) in auto)
qed auto

lemma connected_socket_keeps: "network_contract net fds \<Longrightarrow> socket_keeps (connected_socket net fd) fds"
  by (simp add: network_contract_def socket_keeps_def connected_socket_def)

text \<open>Everything that is assumed of the two systems. Before the relay starts nothing is read or written.\<close>

definition bridge_systems ::
    "'o serial_os \<Rightarrow> (int \<Rightarrow> 'o serial_port) \<Rightarrow> 'n network \<Rightarrow> ('o \<Rightarrow> int set) \<Rightarrow> ('o \<Rightarrow> int \<Rightarrow> termios option) \<Rightarrow> ('n \<Rightarrow> int set)
       \<Rightarrow> ('o \<Rightarrow> byte list) \<Rightarrow> ('o \<Rightarrow> byte list) \<Rightarrow> ('o \<Rightarrow> byte list) \<Rightarrow> ('n \<Rightarrow> byte list) \<Rightarrow> ('n \<Rightarrow> byte list) \<Rightarrow> ('n \<Rightarrow> byte list) \<Rightarrow> bool" where
  "bridge_systems os port net sfds requested nfds got put passed recv sent offered \<longleftrightarrow>
     serial_os_contract os sfds requested \<and> network_contract net nfds
     \<and> (\<forall>f \<in> {got, put, passed}. serial_quiet os f) \<and> (\<forall>g \<in> {recv, sent, offered}. network_quiet net g)
     \<and> (\<forall>h. port_history (port h) got put passed \<and> port_keeps (port h) sfds)
     \<and> (\<forall>fd. socket_history (connected_socket net fd) recv sent offered)"

definition histories_start :: "('o \<Rightarrow> byte list) \<Rightarrow> ('o \<Rightarrow> byte list) \<Rightarrow> ('o \<Rightarrow> byte list) \<Rightarrow> ('n \<Rightarrow> byte list) \<Rightarrow> ('n \<Rightarrow> byte list)
    \<Rightarrow> ('n \<Rightarrow> byte list) \<Rightarrow> 'o \<Rightarrow> 'n \<Rightarrow> bool" where
  "histories_start got put passed recv sent offered s n \<longleftrightarrow>
     sent n = got s \<and> put s = recv n \<and> offered n = got s \<and> passed s = recv n"

text \<open>The part of \<^verbatim>\<open>main\<close> behind the two openings.\<close>

definition relay_and_close ::
    "'o serial_os \<Rightarrow> (int \<Rightarrow> 'o serial_port) \<Rightarrow> 'n network \<Rightarrow> int option list \<Rightarrow> int \<Rightarrow> int \<Rightarrow> ('o, 'n) bridge
       \<Rightarrow> (int \<times> 'o \<times> 'n) option" where
  "relay_and_close os port net kbs fd h b =
     (case bridge_loop (port h) (connected_socket net fd) kbs b of
        Inl b \<Rightarrow> Some (1, snd (serial_close os h (ss_port (br_serial_stream b))), close_socket net fd (br_remote_socket b))
      | Inr b \<Rightarrow> if br_app_exiting b then Some (0, snd (serial_close os h (ss_port (br_serial_stream b))),
                   close_socket net fd (br_remote_socket b)) else None)"

text \<open>How the relay from \<open>b\<close> comes to its end: by the escape key, after rounds without a failure, or in a round without a key by a
  failing call on the socket.\<close>

definition escape_pressed :: "'p serial_port \<Rightarrow> 'k tcp_socket \<Rightarrow> int option list \<Rightarrow> ('p, 'k) bridge \<Rightarrow> bool" where
  "escape_pressed sp tk kbs b \<longleftrightarrow>
     (\<exists>ks rest b1. kbs = ks @ Some 27 # rest \<and> Some 27 \<notin> set ks \<and> bridge_loop sp tk ks b = Inr b1)"

definition connection_failed :: "'p serial_port \<Rightarrow> 'k tcp_socket \<Rightarrow> int option list \<Rightarrow> ('p, 'k) bridge \<Rightarrow> bool" where
  "connection_failed sp tk kbs b \<longleftrightarrow>
     (\<exists>ks kb rest b1. kbs = ks @ kb # rest \<and> Some 27 \<notin> set ks \<and> bridge_loop sp tk ks b = Inr b1
        \<and> get_kb_hit kb = NO_KB_HIT \<and> socket_fails sp tk b1)"

lemma loop_escaped:
  assumes "bridge_loop sp tk kbs b = Inr b'" "\<not> br_app_exiting b" "Some 27 \<in> set kbs"
  shows "escape_pressed sp tk kbs b"
proof -
  obtain ks rest where k: "kbs = ks @ Some 27 # rest" "Some 27 \<notin> set ks"
    using split_list_first [OF assms(3)] by blast
  have "\<exists>b1. bridge_loop sp tk ks b = Inr b1"
    using assms(1) unfolding k(1) bridge_loop_append by (auto split: sum.splits)
  then show ?thesis using k unfolding escape_pressed_def by blast
qed

lemma relay_and_close_outcome:
  fixes fd :: int
  assumes sys: "bridge_systems os port net sfds requested nfds got put passed recv sent offered" and new: "allocates new"
    and h: "handle_is_valid h" and start: "histories_start got put passed recv sent offered s1 n1"
  defines "b \<equiv> bridge_start new s1 n1" and "sp \<equiv> port h" and "tk \<equiv> connected_socket net fd"
  shows "case relay_and_close os port net kbs fd h b of
      None \<Rightarrow> Some 27 \<notin> set kbs
    | Some (r, s', n') \<Rightarrow> sfds s' = sfds s1 - {h} \<and> nfds n' = nfds n1 - {fd}
        \<and> offered n' = got s' \<and> passed s' = recv n' \<and> subseq (sent n') (got s') \<and> subseq (put s') (recv n')
        \<and> (port_whole sp put \<longrightarrow> put s' = recv n')
        \<and> (r = 0 \<and> escape_pressed sp tk kbs b \<and> (socket_whole tk \<longrightarrow> sent n' = got s') \<or> r = 1 \<and> connection_failed sp tk kbs b)"
proof -
  have c: "serial_os_contract os sfds requested" "network_contract net nfds" "\<And>h. port_history (port h) got put passed"
    "\<And>h. port_keeps (port h) sfds" "\<And>fd. socket_history (connected_socket net fd) recv sent offered"
    using sys by (simp_all add: bridge_systems_def)
  have q: "serial_quiet os got" "serial_quiet os put" "serial_quiet os passed"
    "network_quiet net recv" "network_quiet net sent" "network_quiet net offered"
    using sys by (simp_all add: bridge_systems_def)
  have closed: "got (snd (serial_close os h p)) = got p" "put (snd (serial_close os h p)) = put p"
    "passed (snd (serial_close os h p)) = passed p" "recv (close_socket net fd k) = recv k" "sent (close_socket net fd k) = sent k"
    "offered (close_socket net fd k) = offered k" "sfds (snd (serial_close os h p)) = sfds p - {h}"
    "nfds (close_socket net fd k) = nfds k - {fd}" for p k
    using serial_close_quiet [OF q(1)] serial_close_quiet [OF q(2)] serial_close_quiet [OF q(3)] q(4-6)
      serial_close_fds [OF c(1) h] c(2) by (simp_all add: network_quiet_def network_contract_def close_socket_def)
  have go: "\<not> br_app_exiting b" by (simp add: b_def bridge_start_def)
  have start': "relayed sp tk False got put passed recv sent offered b"
    unfolding b_def by (rule relayed_start [OF new]) (use start in \<open>simp_all add: histories_start_def\<close>)
  have kept: "sfds (ss_port (br_serial_stream b')) = sfds s1" "nfds (br_remote_socket b') = nfds n1"
    if "bridge_loop sp tk kbs b = Inl b' \<or> bridge_loop sp tk kbs b = Inr b'" for b'
    using bridge_loop_keeps [OF c(4) connected_socket_keeps [OF c(2)], of h fd kbs b b'] that
    by (simp_all add: sp_def tk_def b_def bridge_start_def ss_new_def)
  show ?thesis
  proof (cases "bridge_loop sp tk kbs b")
    case (Inl b')
    have "connection_failed sp tk kbs b" using bridge_loop_fails [OF Inl go] unfolding connection_failed_def .
    then show ?thesis
      using bridge_loop_relays [OF c(3) c(5) start' [unfolded sp_def tk_def], of kbs] Inl kept [of b']
      by (simp add: relay_and_close_def closed relayed_def Let_def flip: sp_def tk_def)
  next
    case (Inr b')
    have e: "br_app_exiting b' \<longleftrightarrow> Some 27 \<in> set kbs" by (rule bridge_loop_runs [OF Inr go])
    then show ?thesis
      using bridge_loop_relays [OF c(3) c(5) start' [unfolded sp_def tk_def], of kbs] Inr kept [of b'] loop_escaped [OF Inr go]
      by (auto simp: relay_and_close_def closed relayed_def Let_def simp flip: sp_def tk_def)
  qed
qed

text \<open>The descriptors of openings that fail.\<close>

lemma open_failures:
  assumes "bridge_systems os port net sfds requested nfds got put passed recv sent offered" "nfds n \<subseteq> {0..}"
  shows "open_socket net addr p n = (fd, n1) \<Longrightarrow> fd = INVALID_SOCKET \<Longrightarrow> nfds (close_socket net fd n1)
      = (if fst (nt_socket net n) < 0 then nfds n else insert (fst (nt_socket net n)) (nfds n))
      \<and> (0 \<le> fst (nt_socket net n) \<longrightarrow> fst (nt_socket net n) \<notin> nfds n)"
    and "open_socket net addr p n = (fd, n1) \<Longrightarrow> fd \<noteq> INVALID_SOCKET \<Longrightarrow> fd \<notin> nfds n \<and> nfds n1 = insert fd (nfds n)"
    and "serial_open os path s = (h, s1) \<Longrightarrow> \<not> handle_is_valid h \<Longrightarrow> sfds (snd (serial_close os h s1))
      = (if fst (os_open os path s) < 0 then sfds s else insert (fst (os_open os path s)) (sfds s))
      \<and> (0 \<le> fst (os_open os path s) \<longrightarrow> fst (os_open os path s) \<notin> sfds s)"
    and "serial_open os path s = (h, s1) \<Longrightarrow> handle_is_valid h \<Longrightarrow> h \<notin> sfds s \<and> sfds s1 = insert h (sfds s)"
proof -
  have c: "serial_os_contract os sfds requested" "network_contract net nfds"
    using assms(1) by (simp_all add: bridge_systems_def)
  have close: "nfds (close_socket net fd n) = nfds n - {fd}" for n
    using c(2) by (simp add: network_contract_def close_socket_def)
  show "nfds (close_socket net fd n1) = (if fst (nt_socket net n) < 0 then nfds n else insert (fst (nt_socket net n)) (nfds n))
      \<and> (0 \<le> fst (nt_socket net n) \<longrightarrow> fst (nt_socket net n) \<notin> nfds n)"
    if "open_socket net addr p n = (fd, n1)" "fd = INVALID_SOCKET"
    by (cases rule: open_socket_cases [OF c(2) that(1) assms(2)]) (use that(2) assms(2) close in auto)
  show "fd \<notin> nfds n \<and> nfds n1 = insert fd (nfds n)" if "open_socket net addr p n = (fd, n1)" "fd \<noteq> INVALID_SOCKET"
    by (cases rule: open_socket_cases [OF c(2) that(1) assms(2)]) (use that(2) in auto)
  show "sfds (snd (serial_close os h s1)) = (if fst (os_open os path s) < 0 then sfds s else insert (fst (os_open os path s)) (sfds s))
      \<and> (0 \<le> fst (os_open os path s) \<longrightarrow> fst (os_open os path s) \<notin> sfds s)"
    if "serial_open os path s = (h, s1)" "\<not> handle_is_valid h"
    by (cases rule: serial_open_cases [OF c(1) that(1)]) (use that(2) in \<open>auto simp: serial_close_def handle_is_valid_def\<close>)
  show "h \<notin> sfds s \<and> sfds s1 = insert h (sfds s)" if "serial_open os path s = (h, s1)" "handle_is_valid h"
    by (cases rule: serial_open_cases [OF c(1) that(1)]) (use that(2) in \<open>auto simp: handle_is_valid_def\<close>)
qed

text \<open>A run that gets to the relay.\<close>

lemma bridge_main_relays:
  assumes sys: "bridge_systems os port net sfds requested nfds got put passed recv sent offered"
    and start: "histories_start got put passed recv sent offered s n"
    and n1: "open_socket net (argv ! 2) 8888 n = (fd, n1)" and s1: "serial_open os (argv ! 1) s = (h, s1)"
    and ok: "length argv = 3" "fd \<noteq> INVALID_SOCKET" "handle_is_valid h"
  shows "bridge_main new os port net argv kbs s n = relay_and_close os port net kbs fd h (bridge_start new s1 n1)"
    and "histories_start got put passed recv sent offered s1 n1"
proof -
  have "ss_is_valid (ss_new new v p) = v" for v and p :: 'a
    by (simp add: ss_new_def ss_is_valid_def)
  then show "bridge_main new os port net argv kbs s n = relay_and_close os port net kbs fd h (bridge_start new s1 n1)"
    using ok by (simp add: bridge_main_def relay_and_close_def bridge_start_def n1 s1 [unfolded One_nat_def])
  have s: "f s1 = f s" if "f \<in> {got, put, passed}" for f
    using serial_open_quiet [of os f "argv ! 1" s] sys that s1 by (auto simp: bridge_systems_def)
  have n: "g n1 = g n" if "g \<in> {recv, sent, offered}" for g
    using open_socket_quiet [of net g "argv ! 2" 8888 n] sys that n1 by (auto simp: bridge_systems_def)
  show "histories_start got put passed recv sent offered s1 n1"
    using start s [of got] s [of put] s [of passed] n [of recv] n [of sent] n [of offered] by (simp add: histories_start_def)
qed


text \<open>A laboratory: one port and one server, each a device that delivers given chunks. The port takes at most two bytes in a write.\<close>

definition lab_os :: "(int set \<times> (int \<Rightarrow> termios option) \<times> device) serial_os" where
  "lab_os =
     \<lparr>os_open = \<lambda>path (fds, req, d). if 3 \<notin> fds then (3, insert 3 fds, req, d) else (-1, fds, req, d),
      os_tcgetattr = \<lambda>h s. (Some \<lparr>c_iflag = 0x500, c_oflag = 5, c_cflag = 0xBF, c_lflag = 0x8A3B,
         c_cc_VTIME = 0, c_cc_VMIN = 1, c_ispeed = 0xF, c_ospeed = 0xF\<rparr>, s),
      os_tcsetattr = \<lambda>h tty (fds, req, d). (0, fds, req(h \<mapsto> tty), d),
      os_close = \<lambda>h (fds, req, d). (fds - {h}, req, d)\<rparr>"

definition lab_port :: "int \<Rightarrow> (int set \<times> (int \<Rightarrow> termios option) \<times> device) serial_port" where
  "lab_port h =
     \<lparr>sp_read = \<lambda>k (fds, req, d). (fst (device_read k d), fds, req, snd (device_read k d)),
      sp_write = \<lambda>bs (fds, req, cs, i, out, ps). (fds, req, cs, i, out @ take 2 bs, ps @ bs)\<rparr>"

definition lab_net :: "(int set \<times> device) network" where
  "lab_net =
     \<lparr>nt_socket = \<lambda>(fds, d). if 4 \<notin> fds then (4, insert 4 fds, d) else (-1, fds, d),
      nt_gethostbyname = \<lambda>a n. (Some [127, 0, 0, 1], n),
      nt_connect = \<lambda>h a p n. (0, n),
      nt_read = \<lambda>h k (fds, d). (fst (device_read k d), fds, snd (device_read k d)),
      nt_write = \<lambda>h bs (fds, cs, i, out, ps). (int (length bs), fds, cs, i, out @ bs, ps @ bs),
      nt_close = \<lambda>h (fds, d). (fds - {h}, d)\<rparr>"

lemma lab_systems:
  "bridge_systems lab_os lab_port lab_net fst (\<lambda>s. fst (snd s)) fst
     (\<lambda>s. fst (snd (snd (snd s)))) (\<lambda>s. fst (snd (snd (snd (snd s))))) (\<lambda>s. snd (snd (snd (snd (snd s)))))
     (\<lambda>n. fst (snd (snd n))) (\<lambda>n. fst (snd (snd (snd n)))) (\<lambda>n. snd (snd (snd (snd n))))"
proof -
  have "port_history (lab_port h) (\<lambda>s. fst (snd (snd (snd s)))) (\<lambda>s. fst (snd (snd (snd (snd s))))) (\<lambda>s. snd (snd (snd (snd (snd s)))))" for h
    unfolding port_history_def lab_port_def
  proof (intro conjI allI, goal_cases)
    case (1 n p)
    obtain fds req d where p: "p = (fds, req, d)" by (cases p)
    show ?case using device_read_spec [of n d] by (auto simp: p)
  qed (auto split: prod.split)
  moreover have "socket_history (connected_socket lab_net fd) (\<lambda>n. fst (snd (snd n))) (\<lambda>n. fst (snd (snd (snd n)))) (\<lambda>n. snd (snd (snd (snd n))))" for fd
    unfolding socket_history_def lab_net_def connected_socket_def
  proof (intro conjI allI, goal_cases)
    case (1 n p)
    obtain fds d where p: "p = (fds, d)" by (cases p)
    show ?case using device_read_spec [of n d] by (auto simp: p)
  qed (auto split: prod.split)
  moreover have "port_keeps (lab_port h) fst" for h
    by (auto simp: port_keeps_def lab_port_def split: prod.split)
  ultimately show ?thesis
    by (auto simp: bridge_systems_def serial_os_contract_def network_contract_def serial_quiet_def network_quiet_def
        lab_os_def lab_net_def split_beta)
qed


end
