(* ===== verification/Spec2Isabelle.thy ===== *)
theory Spec2Isabelle
  imports Transport_Test Protocol_Queue Hon_Test_Log Smartair2_Session Hon_Simulator Smartair2_Simulator Bridge_Main
    Transport_Properties
begin

text \<open>
  A verification of HaierProtocol, a C++ library for the serial protocol of Haier appliances, and
  of the appliance simulators and the serial bridge that come with it. Paths are relative to the
  root of the repository.

  \<^bold>\<open>The program.\<close> Bytes come and go through a stream
  (\<^verbatim>\<open>include/utils/protocol_stream.h\<close>). The transport layer
  (\<^verbatim>\<open>src/transport\<close>) reads them into a ring buffer
  (\<^verbatim>\<open>include/utils/circular_buffer.h\<close>), finds frames, removes byte stuffing, checks
  checksum and CRC, and queues complete frames; it lays frames out for sending. The protocol
  handler (\<^verbatim>\<open>src/protocol\<close>) is driven by repeated calls of
  \<^verbatim>\<open>loop\<close>: it calls message handlers for incoming frames, sends queued requests with
  retries and pauses, and waits for their answers. The simulators (\<^verbatim>\<open>tools\<close>)
  register the handlers of an hOn or SmartAir2 appliance with it and run it in a thread. The
  bridge relays bytes between a serial port and a socket. The tests connect a client and a server
  through a pair of ring buffers.

  \<^bold>\<open>Theories, in the order of the layers.\<close>
  \<^item> \<open>HP_Prelude\<close>: machine types, allocator, ring and segment views, the interface \<open>digest\<close>.
  \<^item> \<open>Fifo_Interface\<close>, \<open>Circular_Buffer\<close>: the interface of a bounded queue with its history
    theorem, and the class \<^verbatim>\<open>CircularBuffer\<close>, whose record has the five members of
    the class. \<open>cb_list\<close> is the stored sequence, \<open>cb_wf\<close> the invariant.
  \<^item> \<open>Frame_Digest\<close>, \<open>Haier_Frame\<close>, \<open>Frame_Wire\<close>, \<open>Frame_Parse\<close>
    (\<^verbatim>\<open>haier_frame.cpp\<close>): CRC and checksum against their reference definitions; the
    frame, \<open>fill_buffer\<close> and \<open>parse_buffer\<close> against the byte layout \<open>wire\<close>.
  \<^item> \<open>Protocol_Stream\<close>, \<open>Serial_Stream\<close>, \<open>Serial_Port\<close>: the stream interface, as \<open>byte_stream\<close> and, when nothing
    arrives while the stream is asked, \<open>protocol_stream\<close>; its three implementations, the virtual
    stream and the test stream of \<^verbatim>\<open>test\<close> and the serial stream of
    \<^verbatim>\<open>tools/utils\<close>; opening, configuring and closing its port.
  \<^item> \<open>Transport\<close>, \<open>Decoder\<close>, \<open>Transport_Refinement\<close>, \<open>Transport_Stream\<close>,
    \<open>Transport_Properties\<close> (\<^verbatim>\<open>protocol_transport.cpp\<close>): the handler as written; what it
    promises, as a decoder that eats one byte at a time; the simulation of the decoder by
    \<open>process_data\<close>; reading and sending; the properties of the layer.
  \<^item> \<open>Decoder_Errors\<close>, \<open>Transport_Log\<close>, \<open>Transport_Test\<close>
    (\<^verbatim>\<open>test/simple_transport_test/test.cpp\<close>): the errors the decoder meets, the warnings and errors the handler
    logs and that they are these; the test program of the layer.
  \<^item> \<open>Frame_Types\<close>, \<open>Haier_Message\<close>, \<open>Haier_Protocol\<close> (\<^verbatim>\<open>haier_frame_types.h\<close>, \<^verbatim>\<open>haier_message.cpp\<close>,
    \<^verbatim>\<open>haier_protocol.cpp\<close>): messages and the protocol handler. \<open>Protocol_Invariant\<close>,
    \<open>Protocol_Properties\<close>, \<open>Protocol_Queue\<close> and \<open>Protocol_Exchange\<close> hold its invariant and totality, the
    life of a request, of a queue of requests, and a request with its answer between two handlers; \<open>Protocol_Log\<close>
    what the operations log, in the control flow of the operations.
  \<^item> \<open>Haier_Log\<close>, \<open>Console_Log\<close> (\<^verbatim>\<open>haier_log.cpp\<close>, \<^verbatim>\<open>haier_log.h\<close>,
    \<^verbatim>\<open>console_log.cpp\<close>): hexadecimal dumps and the message buffer; the log macros, the
    console logger with its counters, the frame of a test.
  \<^item> \<open>Bit_Fields\<close>, \<open>Hon_Packet\<close>, \<open>Hon_Server\<close>, \<open>Handler_Contract\<close>, \<open>Hon_Server_Properties\<close>
    (\<^verbatim>\<open>hon_packet.h\<close>, \<^verbatim>\<open>hon_server.cpp\<close>): structures with bit-fields as
    bytes with the interface \<open>field_family\<close>; the status, handlers and alarms of the hOn appliance;
    the interface \<open>answering_handler\<close> of message handlers, which the server provides.
  \<^item> \<open>Protocol_Session\<close>, \<open>Hon_Session\<close>: sequences of requests
    between a client and a server, shown to be the same as calling the handlers directly inside the
    interface \<open>answering_handler\<close>; the requests of the hOn test as such a session.
  \<^item> \<open>Session_Log\<close>, \<open>Session_Repeats\<close>, \<open>Hon_Test_Log\<close>, \<open>Smartair2_Session\<close>
    (\<^verbatim>\<open>test/hon_test/main.cpp\<close>, \<^verbatim>\<open>test/smartair2_test/main.cpp\<close>): scripts of requests, loops and looks
    at a state with all the lines they log; the script of a request nobody answers and of one the server does not know; the two test
    programs.
  \<^item> \<open>Simulator_Base\<close>, \<open>Hon_Simulator\<close> (\<^verbatim>\<open>simulator_base.cpp\<close>,
    \<^verbatim>\<open>hon_simulator/main.cpp\<close>): the start and the two threads of a simulator as a step relation, the
    interface \<open>simulation\<close> of an application, and the hOn simulator as one, up to the return of \<^verbatim>\<open>simulator_main\<close>.
  \<^item> \<open>Smartair2_Server\<close>, \<open>Smartair2_Simulator\<close>: the same for the SmartAir2 appliance.
  \<^item> \<open>Serial_Bridge\<close>, \<open>Bridge_Main\<close> (\<^verbatim>\<open>remote_serial_bridge/main.cpp\<close>): the relay, and the
    program around it with the sockets of both platforms.

  \<^bold>\<open>State and effects.\<close> A class is a record of its members, a member function a function that
  returns the new state. \<^verbatim>\<open>uint8_t\<close> and \<^verbatim>\<open>uint16_t\<close> values are words and
  wrap; \<^verbatim>\<open>size_t\<close> values are natural numbers, with proofs that no subtraction goes
  below zero, or, where one can (\<open>Haier_Log\<close>), with the wrap-around written out. Times are
  milliseconds. \<open>None\<close> is undefined behaviour or a loop that does not end. One undefined write is reached by ordinary use: the loop
  writes to a queue element it has just popped when it has transmitted a message that expects no answer. The platform says whether the
  memory of popped elements is kept (\<open>pf_popped_kept\<close>); where it is not, \<open>idle_send\<close> is \<open>None\<close> there, and every theorem that gets to such a
  message says what holds in either case or assumes that there is none. The parameter \<open>k\<close> of the invariants in \<open>Protocol_Invariant\<close>
  says whether there can be such messages. What comes from
  outside is an argument: the allocator (\<open>allocates\<close> is all that is known of new memory), the
  record \<open>platform\<close> with the stream, the clock readings and the meaning of the registered
  handlers, system calls on ports and sockets, whose writes may be short or fail, random numbers. A handler sees its own application
  state and the frame, and returns the calls it makes to the protocol handler, which are executed
  in order; \<open>process_alarms\<close>, which also reads the protocol handler, is a function of the whole
  \<open>world\<close>. Bit-fields lie from the least significant bit up within their byte, as the compilers
  the program is built with place them.

  \<^bold>\<open>What is shown.\<close> Byte level: the ring buffer implements a queue over any history; CRC and
  checksum; layout and parser are inverse; which corruptions are found and which are not. Stream
  level: the transport handler implements the decoder, independently of how bytes are cut into
  reads, delivers frames in order, delivers only frames that were received, and swallows none.
  Message level: the loop returns and keeps its invariant, unless it makes the undefined write above; an unanswered request is
  sent the stated number of times and then reported; a request and its answer reach exactly the
  registered handlers; a queue drains in order when the peer is silent, and does not when the peer
  keeps asking; a session is a sequence of direct handler calls; transmissions keep the cooldown and the retry interval. Application level: every request to a
  server is answered by one frame and refusals change nothing; what a control command writes is
  what a status request reads; alarms form a set and are reported at the stated intervals; a
  simulator never gets stuck, ends when it is told to and leaves no descriptor open; the bridge passes every byte on once and in order,
  of which short writes may lose some, how it ends and what is left open when it fails is stated; the lines and counters of the console are what was logged; the
  three test programs pass, with the warnings each test expects (the last test of the hOn program makes the undefined write). Properties that show a defect of the code
  say so.

  \<^bold>\<open>Bounds and fuel.\<close> No definition takes fuel: the loop of \<open>process_data\<close> is a
  \<open>while_option\<close>, shown to end; the other loops recurse on data. Frames carry at most 233 bytes
  and, for exact sending, have a layout of at most 256 bytes, the range of the 8-bit write cursor;
  beyond it the cursor wraps and the start of the frame is overwritten. The virtual stream holds 4096 bytes and
  a serial stream 2048, as in the code.

  \<^bold>\<open>Not modelled.\<close> The log lines at the levels INFO to VERBOSE inside the library and the hOn
  server, and all those of the simulators and the bridge (they change no state; the loggers themselves are in \<open>Haier_Log\<close> and \<open>Console_Log\<close>,
  with the text \<^verbatim>\<open>vsnprintf\<close> produces as an argument); the curses and DebugView branches
  of the console logger; data races between the two threads of a simulator, whose calls are taken as atomic and interleaved
  in any order; freeing memory; build files.
\<close>

end
